(* ===== verification/Prelude.thy ===== *)
theory Prelude
  imports Main "HOL-Library.Word" "HOL-Library.AList" "HOL-Library.Monad_Syntax"
begin

text \<open>
  Shared vocabulary of the development: the machine types of the Go sources, the error values
  that the storage layer produces and inspects, the convention for operations that may not
  return, and the generic lemmas on association lists, options and 64-bit words that the
  component theories use.

  Conventions.
  \<^item> A Go function with results and a trailing \<open>error\<close> returns a sum \<open>go_error + 'a\<close>
    (\<open>Inl\<close> is the error); one that returns only an \<open>error\<close> returns \<open>go_error option\<close>
    (\<open>None\<close> is Go's \<open>nil\<close>).
  \<^item> A method that mutates its receiver takes the state and returns the new one.
  \<^item> An operation that may block for ever or panic returns an \<open>option\<close>: \<open>None\<close> means
    that control never comes back to the caller, \<open>Some\<close> is a normal return.
\<close>

section \<open>Collections of facts\<close>

named_theorems go_defs
  \<open>definitions of handlers that are unfolded when a branch of the code is evaluated\<close>

named_theorems go_splits
  \<open>case splits of the result types\<close>

section \<open>Machine types\<close>

type_synonym uint64 = "64 word"

text \<open>Go's \<open>[]byte\<close> and \<open>string\<close> are both byte sequences.\<close>

type_synonym bytes = string

section \<open>Errors\<close>

text \<open>\<open>schema.GroupResource\<close>.\<close>

record GroupResource =
  gr_Group :: string
  gr_Resource :: string

text \<open>
  \<open>field.Error\<close>: only the type of the error and the path of the field are kept, since the
  code never looks inside the message.
\<close>

datatype field_error =
    FieldRequired string
  | FieldInvalid string
  | FieldForbidden string

text \<open>
  The error values. \<open>ErrNotExist\<close> stands for \<open>os.ErrNotExist\<close> and for every error of
  the operating system that \<open>os.IsNotExist\<close> recognises. \<open>NotFound\<close>,
  \<open>AlreadyExists\<close>, \<open>Conflict\<close>, \<open>Invalid\<close>, \<open>InternalError\<close> and
  \<open>BadRequest\<close> are the API status errors of \<open>k8s.io/apimachinery/pkg/api/errors\<close>.
  \<open>OtherError\<close> is any further error value, with its message.
\<close>

datatype go_error =
    ErrNotExist
  | VersionError
  | ErrNamespaceNotExists
  | ErrNotObject
  | ErrNotCommon
  | NonPositiveVersion
  | NumError string
  | PathConflict string
  | WalkError string go_error
  | NotFound GroupResource string
  | AlreadyExists GroupResource string
  | Conflict GroupResource string
  | Invalid string "field_error list"
  | InternalError go_error
  | BadRequest string
  | OtherError string

text \<open>\<open>os.IsNotExist\<close>, \<open>errors.Is(err, VersionError)\<close> and
  \<open>apierrors.IsNotFound\<close>. No error of the model wraps another one with \<open>%w\<close>, so
  \<open>errors.Is\<close> is equality.\<close>

fun os_IsNotExist :: "go_error \<Rightarrow> bool" where
  "os_IsNotExist ErrNotExist = True"
| "os_IsNotExist _ = False"

fun is_VersionError :: "go_error \<Rightarrow> bool" where
  "is_VersionError VersionError = True"
| "is_VersionError _ = False"

fun apierrors_IsNotFound :: "go_error \<Rightarrow> bool" where
  "apierrors_IsNotFound (NotFound _ _) = True"
| "apierrors_IsNotFound _ = False"

lemma os_IsNotExist_iff [simp]: "os_IsNotExist e \<longleftrightarrow> e = ErrNotExist"
  by (cases e) auto

lemma is_VersionError_iff [simp]: "is_VersionError e \<longleftrightarrow> e = VersionError"
  by (cases e) auto

section \<open>Association lists as Go maps\<close>

text \<open>
  A Go map is an association list with distinct keys. \<open>m[k]\<close> is \<open>map_of m k\<close>, an
  assignment is \<open>AList.update\<close>, \<open>delete(m, k)\<close> is \<open>AList.delete\<close>.
\<close>

lemmas alist_simps [simp] = update_conv' delete_conv'

lemma distinct_keys_update [intro]:
  "distinct (map fst m) \<Longrightarrow> distinct (map fst (AList.update k v m))"
  by (rule distinct_update)

lemma distinct_keys_delete [intro]:
  "distinct (map fst m) \<Longrightarrow> distinct (map fst (AList.delete k m))"
  by (simp add: distinct_delete)

lemma set_update_subset:
  "set (AList.update k v m) \<subseteq> insert (k, v) (set m)"
  by (induction m) auto

lemma set_delete_subset: "set (AList.delete k m) \<subseteq> set m"
  by (auto simp: AList.delete_eq)

lemma update_same_value [simp]:
  "distinct (map fst m) \<Longrightarrow> map_of m k = Some v \<Longrightarrow> AList.update k v m = m"
  by (induction m) auto

section \<open>64-bit words\<close>

lemma uint64_inc_pos:
  fixes r :: uint64
  assumes "r \<noteq> - 1"
  shows "r < r + 1" and "r + 1 \<noteq> 0" and "unat (r + 1) = unat r + 1"
proof -
  from assms show nz: "r + 1 \<noteq> 0" by (simp add: add_eq_0_iff2)
  then have "1 + r \<noteq> 0" by (simp add: add.commute)
  then show u: "unat (r + 1) = unat r + 1" by (simp add: unatSuc add.commute)
  then show "r < r + 1" by (simp add: word_less_nat_alt)
qed

end
