(* ===== verification/Go_Lib.thy ===== *)
theory Go_Lib
  imports Prelude
begin

text \<open>
  The parts of Go's standard library that the storage layer computes with:
  \<^item> \<open>strings.Split\<close>, \<open>strings.Join\<close>, \<open>strings.HasSuffix\<close>;
  \<^item> \<open>strconv.FormatUint\<close> and \<open>strconv.ParseUint\<close> in base 10 with 64 bits;
  \<^item> \<open>path/filepath\<close> on Unix: \<open>Clean\<close>, \<open>Join\<close>, \<open>Dir\<close>, \<open>Base\<close>.
  The path functions are lexical, as in Go: \<open>Clean\<close> splits at the separators, drops empty
  and \<open>.\<close> elements and resolves \<open>..\<close> against the element before it. The lemmas show
  that a cleaned path is determined by its list of elements, and what \<open>Dir\<close> and
  \<open>Base\<close> return on it.
\<close>

section \<open>Definitions\<close>

subsection \<open>strings\<close>

fun split_on :: "char \<Rightarrow> string \<Rightarrow> string list" where
  "split_on c [] = [[]]"
| "split_on c (x # xs) =
     (if x = c then [] # split_on c xs
      else (case split_on c xs of [] \<Rightarrow> [[x]] | y # ys \<Rightarrow> (x # y) # ys))"

fun join_with :: "string \<Rightarrow> string list \<Rightarrow> string" where
  "join_with sep [] = []"
| "join_with sep [x] = x"
| "join_with sep (x # y # ys) = x @ sep @ join_with sep (y # ys)"

definition HasSuffix :: "string \<Rightarrow> string \<Rightarrow> bool" where
  "HasSuffix s suf \<longleftrightarrow> length suf \<le> length s \<and> drop (length s - length suf) s = suf"

subsection \<open>strconv\<close>

definition digit_char :: "nat \<Rightarrow> char" where
  "digit_char d = char_of (48 + d)"

definition digit_val :: "char \<Rightarrow> nat option" where
  "digit_val c =
     (let n = (of_char c :: nat) in if 48 \<le> n \<and> n \<le> 57 then Some (n - 48) else None)"

fun dec_digits :: "nat \<Rightarrow> string" where
  "dec_digits n =
     (if n < 10 then [digit_char n] else dec_digits (n div 10) @ [digit_char (n mod 10)])"

declare dec_digits.simps [simp del]

fun parse_digits :: "nat \<Rightarrow> string \<Rightarrow> nat option" where
  "parse_digits acc [] = Some acc"
| "parse_digits acc (c # cs) =
     (case digit_val c of None \<Rightarrow> None | Some d \<Rightarrow> parse_digits (acc * 10 + d) cs)"

definition FormatUint :: "uint64 \<Rightarrow> string" where
  "FormatUint v = dec_digits (unat v)"

definition ParseUint :: "string \<Rightarrow> go_error + uint64" where
  "ParseUint s =
     (if s = [] then Inl (NumError s)
      else case parse_digits 0 s of
        None \<Rightarrow> Inl (NumError s)
      | Some n \<Rightarrow> if n < 2 ^ 64 then Inr (of_nat n) else Inl (NumError s))"

text \<open>\<open>strconv.ParseInt\<close> in base 10 with 64 bits: an optional sign, then the unsigned
  number, which must fit into a signed 64-bit integer.\<close>

definition ParseInt :: "string \<Rightarrow> go_error + int" where
  "ParseInt s =
     (let neg = (case s of [] \<Rightarrow> False | c # _ \<Rightarrow> c = CHR ''-'');
          signed = (case s of [] \<Rightarrow> False | c # _ \<Rightarrow> c = CHR ''-'' \<or> c = CHR ''+'')
      in case ParseUint (if signed then tl s else s) of
           Inl e \<Rightarrow> Inl (NumError s)
         | Inr un \<Rightarrow>
             (if \<not> neg \<and> 2 ^ 63 \<le> uint un then Inl (NumError s)
              else if neg \<and> 2 ^ 63 < uint un then Inl (NumError s)
              else Inr (if neg then - uint un else uint un)))"

subsection \<open>path/filepath\<close>

abbreviation slash :: char where
  "slash \<equiv> CHR ''/''"

definition rooted :: "string \<Rightarrow> bool" where
  "rooted p \<longleftrightarrow> (case p of [] \<Rightarrow> False | c # _ \<Rightarrow> c = slash)"

definition clean_step :: "bool \<Rightarrow> string list \<Rightarrow> string \<Rightarrow> string list" where
  "clean_step r out c =
     (if c = [] \<or> c = ''.'' then out
      else if c = ''..'' then
        (if out \<noteq> [] \<and> last out \<noteq> ''..'' then butlast out
         else if r then out else out @ [''..''])
      else out @ [c])"

definition path_elems :: "string \<Rightarrow> string list" where
  "path_elems p = foldl (clean_step (rooted p)) [] (split_on slash p)"

definition render :: "bool \<Rightarrow> string list \<Rightarrow> string" where
  "render r cs =
     (if cs = [] then (if r then ''/'' else ''.'')
      else (if r then ''/'' else '''') @ join_with ''/'' cs)"

definition Clean :: "string \<Rightarrow> string" where
  "Clean p = render (rooted p) (path_elems p)"

definition Join :: "string list \<Rightarrow> string" where
  "Join elems =
     (case dropWhile (\<lambda>e. e = []) elems of
        [] \<Rightarrow> []
      | es \<Rightarrow> Clean (join_with ''/'' es))"

definition path_Dir :: "string \<Rightarrow> string" where
  "path_Dir p = Clean (rev (dropWhile (\<lambda>c. c \<noteq> slash) (rev p)))"

definition path_Base :: "string \<Rightarrow> string" where
  "path_Base p =
     (if p = [] then ''.''
      else
        let q = rev (dropWhile (\<lambda>c. c = slash) (rev p));
            b = rev (takeWhile (\<lambda>c. c \<noteq> slash) (rev q))
        in if b = [] then ''/'' else b)"

text \<open>
  An ordinary path element: not empty, not \<open>.\<close> or \<open>..\<close>, without a separator. The
  normal form of a path is a list of ordinary elements, after leading \<open>..\<close> elements when
  the path is relative.
\<close>

definition plain_seg :: "string \<Rightarrow> bool" where
  "plain_seg c \<longleftrightarrow> c \<noteq> [] \<and> c \<noteq> ''.'' \<and> c \<noteq> ''..'' \<and> slash \<notin> set c"

definition normal :: "bool \<Rightarrow> string list \<Rightarrow> bool" where
  "normal r cs \<longleftrightarrow>
     (\<exists>k ds. cs = replicate k ''..'' @ ds \<and> list_all plain_seg ds \<and> (r \<longrightarrow> k = 0))"

text \<open>A cleaned path whose last element is an ordinary name.\<close>

definition good_path :: "string \<Rightarrow> bool" where
  "good_path p \<longleftrightarrow> Clean p = p \<and> path_elems p \<noteq> [] \<and> plain_seg (last (path_elems p))"

section \<open>Lemmas on strings\<close>

lemma split_on_nonempty [simp]: "split_on c s \<noteq> []"
  by (induction s) (auto split: list.splits)

lemma split_on_append:
  "split_on c (a @ c # b) = split_on c a @ split_on c b"
  by (induction a) (auto split: list.splits)

lemma split_on_no_sep: "c \<notin> set s \<Longrightarrow> split_on c s = [s]"
  by (induction s) auto

lemma split_on_parts: "p \<in> set (split_on c s) \<Longrightarrow> c \<notin> set p"
  by (induction s arbitrary: p) (auto split: list.splits if_splits)

lemma join_with_Cons:
  "xs \<noteq> [] \<Longrightarrow> join_with sep (x # xs) = x @ sep @ join_with sep xs"
  by (cases xs) auto

lemma split_join:
  "xs \<noteq> [] \<Longrightarrow> \<forall>x \<in> set xs. c \<notin> set x \<Longrightarrow> split_on c (join_with [c] xs) = xs"
proof (induction xs rule: induct_list012)
  case (3 x y zs)
  then show ?case by (simp add: split_on_append split_on_no_sep)
qed (auto simp: split_on_no_sep)

lemma join_snoc:
  "xs \<noteq> [] \<Longrightarrow> join_with sep (xs @ [y]) = join_with sep xs @ sep @ y"
  by (induction xs rule: induct_list012) auto

lemma HasSuffix_append [simp]: "HasSuffix (s @ suf) suf"
  by (simp add: HasSuffix_def)

lemma HasSuffix_iff: "HasSuffix s suf \<longleftrightarrow> (\<exists>t. s = t @ suf)"
  by (auto simp: HasSuffix_def) (metis append_take_drop_id)

section \<open>Lemmas on decimal numbers\<close>

lemma digit_val_char: "d < 10 \<Longrightarrow> digit_val (digit_char d) = Some d"
  by (simp add: digit_val_def digit_char_def Let_def)

lemma parse_digits_append:
  "parse_digits acc (s @ t) =
     (case parse_digits acc s of None \<Rightarrow> None | Some n \<Rightarrow> parse_digits n t)"
  by (induction s arbitrary: acc) (auto split: option.splits)

lemma parse_dec_digits: "parse_digits 0 (dec_digits n) = Some n"
proof (induction n rule: dec_digits.induct)
  case (1 n)
  show ?case
  proof (cases "n < 10")
    case True
    then show ?thesis by (simp add: dec_digits.simps [of n] digit_val_char)
  next
    case False
    with "1.IH" have "parse_digits 0 (dec_digits (n div 10)) = Some (n div 10)" by simp
    with False show ?thesis
      by (simp add: dec_digits.simps [of n] parse_digits_append digit_val_char)
  qed
qed

lemma dec_digits_nonempty [simp]: "dec_digits n \<noteq> []"
  by (subst dec_digits.simps) simp

lemma FormatUint_nonempty [simp]: "FormatUint v \<noteq> []"
  by (simp add: FormatUint_def)

lemma ParseUint_FormatUint [simp]: "ParseUint (FormatUint v) = Inr v"
  using unsigned_less [of v]
  by (simp add: ParseUint_def FormatUint_def parse_dec_digits)

text \<open>The comparison with the bound, on binary integers, for evaluation.\<close>

lemma ParseUint_code [code]:
  "ParseUint s =
     (if s = [] then Inl (NumError s)
      else case parse_digits 0 s of
        None \<Rightarrow> Inl (NumError s)
      | Some n \<Rightarrow> if int n < 2 ^ 64 then Inr (of_nat n) else Inl (NumError s))"
proof -
  have "int n < 2 ^ 64 \<longleftrightarrow> n < 2 ^ 64" for n
    by (metis of_nat_less_iff of_nat_numeral of_nat_power)
  then show ?thesis unfolding ParseUint_def by presburger
qed

lemma FormatUint_inject [simp]: "FormatUint v = FormatUint w \<longleftrightarrow> v = w"
  by (metis ParseUint_FormatUint sum.inject(2))

section \<open>Lemmas on paths\<close>

lemma plain_segD [dest]:
  assumes "plain_seg c"
  shows "c \<noteq> []" and "c \<noteq> ''.''" and "c \<noteq> ''..''" and "slash \<notin> set c"
  using assms by (auto simp: plain_seg_def)

lemma clean_step_plain [simp]: "plain_seg c \<Longrightarrow> clean_step r out c = out @ [c]"
  by (auto simp: clean_step_def plain_seg_def)

lemma clean_step_empty [simp]: "clean_step r out [] = out"
  by (simp add: clean_step_def)

lemma normal_Nil [simp]: "normal r []"
  by (auto simp: normal_def intro: exI [of _ 0])

lemma normalI:
  "cs = replicate k ''..'' @ ds \<Longrightarrow> list_all plain_seg ds \<Longrightarrow> (r \<Longrightarrow> k = 0) \<Longrightarrow> normal r cs"
  unfolding normal_def by blast

lemma normalE:
  assumes "normal r cs"
  obtains k ds where "cs = replicate k ''..'' @ ds" and "list_all plain_seg ds" and "r \<Longrightarrow> k = 0"
  using assms unfolding normal_def by blast

lemma normal_snoc:
  assumes "normal r cs" and "plain_seg c"
  shows "normal r (cs @ [c])"
  using assms(1)
proof (rule normalE)
  fix k ds
  assume "cs = replicate k ''..'' @ ds" "list_all plain_seg ds" "r \<Longrightarrow> k = 0"
  with assms(2) show ?thesis by (intro normalI [of _ k "ds @ [c]"]) auto
qed

lemma normal_butlast:
  assumes "normal r cs"
  shows "normal r (butlast cs)"
  using assms
proof (rule normalE)
  fix k ds
  assume cs: "cs = replicate k ''..'' @ ds" and ds: "list_all plain_seg ds" and k: "r \<Longrightarrow> k = 0"
  show ?thesis
  proof (cases "ds = []")
    case True
    then have "butlast cs = replicate (k - 1) ''..''"
      using cs by (cases k) (auto simp: butlast_append replicate_append_same [symmetric])
    then show ?thesis using k by (intro normalI [of _ "k - 1" "[]"]) auto
  next
    case False
    then have "butlast cs = replicate k ''..'' @ butlast ds"
      using cs by (simp add: butlast_append)
    moreover have "list_all plain_seg (butlast ds)"
      using ds by (auto simp: list_all_iff dest: in_set_butlastD)
    ultimately show ?thesis using k by (rule normalI)
  qed
qed

lemma normal_dotdot:
  assumes "normal False cs" and "cs = [] \<or> last cs = ''..''"
  shows "normal False (cs @ [''..''])"
  using assms(1)
proof (rule normalE)
  fix k ds
  assume cs: "cs = replicate k ''..'' @ ds" and ds: "list_all plain_seg ds"
  have "ds = []"
  proof (rule ccontr)
    assume "ds \<noteq> []"
    with cs ds assms(2) have "plain_seg ''..''"
      by (metis append_is_Nil_conv last_appendR last_in_set list_all_iff)
    then show False by (simp add: plain_seg_def)
  qed
  with cs show ?thesis by (intro normalI [of _ "Suc k" "[]"]) (auto simp: replicate_append_same)
qed

lemma normal_clean_step:
  assumes "normal r out" and "slash \<notin> set c"
  shows "normal r (clean_step r out c)"
proof (cases "c = [] \<or> c = ''.''")
  case True
  with assms(1) show ?thesis by (auto simp: clean_step_def)
next
  case False
  show ?thesis
  proof (cases "c = ''..''")
    case True
    with assms(1) show ?thesis
      using normal_butlast [OF assms(1)] normal_dotdot [of out]
      by (cases r) (auto simp: clean_step_def)
  next
    case c: False
    with False assms(2) have "plain_seg c" by (auto simp: plain_seg_def)
    with assms(1) show ?thesis by (simp add: normal_snoc)
  qed
qed

lemma normal_foldl:
  "normal r out \<Longrightarrow> \<forall>c \<in> set cs. slash \<notin> set c \<Longrightarrow> normal r (foldl (clean_step r) out cs)"
  by (induction cs arbitrary: out) (auto intro: normal_clean_step)

lemma normal_path_elems [simp]: "normal (rooted p) (path_elems p)"
  by (auto simp: path_elems_def intro!: normal_foldl dest: split_on_parts)

lemma foldl_plain:
  "list_all plain_seg ds \<Longrightarrow> foldl (clean_step r) out ds = out @ ds"
  by (induction ds arbitrary: out) auto

lemma foldl_dotdots:
  "foldl (clean_step False) (replicate j ''..'') (replicate k ''..'') = replicate (j + k) ''..''"
proof (induction k arbitrary: j)
  case (Suc k)
  have "clean_step False (replicate j ''..'') ''..'' = replicate (Suc j) ''..''"
    by (cases j) (auto simp: clean_step_def replicate_append_same)
  with Suc.IH [of "Suc j"] show ?case by simp
qed simp

lemma foldl_normal:
  assumes "normal r cs"
  shows "foldl (clean_step r) [] cs = cs"
  using assms
proof (rule normalE)
  fix k ds
  assume "cs = replicate k ''..'' @ ds" "list_all plain_seg ds" "r \<Longrightarrow> k = 0"
  then show ?thesis
    using foldl_dotdots [of 0 k] by (cases r) (auto simp: foldl_plain)
qed

lemma normal_elem_no_slash: "normal r cs \<Longrightarrow> c \<in> set cs \<Longrightarrow> slash \<notin> set c \<and> c \<noteq> []"
  by (auto elim!: normalE simp: list_all_iff plain_seg_def)

lemma normal_hd_char:
  assumes "normal r cs" and "cs \<noteq> []"
  shows "\<exists>x xs. join_with ''/'' cs = x # xs \<and> x \<noteq> slash"
proof -
  from assms obtain c cs' where cs: "cs = c # cs'" by (cases cs) auto
  with assms(1) normal_elem_no_slash have "slash \<notin> set c \<and> c \<noteq> []" by force
  then obtain x xs where "c = x # xs" "x \<noteq> slash" by (cases c) auto
  with cs show ?thesis by (cases cs') auto
qed

lemma rooted_render [simp]: "normal r cs \<Longrightarrow> rooted (render r cs) = r"
  using normal_hd_char [of r cs] by (auto simp: rooted_def render_def)

lemma split_render:
  assumes "normal r cs" and "cs \<noteq> []"
  shows "split_on slash (render r cs) = (if r then [] # cs else cs)"
proof -
  have "split_on slash (join_with ''/'' cs) = cs"
    using assms normal_elem_no_slash by (intro split_join) blast+
  then show ?thesis using assms by (auto simp: render_def)
qed

lemma path_elems_render [simp]:
  assumes "normal r cs"
  shows "path_elems (render r cs) = cs"
proof (cases "cs = []")
  case True
  then show ?thesis by (auto simp: path_elems_def render_def rooted_def clean_step_def)
next
  case False
  with assms show ?thesis
    by (auto simp: path_elems_def split_render foldl_normal)
qed

lemma Clean_render [simp]: "normal r cs \<Longrightarrow> Clean (render r cs) = render r cs"
  by (simp add: Clean_def)

lemma render_inject:
  assumes "normal r cs" and "normal r' cs'" and "render r cs = render r' cs'"
  shows "r = r' \<and> cs = cs'"
  using assms by (metis path_elems_render rooted_render)

lemma Clean_idem [simp]: "Clean (Clean p) = Clean p"
  by (simp add: Clean_def)

lemma rooted_Clean [simp]: "rooted (Clean p) = rooted p"
  by (simp add: Clean_def)

lemma path_elems_Clean [simp]: "path_elems (Clean p) = path_elems p"
  by (simp add: Clean_def)

lemma rooted_append: "p \<noteq> [] \<Longrightarrow> rooted (p @ q) = rooted p"
  by (auto simp: rooted_def split: list.splits)

lemma path_elems_append:
  "p \<noteq> [] \<Longrightarrow> path_elems (p @ slash # q) = foldl (clean_step (rooted p)) (path_elems p) (split_on slash q)"
  by (simp add: path_elems_def split_on_append rooted_append)

lemma path_elems_Nil [simp]: "path_elems [] = []" "\<not> rooted []"
  by (simp_all add: path_elems_def rooted_def)

lemma path_elems_plain: "plain_seg c \<Longrightarrow> path_elems c = [c] \<and> \<not> rooted c"
  by (auto simp: path_elems_def split_on_no_sep rooted_def plain_seg_def clean_step_def
      split: list.splits)

text \<open>What \<open>Join\<close> computes: the elements of the first non-empty argument, extended by the
  elements of the others.\<close>

lemma Join_plain:
  assumes "plain_seg c"
  shows "Join [root, c] = render (rooted root) (path_elems root @ [c])"
proof (cases "root = []")
  case True
  with assms path_elems_plain [OF assms] show ?thesis
    by (auto simp: Join_def Clean_def plain_seg_def)
next
  case False
  with assms have "split_on slash c = [c]" by (auto intro: split_on_no_sep)
  with False assms show ?thesis
    by (simp add: Join_def Clean_def path_elems_append rooted_append)
qed

lemma Join_plain2:
  assumes "plain_seg c" and "ns = [] \<or> plain_seg ns"
  shows "Join [root, ns, c] =
    render (rooted root) (path_elems root @ (if ns = [] then [] else [ns]) @ [c])"
proof (cases "root = []")
  case False
  have "split_on slash c = [c]" using assms(1) by (auto intro: split_on_no_sep)
  then have "split_on slash (ns @ slash # c) = [ns, c]"
    using assms by (auto simp: split_on_append split_on_no_sep)
  with False assms show ?thesis
    by (auto simp: Join_def Clean_def path_elems_append rooted_append)
next
  case root: True
  show ?thesis
  proof (cases "ns = []")
    case True
    with root have "Join [root, ns, c] = Join [[], c]" by (simp add: Join_def)
    with Join_plain [OF assms(1), of "[]"] root True show ?thesis by simp
  next
    case False
    with assms have ns: "plain_seg ns" by simp
    from root False have "Join [root, ns, c] = Join [ns, c]" by (simp add: Join_def)
    with Join_plain [OF assms(1), of ns] root False path_elems_plain [OF ns]
    show ?thesis by simp
  qed
qed

text \<open>\<open>Dir\<close> and \<open>Base\<close> take a cleaned path apart.\<close>

lemma dropWhile_rev_last:
  "slash \<notin> set c \<Longrightarrow> rev (dropWhile (\<lambda>x. x \<noteq> slash) (rev (p @ slash # c))) = p @ [slash]"
  by (induction c rule: rev_induct) auto

lemma Clean_slash: "Clean [slash] = [slash]" and Clean_Nil: "Clean [] = ''.''"
  by (simp_all add: Clean_def path_elems_def rooted_def render_def)

lemma path_Dir_render_single:
  assumes "plain_seg c"
  shows "path_Dir (render r [c]) = render r []"
proof (cases r)
  case True
  have "path_Dir (slash # c) = Clean [slash]"
    using dropWhile_rev_last [of c "[]"] plain_segD(4) [OF assms] by (simp add: path_Dir_def)
  with True show ?thesis by (simp add: render_def Clean_slash)
next
  case False
  have "\<forall>x \<in> set (rev c). x \<noteq> slash" using plain_segD(4) [OF assms] by auto
  then have "dropWhile (\<lambda>x. x \<noteq> slash) (rev c) = []" by (simp only: dropWhile_eq_Nil_conv)
  then have "path_Dir c = Clean []" unfolding path_Dir_def by (simp only: rev.simps)
  with False show ?thesis by (simp add: render_def Clean_Nil)
qed

lemma path_Dir_render:
  assumes "normal r cs" and "plain_seg c"
  shows "path_Dir (render r (cs @ [c])) = render r cs"
proof (cases "cs = []")
  case True
  with path_Dir_render_single [OF assms(2)] show ?thesis by simp
next
  case False
  let ?p = "render r cs"
  have "render r (cs @ [c]) = ?p @ slash # c"
    using False by (simp add: render_def join_snoc)
  then have "path_Dir (render r (cs @ [c])) = Clean (?p @ [slash])"
    unfolding path_Dir_def
    using dropWhile_rev_last [OF plain_segD(4) [OF assms(2)], of ?p] by (simp only:)
  moreover have ne: "?p \<noteq> []"
    using normal_hd_char [OF assms(1) False] False by (auto simp: render_def)
  have "path_elems (?p @ [slash]) = cs"
    using path_elems_append [OF ne, of "[]"] assms(1) by simp
  moreover have "rooted (?p @ [slash]) = r"
    using rooted_append [OF ne] assms(1) by simp
  ultimately show ?thesis by (simp add: Clean_def)
qed

lemma path_Base_render:
  assumes "normal r cs" and "plain_seg c"
  shows "path_Base (render r (cs @ [c])) = c"
proof -
  obtain p where p: "render r (cs @ [c]) = p @ c" and pl: "p = [] \<or> last p = slash"
  proof (cases "cs = []")
    case True
    then show ?thesis using that [of "if r then [slash] else []"] by (auto simp: render_def)
  next
    case False
    then show ?thesis using that [of "render r cs @ [slash]"] by (auto simp: render_def join_snoc)
  qed
  from assms(2) obtain x ys where x: "rev c = x # ys" "x \<noteq> slash"
    by (metis list.exhaust list.set_intros(1) plain_segD(1) plain_segD(4) rev_is_Nil_conv set_rev)
  then have "dropWhile (\<lambda>y. y = slash) (rev (p @ c)) = rev (p @ c)" by simp
  moreover have "takeWhile (\<lambda>y. y \<noteq> slash) (rev c @ rev p) = rev c"
    using assms(2) pl by (cases p rule: rev_cases) (auto simp: takeWhile_append)
  ultimately show ?thesis
    using p assms(2) by (auto simp: path_Base_def Let_def)
qed

lemma good_pathE:
  assumes "good_path p"
  obtains r cs c where "normal r cs" and "plain_seg c" and "p = render r (cs @ [c])"
proof
  let ?cs = "path_elems p"
  from assms have p: "render (rooted p) ?cs = p" and ne: "?cs \<noteq> []" and "plain_seg (last ?cs)"
    by (auto simp: good_path_def Clean_def)
  then show "plain_seg (last ?cs)" by simp
  show "normal (rooted p) (butlast ?cs)" by (rule normal_butlast) simp
  from p ne show "p = render (rooted p) (butlast ?cs @ [last ?cs])" by simp
qed

lemma good_path_render: "normal r cs \<Longrightarrow> plain_seg c \<Longrightarrow> good_path (render r (cs @ [c]))"
  using normal_snoc [of r cs c] by (simp add: good_path_def)

text \<open>After an ordinary element, a normal form has ordinary elements only.\<close>

lemma normal_plain_tail:
  assumes "normal r (cs @ c # ks)" and "plain_seg c"
  shows "list_all plain_seg (c # ks)"
proof -
  from assms(1) obtain k ds where k: "cs @ c # ks = replicate k ''..'' @ ds" and ds: "list_all plain_seg ds"
    by (rule normalE)
  have le: "k \<le> length cs"
  proof (rule ccontr)
    assume "\<not> k \<le> length cs"
    then have "(replicate k ''..'' @ ds) ! length cs = ''..''" by (simp add: nth_append)
    then have "c = ''..''" unfolding k [symmetric] by simp
    with assms(2) show False by (simp add: plain_seg_def)
  qed
  have "c # ks = drop (length cs) (replicate k ''..'' @ ds)" unfolding k [symmetric] by simp
  also from le have "\<dots> = drop (length cs - k) ds" by simp
  finally show ?thesis using ds by (metis append_take_drop_id list_all_append)
qed

lemma normal_append_plain: "normal r cs \<Longrightarrow> list_all plain_seg ks \<Longrightarrow> normal r (cs @ ks)"
proof (induction ks rule: rev_induct)
  case (snoc k ks)
  then show ?case using normal_snoc [of r "cs @ ks" k] by simp
qed simp

end
