(* ===== verification/Api_Meta.thy ===== *)
theory Api_Meta
  imports Go_Lib
begin

text \<open>
  API objects and their metadata, resource versions, and selection.
  \<^item> The object model: \<open>metav1.ObjectMeta\<close>, an API object with optional metadata (an
    object whose type does not provide the metadata interfaces has none), a list object, and the
    accessors of \<open>k8s.io/apimachinery/pkg/api/meta\<close>.
  \<^item> \<open>pkg/storage/filepath/version.go\<close>: reading, writing and clearing the resource version
    of an object, and its decimal text form.
  \<^item> Label and field selectors, \<open>storage.SelectionPredicate\<close>, and
    \<open>newSelectionPredicate\<close> of \<open>jsonfile_rest.go\<close>.
  The body of an object (everything but type and metadata) is a type parameter.
\<close>

section \<open>Definitions\<close>

subsection \<open>Objects\<close>

text \<open>
  A time is an integer; the zero time of Go (\<open>IsZero\<close>) is 0. Owner references and managed
  fields are opaque here: no code of the model looks inside them.
\<close>

type_synonym gotime = int

record ObjectMeta =
  Name :: string
  GenerateName :: string
  Namespace :: string
  SelfLink :: string
  UID :: string
  ResourceVersion :: string
  Generation :: int
  CreationTimestamp :: gotime
  DeletionTimestamp :: "gotime option"
  DeletionGracePeriodSeconds :: "int option"
  Labels :: "(string \<times> string) list"
  Annotations :: "(string \<times> string) list"
  OwnerReferences :: "string list"
  Finalizers :: "string list"
  ManagedFields :: "string list"

text \<open>\<open>runtime.Object\<close>: apiVersion and kind, the metadata, the rest.\<close>

record 'b Object =
  TypeMeta :: "string \<times> string"
  Metadata :: "ObjectMeta option"
  Body :: 'b

text \<open>A list object: the resource version of its \<open>ListMeta\<close> (if it has one) and the
  slice its \<open>Items\<close> pointer leads to (an error when there is no such slice).\<close>

record 'b ListObject =
  ListResourceVersion :: "string option"
  Items :: "go_error + 'b Object list"

text \<open>\<open>(*metav1.Time).IsZero\<close> on a pointer that may be nil, and \<open>Before\<close>.\<close>

fun Time_IsZero :: "gotime option \<Rightarrow> bool" where
  "Time_IsZero None = True"
| "Time_IsZero (Some t) = (t = 0)"

fun Time_Before :: "gotime \<Rightarrow> gotime option \<Rightarrow> bool" where
  "Time_Before t (Some u) = (t < u)"
| "Time_Before t None = False"

definition meta_Accessor :: "'b Object \<Rightarrow> go_error + ObjectMeta" where
  "meta_Accessor obj = (case Metadata obj of None \<Rightarrow> Inl ErrNotObject | Some m \<Rightarrow> Inr m)"

definition meta_CommonAccessor :: "'b Object \<Rightarrow> go_error + ObjectMeta" where
  "meta_CommonAccessor obj = (case Metadata obj of None \<Rightarrow> Inl ErrNotCommon | Some m \<Rightarrow> Inr m)"

text \<open>A setter of the metadata interface, applied to the metadata of the object.\<close>

definition update_meta :: "(ObjectMeta \<Rightarrow> ObjectMeta) \<Rightarrow> 'b Object \<Rightarrow> 'b Object" where
  "update_meta f obj = obj\<lparr>Metadata := map_option f (Metadata obj)\<rparr>"

subsection \<open>Resource versions\<close>

definition parseResourceVersion :: "string \<Rightarrow> go_error + uint64" where
  "parseResourceVersion v =
     (if v = [] then Inr 0
      else case ParseUint v of Inl e \<Rightarrow> Inl e | Inr version \<Rightarrow> Inr version)"

definition formatResourceVersion :: "uint64 \<Rightarrow> string" where
  "formatResourceVersion v = FormatUint v"

text \<open>The argument is \<open>None\<close> for a nil object.\<close>

definition getResourceVersion :: "'b Object option \<Rightarrow> go_error + uint64" where
  "getResourceVersion objOpt =
     (case objOpt of
        None \<Rightarrow> Inr 0
      | Some obj \<Rightarrow>
          (case meta_CommonAccessor obj of
             Inl e \<Rightarrow> Inl e
           | Inr objMeta \<Rightarrow> parseResourceVersion (ResourceVersion objMeta)))"

definition setResourceVersion :: "'b Object \<Rightarrow> uint64 \<Rightarrow> go_error + 'b Object" where
  "setResourceVersion obj v =
     (if v \<le> 0 then Inl NonPositiveVersion
      else case meta_CommonAccessor obj of
        Inl e \<Rightarrow> Inl e
      | Inr objMeta \<Rightarrow>
          Inr (update_meta (\<lambda>m. m\<lparr>ResourceVersion := formatResourceVersion v\<rparr>) obj))"

text \<open>The same function on a list object.\<close>

definition setListResourceVersion :: "'b ListObject \<Rightarrow> uint64 \<Rightarrow> go_error + 'b ListObject" where
  "setListResourceVersion l v =
     (if v \<le> 0 then Inl NonPositiveVersion
      else case ListResourceVersion l of
        None \<Rightarrow> Inl ErrNotCommon
      | Some _ \<Rightarrow> Inr (l\<lparr>ListResourceVersion := Some (formatResourceVersion v)\<rparr>))"

definition clearResourceVersion :: "'b Object \<Rightarrow> go_error + 'b Object" where
  "clearResourceVersion obj =
     (case meta_CommonAccessor obj of
        Inl e \<Rightarrow> Inl e
      | Inr objMeta \<Rightarrow> Inr (update_meta (\<lambda>m. m\<lparr>ResourceVersion := []\<rparr>) obj))"

subsection \<open>Selectors\<close>

datatype selection_operator =
    DoesNotExist | Equals | DoubleEquals | OpIn | NotEquals | NotIn | OpExists
  | GreaterThan | LessThan | UnknownOperator string

record Requirement =
  req_key :: string
  req_operator :: selection_operator
  strValues :: "string list"

type_synonym string_set = "(string \<times> string) list"

definition Requirement_hasValue :: "Requirement \<Rightarrow> string \<Rightarrow> bool" where
  "Requirement_hasValue r v \<longleftrightarrow> v \<in> set (strValues r)"

definition Requirement_Matches :: "Requirement \<Rightarrow> string_set \<Rightarrow> bool" where
  "Requirement_Matches r ls =
     (let lookup = map_of ls (req_key r);
          compare = (\<lambda>rel.
            (case lookup of
               None \<Rightarrow> False
             | Some val \<Rightarrow>
                 (case ParseInt val of
                    Inl _ \<Rightarrow> False
                  | Inr lsValue \<Rightarrow>
                      (case strValues r of
                         [sv] \<Rightarrow>
                           (case ParseInt sv of Inl _ \<Rightarrow> False | Inr rValue \<Rightarrow> rel lsValue rValue)
                       | _ \<Rightarrow> False))))
      in case req_operator r of
           OpIn \<Rightarrow> (case lookup of None \<Rightarrow> False | Some val \<Rightarrow> Requirement_hasValue r val)
         | Equals \<Rightarrow> (case lookup of None \<Rightarrow> False | Some val \<Rightarrow> Requirement_hasValue r val)
         | DoubleEquals \<Rightarrow> (case lookup of None \<Rightarrow> False | Some val \<Rightarrow> Requirement_hasValue r val)
         | NotIn \<Rightarrow> (case lookup of None \<Rightarrow> True | Some val \<Rightarrow> \<not> Requirement_hasValue r val)
         | NotEquals \<Rightarrow> (case lookup of None \<Rightarrow> True | Some val \<Rightarrow> \<not> Requirement_hasValue r val)
         | OpExists \<Rightarrow> lookup \<noteq> None
         | DoesNotExist \<Rightarrow> lookup = None
         | GreaterThan \<Rightarrow> compare (\<lambda>a b. a > b)
         | LessThan \<Rightarrow> compare (\<lambda>a b. a < b)
         | UnknownOperator _ \<Rightarrow> False)"

datatype label_selector = LabelsNothing | InternalSelector "Requirement list"

fun labels_Matches :: "label_selector \<Rightarrow> string_set \<Rightarrow> bool" where
  "labels_Matches LabelsNothing ls = False"
| "labels_Matches (InternalSelector rs) ls = list_all (\<lambda>r. Requirement_Matches r ls) rs"

fun labels_Empty :: "label_selector \<Rightarrow> bool" where
  "labels_Empty LabelsNothing = False"
| "labels_Empty (InternalSelector rs) = (rs = [])"

definition labels_Everything :: label_selector where
  "labels_Everything = InternalSelector []"

datatype field_selector =
    FieldsNothing
  | HasTerm string string
  | NotHasTerm string string
  | AndTerm "field_selector list"

text \<open>\<open>fields.Set.Get\<close>: the empty string for a missing key.\<close>

definition fields_Get :: "string_set \<Rightarrow> string \<Rightarrow> string" where
  "fields_Get fs f = (case map_of fs f of None \<Rightarrow> [] | Some v \<Rightarrow> v)"

fun fields_Matches :: "field_selector \<Rightarrow> string_set \<Rightarrow> bool" where
  "fields_Matches FieldsNothing fs = False"
| "fields_Matches (HasTerm f v) fs = (fields_Get fs f = v)"
| "fields_Matches (NotHasTerm f v) fs = (fields_Get fs f \<noteq> v)"
| "fields_Matches (AndTerm ts) fs = list_all (\<lambda>t. fields_Matches t fs) ts"

fun fields_Empty :: "field_selector \<Rightarrow> bool" where
  "fields_Empty FieldsNothing = False"
| "fields_Empty (HasTerm f v) = False"
| "fields_Empty (NotHasTerm f v) = False"
| "fields_Empty (AndTerm ts) = list_all fields_Empty ts"

definition fields_Everything :: field_selector where
  "fields_Everything = AndTerm []"

subsection \<open>Selection predicates\<close>

record 'b SelectionPredicate =
  sp_Label :: label_selector
  sp_Field :: field_selector
  sp_GetAttrs :: "'b Object \<Rightarrow> go_error + string_set \<times> string_set"

definition DefaultClusterScopedAttr :: "'b Object \<Rightarrow> go_error + string_set \<times> string_set" where
  "DefaultClusterScopedAttr obj =
     (case meta_Accessor obj of
        Inl e \<Rightarrow> Inl e
      | Inr metadata \<Rightarrow> Inr (Labels metadata, [(''metadata.name'', Name metadata)]))"

definition SelectionPredicate_Empty :: "'b SelectionPredicate \<Rightarrow> bool" where
  "SelectionPredicate_Empty s \<longleftrightarrow> labels_Empty (sp_Label s) \<and> fields_Empty (sp_Field s)"

definition SelectionPredicate_Matches :: "'b SelectionPredicate \<Rightarrow> 'b Object \<Rightarrow> go_error + bool" where
  "SelectionPredicate_Matches s obj =
     (if SelectionPredicate_Empty s then Inr True
      else case sp_GetAttrs s obj of
        Inl e \<Rightarrow> Inl e
      | Inr (lbls, flds) \<Rightarrow>
          Inr (labels_Matches (sp_Label s) lbls \<and> fields_Matches (sp_Field s) flds))"

text \<open>\<open>metainternalversion.ListOptions\<close>: the two selectors, which may be nil.\<close>

record ListOptions =
  LabelSelector :: "label_selector option"
  FieldSelector :: "field_selector option"

definition newSelectionPredicate :: "ListOptions option \<Rightarrow> 'b SelectionPredicate" where
  "newSelectionPredicate options =
     (let p = \<lparr>sp_Label = labels_Everything, sp_Field = fields_Everything,
               sp_GetAttrs = DefaultClusterScopedAttr\<rparr>
      in case options of
           None \<Rightarrow> p
         | Some opts \<Rightarrow>
             p\<lparr>sp_Label := (case LabelSelector opts of None \<Rightarrow> sp_Label p | Some l \<Rightarrow> l),
               sp_Field := (case FieldSelector opts of None \<Rightarrow> sp_Field p | Some f \<Rightarrow> f)\<rparr>)"

section \<open>Resource versions: lemmas\<close>

lemma parse_formatResourceVersion [simp]: "parseResourceVersion (formatResourceVersion v) = Inr v"
  by (simp add: parseResourceVersion_def formatResourceVersion_def)

lemma formatResourceVersion_nonempty [simp]: "formatResourceVersion v \<noteq> []"
  by (simp add: formatResourceVersion_def)

lemma update_meta_simps [simp]:
  "Metadata (update_meta f obj) = map_option f (Metadata obj)"
  "Body (update_meta f obj) = Body obj"
  "TypeMeta (update_meta f obj) = TypeMeta obj"
  by (simp_all add: update_meta_def)

lemma update_meta_update_meta [simp]:
  "update_meta f (update_meta g obj) = update_meta (f \<circ> g) obj"
  by (simp add: update_meta_def option.map_comp comp_def)

text \<open>The object with its resource version set to a text, and cleared.\<close>

abbreviation with_rv :: "string \<Rightarrow> 'b Object \<Rightarrow> 'b Object" where
  "with_rv rv \<equiv> update_meta (\<lambda>m. m\<lparr>ResourceVersion := rv\<rparr>)"

lemma with_rv_with_rv [simp]: "with_rv a (with_rv b obj) = with_rv a obj"
  by (simp add: comp_def)

lemma with_rv_same:
  assumes "Metadata obj \<noteq> None"
  shows "\<exists>rv. obj = with_rv rv obj"
proof -
  from assms obtain m where "Metadata obj = Some m" by blast
  then have "obj = with_rv (ResourceVersion m) obj" by (simp add: update_meta_def)
  then show ?thesis ..
qed

lemma setResourceVersion_ok:
  "v \<noteq> 0 \<Longrightarrow> Metadata obj \<noteq> None \<Longrightarrow> setResourceVersion obj v = Inr (with_rv (formatResourceVersion v) obj)"
  by (auto simp: setResourceVersion_def meta_CommonAccessor_def)

lemma setResourceVersion_Inr_iff:
  "setResourceVersion obj v = Inr obj' \<longleftrightarrow>
     v \<noteq> 0 \<and> Metadata obj \<noteq> None \<and> obj' = with_rv (formatResourceVersion v) obj"
  by (auto simp: setResourceVersion_def meta_CommonAccessor_def split: option.splits)

lemma clearResourceVersion_Inr_iff:
  "clearResourceVersion obj = Inr obj' \<longleftrightarrow> Metadata obj \<noteq> None \<and> obj' = with_rv [] obj"
  by (auto simp: clearResourceVersion_def meta_CommonAccessor_def split: option.splits)

lemma getResourceVersion_with_rv:
  "Metadata obj \<noteq> None \<Longrightarrow>
     getResourceVersion (Some (with_rv (formatResourceVersion v) obj)) = Inr v"
  by (auto simp: getResourceVersion_def meta_CommonAccessor_def)

section \<open>Selection: lemmas\<close>

lemma newSelectionPredicate_all [simp]:
  "SelectionPredicate_Matches (newSelectionPredicate None) obj = Inr True"
  by (simp add: newSelectionPredicate_def SelectionPredicate_Matches_def
      SelectionPredicate_Empty_def labels_Everything_def fields_Everything_def)

lemma fields_Empty_Matches: "fields_Empty f \<Longrightarrow> fields_Matches f fs"
  by (induction f) (auto simp: list_all_iff)

lemma labels_Empty_Matches: "labels_Empty l \<Longrightarrow> labels_Matches l ls"
  by (cases l) auto

lemma SelectionPredicate_Matches_meta:
  fixes obj :: "'b Object"
  assumes "Metadata obj = Some m"
  shows "SelectionPredicate_Matches (newSelectionPredicate options) obj =
    Inr (labels_Matches (sp_Label (newSelectionPredicate options :: 'b SelectionPredicate)) (Labels m) \<and>
         fields_Matches (sp_Field (newSelectionPredicate options :: 'b SelectionPredicate))
           [(''metadata.name'', Name m)])"
    (is "SelectionPredicate_Matches ?p obj = _")
proof -
  have "sp_GetAttrs ?p = DefaultClusterScopedAttr"
    by (auto simp: newSelectionPredicate_def Let_def split: option.splits)
  with assms show ?thesis
    by (auto simp: SelectionPredicate_Matches_def SelectionPredicate_Empty_def
        DefaultClusterScopedAttr_def meta_Accessor_def
        intro: fields_Empty_Matches labels_Empty_Matches)
qed

end
