(* ===== verification/Fs_Interface.thy ===== *)
theory Fs_Interface
  imports Api_Meta
begin

text \<open>
  The interface \<open>FS\<close> of \<open>pkg/storage/filepath/fs.go\<close>. The REST handlers call the file
  system through this interface only, so they take a record of its six methods. Two locales state
  what a handler may rely on: \<open>fs_contract\<close> holds for every implementation (reads see the
  last write, an operation on one path leaves the others alone, errors change nothing), and
  \<open>versioned_fs\<close> adds optimistic concurrency. \<open>Memory_Fs\<close> interprets both,
  \<open>Real_Fs\<close> the first.

  The codec is not modelled: an encoder and a decoder are arguments, and \<open>codec_ok\<close> is the
  documented round-trip behaviour that a theorem may assume.
\<close>

section \<open>Definitions\<close>

subsection \<open>Codecs\<close>

text \<open>\<open>runtime.Encoder\<close> writes an object into a buffer; \<open>runtime.Decoder\<close> reads a
  buffer into the fresh object that \<open>newFunc\<close> made.\<close>

type_synonym 'b encoder = "'b Object \<Rightarrow> go_error + bytes"
type_synonym 'b decoder = "bytes \<Rightarrow> 'b Object \<Rightarrow> go_error + 'b Object"

text \<open>
  Decoding what was encoded yields the canonical form of the object (a serializer may fill in
  \<open>kind\<close> and \<open>apiVersion\<close> and round timestamps to seconds). The canonical form keeps
  the resource version, the name and the finalizers as they are, an unset deletion timestamp
  unset and one that is not the zero time set (the zero time is written as null), and whether the
  object has metadata at all.
\<close>

definition codec_ok :: "'b encoder \<Rightarrow> 'b decoder \<Rightarrow> ('b Object \<Rightarrow> 'b Object) \<Rightarrow> bool" where
  "codec_ok enc dec canon \<longleftrightarrow>
     (\<forall>obj buf new. enc obj = Inr buf \<longrightarrow> dec buf new = Inr (canon obj)) \<and>
     (\<forall>obj rv. canon (with_rv rv obj) = with_rv rv (canon obj)) \<and>
     (\<forall>obj. Metadata obj = None \<longrightarrow> Metadata (canon obj) = None) \<and>
     (\<forall>obj m. Metadata obj = Some m \<longrightarrow>
        (\<exists>m'. Metadata (canon obj) = Some m' \<and> Name m' = Name m \<and>
              ResourceVersion m' = ResourceVersion m \<and> Finalizers m' = Finalizers m \<and>
              (DeletionTimestamp m = None \<longrightarrow> DeletionTimestamp m' = None) \<and>
              (\<not> Time_IsZero (DeletionTimestamp m) \<longrightarrow> DeletionTimestamp m' \<noteq> None)))"

subsection \<open>The methods\<close>

text \<open>
  A visitor may call back into the file system and collects objects, so it threads both. Its
  result is \<open>None\<close> when it does not return.
\<close>

type_synonym ('fs, 'b) visitor =
  "string \<Rightarrow> 'b Object \<Rightarrow> 'fs \<times> 'b Object list \<Rightarrow>
     (('fs \<times> 'b Object list) \<times> go_error option) option"

record ('fs, 'b) FS =
  fs_Remove :: "string \<Rightarrow> 'fs \<Rightarrow> ('fs \<times> go_error option) option"
  fs_Exists :: "string \<Rightarrow> 'fs \<Rightarrow> ('fs \<times> bool) option"
  fs_EnsureDir :: "string \<Rightarrow> 'fs \<Rightarrow> ('fs \<times> go_error option) option"
  fs_Write :: "'b encoder \<Rightarrow> string \<Rightarrow> 'b Object \<Rightarrow> uint64 \<Rightarrow> 'fs \<Rightarrow>
                 ('fs \<times> 'b Object \<times> go_error option) option"
  fs_Read :: "'b decoder \<Rightarrow> string \<Rightarrow> 'b Object \<Rightarrow> 'fs \<Rightarrow> ('fs \<times> (go_error + 'b Object)) option"
  fs_VisitDir :: "string \<Rightarrow> 'b Object \<Rightarrow> 'b decoder \<Rightarrow> ('fs, 'b) visitor \<Rightarrow>
                    'fs \<times> 'b Object list \<Rightarrow>
                    (('fs \<times> 'b Object list) \<times> (go_error + uint64)) option"

section \<open>Codec lemmas\<close>

lemma codec_ok_decode: "codec_ok enc dec canon \<Longrightarrow> enc obj = Inr buf \<Longrightarrow> dec buf new = Inr (canon obj)"
  by (simp add: codec_ok_def)

lemma codec_ok_rv: "codec_ok enc dec canon \<Longrightarrow> canon (with_rv rv obj) = with_rv rv (canon obj)"
  by (simp add: codec_ok_def)

lemma codec_ok_meta:
  assumes "codec_ok enc dec canon" and "Metadata obj = Some m"
  obtains m' where "Metadata (canon obj) = Some m'" and "Name m' = Name m"
    and "ResourceVersion m' = ResourceVersion m" and "Finalizers m' = Finalizers m"
    and "DeletionTimestamp m = None \<longrightarrow> DeletionTimestamp m' = None"
    and "\<not> Time_IsZero (DeletionTimestamp m) \<longrightarrow> DeletionTimestamp m' \<noteq> None"
proof -
  from assms(1) have "\<forall>obj m. Metadata obj = Some m \<longrightarrow>
        (\<exists>m'. Metadata (canon obj) = Some m' \<and> Name m' = Name m \<and>
              ResourceVersion m' = ResourceVersion m \<and> Finalizers m' = Finalizers m \<and>
              (DeletionTimestamp m = None \<longrightarrow> DeletionTimestamp m' = None) \<and>
              (\<not> Time_IsZero (DeletionTimestamp m) \<longrightarrow> DeletionTimestamp m' \<noteq> None))"
    unfolding codec_ok_def by (elim conjE)
  from this [rule_format, OF assms(2)] that show thesis by (elim exE conjE)
qed

lemma codec_ok_no_meta:
  assumes "codec_ok enc dec canon" and "Metadata obj = None"
  shows "Metadata (canon obj) = None"
proof -
  from assms(1) have "\<forall>obj. Metadata obj = None \<longrightarrow> Metadata (canon obj) = None"
    unfolding codec_ok_def by (elim conjE)
  with assms(2) show ?thesis by blast
qed

lemma codec_ok_has_meta:
  assumes "codec_ok enc dec canon"
  shows "Metadata (canon obj) = None \<longleftrightarrow> Metadata obj = None"
proof (cases "Metadata obj")
  case (Some m)
  with assms show ?thesis by (elim codec_ok_meta) auto
qed (simp add: codec_ok_no_meta [OF assms])

section \<open>The contract\<close>

text \<open>What a pure visitor collects from a list of files: the loop stops at the first file that
  cannot be decoded or that the visitor rejects.\<close>

fun collect ::
  "('c \<Rightarrow> go_error + 'b Object) \<Rightarrow> (string \<Rightarrow> 'b Object \<Rightarrow> 'b Object list \<Rightarrow> 'b Object list \<times> go_error option) \<Rightarrow>
     (string \<times> 'c) list \<Rightarrow> 'b Object list \<Rightarrow> 'b Object list \<times> go_error option" where
  "collect decode g [] acc = (acc, None)"
| "collect decode g ((p, c) # rest) acc =
     (case decode c of
        Inl e \<Rightarrow> (acc, Some e)
      | Inr obj \<Rightarrow>
          (case g p obj acc of
             (acc', Some e) \<Rightarrow> (acc', Some e)
           | (acc', None) \<Rightarrow> collect decode g rest acc'))"

definition pure_visitor ::
  "(string \<Rightarrow> 'b Object \<Rightarrow> 'b Object list \<Rightarrow> 'b Object list \<times> go_error option) \<Rightarrow> ('fs, 'b) visitor" where
  "pure_visitor g p obj st = (let (acc, r) = g p obj (snd st) in Some ((fst st, acc), r))"

text \<open>The path of a file below a directory.\<close>

definition path_below :: "string \<Rightarrow> string list \<Rightarrow> string" where
  "path_below d ks = render (rooted d) (path_elems d @ ks)"

text \<open>
  The laws are stated over an abstraction: \<open>key\<close> locates a path, \<open>content\<close> is what is
  stored at each location, \<open>unpack\<close> is what a read makes of it, \<open>blocked\<close> holds when
  a directory stands at the path or a file where the path needs a directory, \<open>has_dir\<close>
  holds for an existing directory, and \<open>revision\<close> is the revision that a visit reports.
\<close>

locale fs_contract =
  fixes ops :: "('fs, 'b) FS"
    and inv :: "'fs \<Rightarrow> bool"
    and key :: "string \<Rightarrow> 'k"
    and content :: "'fs \<Rightarrow> 'k \<Rightarrow> 'c option"
    and unpack :: "'b decoder \<Rightarrow> 'b Object \<Rightarrow> 'c \<Rightarrow> go_error + 'b Object"
    and blocked :: "'fs \<Rightarrow> string \<Rightarrow> bool"
    and has_dir :: "'fs \<Rightarrow> string \<Rightarrow> bool"
    and revision :: "'fs \<Rightarrow> uint64"
  assumes key_below:
      "good_path d \<Longrightarrow> list_all plain_seg ks \<Longrightarrow> list_all plain_seg ks' \<Longrightarrow>
         key (path_below d ks) = key (path_below d ks') \<Longrightarrow> ks \<noteq> [] \<Longrightarrow> ks' \<noteq> [] \<Longrightarrow> ks = ks'"
    and blocked_absent: "inv s \<Longrightarrow> good_path p \<Longrightarrow> blocked s p \<Longrightarrow> content s (key p) = None"
    and read_present:
      "inv s \<Longrightarrow> good_path p \<Longrightarrow> content s (key p) = Some c \<Longrightarrow>
         fs_Read ops dec p new s = Some (s, unpack dec new c)"
    and read_absent:
      "inv s \<Longrightarrow> good_path p \<Longrightarrow> content s (key p) = None \<Longrightarrow>
         \<exists>s' e. fs_Read ops dec p new s = Some (s', Inl e) \<and> inv s' \<and> content s' = content s \<and>
           (\<forall>d. has_dir s d \<longrightarrow> has_dir s' d) \<and> (\<not> blocked s p \<longrightarrow> e = ErrNotExist \<and> \<not> blocked s' p)"
    and exists_present:
      "inv s \<Longrightarrow> good_path p \<Longrightarrow> content s (key p) = Some c \<Longrightarrow> fs_Exists ops p s = Some (s, True)"
    and exists_absent:
      "inv s \<Longrightarrow> good_path p \<Longrightarrow> content s (key p) = None \<Longrightarrow>
         \<exists>s' b. fs_Exists ops p s = Some (s', b) \<and> inv s' \<and> content s' = content s \<and>
           (\<forall>d. has_dir s d \<longrightarrow> has_dir s' d) \<and> (\<not> blocked s p \<longrightarrow> \<not> b \<and> \<not> blocked s' p)"
    and ensure_dir:
      "inv s \<Longrightarrow> good_path d \<Longrightarrow>
         \<exists>s' r. fs_EnsureDir ops d s = Some (s', r) \<and> inv s' \<and> content s' = content s \<and>
           (\<forall>d. has_dir s d \<longrightarrow> has_dir s' d) \<and> (r = None \<longrightarrow> has_dir s' d \<or> content s (key d) \<noteq> None)"
    and ensure_existing: "inv s \<Longrightarrow> good_path d \<Longrightarrow> has_dir s d \<Longrightarrow> fs_EnsureDir ops d s = Some (s, None)"
    and parent_dir:
      "inv s \<Longrightarrow> good_path d \<Longrightarrow> plain_seg k \<Longrightarrow> content s (key (path_below d [k])) \<noteq> None \<Longrightarrow> has_dir s d"
    and write_returns:
      "inv s \<Longrightarrow> good_path p \<Longrightarrow> \<not> blocked s p \<Longrightarrow>
         \<exists>s' obj' r. fs_Write ops enc p obj sv s = Some (s', obj', r) \<and> inv s' \<and>
           (\<forall>d. has_dir s d \<longrightarrow> has_dir s' d) \<and>
           (r \<noteq> None \<longrightarrow> content s' = content s)"
    and write_blocked:
      "inv s \<Longrightarrow> good_path p \<Longrightarrow> blocked s p \<Longrightarrow> fs_Exists ops p s = Some (s1, False) \<Longrightarrow>
         \<exists>s' obj' e. fs_Write ops enc p obj sv s1 = Some (s', obj', Some e) \<and> inv s' \<and>
           (\<forall>d. has_dir s d \<longrightarrow> has_dir s' d) \<and> content s' = content s"
    and write_ok:
      "inv s \<Longrightarrow> good_path p \<Longrightarrow> \<not> blocked s p \<Longrightarrow>
         fs_Write ops enc p obj sv s = Some (s', obj', None) \<Longrightarrow>
         \<exists>c. content s' = (content s)(key p \<mapsto> c) \<and> Metadata obj \<noteq> None \<and>
           (\<exists>rv. obj' = with_rv rv obj) \<and>
           (\<forall>dec canon new. codec_ok enc dec canon \<longrightarrow>
              (\<exists>rv. unpack dec new c = Inr (with_rv rv (canon obj))) \<and>
              (content s (key p) = None \<longrightarrow> unpack dec new c = Inr (canon obj')))"
    and remove_present:
      "inv s \<Longrightarrow> good_path p \<Longrightarrow> content s (key p) = Some c \<Longrightarrow>
         \<exists>s'. fs_Remove ops p s = Some (s', None) \<and> inv s' \<and> content s' = (content s)(key p := None) \<and>
           (\<forall>d. has_dir s d \<longrightarrow> has_dir s' d)"
    and visit_pure:
      "inv s \<Longrightarrow> good_path d \<Longrightarrow> has_dir s d \<Longrightarrow>
         \<exists>files. distinct (map fst files) \<and>
           (\<forall>p c. (p, c) \<in> set files \<longleftrightarrow>
              (\<exists>ks. ks \<noteq> [] \<and> list_all plain_seg ks \<and> HasSuffix (last ks) ''.json'' \<and>
                p = path_below d ks \<and> content s (key p) = Some c)) \<and>
           fs_VisitDir ops d new dec (pure_visitor g) (s, acc) =
             Some (case collect (unpack dec new) g files acc of
                     (acc', Some e) \<Rightarrow> ((s, acc'), Inl e)
                   | (acc', None) \<Rightarrow> ((s, acc'), Inr (revision s)))"

text \<open>
  Optimistic concurrency: every stored file carries a version, a read returns it as the resource
  version of the object, and a write succeeds exactly when the caller names the stored version
  (0 for a file that does not exist). A write that changes a file gives it the next revision.
\<close>

locale versioned_fs = fs_contract ops inv key content unpack blocked has_dir revision
  for ops :: "('fs, 'b) FS"
    and inv :: "'fs \<Rightarrow> bool"
    and key :: "string \<Rightarrow> 'k"
    and content :: "'fs \<Rightarrow> 'k \<Rightarrow> 'c option"
    and unpack :: "'b decoder \<Rightarrow> 'b Object \<Rightarrow> 'c \<Rightarrow> go_error + 'b Object"
    and blocked :: "'fs \<Rightarrow> string \<Rightarrow> bool"
    and has_dir :: "'fs \<Rightarrow> string \<Rightarrow> bool"
    and revision :: "'fs \<Rightarrow> uint64" +
  fixes ver :: "'c \<Rightarrow> uint64"
  assumes unpack_ver:
      "inv s \<Longrightarrow> content s k = Some c \<Longrightarrow> unpack dec new c = Inr obj \<Longrightarrow>
         Metadata obj \<noteq> None \<and> getResourceVersion (Some obj) = Inr (ver c)"
    and write_stale:
      "inv s \<Longrightarrow> good_path p \<Longrightarrow> content s (key p) = Some c \<Longrightarrow> ver c \<noteq> sv \<Longrightarrow>
         Metadata obj \<noteq> None \<Longrightarrow> enc (with_rv [] obj) = Inr buf \<Longrightarrow>
         fs_Write ops enc p obj sv s = Some (s, obj, Some VersionError)"
    and write_gone:
      "inv s \<Longrightarrow> good_path p \<Longrightarrow> content s (key p) = None \<Longrightarrow> \<not> blocked s p \<Longrightarrow> sv \<noteq> 0 \<Longrightarrow>
         Metadata obj \<noteq> None \<Longrightarrow> enc (with_rv [] obj) = Inr buf \<Longrightarrow>
         \<exists>s'. fs_Write ops enc p obj sv s = Some (s', obj, Some ErrNotExist)"
    and write_current:
      "inv s \<Longrightarrow> good_path p \<Longrightarrow> \<not> blocked s p \<Longrightarrow>
         (case content s (key p) of None \<Rightarrow> sv = 0 | Some c \<Rightarrow> ver c = sv) \<Longrightarrow> revision s \<noteq> - 1 \<Longrightarrow>
         Metadata obj \<noteq> None \<Longrightarrow> enc (with_rv [] obj) = Inr buf \<Longrightarrow>
         \<exists>s' obj'. fs_Write ops enc p obj sv s = Some (s', obj', None)"
    and write_swaps:
      "inv s \<Longrightarrow> good_path p \<Longrightarrow> \<not> blocked s p \<Longrightarrow>
         fs_Write ops enc p obj sv s = Some (s', obj', None) \<Longrightarrow>
         (case content s (key p) of None \<Rightarrow> sv = 0 | Some c \<Rightarrow> ver c = sv) \<and>
         (content s (key p) \<noteq> None \<and> s' = s \<and> obj' = obj \<or>
          (\<exists>c. content s' (key p) = Some c \<and> ver c = revision s + 1 \<and> revision s' = revision s + 1 \<and>
             obj' = with_rv (formatResourceVersion (ver c)) obj))"

end
