(* ===== verification/Rest_Strategy.thy ===== *)
theory Rest_Strategy
  imports Api_Meta
begin

text \<open>
  Strategies and the generic checks around a write.
  \<^item> \<open>pkg/server/builder/rest/strategy.go\<close> and \<open>status.go\<close>:
    \<open>DefaultStrategy\<close> delegates to the optional methods of a resource type,
    \<open>StatusSubResourceStrategy\<close> lets an update change the status only. A Go type assertion
    on an optional interface is an \<open>option\<close>-valued field of the record of methods.
  \<^item> \<open>rest.BeforeCreate\<close> and \<open>rest.BeforeUpdate\<close> of the vendored
    \<open>k8s.io/apiserver/pkg/registry/rest\<close>, with the metadata validation they run. The
    validators of labels, annotations, owner references, finalizer names and managed fields are
    parameters, in the record \<open>meta_validators\<close>.
\<close>

section \<open>Definitions\<close>

subsection \<open>Request contexts\<close>

text \<open>The namespace that \<open>genericapirequest.NamespaceFrom\<close> finds, and the result of the
  \<open>n\<close>-th call of \<open>ctx.Err()\<close>.\<close>

record request_ctx =
  ctx_namespace :: "string option"
  ctx_Err :: "nat \<Rightarrow> go_error option"

subsection \<open>Methods of a resource type\<close>

text \<open>What reflection sees of a method: the number of arguments, whether the first one is
  assignable to the receiver's type, and the number of results.\<close>

record method_signature =
  NumIn :: nat
  In0_AssignableTo :: bool
  NumOut :: nat

record 'b type_methods =
  tm_GenerateName :: "(string \<Rightarrow> string) option"
  tm_NamespaceScoped :: "bool option"
  tm_ShortNames :: "string list option"
  tm_GetSingularName :: "string option"
  tm_PrepareForCreate :: "(request_ctx \<Rightarrow> 'b Object \<Rightarrow> 'b Object) option"
  tm_PrepareForUpdate :: "(request_ctx \<Rightarrow> 'b Object \<Rightarrow> 'b Object \<Rightarrow> 'b Object) option"
  tm_Validate :: "(request_ctx \<Rightarrow> 'b Object \<Rightarrow> field_error list) option"
  tm_ValidateUpdate :: "(request_ctx \<Rightarrow> 'b Object \<Rightarrow> 'b Object \<Rightarrow> field_error list) option"
  tm_Canonicalize :: "('b Object \<Rightarrow> 'b Object) option"
  tm_AllowCreateOnUpdate :: "bool option"
  tm_AllowUnconditionalUpdate :: "bool option"
  tm_StatusCopyTo :: "('b Object \<Rightarrow> 'b Object \<Rightarrow> 'b Object) option"
  tm_DeepCopyInto :: "method_signature option"

text \<open>\<open>tm_StatusCopyTo\<close> is \<open>from.GetStatus().CopyTo(to)\<close>: it returns \<open>to\<close> with
  the status of \<open>from\<close>, when the type is an \<open>ObjectWithStatusSubResource\<close>.\<close>

subsection \<open>The strategy interface\<close>

record 'b Strategy =
  ObjectKinds :: "'b Object \<Rightarrow> go_error + string"
  strat_NamespaceScoped :: bool
  strat_ShortNames :: "string list"
  strat_GetSingularName :: string
  strat_GenerateName :: "string \<Rightarrow> string"
  strat_PrepareForCreate :: "request_ctx \<Rightarrow> 'b Object \<Rightarrow> 'b Object"
  strat_PrepareForUpdate :: "request_ctx \<Rightarrow> 'b Object \<Rightarrow> 'b Object \<Rightarrow> ('b Object \<times> 'b Object) option"
  strat_Validate :: "request_ctx \<Rightarrow> 'b Object \<Rightarrow> field_error list"
  strat_ValidateUpdate :: "request_ctx \<Rightarrow> 'b Object \<Rightarrow> 'b Object \<Rightarrow> field_error list"
  strat_Canonicalize :: "'b Object \<Rightarrow> 'b Object"
  strat_AllowCreateOnUpdate :: bool
  strat_AllowUnconditionalUpdate :: bool

text \<open>\<open>strat_PrepareForUpdate ctx obj old\<close> returns the new contents of both objects, since
  both are pointers; \<open>None\<close> is a panic.\<close>

subsection \<open>DefaultStrategy\<close>

text \<open>The struct: the prototype object (which may be nil) and the object typer. The methods of
  an argument are those of its own dynamic type, \<open>methods_of obj\<close>.\<close>

record 'b DefaultStrategy =
  ds_Object :: "'b type_methods option"
  ds_ObjectTyper :: "'b Object \<Rightarrow> go_error + string"

definition SimpleNameGenerator_GenerateName :: "(nat \<Rightarrow> string) \<Rightarrow> string \<Rightarrow> string" where
  "SimpleNameGenerator_GenerateName rand_String base =
     (let base' = (if length base > 58 then take 58 base else base) in base' @ rand_String 5)"

definition DefaultStrategy_GenerateName ::
  "(nat \<Rightarrow> string) \<Rightarrow> 'b DefaultStrategy \<Rightarrow> string \<Rightarrow> string" where
  "DefaultStrategy_GenerateName rand_String d base =
     (case ds_Object d of
        None \<Rightarrow> SimpleNameGenerator_GenerateName rand_String base
      | Some o' \<Rightarrow>
          (case tm_GenerateName o' of
             Some gen \<Rightarrow> gen base
           | None \<Rightarrow> SimpleNameGenerator_GenerateName rand_String base))"

definition DefaultStrategy_NamespaceScoped :: "'b DefaultStrategy \<Rightarrow> bool" where
  "DefaultStrategy_NamespaceScoped d =
     (case ds_Object d of
        None \<Rightarrow> True
      | Some o' \<Rightarrow> (case tm_NamespaceScoped o' of Some b \<Rightarrow> b | None \<Rightarrow> True))"

definition DefaultStrategy_ShortNames :: "'b DefaultStrategy \<Rightarrow> string list" where
  "DefaultStrategy_ShortNames d =
     (case ds_Object d of
        None \<Rightarrow> []
      | Some o' \<Rightarrow> (case tm_ShortNames o' of Some ns \<Rightarrow> ns | None \<Rightarrow> []))"

definition DefaultStrategy_GetSingularName :: "'b DefaultStrategy \<Rightarrow> string" where
  "DefaultStrategy_GetSingularName d =
     (case ds_Object d of
        None \<Rightarrow> []
      | Some o' \<Rightarrow> (case tm_GetSingularName o' of Some n \<Rightarrow> n | None \<Rightarrow> []))"

definition DefaultStrategy_PrepareForCreate ::
  "('b Object \<Rightarrow> 'b type_methods) \<Rightarrow> request_ctx \<Rightarrow> 'b Object \<Rightarrow> 'b Object" where
  "DefaultStrategy_PrepareForCreate methods_of ctx obj =
     (case tm_PrepareForCreate (methods_of obj) of Some v \<Rightarrow> v ctx obj | None \<Rightarrow> obj)"

definition DefaultStrategy_PrepareForUpdate ::
  "('b Object \<Rightarrow> 'b type_methods) \<Rightarrow> request_ctx \<Rightarrow> 'b Object \<Rightarrow> 'b Object \<Rightarrow> ('b Object \<times> 'b Object) option" where
  "DefaultStrategy_PrepareForUpdate methods_of ctx obj old =
     do {
       obj1 \<leftarrow>
         (case tm_StatusCopyTo (methods_of obj) of
            None \<Rightarrow> Some obj
          | Some _ \<Rightarrow>
              (case tm_StatusCopyTo (methods_of old) of
                 None \<Rightarrow> None
               | Some copyTo \<Rightarrow> Some (copyTo old obj)));
       Some
         (case tm_PrepareForUpdate (methods_of obj) of
            Some v \<Rightarrow> v ctx obj1 old
          | None \<Rightarrow> obj1, old)
     }"

definition DefaultStrategy_Validate ::
  "('b Object \<Rightarrow> 'b type_methods) \<Rightarrow> request_ctx \<Rightarrow> 'b Object \<Rightarrow> field_error list" where
  "DefaultStrategy_Validate methods_of ctx obj =
     (case tm_Validate (methods_of obj) of Some v \<Rightarrow> v ctx obj | None \<Rightarrow> [])"

definition DefaultStrategy_AllowCreateOnUpdate :: "'b DefaultStrategy \<Rightarrow> bool" where
  "DefaultStrategy_AllowCreateOnUpdate d =
     (case ds_Object d of
        None \<Rightarrow> False
      | Some o' \<Rightarrow> (case tm_AllowCreateOnUpdate o' of Some b \<Rightarrow> b | None \<Rightarrow> False))"

definition DefaultStrategy_AllowUnconditionalUpdate :: "'b DefaultStrategy \<Rightarrow> bool" where
  "DefaultStrategy_AllowUnconditionalUpdate d =
     (case ds_Object d of
        None \<Rightarrow> False
      | Some o' \<Rightarrow> (case tm_AllowUnconditionalUpdate o' of Some b \<Rightarrow> b | None \<Rightarrow> False))"

definition DefaultStrategy_Canonicalize :: "('b Object \<Rightarrow> 'b type_methods) \<Rightarrow> 'b Object \<Rightarrow> 'b Object" where
  "DefaultStrategy_Canonicalize methods_of obj =
     (case tm_Canonicalize (methods_of obj) of Some c \<Rightarrow> c obj | None \<Rightarrow> obj)"

definition DefaultStrategy_ValidateUpdate ::
  "('b Object \<Rightarrow> 'b type_methods) \<Rightarrow> request_ctx \<Rightarrow> 'b Object \<Rightarrow> 'b Object \<Rightarrow> field_error list" where
  "DefaultStrategy_ValidateUpdate methods_of ctx obj old =
     (case tm_ValidateUpdate (methods_of obj) of Some v \<Rightarrow> v ctx obj old | None \<Rightarrow> [])"

text \<open>A \<open>DefaultStrategy\<close> used as a \<open>Strategy\<close>.\<close>

definition default_strategy ::
  "(nat \<Rightarrow> string) \<Rightarrow> ('b Object \<Rightarrow> 'b type_methods) \<Rightarrow> 'b DefaultStrategy \<Rightarrow> 'b Strategy" where
  "default_strategy rand_String methods_of d =
     \<lparr>ObjectKinds = ds_ObjectTyper d,
      strat_NamespaceScoped = DefaultStrategy_NamespaceScoped d,
      strat_ShortNames = DefaultStrategy_ShortNames d,
      strat_GetSingularName = DefaultStrategy_GetSingularName d,
      strat_GenerateName = DefaultStrategy_GenerateName rand_String d,
      strat_PrepareForCreate = DefaultStrategy_PrepareForCreate methods_of,
      strat_PrepareForUpdate = DefaultStrategy_PrepareForUpdate methods_of,
      strat_Validate = DefaultStrategy_Validate methods_of,
      strat_ValidateUpdate = DefaultStrategy_ValidateUpdate methods_of,
      strat_Canonicalize = DefaultStrategy_Canonicalize methods_of,
      strat_AllowCreateOnUpdate = DefaultStrategy_AllowCreateOnUpdate d,
      strat_AllowUnconditionalUpdate = DefaultStrategy_AllowUnconditionalUpdate d\<rparr>"

subsection \<open>StatusSubResourceStrategy\<close>

text \<open>\<open>util.DeepCopy(src, dst)\<close>: the method \<open>DeepCopyInto\<close> is found by reflection
  and its signature checked.\<close>

definition checkSignature :: "method_signature \<Rightarrow> go_error option" where
  "checkSignature m =
     (if NumIn m \<noteq> 1 then Some (OtherError ''invalid number of arguments'')
      else if \<not> In0_AssignableTo m then Some (OtherError ''invalid type of arguments'')
      else if NumOut m \<noteq> 0 then Some (OtherError ''should not have return values'')
      else None)"

definition util_DeepCopy ::
  "('b Object \<Rightarrow> 'b type_methods) \<Rightarrow> 'b Object \<Rightarrow> 'b Object \<Rightarrow> go_error + 'b Object" where
  "util_DeepCopy methods_of src dst =
     (case tm_DeepCopyInto (methods_of src) of
        None \<Rightarrow> Inl (OtherError ''no DeepCopyInto method found'')
      | Some m \<Rightarrow> (case checkSignature m of Some e \<Rightarrow> Inl e | None \<Rightarrow> Inr src))"

text \<open>The status of the new object is copied into the old object, and then the old object over
  the new one. Both casts panic on a type without a status; an error of the copy is logged.\<close>

definition StatusSubResourceStrategy_PrepareForUpdate ::
  "('b Object \<Rightarrow> 'b type_methods) \<Rightarrow> request_ctx \<Rightarrow> 'b Object \<Rightarrow> 'b Object \<Rightarrow> ('b Object \<times> 'b Object) option" where
  "StatusSubResourceStrategy_PrepareForUpdate methods_of ctx obj old =
     (case (tm_StatusCopyTo (methods_of obj), tm_StatusCopyTo (methods_of old)) of
        (Some copyTo, Some _) \<Rightarrow>
          (let statusOld = copyTo obj old
           in case util_DeepCopy methods_of statusOld obj of
                Inl _ \<Rightarrow> Some (obj, statusOld)
              | Inr obj' \<Rightarrow> Some (obj', statusOld))
      | _ \<Rightarrow> None)"

definition status_strategy :: "('b Object \<Rightarrow> 'b type_methods) \<Rightarrow> 'b Strategy \<Rightarrow> 'b Strategy" where
  "status_strategy methods_of s =
     s\<lparr>strat_PrepareForUpdate := StatusSubResourceStrategy_PrepareForUpdate methods_of\<rparr>"

subsection \<open>Validation of names\<close>

definition IsValidPathSegmentPrefix :: "string \<Rightarrow> string list" where
  "IsValidPathSegmentPrefix name =
     concat (map (\<lambda>c. if c \<in> set name then [''may not contain '' @ [c]] else []) [CHR ''/'', CHR ''%''])"

definition IsValidPathSegmentName :: "string \<Rightarrow> string list" where
  "IsValidPathSegmentName name =
     (if name \<in> set [''.'', ''..''] then [''may not be '' @ name]
      else concat (map (\<lambda>c. if c \<in> set name then [''may not contain '' @ [c]] else []) [CHR ''/'', CHR ''%'']))"

definition ValidatePathSegmentName :: "string \<Rightarrow> bool \<Rightarrow> string list" where
  "ValidatePathSegmentName name prefix =
     (if prefix then IsValidPathSegmentPrefix name else IsValidPathSegmentName name)"

text \<open>\<open>[a-z0-9]([-a-z0-9]*[a-z0-9])?\<close> and its length bound; the wording of the message for a
  label that fails the pattern depends on a second pattern and is not kept.\<close>

definition dns_alnum :: "char \<Rightarrow> bool" where
  "dns_alnum c \<longleftrightarrow>
     (let n = (of_char c :: nat) in 97 \<le> n \<and> n \<le> 122 \<or> 48 \<le> n \<and> n \<le> 57)"

definition dns1123Label_match :: "string \<Rightarrow> bool" where
  "dns1123Label_match v \<longleftrightarrow>
     v \<noteq> [] \<and> dns_alnum (hd v) \<and> dns_alnum (last v) \<and> list_all (\<lambda>c. dns_alnum c \<or> c = CHR ''-'') v"

definition IsDNS1123Label :: "string \<Rightarrow> string list" where
  "IsDNS1123Label v =
     (if length v > 63 then [''must be no more than 63 characters''] else []) @
     (if dns1123Label_match v then [] else [''a lowercase RFC 1123 label''])"

text \<open>\<open>maskTrailingDash\<close> replaces a trailing dash of a prefix by a letter.\<close>

definition maskTrailingDash :: "string \<Rightarrow> string" where
  "maskTrailingDash name =
     (if length name > 1 \<and> HasSuffix name ''-'' then take (length name - 2) name @ ''a'' else name)"

definition ValidateNamespaceName :: "string \<Rightarrow> bool \<Rightarrow> string list" where
  "ValidateNamespaceName name prefix = IsDNS1123Label (if prefix then maskTrailingDash name else name)"

subsection \<open>Validation of metadata\<close>

record meta_validators =
  ValidateLabels :: "(string \<times> string) list \<Rightarrow> field_error list"
  ValidateAnnotations :: "(string \<times> string) list \<Rightarrow> field_error list"
  ValidateOwnerReferences :: "string list \<Rightarrow> field_error list"
  ValidateFinalizerName :: "string \<Rightarrow> field_error list"
  ValidateManagedFields :: "string list \<Rightarrow> field_error list"

definition ValidateNonnegativeField :: "int \<Rightarrow> string \<Rightarrow> field_error list" where
  "ValidateNonnegativeField v fld = (if v < 0 then [FieldInvalid fld] else [])"

definition ValidateImmutableField :: "'v \<Rightarrow> 'v \<Rightarrow> string \<Rightarrow> field_error list" where
  "ValidateImmutableField newVal oldVal fld = (if oldVal \<noteq> newVal then [FieldInvalid fld] else [])"

definition ValidateNoNewFinalizers :: "string list \<Rightarrow> string list \<Rightarrow> string \<Rightarrow> field_error list" where
  "ValidateNoNewFinalizers newFinalizers oldFinalizers fld =
     (if filter (\<lambda>f. f \<notin> set oldFinalizers) newFinalizers \<noteq> [] then [FieldForbidden fld] else [])"

definition ValidateFinalizers :: "meta_validators \<Rightarrow> string list \<Rightarrow> string \<Rightarrow> field_error list" where
  "ValidateFinalizers V finalizers fld =
     concat (map (ValidateFinalizerName V) finalizers) @
     (if ''foregroundDeletion'' \<in> set finalizers \<and> ''orphan'' \<in> set finalizers
      then [FieldInvalid fld] else [])"

definition validateObjectMetaAccessorWithOptsCommon ::
  "meta_validators \<Rightarrow> ObjectMeta \<Rightarrow> bool \<Rightarrow> field_error list" where
  "validateObjectMetaAccessorWithOptsCommon V m isNamespaced =
     (if isNamespaced
      then (if Namespace m = [] then [FieldRequired ''metadata.namespace'']
            else map (\<lambda>msg. FieldInvalid ''metadata.namespace'') (ValidateNamespaceName (Namespace m) False))
      else (if Namespace m \<noteq> [] then [FieldForbidden ''metadata.namespace''] else [])) @
     ValidateNonnegativeField (Generation m) ''metadata.generation'' @
     ValidateLabels V (Labels m) @
     ValidateAnnotations V (Annotations m) @
     ValidateOwnerReferences V (OwnerReferences m) @
     ValidateFinalizers V (Finalizers m) ''metadata.finalizers'' @
     ValidateManagedFields V (ManagedFields m)"

definition ValidateObjectMetaAccessor ::
  "meta_validators \<Rightarrow> ObjectMeta \<Rightarrow> bool \<Rightarrow> (string \<Rightarrow> bool \<Rightarrow> string list) \<Rightarrow> field_error list" where
  "ValidateObjectMetaAccessor V m requiresNamespace nameFn =
     (if GenerateName m \<noteq> []
      then map (\<lambda>msg. FieldInvalid ''metadata.generateName'') (nameFn (GenerateName m) True) else []) @
     (if Name m = [] then [FieldRequired ''metadata.name'']
      else map (\<lambda>msg. FieldInvalid ''metadata.name'') (nameFn (Name m) False)) @
     validateObjectMetaAccessorWithOptsCommon V m requiresNamespace"

definition ValidateObjectMetaAccessorUpdate ::
  "meta_validators \<Rightarrow> ObjectMeta \<Rightarrow> ObjectMeta \<Rightarrow> field_error list" where
  "ValidateObjectMetaAccessorUpdate V new old =
     (if DeletionTimestamp old \<noteq> None
      then ValidateNoNewFinalizers (Finalizers new) (Finalizers old) ''metadata.finalizers'' else []) @
     (if ResourceVersion new = [] then [FieldInvalid ''metadata.resourceVersion''] else []) @
     (if Generation new < Generation old then [FieldInvalid ''metadata.generation''] else []) @
     ValidateImmutableField (Name new) (Name old) ''metadata.name'' @
     ValidateImmutableField (Namespace new) (Namespace old) ''metadata.namespace'' @
     ValidateImmutableField (UID new) (UID old) ''metadata.uid'' @
     ValidateImmutableField (CreationTimestamp new) (CreationTimestamp old) ''metadata.creationTimestamp'' @
     ValidateImmutableField (DeletionTimestamp new) (DeletionTimestamp old) ''metadata.deletionTimestamp'' @
     ValidateImmutableField (DeletionGracePeriodSeconds new) (DeletionGracePeriodSeconds old)
       ''metadata.deletionGracePeriodSeconds'' @
     ValidateLabels V (Labels new) @
     ValidateAnnotations V (Annotations new) @
     ValidateOwnerReferences V (OwnerReferences new) @
     ValidateManagedFields V (ManagedFields new)"

subsection \<open>Before a create or an update\<close>

definition FillObjectMetaSystemFields :: "gotime \<Rightarrow> string \<Rightarrow> 'b Object \<Rightarrow> 'b Object" where
  "FillObjectMetaSystemFields now uuid obj =
     update_meta (\<lambda>m. m\<lparr>CreationTimestamp := now, UID := uuid\<rparr>) obj"

definition HasObjectMetaSystemFieldValues :: "ObjectMeta \<Rightarrow> bool" where
  "HasObjectMetaSystemFieldValues m \<longleftrightarrow> CreationTimestamp m \<noteq> 0 \<or> UID m \<noteq> []"

definition EnsureObjectNamespaceMatchesRequestNamespace :: "string \<Rightarrow> ObjectMeta \<Rightarrow> go_error + ObjectMeta" where
  "EnsureObjectNamespaceMatchesRequestNamespace requestNamespace m =
     (if Namespace m = requestNamespace then Inr m
      else if Namespace m = [] then Inr (m\<lparr>Namespace := requestNamespace\<rparr>)
      else if requestNamespace = [] then Inr (m\<lparr>Namespace := []\<rparr>)
      else Inl (BadRequest ''the namespace of the provided object does not match the namespace sent on the request''))"

definition ExpectedNamespaceForScope :: "string \<Rightarrow> bool \<Rightarrow> string" where
  "ExpectedNamespaceForScope requestNamespace namespaceScoped = (if namespaceScoped then requestNamespace else [])"

definition objectMetaAndKind :: "'b Strategy \<Rightarrow> 'b Object \<Rightarrow> go_error + ObjectMeta \<times> string" where
  "objectMetaAndKind typer obj =
     (case meta_Accessor obj of
        Inl e \<Rightarrow> Inl (InternalError e)
      | Inr m \<Rightarrow>
          (case ObjectKinds typer obj of
             Inl e \<Rightarrow> Inl (InternalError e)
           | Inr kind \<Rightarrow> Inr (m, kind)))"

text \<open>The metadata accessor points into the object, so after a hook ran it reads the new
  metadata; the object still has some, because its type did not change.\<close>

definition set_meta :: "ObjectMeta \<Rightarrow> 'b Object \<Rightarrow> 'b Object" where
  "set_meta m obj = obj\<lparr>Metadata := Some m\<rparr>"

definition BeforeCreate :: "meta_validators \<Rightarrow> 'b Strategy \<Rightarrow> request_ctx \<Rightarrow> 'b Object \<Rightarrow> go_error + 'b Object" where
  "BeforeCreate V strategy ctx obj =
     (case objectMetaAndKind strategy obj of
        Inl e \<Rightarrow> Inl e
      | Inr (objectMeta, kind) \<Rightarrow>
          if \<not> HasObjectMetaSystemFieldValues objectMeta
          then Inl (InternalError (OtherError ''system metadata was not initialized''))
          else if GenerateName objectMeta \<noteq> [] \<and> Name objectMeta = []
          then Inl (InternalError (OtherError ''metadata.name was not generated''))
          else
            (case ctx_namespace ctx of
               None \<Rightarrow> Inl (InternalError (OtherError ''no namespace information found in request context''))
             | Some requestNamespace \<Rightarrow>
                 (case EnsureObjectNamespaceMatchesRequestNamespace
                         (ExpectedNamespaceForScope requestNamespace (strat_NamespaceScoped strategy)) objectMeta of
                    Inl e \<Rightarrow> Inl e
                  | Inr m1 \<Rightarrow>
                      (let obj1 = strat_PrepareForCreate strategy ctx (set_meta m1 obj)
                       in case meta_Accessor obj1 of
                            Inl e \<Rightarrow> Inl e
                          | Inr m2 \<Rightarrow>
                              if strat_Validate strategy ctx obj1 \<noteq> []
                              then Inl (Invalid (Name m2) (strat_Validate strategy ctx obj1))
                              else
                                (let errs = ValidateObjectMetaAccessor V m2 (strat_NamespaceScoped strategy)
                                              ValidatePathSegmentName
                                 in if errs \<noteq> [] then Inl (Invalid (Name m2) errs)
                                    else Inr (strat_Canonicalize strategy obj1))))))"

definition validateCommonFields ::
  "meta_validators \<Rightarrow> 'b Object \<Rightarrow> 'b Object \<Rightarrow> 'b Strategy \<Rightarrow> go_error + field_error list" where
  "validateCommonFields V obj old strategy =
     (case meta_Accessor obj of
        Inl e \<Rightarrow> Inl (OtherError ''failed to get new object metadata'')
      | Inr objectMeta \<Rightarrow>
          (case meta_Accessor old of
             Inl e \<Rightarrow> Inl (OtherError ''failed to get old object metadata'')
           | Inr oldObjectMeta \<Rightarrow>
               Inr (ValidateObjectMetaAccessor V objectMeta (strat_NamespaceScoped strategy) ValidatePathSegmentName @
                    ValidateObjectMetaAccessorUpdate V objectMeta oldObjectMeta)))"

text \<open>The fields that an update cannot change.\<close>

definition keep_system_fields :: "ObjectMeta \<Rightarrow> ObjectMeta \<Rightarrow> ObjectMeta" where
  "keep_system_fields oldMeta m0 =
     (let m1 = (if UID m0 = [] then m0\<lparr>UID := UID oldMeta\<rparr> else m0);
          m2 = (if CreationTimestamp oldMeta \<noteq> 0 then m1\<lparr>CreationTimestamp := CreationTimestamp oldMeta\<rparr> else m1);
          m3 = (if \<not> Time_IsZero (DeletionTimestamp oldMeta)
                then m2\<lparr>DeletionTimestamp := DeletionTimestamp oldMeta\<rparr> else m2)
      in (if DeletionGracePeriodSeconds oldMeta \<noteq> None \<and> DeletionGracePeriodSeconds m3 = None
          then m3\<lparr>DeletionGracePeriodSeconds := DeletionGracePeriodSeconds oldMeta\<rparr> else m3))"

text \<open>The old object is \<open>None\<close> when it is nil. The result holds the new contents of both
  objects; \<open>None\<close> is a panic of a hook.\<close>

definition BeforeUpdate ::
  "meta_validators \<Rightarrow> 'b Strategy \<Rightarrow> request_ctx \<Rightarrow> 'b Object \<Rightarrow> 'b Object option \<Rightarrow>
     (go_error + 'b Object \<times> 'b Object) option" where
  "BeforeUpdate V strategy ctx obj oldOpt =
     (case objectMetaAndKind strategy obj of
        Inl e \<Rightarrow> Some (Inl e)
      | Inr (objectMeta, kind) \<Rightarrow>
          (case ctx_namespace ctx of
             None \<Rightarrow> Some (Inl (InternalError (OtherError ''no namespace information found in request context'')))
           | Some requestNamespace \<Rightarrow>
               (case EnsureObjectNamespaceMatchesRequestNamespace
                       (ExpectedNamespaceForScope requestNamespace (strat_NamespaceScoped strategy)) objectMeta of
                  Inl e \<Rightarrow> Some (Inl e)
                | Inr m1 \<Rightarrow>
                    (case oldOpt of
                       None \<Rightarrow> Some (Inl ErrNotObject)
                     | Some old \<Rightarrow>
                         (case meta_Accessor old of
                            Inl e \<Rightarrow> Some (Inl e)
                          | Inr oldMeta0 \<Rightarrow>
                              (case strat_PrepareForUpdate strategy ctx
                                      (set_meta (m1\<lparr>Generation := Generation oldMeta0\<rparr>) obj) old of
                                 None \<Rightarrow> None
                               | Some (obj1, old1) \<Rightarrow>
                                   Some
                                     (case (meta_Accessor obj1, meta_Accessor old1) of
                                        (Inr m2, Inr oldMeta) \<Rightarrow>
                                          (let obj2 = set_meta (keep_system_fields oldMeta m2) obj1
                                           in case validateCommonFields V obj2 old1 strategy of
                                                Inl e \<Rightarrow> Inl (InternalError e)
                                              | Inr errs \<Rightarrow>
                                                  (let errs' = errs @ strat_ValidateUpdate strategy ctx obj2 old1
                                                   in if errs' \<noteq> [] then Inl (Invalid (Name m2) errs')
                                                      else Inr (strat_Canonicalize strategy obj2, old1)))
                                      | _ \<Rightarrow> Inl ErrNotObject)))))))"

end
