(* ===== verification/Watch_Set.thy ===== *)
theory Watch_Set
  imports Api_Meta
begin

text \<open>
  \<open>pkg/storage/filepath/watchset.go\<close>, as one handler sees it. A call of
  \<open>notifyWatchers\<close> hands the event to the goroutine of every registered node over an
  unbuffered channel, so it returns once every goroutine has received it. In this view a running
  goroutine passes each event that matches its predicate on to its consumer, who reads
  \<open>ResultChan\<close>; the list \<open>wn_out\<close> is what the consumer receives, in order. A
  registered node without a goroutine never receives, and the call never returns (\<open>None\<close>).
  The interleaving of the channel operations is the subject of \<open>Watch_Concurrency\<close>.
\<close>

section \<open>Definitions\<close>

datatype EventType = Added | Modified | Deleted

record 'b Event =
  ev_Type :: EventType
  ev_Object :: "'b Object"

text \<open>A node: its id, the predicate its goroutine was started with, whether the goroutine
  runs, and the events it has put on \<open>outCh\<close>.\<close>

record 'b watchNode =
  wn_id :: "64 word"
  wn_p :: "'b SelectionPredicate option"
  wn_running :: bool
  wn_out :: "'b Event list"

text \<open>The set: the registered nodes, the counter, and the ids whose channels \<open>Stop\<close> has
  closed.\<close>

record 'b WatchSet =
  ws_nodes :: "(64 word \<times> 'b watchNode) list"
  ws_counter :: "64 word"
  ws_closed :: "64 word list"

definition NewWatchSet :: "'b WatchSet" where
  "NewWatchSet = \<lparr>ws_nodes = [], ws_counter = 0, ws_closed = []\<rparr>"

definition newWatch :: "'b WatchSet \<Rightarrow> 'b WatchSet \<times> 'b watchNode" where
  "newWatch s =
     (let c = ws_counter s + 1
      in (s\<lparr>ws_counter := c\<rparr>, \<lparr>wn_id = c, wn_p = None, wn_running = False, wn_out = []\<rparr>))"

text \<open>One iteration of the goroutine's loop over \<open>updateCh\<close>: an event whose match fails
  with an error or is negative is dropped.\<close>

definition receive :: "'b Event \<Rightarrow> 'b watchNode \<Rightarrow> 'b watchNode" where
  "receive ev w =
     (case wn_p w of
        None \<Rightarrow> w
      | Some p \<Rightarrow>
          (case SelectionPredicate_Matches p (ev_Object ev) of
             Inl _ \<Rightarrow> w
           | Inr ok \<Rightarrow> if ok then w\<lparr>wn_out := wn_out w @ [ev]\<rparr> else w))"

definition WatchSet_notifyWatchers :: "'b Event \<Rightarrow> 'b WatchSet \<Rightarrow> 'b WatchSet option" where
  "WatchSet_notifyWatchers ev s =
     (if list_all (\<lambda>(i, w). wn_running w) (ws_nodes s)
      then Some (s\<lparr>ws_nodes := map (\<lambda>(i, w). (i, receive ev w)) (ws_nodes s)\<rparr>)
      else None)"

text \<open>\<open>Start\<close> registers the node before it asks for the initial events. The factory runs
  on another part of the state, which is threaded through.\<close>

definition watchNode_Start ::
  "'b watchNode \<Rightarrow> 'b SelectionPredicate \<Rightarrow> ('s \<Rightarrow> ('s \<times> (go_error + 'b Event list)) option) \<Rightarrow>
     's \<times> 'b WatchSet \<Rightarrow> (('s \<times> 'b WatchSet) \<times> go_error option) option" where
  "watchNode_Start w p initEventFactory st =
     (let (s, ws) = st;
          ws1 = ws\<lparr>ws_nodes := AList.update (wn_id w) w (ws_nodes ws)\<rparr>
      in case initEventFactory s of
           None \<Rightarrow> None
         | Some (s', Inl e) \<Rightarrow> Some ((s', ws1), Some e)
         | Some (s', Inr initEvents) \<Rightarrow>
             (let w' = w\<lparr>wn_p := Some p, wn_running := True, wn_out := wn_out w @ initEvents\<rparr>
              in Some ((s', ws1\<lparr>ws_nodes := AList.update (wn_id w) w' (ws_nodes ws1)\<rparr>), None)))"

text \<open>\<open>Stop\<close>: closing a channel twice panics.\<close>

definition watchNode_Stop :: "64 word \<Rightarrow> 'b WatchSet \<Rightarrow> 'b WatchSet option" where
  "watchNode_Stop i s =
     (if i \<in> set (ws_closed s) then None
      else Some (s\<lparr>ws_nodes := AList.delete i (ws_nodes s), ws_closed := i # ws_closed s\<rparr>))"

section \<open>Lemmas\<close>

definition ws_live :: "'b WatchSet \<Rightarrow> bool" where
  "ws_live s \<longleftrightarrow> list_all (\<lambda>(i, w). wn_running w) (ws_nodes s)"

lemma notifyWatchers_live [simp]:
  "ws_live s \<Longrightarrow> WatchSet_notifyWatchers ev s =
     Some (s\<lparr>ws_nodes := map (\<lambda>(i, w). (i, receive ev w)) (ws_nodes s)\<rparr>)"
  by (simp add: WatchSet_notifyWatchers_def ws_live_def)

lemma notifyWatchers_dead: "\<not> ws_live s \<Longrightarrow> WatchSet_notifyWatchers ev s = None"
  by (simp add: WatchSet_notifyWatchers_def ws_live_def)

lemma receive_simps [simp]: "wn_running (receive ev w) = wn_running w" "wn_id (receive ev w) = wn_id w"
  by (simp_all add: receive_def split: option.splits sum.splits)

lemma notifyWatchers_keeps_live:
  "WatchSet_notifyWatchers ev s = Some s' \<Longrightarrow> ws_live s'"
  by (fastforce simp: WatchSet_notifyWatchers_def ws_live_def list_all_iff split: if_splits)

lemma watchNode_Stop_live: "watchNode_Stop i s = Some s' \<Longrightarrow> ws_live s \<Longrightarrow> ws_live s'"
  using set_delete_subset [of i "ws_nodes s"]
  by (auto simp: watchNode_Stop_def ws_live_def list_all_iff split: if_splits)

lemma NewWatchSet_live [simp]: "ws_live NewWatchSet"
  by (simp add: ws_live_def NewWatchSet_def)

end
