(* ===== verification/Filepath_Rest.thy ===== *)
theory Filepath_Rest
  imports Fs_Interface Rest_Strategy Watch_Set
begin

text \<open>
  The REST handlers of \<open>pkg/storage/filepath/jsonfile_rest.go\<close> over any file system that
  implements \<open>FS\<close>. A handler threads the store (the file system and the watch set) and
  returns the result of the Go method; \<open>None\<close> means that the call never returns: the file
  system or \<open>notifyWatchers\<close> blocks, or a hook panics.

  The clock, the UID generator, \<open>objInfo.UpdatedObject\<close> and the validation callbacks are
  arguments. The resource version of a list and its items are those of \<open>ListObject\<close>.
\<close>

section \<open>Definitions\<close>

subsection \<open>The storage object\<close>

record ('fs, 'b) filepathREST =
  rest_enc :: "'b encoder"
  rest_dec :: "'b decoder"
  objRootPath :: string
  newFunc :: "'b Object"
  newListFunc :: "'b ListObject"
  rest_strategy :: "'b Strategy"
  groupResource :: GroupResource
  rest_fs :: "('fs, 'b) FS"

record ('fs, 'b) store =
  st_fs :: 'fs
  st_ws :: "'b WatchSet"

text \<open>The constructor panics when the directory cannot be created.\<close>

definition NewFilepathREST ::
  "('fs, 'b) FS \<Rightarrow> 'b Strategy \<Rightarrow> GroupResource \<Rightarrow> 'b encoder \<Rightarrow> 'b decoder \<Rightarrow> string \<Rightarrow>
     'b Object \<Rightarrow> 'b ListObject \<Rightarrow> 'fs \<Rightarrow> ('fs \<times> ('fs, 'b) filepathREST) option" where
  "NewFilepathREST fs strategy gr enc dec rootpath new newList s =
     (let objRoot = Join [rootpath, gr_Group gr, gr_Resource gr]
      in case fs_EnsureDir fs objRoot s of
           None \<Rightarrow> None
         | Some (s', Some e) \<Rightarrow> None
         | Some (s', None) \<Rightarrow>
             Some (s', \<lparr>rest_enc = enc, rest_dec = dec, objRootPath = objRoot, newFunc = new,
                        newListFunc = newList, rest_strategy = strategy, groupResource = gr,
                        rest_fs = fs\<rparr>))"

definition NamespaceScoped :: "('fs, 'b) filepathREST \<Rightarrow> bool" where
  "NamespaceScoped f = strat_NamespaceScoped (rest_strategy f)"

definition ShortNames :: "('fs, 'b) filepathREST \<Rightarrow> string list" where
  "ShortNames f = strat_ShortNames (rest_strategy f)"

definition GetSingularName :: "('fs, 'b) filepathREST \<Rightarrow> string" where
  "GetSingularName f = strat_GetSingularName (rest_strategy f)"

text \<open>\<open>ns, _ := NamespaceFrom(ctx)\<close> is the empty string when there is no namespace.\<close>

definition ns_or_empty :: "request_ctx \<Rightarrow> string" where
  "ns_or_empty ctx = (case ctx_namespace ctx of None \<Rightarrow> [] | Some ns \<Rightarrow> ns)"

definition objectFileName :: "('fs, 'b) filepathREST \<Rightarrow> request_ctx \<Rightarrow> string \<Rightarrow> string" where
  "objectFileName f ctx name =
     (if NamespaceScoped f then Join [objRootPath f, ns_or_empty ctx, name @ ''.json'']
      else Join [objRootPath f, name @ ''.json''])"

definition objectDirName :: "('fs, 'b) filepathREST \<Rightarrow> request_ctx \<Rightarrow> string" where
  "objectDirName f ctx =
     (if NamespaceScoped f then Join [objRootPath f, ns_or_empty ctx] else Join [objRootPath f])"

definition conflictErr :: "('fs, 'b) filepathREST \<Rightarrow> string \<Rightarrow> go_error" where
  "conflictErr f name = Conflict (groupResource f) name"

definition notifyWatchers :: "'b Event \<Rightarrow> ('fs, 'b) store \<Rightarrow> ('fs, 'b) store option" where
  "notifyWatchers ev s = map_option (\<lambda>ws. s\<lparr>st_ws := ws\<rparr>) (WatchSet_notifyWatchers ev (st_ws s))"

subsection \<open>Get and List\<close>

definition rest_Get ::
  "('fs, 'b) filepathREST \<Rightarrow> request_ctx \<Rightarrow> string \<Rightarrow> 'fs \<Rightarrow> ('fs \<times> (go_error + 'b Object)) option" where
  "rest_Get f ctx name s =
     (case fs_Read (rest_fs f) (rest_dec f) (objectFileName f ctx name) (newFunc f) s of
        None \<Rightarrow> None
      | Some (s', Inl e) \<Rightarrow>
          Some (s', Inl (if os_IsNotExist e then NotFound (groupResource f) name else e))
      | Some (s', Inr obj) \<Rightarrow> Some (s', Inr obj))"

definition list_visitor ::
  "'b SelectionPredicate \<Rightarrow> string \<Rightarrow> 'b Object \<Rightarrow> 'b Object list \<Rightarrow> 'b Object list \<times> go_error option" where
  "list_visitor p path obj v =
     (case SelectionPredicate_Matches p obj of
        Inl e \<Rightarrow> (v, Some e)
      | Inr ok \<Rightarrow> (if ok then v @ [obj] else v, None))"

definition rest_List ::
  "('fs, 'b) filepathREST \<Rightarrow> request_ctx \<Rightarrow> ListOptions option \<Rightarrow> 'fs \<Rightarrow>
     ('fs \<times> (go_error + 'b ListObject)) option" where
  "rest_List f ctx options s =
     (let p = newSelectionPredicate options;
          newListObj = newListFunc f
      in case Items newListObj of
           Inl e \<Rightarrow> Some (s, Inl e)
         | Inr v \<Rightarrow>
             (let dirname = objectDirName f ctx
              in case fs_VisitDir (rest_fs f) dirname (newFunc f) (rest_dec f)
                        (pure_visitor (list_visitor p)) (s, v) of
                   None \<Rightarrow> None
                 | Some ((s', v'), Inl e) \<Rightarrow> Some (s', Inl (WalkError dirname e))
                 | Some ((s', v'), Inr rv) \<Rightarrow>
                     Some (s', setListResourceVersion (newListObj\<lparr>Items := Inr v'\<rparr>) rv)))"

subsection \<open>Create\<close>

type_synonym 'b validate_object = "('b Object option \<Rightarrow> go_error option) option"
type_synonym 'b validate_update = "('b Object \<Rightarrow> 'b Object \<Rightarrow> go_error option) option"

definition run_validation :: "'b validate_object \<Rightarrow> 'b Object option \<Rightarrow> go_error option" where
  "run_validation v obj = (case v of None \<Rightarrow> None | Some check \<Rightarrow> check obj)"

text \<open>The step "ensures namespace dir" of \<open>Create\<close> and \<open>Update\<close>.\<close>

definition ensure_namespace_dir ::
  "('fs, 'b) filepathREST \<Rightarrow> request_ctx \<Rightarrow> 'fs \<Rightarrow> ('fs \<times> go_error option) option" where
  "ensure_namespace_dir f ctx s =
     (if NamespaceScoped f
      then (case ctx_namespace ctx of
              None \<Rightarrow> Some (s, Some ErrNamespaceNotExists)
            | Some ns \<Rightarrow> fs_EnsureDir (rest_fs f) (Join [objRootPath f, ns]) s)
      else Some (s, None))"

text \<open>The part of \<open>Create\<close> after the checks of the object.\<close>

definition create_store ::
  "('fs, 'b) filepathREST \<Rightarrow> request_ctx \<Rightarrow> 'b Object \<Rightarrow> ('fs, 'b) store \<Rightarrow>
     (('fs, 'b) store \<times> (go_error + 'b Object)) option" where
  "create_store f ctx obj s =
     (let name = (case Metadata obj of None \<Rightarrow> [] | Some m \<Rightarrow> Name m);
          filename = objectFileName f ctx name
      in do {
           (s1, r) \<leftarrow> ensure_namespace_dir f ctx (st_fs s);
           (case r of
              Some e \<Rightarrow> Some (s\<lparr>st_fs := s1\<rparr>, Inl e)
            | None \<Rightarrow>
                do {
                  (s2, exists) \<leftarrow> fs_Exists (rest_fs f) filename s1;
                  if exists
                  then Some (s\<lparr>st_fs := s2\<rparr>, Inl (AlreadyExists (groupResource f) name))
                  else do {
                    (s3, obj', w) \<leftarrow> fs_Write (rest_fs f) (rest_enc f) filename obj 0 s2;
                    (case w of
                       Some e \<Rightarrow>
                         Some (s\<lparr>st_fs := s3\<rparr>, Inl (if is_VersionError e then conflictErr f name else e))
                     | None \<Rightarrow>
                         do {
                           s4 \<leftarrow> notifyWatchers \<lparr>ev_Type = Added, ev_Object = obj'\<rparr> (s\<lparr>st_fs := s3\<rparr>);
                           Some (s4, Inr obj')
                         })
                  }
                })
         })"

definition rest_Create ::
  "meta_validators \<Rightarrow> gotime \<Rightarrow> string \<Rightarrow> ('fs, 'b) filepathREST \<Rightarrow> request_ctx \<Rightarrow> 'b Object \<Rightarrow>
     'b validate_object \<Rightarrow> ('fs, 'b) store \<Rightarrow> (('fs, 'b) store \<times> (go_error + 'b Object)) option" where
  "rest_Create V now uuid f ctx obj createValidation s =
     (case meta_Accessor obj of
        Inl e \<Rightarrow> Some (s, Inl e)
      | Inr accessor \<Rightarrow>
          (case BeforeCreate V (rest_strategy f) ctx (FillObjectMetaSystemFields now uuid obj) of
             Inl e \<Rightarrow> Some (s, Inl e)
           | Inr obj1 \<Rightarrow>
               (case run_validation createValidation (Some obj1) of
                  Some e \<Rightarrow> Some (s, Inl e)
                | None \<Rightarrow> create_store f ctx obj1 s)))"

subsection \<open>Update\<close>

text \<open>
  The loop of \<open>guaranteedUpdate\<close>; \<open>n\<close> attempts are left and \<open>i\<close> were made. The
  function \<open>tryUpdate\<close> returns the object to write and the two flags that the closure of
  \<open>Update\<close> sets.
\<close>

type_synonym ('fs, 'b) updateFunc =
  "'b Object option \<Rightarrow> 'fs \<Rightarrow> ('fs \<times> (go_error + 'b Object \<times> bool \<times> bool)) option"

fun guaranteedUpdate_loop ::
  "('fs, 'b) filepathREST \<Rightarrow> request_ctx \<Rightarrow> string \<Rightarrow> ('fs, 'b) updateFunc \<Rightarrow> nat \<Rightarrow> nat \<Rightarrow> 'fs \<Rightarrow>
     ('fs \<times> (go_error + 'b Object \<times> bool \<times> bool)) option" where
  "guaranteedUpdate_loop f ctx name tryUpdate 0 i s =
     Some (s, Inl (InternalError (OtherError ''failed to persist to storage'')))"
| "guaranteedUpdate_loop f ctx name tryUpdate (Suc n) i s =
     (case ctx_Err ctx i of
        Some e \<Rightarrow> Some (s, Inl e)
      | None \<Rightarrow>
          do {
            (s1, got) \<leftarrow> rest_Get f ctx name s;
            (case (case got of
                     Inr obj \<Rightarrow> Inr (Some obj)
                   | Inl e \<Rightarrow> if apierrors_IsNotFound e then Inr None else Inl e) of
               Inl e \<Rightarrow> Some (s1, Inl e)
             | Inr storageObj \<Rightarrow>
                 (case getResourceVersion storageObj of
                    Inl e \<Rightarrow> Some (s1, Inl e)
                  | Inr storageVersion \<Rightarrow>
                      do {
                        (s2, r) \<leftarrow> tryUpdate storageObj s1;
                        (case r of
                           Inl e \<Rightarrow> Some (s2, Inl e)
                         | Inr (out, flags) \<Rightarrow>
                             do {
                               (s3, out', w) \<leftarrow> fs_Write (rest_fs f) (rest_enc f) (objectFileName f ctx name) out storageVersion s2;
                               (case w of
                                  None \<Rightarrow> Some (s3, Inr (out', flags))
                                | Some e \<Rightarrow>
                                    if is_VersionError e
                                    then guaranteedUpdate_loop f ctx name tryUpdate n (Suc i) s3
                                    else Some (s3, Inl e))
                             })
                      }))
          })"

definition maxAttempts :: nat where
  "maxAttempts = 100"

definition guaranteedUpdate ::
  "('fs, 'b) filepathREST \<Rightarrow> request_ctx \<Rightarrow> string \<Rightarrow> ('fs, 'b) updateFunc \<Rightarrow> 'fs \<Rightarrow>
     ('fs \<times> (go_error + 'b Object \<times> bool \<times> bool)) option" where
  "guaranteedUpdate f ctx name tryUpdate s = guaranteedUpdate_loop f ctx name tryUpdate maxAttempts 0 s"

text \<open>The closure that \<open>Update\<close> passes to \<open>guaranteedUpdate\<close>; the flags of a
  successful result are \<open>isCreate\<close> and \<open>isDelete\<close>.\<close>

definition tryUpdate_checks ::
  "meta_validators \<Rightarrow> ('fs, 'b) filepathREST \<Rightarrow> request_ctx \<Rightarrow> string \<Rightarrow> ('b Object option \<Rightarrow> go_error + 'b Object) \<Rightarrow>
     'b validate_object \<Rightarrow> 'b validate_update \<Rightarrow> 'b Object option \<Rightarrow> uint64 \<Rightarrow>
     (go_error + 'b Object \<times> bool \<times> bool) option" where
  "tryUpdate_checks V f ctx name updatedObject createValidation updateValidation input inputVersion =
     (case updatedObject input of
        Inl e \<Rightarrow> Some (Inl e)
      | Inr output \<Rightarrow>
          (case getResourceVersion (Some output) of
             Inl e \<Rightarrow> Some (Inl e)
           | Inr updatedVersion \<Rightarrow>
               if inputVersion \<noteq> updatedVersion then Some (Inl (conflictErr f name))
               else
                 (case BeforeUpdate V (rest_strategy f) ctx output input of
                    None \<Rightarrow> None
                  | Some (Inl e) \<Rightarrow> Some (Inl e)
                  | Some (Inr (output', input')) \<Rightarrow>
                      if input = None
                      then (case run_validation createValidation input of
                              Some e \<Rightarrow> Some (Inl e)
                            | None \<Rightarrow> Some (Inr (output', True, False)))
                      else
                        (case (case updateValidation of None \<Rightarrow> None | Some check \<Rightarrow> check output' input') of
                           Some e \<Rightarrow> Some (Inl e)
                         | None \<Rightarrow>
                             (case meta_Accessor output' of
                                Inl e \<Rightarrow> Some (Inl e)
                              | Inr outputMeta \<Rightarrow>
                                  if Finalizers outputMeta = [] \<and> \<not> Time_IsZero (DeletionTimestamp outputMeta)
                                  then Some (Inr (output', False, True))
                                  else Some (Inr (output', False, False)))))))"

definition tryUpdate ::
  "meta_validators \<Rightarrow> ('fs, 'b) filepathREST \<Rightarrow> request_ctx \<Rightarrow> string \<Rightarrow> ('b Object option \<Rightarrow> go_error + 'b Object) \<Rightarrow>
     'b validate_object \<Rightarrow> 'b validate_update \<Rightarrow> bool \<Rightarrow> ('fs, 'b) updateFunc" where
  "tryUpdate V f ctx name updatedObject createValidation updateValidation forceAllowCreate input s =
     (if input = None \<and> \<not> forceAllowCreate
      then Some (s, Inl (NotFound (groupResource f) name))
      else
        (case getResourceVersion input of
           Inl e \<Rightarrow> Some (s, Inl e)
         | Inr inputVersion \<Rightarrow>
             do {
               (s1, r) \<leftarrow> ensure_namespace_dir f ctx s;
               (case r of
                  Some e \<Rightarrow> Some (s1, Inl e)
                | None \<Rightarrow>
                    do {
                      res \<leftarrow> tryUpdate_checks V f ctx name updatedObject createValidation updateValidation input inputVersion;
                      Some (s1, res)
                    })
             }))"

definition rest_Update ::
  "meta_validators \<Rightarrow> ('fs, 'b) filepathREST \<Rightarrow> request_ctx \<Rightarrow> string \<Rightarrow> ('b Object option \<Rightarrow> go_error + 'b Object) \<Rightarrow>
     'b validate_object \<Rightarrow> 'b validate_update \<Rightarrow> bool \<Rightarrow> ('fs, 'b) store \<Rightarrow>
     (('fs, 'b) store \<times> (go_error + 'b Object \<times> bool)) option" where
  "rest_Update V f ctx name updatedObject createValidation updateValidation forceAllowCreate s =
     do {
       (s1, r) \<leftarrow> guaranteedUpdate f ctx name
                    (tryUpdate V f ctx name updatedObject createValidation updateValidation forceAllowCreate)
                    (st_fs s);
       (case r of
          Inl e \<Rightarrow>
            Some (s\<lparr>st_fs := s1\<rparr>, Inl (if os_IsNotExist e then NotFound (groupResource f) name else e))
        | Inr (obj, isCreate, isDelete) \<Rightarrow>
            if isCreate
            then do {
              s2 \<leftarrow> notifyWatchers \<lparr>ev_Type = Added, ev_Object = obj\<rparr> (s\<lparr>st_fs := s1\<rparr>);
              Some (s2, Inr (obj, True))
            }
            else if isDelete
            then do {
              (s2, rm) \<leftarrow> fs_Remove (rest_fs f) (objectFileName f ctx name) s1;
              (case rm of
                 Some e \<Rightarrow>
                   Some (s\<lparr>st_fs := s2\<rparr>, Inl (if os_IsNotExist e then NotFound (groupResource f) name else e))
               | None \<Rightarrow>
                   do {
                     s3 \<leftarrow> notifyWatchers \<lparr>ev_Type = Deleted, ev_Object = obj\<rparr> (s\<lparr>st_fs := s2\<rparr>);
                     Some (s3, Inr (obj, False))
                   })
            }
            else do {
              s2 \<leftarrow> notifyWatchers \<lparr>ev_Type = Modified, ev_Object = obj\<rparr> (s\<lparr>st_fs := s1\<rparr>);
              Some (s2, Inr (obj, False))
            })
     }"

subsection \<open>Delete\<close>

definition mark_deleted :: "gotime \<Rightarrow> 'b Object \<Rightarrow> 'b Object" where
  "mark_deleted now obj =
     update_meta
       (\<lambda>m. (if DeletionTimestamp m = None \<or> Time_Before now (DeletionTimestamp m)
             then m\<lparr>DeletionTimestamp := Some now\<rparr> else m)\<lparr>DeletionGracePeriodSeconds := Some 0\<rparr>) obj"

definition rest_Delete ::
  "gotime \<Rightarrow> ('fs, 'b) filepathREST \<Rightarrow> request_ctx \<Rightarrow> string \<Rightarrow> 'b validate_object \<Rightarrow> ('fs, 'b) store \<Rightarrow>
     (('fs, 'b) store \<times> (go_error + 'b Object \<times> bool)) option" where
  "rest_Delete now f ctx name deleteValidation s =
     (let filename = objectFileName f ctx name
      in do {
        (s1, got) \<leftarrow> rest_Get f ctx name (st_fs s);
        (case got of
           Inl e \<Rightarrow> Some (s\<lparr>st_fs := s1\<rparr>, Inl e)
         | Inr oldObj \<Rightarrow>
             (case run_validation deleteValidation (Some oldObj) of
                Some e \<Rightarrow> Some (s\<lparr>st_fs := s1\<rparr>, Inl e)
              | None \<Rightarrow>
                  (case meta_Accessor oldObj of
                     Inl e \<Rightarrow> Some (s\<lparr>st_fs := s1\<rparr>, Inl e)
                   | Inr objMeta \<Rightarrow>
                       if Finalizers objMeta \<noteq> []
                       then
                         (let oldObj1 = mark_deleted now oldObj
                          in case getResourceVersion (Some oldObj1) of
                               Inl e \<Rightarrow> Some (s\<lparr>st_fs := s1\<rparr>, Inl e)
                             | Inr version \<Rightarrow>
                                 do {
                                   (s2, oldObj2, w) \<leftarrow> fs_Write (rest_fs f) (rest_enc f) filename oldObj1 version s1;
                                   (case w of
                                      Some e \<Rightarrow>
                                        Some (s\<lparr>st_fs := s2\<rparr>, Inl (if is_VersionError e then conflictErr f name else e))
                                    | None \<Rightarrow>
                                        do {
                                          s3 \<leftarrow> notifyWatchers \<lparr>ev_Type = Modified, ev_Object = oldObj2\<rparr> (s\<lparr>st_fs := s2\<rparr>);
                                          Some (s3, Inr (oldObj2, False))
                                        })
                                 })
                       else
                         do {
                           (s2, rm) \<leftarrow> fs_Remove (rest_fs f) filename s1;
                           (case rm of
                              Some e \<Rightarrow>
                                Some (s\<lparr>st_fs := s2\<rparr>,
                                      Inl (if os_IsNotExist e then NotFound (groupResource f) name else e))
                            | None \<Rightarrow>
                                do {
                                  s3 \<leftarrow> notifyWatchers \<lparr>ev_Type = Deleted, ev_Object = oldObj\<rparr> (s\<lparr>st_fs := s2\<rparr>);
                                  Some (s3, Inr (oldObj, True))
                                })
                         })))
      })"

definition delete_visitor ::
  "('fs, 'b) FS \<Rightarrow> 'b SelectionPredicate \<Rightarrow> ('fs, 'b) visitor" where
  "delete_visitor fs p path obj st =
     (case SelectionPredicate_Matches p obj of
        Inl e \<Rightarrow> Some (st, Some e)
      | Inr ok \<Rightarrow>
          if ok
          then do {
            (s', _) \<leftarrow> fs_Remove fs path (fst st);
            Some ((s', snd st @ [obj]), None)
          }
          else Some (st, None))"

definition rest_DeleteCollection ::
  "('fs, 'b) filepathREST \<Rightarrow> request_ctx \<Rightarrow> 'b validate_object \<Rightarrow> ListOptions option \<Rightarrow> ('fs, 'b) store \<Rightarrow>
     (('fs, 'b) store \<times> (go_error + 'b ListObject)) option" where
  "rest_DeleteCollection f ctx deleteValidation listOptions s =
     (let p = newSelectionPredicate listOptions;
          newListObj = newListFunc f
      in case Items newListObj of
           Inl e \<Rightarrow> Some (s, Inl e)
         | Inr v \<Rightarrow>
             (let dirname = objectDirName f ctx
              in case fs_VisitDir (rest_fs f) dirname (newFunc f) (rest_dec f)
                        (delete_visitor (rest_fs f) p) (st_fs s, v) of
                   None \<Rightarrow> None
                 | Some ((s', v'), Inl e) \<Rightarrow> Some (s\<lparr>st_fs := s'\<rparr>, Inl (WalkError dirname e))
                 | Some ((s', v'), Inr rv) \<Rightarrow>
                     Some (s\<lparr>st_fs := s'\<rparr>, setListResourceVersion (newListObj\<lparr>Items := Inr v'\<rparr>) rv)))"

subsection \<open>Watch\<close>

fun init_events :: "'b SelectionPredicate \<Rightarrow> 'b Object list \<Rightarrow> go_error + 'b Event list" where
  "init_events p [] = Inr []"
| "init_events p (obj # objs) =
     (case SelectionPredicate_Matches p obj of
        Inl e \<Rightarrow> Inl e
      | Inr ok \<Rightarrow>
          (case init_events p objs of
             Inl e \<Rightarrow> Inl e
           | Inr evs \<Rightarrow> Inr (if ok then \<lparr>ev_Type = Added, ev_Object = obj\<rparr> # evs else evs)))"

definition getInitEvents ::
  "('fs, 'b) filepathREST \<Rightarrow> request_ctx \<Rightarrow> ListOptions option \<Rightarrow> 'fs \<Rightarrow>
     ('fs \<times> (go_error + 'b Event list)) option" where
  "getInitEvents f ctx options s =
     (case rest_List f ctx options s of
        None \<Rightarrow> None
      | Some (s', Inl e) \<Rightarrow> Some (s', Inl e)
      | Some (s', Inr l) \<Rightarrow>
          (case Items l of
             Inl e \<Rightarrow> None
           | Inr objs \<Rightarrow> Some (s', init_events (newSelectionPredicate options) objs)))"

text \<open>The result is the id of the watch and the error of \<open>Start\<close>.\<close>

definition rest_Watch ::
  "('fs, 'b) filepathREST \<Rightarrow> request_ctx \<Rightarrow> ListOptions option \<Rightarrow> ('fs, 'b) store \<Rightarrow>
     (('fs, 'b) store \<times> 64 word \<times> go_error option) option" where
  "rest_Watch f ctx options s =
     (let p = newSelectionPredicate options;
          (ws1, jw) = newWatch (st_ws s)
      in case watchNode_Start jw p (getInitEvents f ctx options) (st_fs s, ws1) of
           None \<Rightarrow> None
         | Some ((s', ws2), startErr) \<Rightarrow> Some (s\<lparr>st_fs := s', st_ws := ws2\<rparr>, wn_id jw, startErr))"

section \<open>Paths of objects\<close>

lemma plain_seg_json: "slash \<notin> set name \<Longrightarrow> plain_seg (name @ ''.json'')"
  by (auto simp: plain_seg_def append_eq_Cons_conv)

lemma last_split_json: "plain_seg (last (split_on slash (name @ ''.json'')))"
proof (induction name)
  case Nil
  show ?case by (simp add: plain_seg_def split_on_no_sep)
next
  case (Cons x name)
  show ?case
  proof (cases "slash \<in> set (x # name)")
    case False
    then have "slash \<notin> set ((x # name) @ ''.json'')" by auto
    then have "split_on slash ((x # name) @ ''.json'') = [(x # name) @ ''.json'']" by (rule split_on_no_sep)
    with plain_seg_json [OF False] show ?thesis by simp
  next
    case True
    show ?thesis
    proof (cases "x = slash")
      case True
      then have "split_on slash ((x # name) @ ''.json'') = [] # split_on slash (name @ ''.json'')" by simp
      with Cons show ?thesis by simp
    next
      case False
      with True have "slash \<in> set name" by simp
      then obtain a b where "name = a @ slash # b" by (meson split_list)
      then have sp: "split_on slash (name @ ''.json'') = split_on slash a @ split_on slash (b @ ''.json'')"
        using split_on_append [of slash a "b @ ''.json''"] by simp
      obtain h t where a: "split_on slash a = h # t" using split_on_nonempty by (cases "split_on slash a") auto
      have "split_on slash ((x # name) @ ''.json'') = (x # h) # t @ split_on slash (b @ ''.json'')"
        using False sp a by simp
      with Cons sp show ?thesis by simp
    qed
  qed
qed

lemma good_path_Clean:
  assumes "split_on slash q = xs @ [c]" and "plain_seg c"
  shows "good_path (Clean (p @ slash # q))"
proof -
  have "path_elems (p @ slash # q) = foldl (clean_step (rooted (p @ slash # q))) [] (split_on slash p @ xs) @ [c]"
    by (simp add: path_elems_def split_on_append assms)
  then show ?thesis using assms(2) by (simp add: good_path_def)
qed

lemma split_json: "\<exists>xs c. split_on slash (name @ ''.json'') = xs @ [c] \<and> plain_seg c"
  using last_split_json [of name] append_butlast_last_id [of "split_on slash (name @ ''.json'')"]
  by (metis split_on_nonempty)

lemma good_path_Join:
  assumes c: "split_on slash q = xs @ [c]" "plain_seg c" and q: "q \<noteq> []"
  shows "good_path (Join [root, q])" and "good_path (Join [root, ns, q])"
proof -
  have base: "good_path (Clean q)"
  proof -
    have "path_elems q = foldl (clean_step (rooted q)) [] xs @ [c]"
      using c by (simp add: path_elems_def)
    then show ?thesis using c(2) by (simp add: good_path_def)
  qed
  show one: "good_path (Join [root, q])" for root
    using base good_path_Clean [OF c, of root] q by (cases "root = []") (simp_all add: Join_def)
  have "split_on slash (ns @ slash # q) = (split_on slash ns @ xs) @ [c]"
    by (simp add: split_on_append c(1))
  from good_path_Clean [OF this c(2), of root] one [of ns] q
  show "good_path (Join [root, ns, q])"
    by (cases "root = []"; cases "ns = []") (auto simp: Join_def)
qed

lemma objectFileName_good [simp]: "good_path (objectFileName f ctx name)"
proof -
  obtain xs c where "split_on slash (name @ ''.json'') = xs @ [c]" "plain_seg c" using split_json by blast
  from good_path_Join [OF this] show ?thesis unfolding objectFileName_def by simp
qed

text \<open>The configuration that \<open>NewFilepathREST\<close> sets up for a resource with an ordinary
  name, and a request whose namespace is an ordinary path element.\<close>

definition wf_rest :: "('fs, 'b) filepathREST \<Rightarrow> bool" where
  "wf_rest f \<longleftrightarrow> good_path (objRootPath f)"

definition wf_ctx :: "request_ctx \<Rightarrow> bool" where
  "wf_ctx ctx \<longleftrightarrow> (case ctx_namespace ctx of None \<Rightarrow> True | Some ns \<Rightarrow> ns = [] \<or> plain_seg ns)"

definition dir_segs :: "('fs, 'b) filepathREST \<Rightarrow> request_ctx \<Rightarrow> string list" where
  "dir_segs f ctx = (if NamespaceScoped f \<and> ns_or_empty ctx \<noteq> [] then [ns_or_empty ctx] else [])"

lemma dir_segs_plain: "wf_ctx ctx \<Longrightarrow> list_all plain_seg (dir_segs f ctx)"
  by (auto simp: dir_segs_def wf_ctx_def ns_or_empty_def split: option.splits)

lemma objectFileName_below:
  assumes "wf_ctx ctx" and "slash \<notin> set name"
  shows "objectFileName f ctx name = path_below (objRootPath f) (dir_segs f ctx @ [name @ ''.json''])"
  using Join_plain [OF plain_seg_json [OF assms(2)], of "objRootPath f"]
    Join_plain2 [OF plain_seg_json [OF assms(2)], of "ns_or_empty ctx" "objRootPath f"] assms(1)
  by (auto simp: objectFileName_def path_below_def dir_segs_def wf_ctx_def ns_or_empty_def split: option.splits)

lemma objectDirName_below:
  assumes "wf_rest f" and "wf_ctx ctx"
  shows "objectDirName f ctx = path_below (objRootPath f) (dir_segs f ctx)" and "good_path (objectDirName f ctx)"
proof -
  let ?d = "objRootPath f"
  have d: "Clean ?d = ?d" "?d \<noteq> []" "plain_seg (last (path_elems ?d))" "path_elems ?d \<noteq> []"
    using assms(1) by (auto simp: wf_rest_def good_path_def)
  then have j: "Join [?d] = ?d" "Join [?d, []] = ?d"
    by (simp_all add: Join_def Clean_def path_elems_append rooted_append)
  from d have r: "?d = render (rooted ?d) (path_elems ?d)" by (simp add: Clean_def)
  have "objectDirName f ctx = path_below ?d (dir_segs f ctx) \<and> good_path (objectDirName f ctx)"
  proof (cases "NamespaceScoped f \<and> ns_or_empty ctx \<noteq> []")
    case True
    then have ns: "plain_seg (ns_or_empty ctx)"
      using assms(2) by (auto simp: wf_ctx_def ns_or_empty_def split: option.splits)
    with True Join_plain [OF ns, of ?d] show ?thesis
      using good_path_render [OF _ ns, of "rooted ?d" "path_elems ?d"]
      by (simp add: objectDirName_def path_below_def dir_segs_def)
  next
    case False
    with j r assms(1) show ?thesis
      by (auto simp: objectDirName_def path_below_def dir_segs_def wf_rest_def)
  qed
  then show "objectDirName f ctx = path_below ?d (dir_segs f ctx)" "good_path (objectDirName f ctx)" by auto
qed

lemma NewFilepathREST_wf:
  assumes "NewFilepathREST fs strategy gr enc dec rootpath new newList s = Some (s', f)"
    and "plain_seg (gr_Resource gr)"
  shows "wf_rest f"
proof -
  have "split_on slash (gr_Resource gr) = [] @ [gr_Resource gr]" "gr_Resource gr \<noteq> []"
    using assms(2) by (auto simp: plain_seg_def intro: split_on_no_sep)
  from good_path_Join(2) [OF this(1) assms(2) this(2)] assms(1) show ?thesis
    by (auto simp: NewFilepathREST_def wf_rest_def Let_def split: option.splits)
qed

section \<open>Handlers over any file system\<close>

lemma notifyWatchers_ok:
  "ws_live (st_ws s) \<Longrightarrow>
     \<exists>ws. WatchSet_notifyWatchers ev (st_ws s) = Some ws \<and> ws_live ws \<and> notifyWatchers ev s = Some (s\<lparr>st_ws := ws\<rparr>)"
  by (cases "WatchSet_notifyWatchers ev (st_ws s)")
    (auto simp: notifyWatchers_def dest: notifyWatchers_keeps_live simp del: notifyWatchers_live,
     simp)

lemma ensure_dir_good:
  assumes "wf_rest f" and "wf_ctx ctx" and "ctx_namespace ctx = Some ns"
  shows "good_path (Join [objRootPath f, ns])"
proof -
  have "ns = [] \<or> plain_seg ns" using assms(2,3) by (simp add: wf_ctx_def)
  moreover have "Join [objRootPath f, []] = objRootPath f"
    using assms(1) by (auto simp: wf_rest_def good_path_def Join_def Clean_def path_elems_append rooted_append)
  moreover have "plain_seg ns \<Longrightarrow> good_path (Join [objRootPath f, ns])"
    by (rule good_path_Join(1) [of _ "[]"]) (auto simp: plain_seg_def intro: split_on_no_sep)
  ultimately show ?thesis using assms(1) by (auto simp: wf_rest_def)
qed

text \<open>Facts on one attempt of an update that do not depend on the file system.\<close>

definition hooks_return :: "'b Strategy \<Rightarrow> request_ctx \<Rightarrow> bool" where
  "hooks_return strategy ctx \<longleftrightarrow> (\<forall>obj old. strat_PrepareForUpdate strategy ctx obj old \<noteq> None)"

lemma BeforeUpdate_returns:
  assumes "hooks_return strategy ctx"
  shows "BeforeUpdate V strategy ctx obj oldOpt \<noteq> None"
proof -
  from assms have returns: "\<And>obj old. (strat_PrepareForUpdate strategy ctx obj old = None) = False"
    by (simp add: hooks_return_def)
  show ?thesis
    unfolding BeforeUpdate_def by (simp add: returns split: sum.split option.split prod.split)
qed

lemma BeforeUpdate_nil:
  "BeforeUpdate V strategy ctx obj None = Some r \<Longrightarrow> \<exists>e. r = Inl e"
  unfolding BeforeUpdate_def by (auto split: sum.splits option.splits prod.splits)

lemma tryUpdate_checks_returns:
  assumes "hooks_return (rest_strategy f) ctx"
  shows "tryUpdate_checks V f ctx name upd cv uv input v \<noteq> None"
proof -
  from BeforeUpdate_returns [OF assms]
  have returns: "\<And>obj old. (BeforeUpdate V (rest_strategy f) ctx obj old = None) = False" by simp
  show ?thesis
    unfolding tryUpdate_checks_def by (simp add: returns split: sum.split option.split prod.split)
qed

lemma tryUpdate_checks_ok:
  assumes "tryUpdate_checks V f ctx name upd cv uv input v = Some (Inr (out, isCreate, isDelete))"
  obtains old outp old' m where "input = Some old" and "upd (Some old) = Inr outp"
    and "getResourceVersion (Some outp) = Inr v"
    and "BeforeUpdate V (rest_strategy f) ctx outp (Some old) = Some (Inr (out, old'))"
    and "Metadata out = Some m" and "\<not> isCreate"
    and "isDelete \<longleftrightarrow> Finalizers m = [] \<and> \<not> Time_IsZero (DeletionTimestamp m)"
  using assms BeforeUpdate_nil [of V "rest_strategy f" ctx]
  by (fastforce simp: tryUpdate_checks_def meta_Accessor_def split: sum.splits option.splits prod.splits if_splits)

context fs_contract
begin

definition loc :: "('fs, 'b) filepathREST \<Rightarrow> request_ctx \<Rightarrow> string \<Rightarrow> 'k" where
  "loc f ctx name = key (objectFileName f ctx name)"

definition ready :: "('fs, 'b) filepathREST \<Rightarrow> request_ctx \<Rightarrow> bool" where
  "ready f ctx \<longleftrightarrow> rest_fs f = ops \<and> wf_rest f \<and> wf_ctx ctx"

lemma rest_Get_present:
  assumes "ready f ctx" and "inv s" and "content s (loc f ctx name) = Some c"
    and "unpack (rest_dec f) (newFunc f) c = Inr obj"
  shows "rest_Get f ctx name s = Some (s, Inr obj)"
  using assms read_present [of s "objectFileName f ctx name" c "rest_dec f" "newFunc f"]
  by (simp add: rest_Get_def loc_def ready_def)

lemma rest_Get_absent:
  assumes "ready f ctx" and "inv s" and "content s (loc f ctx name) = None"
  shows "\<exists>s' e. rest_Get f ctx name s = Some (s', Inl e) \<and> inv s' \<and> content s' = content s \<and>
    (\<forall>d. has_dir s d \<longrightarrow> has_dir s' d) \<and>
    (\<not> blocked s (objectFileName f ctx name) \<longrightarrow> e = NotFound (groupResource f) name)"
proof -
  obtain s' e where "fs_Read ops (rest_dec f) (objectFileName f ctx name) (newFunc f) s = Some (s', Inl e)"
    "inv s'" "content s' = content s" "\<forall>d. has_dir s d \<longrightarrow> has_dir s' d"
    "\<not> blocked s (objectFileName f ctx name) \<longrightarrow> e = ErrNotExist"
    using read_absent [OF assms(2) objectFileName_good] assms(3) unfolding loc_def by blast
  then show ?thesis using assms(1) by (auto simp: rest_Get_def ready_def)
qed

text \<open>A read returns and changes no file.\<close>

lemma rest_Get_total:
  assumes "ready f ctx" and "inv s"
  shows "\<exists>s' r. rest_Get f ctx name s = Some (s', r) \<and> inv s' \<and> content s' = content s \<and>
    (\<forall>d. has_dir s d \<longrightarrow> has_dir s' d) \<and>
    (case r of Inr obj \<Rightarrow> s' = s \<and> (\<exists>c. content s (loc f ctx name) = Some c \<and>
                                    unpack (rest_dec f) (newFunc f) c = Inr obj)
     | Inl e \<Rightarrow> \<forall>c obj. content s (loc f ctx name) = Some c \<longrightarrow> unpack (rest_dec f) (newFunc f) c \<noteq> Inr obj)"
proof (cases "content s (loc f ctx name)")
  case None
  with rest_Get_absent [OF assms, of name] show ?thesis by auto
next
  case (Some c)
  with read_present [OF assms(2) objectFileName_good, of f ctx name c "rest_dec f" "newFunc f"] assms(1)
  show ?thesis
    by (cases "unpack (rest_dec f) (newFunc f) c") (auto simp: rest_Get_def ready_def loc_def assms(2))
qed

lemma ensure_namespace_dir_total:
  assumes "ready f ctx" and "inv s"
  shows "\<exists>s' r. ensure_namespace_dir f ctx s = Some (s', r) \<and> inv s' \<and> content s' = content s \<and>
    (\<forall>d. has_dir s d \<longrightarrow> has_dir s' d)"
proof (cases "NamespaceScoped f \<and> ctx_namespace ctx \<noteq> None")
  case True
  then obtain ns where ns: "ctx_namespace ctx = Some ns" by auto
  with assms(1) have "good_path (Join [objRootPath f, ns])"
    unfolding ready_def by (blast intro: ensure_dir_good)
  from ensure_dir [OF assms(2) this] True ns assms(1) show ?thesis
    by (auto simp: ensure_namespace_dir_def ready_def)
next
  case False
  with assms(2) show ?thesis by (auto simp: ensure_namespace_dir_def split: option.splits)
qed

text \<open>What a successful write leaves: the file's content reads back as the canonical form of
  the object, up to the resource version, which the caller's object carries.\<close>

definition stored :: "bool \<Rightarrow> 'b encoder \<Rightarrow> 'b Object \<Rightarrow> 'c \<Rightarrow> 'b Object \<Rightarrow> bool" where
  "stored new_file enc obj c obj' \<longleftrightarrow> Metadata obj \<noteq> None \<and> (\<exists>rv. obj' = with_rv rv obj) \<and>
     (\<forall>dec canon new. codec_ok enc dec canon \<longrightarrow>
        (\<exists>rv. unpack dec new c = Inr (with_rv rv (canon obj))) \<and>
        (new_file \<longrightarrow> unpack dec new c = Inr (canon obj')))"

lemma write_total:
  assumes "inv s" and "good_path p" and "\<not> blocked s p"
  shows "\<exists>s' obj' w. fs_Write ops enc p obj sv s = Some (s', obj', w) \<and> inv s' \<and>
    (\<forall>d. has_dir s d \<longrightarrow> has_dir s' d) \<and>
    (case w of Some e \<Rightarrow> content s' = content s
     | None \<Rightarrow> (\<exists>c. content s' = (content s)(key p \<mapsto> c) \<and> stored (content s (key p) = None) enc obj c obj'))"
proof -
  obtain s' obj' w where w: "fs_Write ops enc p obj sv s = Some (s', obj', w)" "inv s'"
    "\<forall>d. has_dir s d \<longrightarrow> has_dir s' d" "w \<noteq> None \<longrightarrow> content s' = content s"
    using write_returns [OF assms] by blast
  have "w = None \<Longrightarrow> \<exists>c. content s' = (content s)(key p \<mapsto> c) \<and> stored (content s (key p) = None) enc obj c obj'"
    using write_ok [OF assms, of enc obj sv s' obj'] w(1) unfolding stored_def by blast
  with w show ?thesis by (auto split: option.split)
qed

lemma write_present:
  assumes "inv s" and "good_path p" and "content s (key p) = Some c"
  shows "\<exists>s' obj' w. fs_Write ops enc p obj sv s = Some (s', obj', w) \<and> inv s' \<and>
    (\<forall>d. has_dir s d \<longrightarrow> has_dir s' d) \<and>
    (case w of Some e \<Rightarrow> content s' = content s
     | None \<Rightarrow> (\<exists>c. content s' = (content s)(key p \<mapsto> c) \<and> stored False enc obj c obj'))"
proof -
  have "\<not> blocked s p" using blocked_absent [OF assms(1,2)] assms(3) by auto
  have present: "(Some c = None) = False" by simp
  from write_total [OF assms(1,2) \<open>\<not> blocked s p\<close>, of enc obj sv, unfolded assms(3) present] show ?thesis .
qed

lemma write_after_exists:
  assumes inv: "inv s" and p: "good_path p" and absent: "content s (key p) = None"
    and ex: "fs_Exists ops p s = Some (s1, False)"
  shows "\<exists>s' obj' w. fs_Write ops enc p obj sv s1 = Some (s', obj', w) \<and> inv s' \<and>
    (case w of Some e \<Rightarrow> content s' = content s
     | None \<Rightarrow> (\<exists>c. content s' = (content s)(key p \<mapsto> c) \<and> stored True enc obj c obj'))"
proof (cases "blocked s p")
  case True
  from write_blocked [OF inv p True ex, of enc obj sv] show ?thesis by fastforce
next
  case False
  with exists_absent [OF inv p absent] ex have "inv s1" "\<not> blocked s1 p" and eq: "content s1 = content s" by auto
  with write_total [OF _ p, of s1 enc obj sv, unfolded eq absent simp_thms(6)] show ?thesis by blast
qed

text \<open>
  The storing half of \<open>Create\<close> returns. On an error nothing is stored and nobody is
  notified; on success exactly the object's file is new, it reads back as the canonical form of
  the object, and every watcher got an \<open>Added\<close> event.
\<close>

definition created :: "('fs, 'b) filepathREST \<Rightarrow> request_ctx \<Rightarrow> string \<Rightarrow> 'b Object \<Rightarrow> ('fs, 'b) store \<Rightarrow>
    ('fs, 'b) store \<Rightarrow> 'b Object \<Rightarrow> bool" where
  "created f ctx name obj s s' obj' \<longleftrightarrow>
     content (st_fs s) (loc f ctx name) = None \<and>
     (\<exists>c. content (st_fs s') = (content (st_fs s))(loc f ctx name \<mapsto> c) \<and> stored True (rest_enc f) obj c obj') \<and>
     WatchSet_notifyWatchers \<lparr>ev_Type = Added, ev_Object = obj'\<rparr> (st_ws s) = Some (st_ws s')"

lemma create_store_exists:
  assumes "rest_fs f = ops" and "ensure_namespace_dir f ctx (st_fs s) = Some (s1, None)"
    and "name = (case Metadata obj of None \<Rightarrow> [] | Some m \<Rightarrow> Name m)"
    and "fs_Exists ops (objectFileName f ctx name) s1 = Some (s2, True)"
  shows "create_store f ctx obj s = Some (s\<lparr>st_fs := s2\<rparr>, Inl (AlreadyExists (groupResource f) name))"
  using assms by (simp add: create_store_def Let_def)

lemma create_store_write:
  assumes "rest_fs f = ops" and "ensure_namespace_dir f ctx (st_fs s) = Some (s1, None)"
    and "name = (case Metadata obj of None \<Rightarrow> [] | Some m \<Rightarrow> Name m)"
    and "fs_Exists ops (objectFileName f ctx name) s1 = Some (s2, False)"
    and "fs_Write ops (rest_enc f) (objectFileName f ctx name) obj 0 s2 = Some (s3, obj', w)"
  shows "create_store f ctx obj s =
    (case w of
       Some e \<Rightarrow> Some (s\<lparr>st_fs := s3\<rparr>, Inl (if is_VersionError e then conflictErr f name else e))
     | None \<Rightarrow> map_option (\<lambda>s4. (s4, Inr obj'))
                 (notifyWatchers \<lparr>ev_Type = Added, ev_Object = obj'\<rparr> (s\<lparr>st_fs := s3\<rparr>)))"
  using assms by (simp add: create_store_def Let_def map_conv_bind_option comp_def split: option.split)

lemma create_store_total:
  assumes r: "ready f ctx" and inv: "inv (st_fs s)" and live: "ws_live (st_ws s)"
    and name: "name = (case Metadata obj of None \<Rightarrow> [] | Some m \<Rightarrow> Name m)"
  shows "\<exists>s' r. create_store f ctx obj s = Some (s', r) \<and> inv (st_fs s') \<and> ws_live (st_ws s') \<and>
    (case r of Inl e \<Rightarrow> content (st_fs s') = content (st_fs s) \<and> st_ws s' = st_ws s
     | Inr obj' \<Rightarrow> created f ctx name obj s s' obj')"
proof -
  let ?p = "objectFileName f ctx name"
  have ops: "rest_fs f = ops" using r by (simp add: ready_def)
  obtain s1 r1 where e1: "ensure_namespace_dir f ctx (st_fs s) = Some (s1, r1)" "inv s1"
    "content s1 = content (st_fs s)" using ensure_namespace_dir_total [OF r inv] by blast
  obtain s2 b where e2: "fs_Exists ops ?p s1 = Some (s2, b)" "inv s2" "content s2 = content s1"
    "content s1 (key ?p) \<noteq> None \<longrightarrow> b"
    using exists_present [OF e1(2) objectFileName_good] exists_absent [OF e1(2) objectFileName_good] e1(2)
    by (metis option.exhaust)
  consider e where "r1 = Some e" | "r1 = None" "b" | "r1 = None" "\<not> b" by blast
  then show ?thesis
  proof cases
    case 1
    with e1 live show ?thesis by (auto simp: create_store_def Let_def)
  next
    case 2
    with e1 e2 live create_store_exists [OF ops _ name] show ?thesis by auto
  next
    case 3
    with e2 have absent: "content s1 (key ?p) = None" and ex: "fs_Exists ops ?p s1 = Some (s2, False)"
      by auto
    obtain s3 obj' w where w: "fs_Write ops (rest_enc f) ?p obj 0 s2 = Some (s3, obj', w)" "inv s3"
      "case w of Some e \<Rightarrow> content s3 = content s1
       | None \<Rightarrow> (\<exists>c. content s3 = (content s1)(key ?p \<mapsto> c) \<and> stored True (rest_enc f) obj c obj')"
      using write_after_exists [OF e1(2) objectFileName_good absent ex] by blast
    obtain ws where ws: "WatchSet_notifyWatchers \<lparr>ev_Type = Added, ev_Object = obj'\<rparr> (st_ws s) = Some ws" "ws_live ws"
      "notifyWatchers \<lparr>ev_Type = Added, ev_Object = obj'\<rparr> (s\<lparr>st_fs := s3\<rparr>) = Some (s\<lparr>st_fs := s3, st_ws := ws\<rparr>)"
      using notifyWatchers_ok [of "s\<lparr>st_fs := s3\<rparr>"] live by auto
    have "create_store f ctx obj s = (case w of
       Some e \<Rightarrow> Some (s\<lparr>st_fs := s3\<rparr>, Inl (if is_VersionError e then conflictErr f name else e))
     | None \<Rightarrow> Some (s\<lparr>st_fs := s3, st_ws := ws\<rparr>, Inr obj'))"
      using create_store_write [OF ops _ name ex w(1)] e1(1) 3 ws(3) by (simp split: option.split)
    with w ws e1 absent live show ?thesis
      by (cases w) (auto simp: created_def loc_def)
  qed
qed

lemma rest_Create_total:
  assumes r: "ready f ctx" and inv: "inv (st_fs s)" and live: "ws_live (st_ws s)"
  shows "\<exists>s' r. rest_Create V now uuid f ctx obj createValidation s = Some (s', r) \<and>
    inv (st_fs s') \<and> ws_live (st_ws s') \<and>
    (case r of Inl e \<Rightarrow> content (st_fs s') = content (st_fs s) \<and> st_ws s' = st_ws s
     | Inr obj' \<Rightarrow> \<exists>obj1 m. BeforeCreate V (rest_strategy f) ctx (FillObjectMetaSystemFields now uuid obj) = Inr obj1 \<and>
         Metadata obj1 = Some m \<and> created f ctx (Name m) obj1 s s' obj')"
proof (cases "\<exists>obj1 acc. meta_Accessor obj = Inr acc \<and>
    BeforeCreate V (rest_strategy f) ctx (FillObjectMetaSystemFields now uuid obj) = Inr obj1 \<and>
    run_validation createValidation (Some obj1) = None")
  case True
  then obtain obj1 where obj1: "BeforeCreate V (rest_strategy f) ctx (FillObjectMetaSystemFields now uuid obj) = Inr obj1"
    and eq: "rest_Create V now uuid f ctx obj createValidation s = create_store f ctx obj1 s"
    by (auto simp: rest_Create_def)
  obtain s' res where res: "create_store f ctx obj1 s = Some (s', res)" "inv (st_fs s')" "ws_live (st_ws s')"
    "case res of Inl e \<Rightarrow> content (st_fs s') = content (st_fs s) \<and> st_ws s' = st_ws s
     | Inr obj' \<Rightarrow> created f ctx (case Metadata obj1 of None \<Rightarrow> [] | Some m \<Rightarrow> Name m) obj1 s s' obj'"
    using create_store_total [OF r inv live refl, of obj1] by blast
  show ?thesis
  proof (cases res)
    case (Inl e)
    with eq res show ?thesis by auto
  next
    case (Inr obj')
    with res(4) have c: "created f ctx (case Metadata obj1 of None \<Rightarrow> [] | Some m \<Rightarrow> Name m) obj1 s s' obj'" by simp
    then obtain m where "Metadata obj1 = Some m" by (auto simp: created_def stored_def)
    with c eq res(1,2,3) Inr obj1 show ?thesis by auto
  qed
next
  case False
  with inv live show ?thesis
    by (auto simp: rest_Create_def split: sum.split option.split)
qed

text \<open>A delete returns. It removes the file of the object (no finalizers), or rewrites it with
  the deletion marks, or fails and changes nothing.\<close>

definition deleted :: "gotime \<Rightarrow> ('fs, 'b) filepathREST \<Rightarrow> request_ctx \<Rightarrow> string \<Rightarrow> ('fs, 'b) store \<Rightarrow>
    ('fs, 'b) store \<Rightarrow> 'b Object \<Rightarrow> bool \<Rightarrow> bool" where
  "deleted now f ctx name s s' obj' gone \<longleftrightarrow>
     (\<exists>c oldObj m. content (st_fs s) (loc f ctx name) = Some c \<and>
        unpack (rest_dec f) (newFunc f) c = Inr oldObj \<and> Metadata oldObj = Some m \<and>
        gone = (Finalizers m = []) \<and>
        (if gone
         then obj' = oldObj \<and> content (st_fs s') = (content (st_fs s))(loc f ctx name := None) \<and>
           WatchSet_notifyWatchers \<lparr>ev_Type = Deleted, ev_Object = oldObj\<rparr> (st_ws s) = Some (st_ws s')
         else (\<exists>c'. content (st_fs s') = (content (st_fs s))(loc f ctx name \<mapsto> c') \<and>
             stored False (rest_enc f) (mark_deleted now oldObj) c' obj') \<and>
           WatchSet_notifyWatchers \<lparr>ev_Type = Modified, ev_Object = obj'\<rparr> (st_ws s) = Some (st_ws s')))"

lemma rest_Delete_found:
  assumes r: "ready f ctx" and inv: "inv (st_fs s)" and live: "ws_live (st_ws s)"
    and c: "content (st_fs s) (loc f ctx name) = Some c" "unpack (rest_dec f) (newFunc f) c = Inr oldObj"
    and ok: "run_validation deleteValidation (Some oldObj) = None" and m: "Metadata oldObj = Some m"
  shows "\<exists>s' r. rest_Delete now f ctx name deleteValidation s = Some (s', r) \<and>
    inv (st_fs s') \<and> ws_live (st_ws s') \<and>
    (case r of Inl e \<Rightarrow> content (st_fs s') = content (st_fs s) \<and> st_ws s' = st_ws s \<and> Finalizers m \<noteq> []
     | Inr (obj', gone) \<Rightarrow> deleted now f ctx name s s' obj' gone)"
proof -
  let ?p = "objectFileName f ctx name"
  have ops: "rest_fs f = ops" using r by (simp add: ready_def)
  have get: "rest_Get f ctx name (st_fs s) = Some (st_fs s, Inr oldObj)" by (rule rest_Get_present [OF r inv c])
  note start = rest_Delete_def get ok meta_Accessor_def m ops
  show ?thesis
  proof (cases "Finalizers m = []")
    case True
    obtain s2 where s2: "fs_Remove ops ?p (st_fs s) = Some (s2, None)" "inv s2"
      "content s2 = (content (st_fs s))(key ?p := None)"
      using remove_present [OF inv objectFileName_good] c(1) unfolding loc_def by blast
    obtain ws where ws: "WatchSet_notifyWatchers \<lparr>ev_Type = Deleted, ev_Object = oldObj\<rparr> (st_ws s) = Some ws" "ws_live ws"
      "notifyWatchers \<lparr>ev_Type = Deleted, ev_Object = oldObj\<rparr> (s\<lparr>st_fs := s2\<rparr>) = Some (s\<lparr>st_fs := s2, st_ws := ws\<rparr>)"
      using notifyWatchers_ok [of "s\<lparr>st_fs := s2\<rparr>"] live by auto
    have "rest_Delete now f ctx name deleteValidation s = Some (s\<lparr>st_fs := s2, st_ws := ws\<rparr>, Inr (oldObj, True))"
      using True s2(1) ws(3) by (simp add: start)
    with s2 ws c m True show ?thesis by (auto simp: deleted_def loc_def)
  next
    case False
    let ?o = "mark_deleted now oldObj"
    show ?thesis
    proof (cases "getResourceVersion (Some ?o)")
      case (Inl e)
      with False inv live show ?thesis by (simp add: start)
    next
      case (Inr v)
      obtain s2 obj' w where w: "fs_Write ops (rest_enc f) ?p ?o v (st_fs s) = Some (s2, obj', w)" "inv s2"
        "case w of Some e \<Rightarrow> content s2 = content (st_fs s)
         | None \<Rightarrow> (\<exists>c. content s2 = (content (st_fs s))(key ?p \<mapsto> c) \<and> stored False (rest_enc f) ?o c obj')"
        using write_present [OF inv objectFileName_good c(1) [unfolded loc_def]] by blast
      obtain ws where ws: "WatchSet_notifyWatchers \<lparr>ev_Type = Modified, ev_Object = obj'\<rparr> (st_ws s) = Some ws" "ws_live ws"
        "notifyWatchers \<lparr>ev_Type = Modified, ev_Object = obj'\<rparr> (s\<lparr>st_fs := s2\<rparr>) = Some (s\<lparr>st_fs := s2, st_ws := ws\<rparr>)"
        using notifyWatchers_ok [of "s\<lparr>st_fs := s2\<rparr>"] live by auto
      have "rest_Delete now f ctx name deleteValidation s = Some (case w of
          Some e \<Rightarrow> (s\<lparr>st_fs := s2\<rparr>, Inl (if is_VersionError e then conflictErr f name else e))
        | None \<Rightarrow> (s\<lparr>st_fs := s2, st_ws := ws\<rparr>, Inr (obj', False)))"
        using False Inr w(1) ws(3) by (simp add: start split: option.split)
      with w ws c m False live show ?thesis by (cases w) (auto simp: deleted_def loc_def)
    qed
  qed
qed

lemma rest_Delete_total:
  assumes r: "ready f ctx" and inv: "inv (st_fs s)" and live: "ws_live (st_ws s)"
  shows "\<exists>s' r. rest_Delete now f ctx name deleteValidation s = Some (s', r) \<and>
    inv (st_fs s') \<and> ws_live (st_ws s') \<and>
    (case r of Inl e \<Rightarrow> content (st_fs s') = content (st_fs s) \<and> st_ws s' = st_ws s
     | Inr (obj', gone) \<Rightarrow> deleted now f ctx name s s' obj' gone)"
proof -
  obtain s1 got where got: "rest_Get f ctx name (st_fs s) = Some (s1, got)" "inv s1" "content s1 = content (st_fs s)"
    "case got of Inr obj \<Rightarrow> s1 = st_fs s \<and> (\<exists>c. content (st_fs s) (loc f ctx name) = Some c \<and>
                                    unpack (rest_dec f) (newFunc f) c = Inr obj) | Inl e \<Rightarrow> True"
    using rest_Get_total [OF r inv, of name] by (fastforce split: sum.splits)
  show ?thesis
  proof (cases got)
    case (Inl e)
    with got live show ?thesis by (auto simp: rest_Delete_def)
  next
    case (Inr oldObj)
    with got(4) obtain c where c: "content (st_fs s) (loc f ctx name) = Some c"
      "unpack (rest_dec f) (newFunc f) c = Inr oldObj" by auto
    show ?thesis
    proof (cases "run_validation deleteValidation (Some oldObj) = None \<and> Metadata oldObj \<noteq> None")
      case True
      then obtain m where m: "Metadata oldObj = Some m" and ok: "run_validation deleteValidation (Some oldObj) = None" by auto
      obtain s' res where res: "rest_Delete now f ctx name deleteValidation s = Some (s', res)" "inv (st_fs s')"
        "ws_live (st_ws s')"
        "case res of Inl e \<Rightarrow> content (st_fs s') = content (st_fs s) \<and> st_ws s' = st_ws s \<and> Finalizers m \<noteq> []
         | Inr (obj', gone) \<Rightarrow> deleted now f ctx name s s' obj' gone"
        using rest_Delete_found [OF r inv live c ok m, of now] by blast
      then show ?thesis by (cases res) auto
    next
      case False
      with Inr got(1) have "\<exists>e. rest_Delete now f ctx name deleteValidation s = Some (s\<lparr>st_fs := s1\<rparr>, Inl e)"
        by (cases "run_validation deleteValidation (Some oldObj)")
          (auto simp: rest_Delete_def Let_def meta_Accessor_def)
      with got(2,3) live show ?thesis by auto
    qed
  qed
qed

text \<open>One attempt of the closure of \<open>Update\<close>: it changes no file.\<close>

lemma tryUpdate_total:
  assumes r: "ready f ctx" and inv: "inv s" and hooks: "hooks_return (rest_strategy f) ctx"
  shows "\<exists>s' r. tryUpdate V f ctx name upd cv uv force input s = Some (s', r) \<and> inv s' \<and>
    content s' = content s \<and> (\<forall>d. has_dir s d \<longrightarrow> has_dir s' d) \<and>
    (\<forall>ok. r = Inr ok \<longrightarrow> (\<exists>v. getResourceVersion input = Inr v \<and>
       tryUpdate_checks V f ctx name upd cv uv input v = Some (Inr ok)))"
proof (cases "input = None \<and> \<not> force \<or> (\<exists>e. getResourceVersion input = Inl e)")
  case True
  with inv show ?thesis by (auto simp: tryUpdate_def)
next
  case False
  then obtain v where v: "getResourceVersion input = Inr v" by (metis old.sum.exhaust)
  obtain s1 r1 where s1: "ensure_namespace_dir f ctx s = Some (s1, r1)" "inv s1" "content s1 = content s"
    "\<forall>d. has_dir s d \<longrightarrow> has_dir s1 d" using ensure_namespace_dir_total [OF r inv] by blast
  obtain res where "tryUpdate_checks V f ctx name upd cv uv input v = Some res"
    using tryUpdate_checks_returns [OF hooks] by blast
  with s1 v False show ?thesis by (cases r1) (auto simp: tryUpdate_def)
qed

text \<open>The loop of \<open>guaranteedUpdate\<close> returns, and a success is one read-check-write.\<close>

definition committed :: "meta_validators \<Rightarrow> ('fs, 'b) filepathREST \<Rightarrow> request_ctx \<Rightarrow> string \<Rightarrow>
    ('b Object option \<Rightarrow> go_error + 'b Object) \<Rightarrow> 'b validate_object \<Rightarrow> 'b validate_update \<Rightarrow>
    'fs \<Rightarrow> 'fs \<Rightarrow> 'b Object \<Rightarrow> bool \<Rightarrow> bool \<Rightarrow> bool" where
  "committed V f ctx name upd cv uv s s' obj' isCreate isDelete \<longleftrightarrow>
     (\<exists>c old v out c'. content s (loc f ctx name) = Some c \<and> unpack (rest_dec f) (newFunc f) c = Inr old \<and>
        getResourceVersion (Some old) = Inr v \<and>
        tryUpdate_checks V f ctx name upd cv uv (Some old) v = Some (Inr (out, isCreate, isDelete)) \<and>
        content s' = (content s)(loc f ctx name \<mapsto> c') \<and> stored False (rest_enc f) out c' obj')"

lemma committed_cong:
  "content s = content t \<Longrightarrow>
     committed V f ctx name upd cv uv s s' obj' isC isD = committed V f ctx name upd cv uv t s' obj' isC isD"
  by (simp add: committed_def)

lemma guaranteedUpdate_loop_total:
  assumes r: "ready f ctx" and hooks: "hooks_return (rest_strategy f) ctx"
  shows "inv s \<Longrightarrow> \<exists>s' r. guaranteedUpdate_loop f ctx name (tryUpdate V f ctx name upd cv uv force) n i s = Some (s', r) \<and>
    inv s' \<and> (case r of Inl e \<Rightarrow> content s' = content s
      | Inr (obj', isCreate, isDelete) \<Rightarrow> committed V f ctx name upd cv uv s s' obj' isCreate isDelete)"
proof (induction n arbitrary: i s)
  case 0
  then show ?case by simp
next
  case (Suc n)
  let ?attempt = "tryUpdate V f ctx name upd cv uv force" and ?p = "objectFileName f ctx name"
  have ops: "rest_fs f = ops" using r by (simp add: ready_def)
  show ?case
  proof (cases "ctx_Err ctx i")
    case (Some e)
    with Suc.prems show ?thesis by simp
  next
    case ctx: None
    obtain s1 got where got: "rest_Get f ctx name s = Some (s1, got)" "inv s1" "content s1 = content s"
      "case got of Inr obj \<Rightarrow> s1 = s \<and> (\<exists>c. content s (loc f ctx name) = Some c \<and>
                                    unpack (rest_dec f) (newFunc f) c = Inr obj) | Inl e \<Rightarrow> True"
      using rest_Get_total [OF r Suc.prems, of name] by (fastforce split: sum.splits)
    define input where "input = (case got of Inr obj \<Rightarrow> Inr (Some obj)
                   | Inl e \<Rightarrow> if apierrors_IsNotFound e then Inr None else Inl e)"
    show ?thesis
    proof (cases "\<exists>inp v. input = Inr inp \<and> getResourceVersion inp = Inr v")
      case False
      then have "\<exists>e. guaranteedUpdate_loop f ctx name ?attempt (Suc n) i s = Some (s1, Inl e)"
        using ctx got(1) by (auto simp: input_def [symmetric] split: sum.split)
      with got(2,3) show ?thesis by auto
    next
      case True
      then obtain inp v where inp: "input = Inr inp" "getResourceVersion inp = Inr v" by blast
      obtain s2 r2 where s2: "?attempt inp s1 = Some (s2, r2)" "inv s2" "content s2 = content s"
        "\<forall>ok. r2 = Inr ok \<longrightarrow> tryUpdate_checks V f ctx name upd cv uv inp v = Some (Inr ok)"
        using tryUpdate_total [OF r got(2) hooks, of V name upd cv uv force inp] inp(2) got(3) by auto
      show ?thesis
      proof (cases r2)
        case (Inl e)
        then have "guaranteedUpdate_loop f ctx name ?attempt (Suc n) i s = Some (s2, Inl e)"
          using ctx got(1) inp s2(1) by (simp add: input_def [symmetric])
        with s2 show ?thesis by auto
      next
        case (Inr ok)
        obtain out isC isD where ok: "ok = (out, isC, isD)" by (cases ok)
        with Inr s2(4) have checks: "tryUpdate_checks V f ctx name upd cv uv inp v = Some (Inr (out, isC, isD))" by simp
        then obtain old where old: "inp = Some old" by (rule tryUpdate_checks_ok)
        with inp(1) have "got = Inr old" by (auto simp: input_def split: sum.splits if_splits)
        with got(4) obtain c where c: "content s (loc f ctx name) = Some c" "unpack (rest_dec f) (newFunc f) c = Inr old" by auto
        from c(1) have "content s (key ?p) = Some c" by (simp add: loc_def)
        then obtain s3 out' w where w: "fs_Write ops (rest_enc f) ?p out v s2 = Some (s3, out', w)" "inv s3"
          "case w of Some e \<Rightarrow> content s3 = content s
           | None \<Rightarrow> (\<exists>c. content s3 = (content s)(key ?p \<mapsto> c) \<and> stored False (rest_enc f) out c out')"
          using write_present [OF s2(2) objectFileName_good, of f ctx name c "rest_enc f" out v, unfolded s2(3)] by blast
        have step: "guaranteedUpdate_loop f ctx name ?attempt (Suc n) i s =
          (case w of None \<Rightarrow> Some (s3, Inr (out', isC, isD))
           | Some e \<Rightarrow> if e = VersionError then guaranteedUpdate_loop f ctx name ?attempt n (Suc i) s3 else Some (s3, Inl e))"
          using ctx got(1) inp s2(1) Inr ok w(1) by (simp add: input_def [symmetric] ops split: option.split)
        consider "w = None" | "w = Some VersionError" | e where "w = Some e" "e \<noteq> VersionError" by (cases w) auto
        then show ?thesis
        proof cases
          case 1
          with step w c inp old checks show ?thesis by (auto simp: committed_def loc_def)
        next
          case 2
          with w(3) have eq: "content s3 = content s" by simp
          from Suc.IH [OF w(2), of "Suc i", unfolded eq committed_cong [OF eq]] show ?thesis
            unfolding step using 2 by simp
        next
          case 3
          with step w show ?thesis by auto
        qed
      qed
    qed
  qed
qed

text \<open>An update returns. It rewrites the object's file, removes it (the last finalizer of a
  deleted object is gone), or fails and changes nothing.\<close>

definition updated :: "meta_validators \<Rightarrow> ('fs, 'b) filepathREST \<Rightarrow> request_ctx \<Rightarrow> string \<Rightarrow>
    ('b Object option \<Rightarrow> go_error + 'b Object) \<Rightarrow> 'b validate_object \<Rightarrow> 'b validate_update \<Rightarrow>
    ('fs, 'b) store \<Rightarrow> ('fs, 'b) store \<Rightarrow> 'b Object \<Rightarrow> bool \<Rightarrow> bool" where
  "updated V f ctx name upd cv uv s s' obj' isNew \<longleftrightarrow> \<not> isNew \<and>
     (\<exists>s1 isDelete. committed V f ctx name upd cv uv (st_fs s) s1 obj' False isDelete \<and>
        (if isDelete
         then content (st_fs s') = (content (st_fs s))(loc f ctx name := None) \<and>
           WatchSet_notifyWatchers \<lparr>ev_Type = Deleted, ev_Object = obj'\<rparr> (st_ws s) = Some (st_ws s')
         else content (st_fs s') = content s1 \<and>
           WatchSet_notifyWatchers \<lparr>ev_Type = Modified, ev_Object = obj'\<rparr> (st_ws s) = Some (st_ws s')))"

lemma rest_Update_total:
  assumes r: "ready f ctx" and inv: "inv (st_fs s)" and live: "ws_live (st_ws s)"
    and hooks: "hooks_return (rest_strategy f) ctx"
  shows "\<exists>s' r. rest_Update V f ctx name upd cv uv force s = Some (s', r) \<and>
    inv (st_fs s') \<and> ws_live (st_ws s') \<and>
    (case r of Inl e \<Rightarrow> content (st_fs s') = content (st_fs s) \<and> st_ws s' = st_ws s
     | Inr (obj', isNew) \<Rightarrow> updated V f ctx name upd cv uv s s' obj' isNew)"
proof -
  let ?p = "objectFileName f ctx name"
  have ops: "rest_fs f = ops" using r by (simp add: ready_def)
  obtain s1 r1 where g: "guaranteedUpdate f ctx name (tryUpdate V f ctx name upd cv uv force) (st_fs s) = Some (s1, r1)"
    "inv s1" "case r1 of Inl e \<Rightarrow> content s1 = content (st_fs s)
      | Inr (obj', isCreate, isDelete) \<Rightarrow> committed V f ctx name upd cv uv (st_fs s) s1 obj' isCreate isDelete"
    using guaranteedUpdate_loop_total [OF r hooks inv] unfolding guaranteedUpdate_def by blast
  show ?thesis
  proof (cases r1)
    case (Inl e)
    with g live show ?thesis by (auto simp: rest_Update_def)
  next
    case (Inr ok)
    obtain obj' isC isD where ok: "ok = (obj', isC, isD)" by (cases ok)
    with Inr g(3) have com: "committed V f ctx name upd cv uv (st_fs s) s1 obj' isC isD" by simp
    then have isC: "isC = False" by (auto simp: committed_def elim: tryUpdate_checks_ok)
    from com obtain c where c: "content s1 (key ?p) = Some c" "content s1 = (content (st_fs s))(key ?p \<mapsto> c)"
      by (auto simp: committed_def loc_def)
    obtain s2 where s2: "fs_Remove ops ?p s1 = Some (s2, None)" "inv s2" "content s2 = (content s1)(key ?p := None)"
      using remove_present [OF g(2) objectFileName_good c(1)] by blast
    let ?t = "if isD then s2 else s1" and ?ev = "\<lparr>ev_Type = (if isD then Deleted else Modified), ev_Object = obj'\<rparr>"
    obtain ws where ws: "WatchSet_notifyWatchers ?ev (st_ws s) = Some ws" "ws_live ws"
      "notifyWatchers ?ev (s\<lparr>st_fs := ?t\<rparr>) = Some (s\<lparr>st_fs := ?t, st_ws := ws\<rparr>)"
      using notifyWatchers_ok [of "s\<lparr>st_fs := ?t\<rparr>"] live by auto
    have "rest_Update V f ctx name upd cv uv force s = Some (s\<lparr>st_fs := ?t, st_ws := ws\<rparr>, Inr (obj', False))"
      using g(1) Inr ok isC s2(1) ws(3) by (simp add: rest_Update_def ops split: if_splits)
    moreover have "updated V f ctx name upd cv uv s (s\<lparr>st_fs := ?t, st_ws := ws\<rparr>) obj' False"
      unfolding updated_def using com isC s2(3) c(2) ws(1)
      by (intro conjI exI [of _ s1] exI [of _ isD]) (auto simp: loc_def)
    ultimately show ?thesis using g(2) s2(2) ws(2) by auto
  qed
qed

text \<open>Objects with different names or namespaces have different files.\<close>

lemma loc_inject:
  assumes "ready f ctx" and "ready f ctx'" and "slash \<notin> set name" and "slash \<notin> set name'"
    and "loc f ctx name = loc f ctx' name'"
  shows "dir_segs f ctx = dir_segs f ctx' \<and> name = name'"
proof -
  let ?ks = "dir_segs f ctx @ [name @ ''.json'']" and ?ks' = "dir_segs f ctx' @ [name' @ ''.json'']"
  have w: "wf_rest f" "wf_ctx ctx" "wf_ctx ctx'" using assms(1,2) by (auto simp: ready_def)
  have "key (path_below (objRootPath f) ?ks) = key (path_below (objRootPath f) ?ks')"
    using assms(3,4,5) w by (simp add: loc_def objectFileName_below)
  then have "?ks = ?ks'"
    using w assms(3,4) dir_segs_plain [of ctx f] dir_segs_plain [of ctx' f]
    by (intro key_below [of "objRootPath f"]) (auto simp: wf_rest_def plain_seg_json)
  then show ?thesis by simp
qed

text \<open>What was created can be read.\<close>

lemma rest_Create_then_Get:
  assumes r: "ready f ctx" and inv: "inv (st_fs s)" and live: "ws_live (st_ws s)"
    and codec: "codec_ok (rest_enc f) (rest_dec f) canon"
    and create: "rest_Create V now uuid f ctx obj createValidation s = Some (s', Inr obj')"
  shows "\<exists>m. Metadata obj' = Some m \<and> rest_Get f ctx (Name m) (st_fs s') = Some (st_fs s', Inr (canon obj'))"
proof -
  from rest_Create_total [OF r inv live, of V now uuid obj createValidation] create
  obtain obj1 m where inv': "inv (st_fs s')" and m: "Metadata obj1 = Some m"
    and c: "created f ctx (Name m) obj1 s s' obj'" by auto
  from c obtain v rv where v: "content (st_fs s') = (content (st_fs s))(loc f ctx (Name m) \<mapsto> v)"
    and st: "stored True (rest_enc f) obj1 v obj'" and rv: "obj' = with_rv rv obj1"
    by (auto simp: created_def stored_def)
  from st codec have "unpack (rest_dec f) (newFunc f) v = Inr (canon obj')" by (auto simp: stored_def)
  with rest_Get_present [OF r inv', of "Name m" v] v
  have "rest_Get f ctx (Name m) (st_fs s') = Some (st_fs s', Inr (canon obj'))" by simp
  with rv m show ?thesis by simp
qed

text \<open>A list has exactly the stored objects that match.\<close>

definition listing :: "'fs \<Rightarrow> string \<Rightarrow> (string \<times> 'c) list \<Rightarrow> bool" where
  "listing s d files \<longleftrightarrow> distinct (map fst files) \<and>
     (\<forall>p c. (p, c) \<in> set files \<longleftrightarrow>
        (\<exists>ks. ks \<noteq> [] \<and> list_all plain_seg ks \<and> HasSuffix (last ks) ''.json'' \<and>
           p = path_below d ks \<and> content s (key p) = Some c))"

lemma collect_list_visitor:
  assumes "\<forall>(q, c) \<in> set files. \<exists>obj. decode c = Inr obj \<and> Metadata obj \<noteq> None"
  shows "collect decode (list_visitor (newSelectionPredicate options)) files acc =
    (acc @ filter (\<lambda>obj. SelectionPredicate_Matches (newSelectionPredicate options) obj = Inr True)
             (map (\<lambda>(q, c). projr (decode c)) files), None)"
  using assms
proof (induction files arbitrary: acc)
  case (Cons x files)
  obtain q c where x: "x = (q, c)" by (cases x)
  from Cons.prems x obtain obj m where obj: "decode c = Inr obj" "Metadata obj = Some m" by auto
  with Cons x SelectionPredicate_Matches_meta [OF obj(2), of options] show ?case
    by (auto simp: list_visitor_def)
qed simp

lemma rest_List_exact:
  assumes r: "ready f ctx" and inv: "inv s" and dir: "has_dir s (objectDirName f ctx)"
    and decodes: "\<forall>k c. content s k = Some c \<longrightarrow>
      (\<exists>obj. unpack (rest_dec f) (newFunc f) c = Inr obj \<and> Metadata obj \<noteq> None)"
    and empty: "Items (newListFunc f) = Inr []"
  shows "\<exists>files. listing s (objectDirName f ctx) files \<and>
    rest_List f ctx options s =
      Some (s, setListResourceVersion (newListFunc f\<lparr>Items := Inr
        (filter (\<lambda>obj. SelectionPredicate_Matches (newSelectionPredicate options) obj = Inr True)
          (map (\<lambda>(q, c). projr (unpack (rest_dec f) (newFunc f) c)) files))\<rparr>) (revision s))"
proof -
  let ?d = "objectDirName f ctx" and ?g = "list_visitor (newSelectionPredicate options)"
  let ?u = "unpack (rest_dec f) (newFunc f)"
  have ops: "rest_fs f = ops" and good: "good_path ?d"
    using r objectDirName_below(2) by (auto simp: ready_def)
  from visit_pure [OF inv good dir, of "newFunc f" "rest_dec f" ?g "[]"] obtain files where
    l: "listing s ?d files" and v: "fs_VisitDir ops ?d (newFunc f) (rest_dec f) (pure_visitor ?g) (s, []) =
      Some (case collect ?u ?g files [] of (acc', Some e) \<Rightarrow> ((s, acc'), Inl e)
            | (acc', None) \<Rightarrow> ((s, acc'), Inr (revision s)))"
    unfolding listing_def by blast
  from l decodes have "\<forall>(q, c) \<in> set files. \<exists>obj. ?u c = Inr obj \<and> Metadata obj \<noteq> None"
    unfolding listing_def by blast
  from collect_list_visitor [OF this, of options "[]"] v show ?thesis
    using l empty by (auto simp: rest_List_def ops Let_def)
qed

text \<open>The directory of a stored object exists.\<close>

lemma ensure_namespace_dir_present:
  assumes r: "ready f ctx" and inv: "inv s" and c: "content s (loc f ctx name) \<noteq> None" and name: "slash \<notin> set name"
    and ns: "NamespaceScoped f \<longrightarrow> ctx_namespace ctx \<noteq> None"
  shows "ensure_namespace_dir f ctx s = Some (s, None)"
proof (cases "NamespaceScoped f")
  case True
  with ns obtain n where n: "ctx_namespace ctx = Some n" by auto
  have w: "wf_rest f" "wf_ctx ctx" and ops: "rest_fs f = ops" using r by (auto simp: ready_def)
  have d: "Join [objRootPath f, n] = objectDirName f ctx" using True n by (simp add: objectDirName_def ns_or_empty_def)
  have "objectFileName f ctx name = path_below (objectDirName f ctx) [name @ ''.json'']"
    unfolding objectFileName_below [OF w(2) name] objectDirName_below(1) [OF w]
    using normal_append_plain [OF normal_path_elems dir_segs_plain [OF w(2)], of "objRootPath f" f]
    by (simp add: path_below_def)
  with c have "has_dir s (objectDirName f ctx)"
    using parent_dir [OF inv objectDirName_below(2) [OF w] plain_seg_json [OF name]] by (simp add: loc_def)
  with True n d ops ensure_existing [OF inv objectDirName_below(2) [OF w]] show ?thesis
    by (simp add: ensure_namespace_dir_def)
qed (simp add: ensure_namespace_dir_def)

end

section \<open>Handlers over a versioned file system\<close>

lemma guaranteedUpdate_Suc:
  "guaranteedUpdate f ctx name upd s = guaranteedUpdate_loop f ctx name upd (Suc 99) 0 s"
  by (simp add: guaranteedUpdate_def maxAttempts_def del: guaranteedUpdate_loop.simps)

context versioned_fs
begin

text \<open>The first attempt of an update of a stored object.\<close>

lemma update_attempt:
  assumes r: "ready f ctx" and inv: "inv s" and c: "content s (loc f ctx name) = Some c"
    and old: "unpack (rest_dec f) (newFunc f) c = Inr old"
    and name: "slash \<notin> set name" and ns: "NamespaceScoped f \<longrightarrow> ctx_namespace ctx \<noteq> None"
    and live: "ctx_Err ctx 0 = None"
    and checks: "tryUpdate_checks V f ctx name upd cv uv (Some old) (ver c) = Some res"
  shows "guaranteedUpdate f ctx name (tryUpdate V f ctx name upd cv uv force) s =
    (case res of
       Inl e \<Rightarrow> Some (s, Inl e)
     | Inr (out, flags) \<Rightarrow>
         do {
           (s', out', w) \<leftarrow> fs_Write ops (rest_enc f) (objectFileName f ctx name) out (ver c) s;
           (case w of None \<Rightarrow> Some (s', Inr (out', flags))
            | Some e \<Rightarrow> if e = VersionError
                        then guaranteedUpdate_loop f ctx name (tryUpdate V f ctx name upd cv uv force) 99 (Suc 0) s'
                        else Some (s', Inl e))
         })"
proof -
  have v: "getResourceVersion (Some old) = Inr (ver c)" using unpack_ver [OF inv c old] by simp
  have dir: "ensure_namespace_dir f ctx s = Some (s, None)"
    by (rule ensure_namespace_dir_present [OF r inv _ name ns]) (simp add: c)
  have "tryUpdate V f ctx name upd cv uv force (Some old) s = Some (s, res)"
    using v dir checks by (simp add: tryUpdate_def)
  then show ?thesis
    unfolding guaranteedUpdate_Suc guaranteedUpdate_loop.simps(2)
    using live v rest_Get_present [OF r inv c old] r
    by (auto simp: ready_def split: sum.split)
qed

text \<open>An update computed from an outdated object is refused and changes nothing.\<close>

lemma rest_Update_stale:
  assumes r: "ready f ctx" and inv: "inv (st_fs s)" and c: "content (st_fs s) (loc f ctx name) = Some c"
    and old: "unpack (rest_dec f) (newFunc f) c = Inr old"
    and name: "slash \<notin> set name" and ns: "NamespaceScoped f \<longrightarrow> ctx_namespace ctx \<noteq> None"
    and live: "ctx_Err ctx 0 = None"
    and upd: "upd (Some old) = Inr outp" and w: "getResourceVersion (Some outp) = Inr w" "w \<noteq> ver c"
  shows "rest_Update V f ctx name upd cv uv force s = Some (s, Inl (Conflict (groupResource f) name))"
proof -
  have "tryUpdate_checks V f ctx name upd cv uv (Some old) (ver c) = Some (Inl (conflictErr f name))"
    using upd w by (auto simp: tryUpdate_checks_def)
  from update_attempt [OF r inv c old name ns live this] show ?thesis
    by (simp add: rest_Update_def conflictErr_def)
qed

text \<open>An update computed from the stored object succeeds at the first attempt.\<close>

lemma rest_Update_fresh:
  assumes r: "ready f ctx" and inv: "inv (st_fs s)" and wlive: "ws_live (st_ws s)"
    and c: "content (st_fs s) (loc f ctx name) = Some c"
    and old: "unpack (rest_dec f) (newFunc f) c = Inr old"
    and name: "slash \<notin> set name" and ns: "NamespaceScoped f \<longrightarrow> ctx_namespace ctx \<noteq> None"
    and live: "ctx_Err ctx 0 = None"
    and checks: "tryUpdate_checks V f ctx name upd cv uv (Some old) (ver c) = Some (Inr (out, False, isDelete))"
    and enc: "rest_enc f (with_rv [] out) = Inr buf" and rev: "revision (st_fs s) \<noteq> - 1"
  shows "\<exists>s' obj'. rest_Update V f ctx name upd cv uv force s = Some (s', Inr (obj', False))"
proof -
  let ?p = "objectFileName f ctx name"
  have ops: "rest_fs f = ops" using r by (simp add: ready_def)
  have meta: "Metadata out \<noteq> None" using checks by (auto elim: tryUpdate_checks_ok)
  have nb: "\<not> blocked (st_fs s) ?p"
    using blocked_absent [OF inv objectFileName_good] c by (metis loc_def option.distinct(1))
  obtain s1 obj' where w: "fs_Write ops (rest_enc f) ?p out (ver c) (st_fs s) = Some (s1, obj', None)"
    using write_current [of "st_fs s" ?p "ver c" out "rest_enc f" buf] inv nb rev meta enc c by (auto simp: loc_def)
  then have g: "guaranteedUpdate f ctx name (tryUpdate V f ctx name upd cv uv force) (st_fs s) =
      Some (s1, Inr (obj', False, isDelete))"
    by (simp add: update_attempt [OF r inv c old name ns live checks])
  from write_total [OF inv objectFileName_good nb, of "rest_enc f" out "ver c"] w
  obtain c' where s1: "inv s1" "content s1 (key ?p) = Some c'" by auto
  obtain s2 where s2: "fs_Remove ops ?p s1 = Some (s2, None)"
    using remove_present [OF s1(1) objectFileName_good s1(2)] by blast
  have n: "\<exists>ws. notifyWatchers ev (s\<lparr>st_fs := t\<rparr>) = Some ws" for ev t
    using notifyWatchers_ok [of "s\<lparr>st_fs := t\<rparr>" ev] wlive by auto
  from g s2 n [of "\<lparr>ev_Type = Deleted, ev_Object = obj'\<rparr>" s2] n [of "\<lparr>ev_Type = Modified, ev_Object = obj'\<rparr>" s1]
  show ?thesis by (cases isDelete) (auto simp: rest_Update_def ops)
qed

end

end
