(* ===== verification/Dir_Tree.thy ===== *)
theory Dir_Tree
  imports Prelude "HOL-Library.Sublist"
begin

text \<open>
  Directory trees. \<open>MemoryFS\<close> keeps nested maps \<open>map[string]interface{}\<close> whose values
  are again maps (directories) or file contents; a disk has the same shape. A directory is an
  association list from names to nodes. The theory defines path lookup, the loop that creates
  the missing directories of a path, the modification of the directory at a path, and the list
  of all files below a directory, with the laws that relate them:
  creating directories never changes a file, and modifying one directory entry changes the
  files below that entry only.
\<close>

section \<open>Definitions\<close>

datatype 'v node =
    File 'v
  | Dir "(string \<times> 'v node) list"

type_synonym 'v dir = "(string \<times> 'v node) list"

fun lookup_node :: "'v dir \<Rightarrow> string list \<Rightarrow> 'v node option" where
  "lookup_node d [] = Some (Dir d)"
| "lookup_node d (p # ps) =
     (case map_of d p of
        None \<Rightarrow> None
      | Some (Dir s) \<Rightarrow> lookup_node s ps
      | Some (File v) \<Rightarrow> (if ps = [] then Some (File v) else None))"

definition lookup_file :: "'v dir \<Rightarrow> string list \<Rightarrow> 'v option" where
  "lookup_file d ks = (case lookup_node d ks of Some (File v) \<Rightarrow> Some v | _ \<Rightarrow> None)"

text \<open>
  The loop of \<open>MemoryFS.ensureDir\<close>: walk along the parts of the path, creating an empty
  directory where there is none, and stop with an error at a part that is a file. The result
  pairs the new tree with the contents of the directory reached.
\<close>

fun ensure_parts :: "string list \<Rightarrow> 'v dir \<Rightarrow> 'v dir \<times> (go_error + 'v dir)" where
  "ensure_parts [] d = (d, Inr d)"
| "ensure_parts (part # parts) d =
     (case map_of d part of
        None \<Rightarrow>
          (let (sub, r) = ensure_parts parts [] in (AList.update part (Dir sub) d, r))
      | Some (Dir nextDir) \<Rightarrow>
          (let (sub, r) = ensure_parts parts nextDir in (AList.update part (Dir sub) d, r))
      | Some (File v) \<Rightarrow> (d, Inl (PathConflict part)))"

text \<open>An assignment through the reference to a directory that \<open>ensureDir\<close> returned.\<close>

fun modify_at :: "string list \<Rightarrow> ('v dir \<Rightarrow> 'v dir) \<Rightarrow> 'v dir \<Rightarrow> 'v dir" where
  "modify_at [] f d = f d"
| "modify_at (p # ps) f d =
     (case map_of d p of
        Some (Dir s) \<Rightarrow> AList.update p (Dir (modify_at ps f s)) d
      | _ \<Rightarrow> d)"

text \<open>Keys are distinct on every level.\<close>

fun wf_node :: "'v node \<Rightarrow> bool" where
  "wf_node (File v) = True"
| "wf_node (Dir es) = (distinct (map fst es) \<and> (\<forall>n \<in> set (map snd es). wf_node n))"

abbreviation wf_dir :: "'v dir \<Rightarrow> bool" where
  "wf_dir d \<equiv> wf_node (Dir d)"

text \<open>All files below a node, with their paths relative to it.\<close>

fun node_files :: "'v node \<Rightarrow> (string list \<times> 'v) list" where
  "node_files (File v) = [([], v)]"
| "node_files (Dir es) =
     concat (map (\<lambda>e. map (\<lambda>(ks, v). (fst e # ks, v)) (node_files (snd e))) es)"

section \<open>Lookup\<close>

lemma lookup_file_Nil [simp]: "lookup_file d [] = None"
  by (simp add: lookup_file_def)

lemma lookup_file_Cons:
  "lookup_file d (p # ps) =
     (case map_of d p of
        None \<Rightarrow> None
      | Some (Dir s) \<Rightarrow> lookup_file s ps
      | Some (File v) \<Rightarrow> (if ps = [] then Some v else None))"
  by (simp add: lookup_file_def split: option.splits node.splits)

lemma lookup_file_empty [simp]: "lookup_file [] ks = None"
  by (cases ks) (simp_all add: lookup_file_Cons)

lemma lookup_file_SomeD: "lookup_file d ks = Some v \<Longrightarrow> lookup_node d ks = Some (File v)"
  by (auto simp: lookup_file_def split: option.splits node.splits)

lemma lookup_file_of_node: "lookup_node d ks = Some (File v) \<Longrightarrow> lookup_file d ks = Some v"
  by (simp add: lookup_file_def)

lemma lookup_node_append:
  "lookup_node d ps = Some (Dir s) \<Longrightarrow> lookup_node d (ps @ qs) = lookup_node s qs"
  by (induction ps arbitrary: d) (auto split: option.splits node.splits if_splits)

lemma lookup_file_append:
  "lookup_node d ps = Some (Dir s) \<Longrightarrow> lookup_file d (ps @ qs) = lookup_file s qs"
  by (simp add: lookup_file_def lookup_node_append)

lemma lookup_node_prefix_dir:
  "lookup_node d (ps @ q # qs) \<noteq> None \<Longrightarrow> \<exists>s. lookup_node d ps = Some (Dir s)"
  by (induction ps arbitrary: d) (auto split: option.splits node.splits if_splits)

lemma lookup_file_below_not_dir:
  "\<nexists>s. lookup_node d ps = Some (Dir s) \<Longrightarrow> qs \<noteq> [] \<Longrightarrow> lookup_file d (ps @ qs) = None"
  by (metis list.exhaust lookup_node_prefix_dir lookup_file_SomeD option.distinct(1) option.exhaust)

section \<open>Well-formedness\<close>

declare wf_node.simps(2) [simp del]

lemma wf_dir_iff:
  "wf_dir d \<longleftrightarrow> distinct (map fst d) \<and> (\<forall>e \<in> set d. wf_node (snd e))"
  by (simp add: wf_node.simps(2))

lemma wf_dir_empty [simp]: "wf_dir []"
  by (simp add: wf_dir_iff)

lemma wf_dir_distinct: "wf_dir d \<Longrightarrow> distinct (map fst d)"
  by (simp add: wf_dir_iff)

lemma wf_dir_map_of: "wf_dir d \<Longrightarrow> map_of d p = Some n \<Longrightarrow> wf_node n"
  by (auto simp: wf_dir_iff dest!: map_of_SomeD)

lemma wf_dir_lookup: "wf_dir d \<Longrightarrow> lookup_node d ps = Some n \<Longrightarrow> wf_node n"
proof (induction ps arbitrary: d)
  case (Cons p ps)
  then show ?case
    using wf_dir_map_of [OF Cons.prems(1)] by (auto split: option.splits node.splits if_splits)
qed auto

lemma wf_dir_update: "wf_dir d \<Longrightarrow> wf_node n \<Longrightarrow> wf_dir (AList.update p n d)"
  using set_update_subset [of p n d] by (auto simp: wf_dir_iff simp del: distinct_map)

lemma wf_dir_delete: "wf_dir d \<Longrightarrow> wf_dir (AList.delete p d)"
  using set_delete_subset [of p d] by (auto simp: wf_dir_iff simp del: distinct_map)

lemma wf_ensure_parts: "wf_dir d \<Longrightarrow> wf_dir (fst (ensure_parts ps d))"
proof (induction ps d rule: ensure_parts.induct)
  case (2 part parts d)
  show ?case
  proof (cases "map_of d part")
    case None
    from "2.IH"(1) [OF None] None wf_dir_update [OF "2.prems"] show ?thesis
      by (simp add: case_prod_beta)
  next
    case (Some n)
    show ?thesis
    proof (cases n)
      case (File v)
      with Some "2.prems" show ?thesis by simp
    next
      case (Dir s)
      with Some "2.prems" have "wf_dir s" using wf_dir_map_of by blast
      then have "wf_dir (fst (ensure_parts parts s))" using "2.IH"(2) Some Dir by blast
      then show ?thesis using Some Dir wf_dir_update [OF "2.prems"] by (simp add: case_prod_beta)
    qed
  qed
qed simp

lemma wf_modify_at:
  assumes "\<And>s. wf_dir s \<Longrightarrow> wf_dir (f s)"
  shows "wf_dir d \<Longrightarrow> wf_dir (modify_at ps f d)"
proof (induction ps arbitrary: d)
  case (Cons p ps)
  show ?case
  proof (cases "\<exists>s. map_of d p = Some (Dir s)")
    case True
    then obtain s where s: "map_of d p = Some (Dir s)" by blast
    with Cons.prems have "wf_dir s" using wf_dir_map_of by blast
    then have "wf_dir (modify_at ps f s)" by (rule Cons.IH)
    with s wf_dir_update [OF Cons.prems] show ?thesis by simp
  next
    case False
    with Cons.prems show ?thesis by (auto split: option.splits node.splits)
  qed
qed (simp add: assms)

section \<open>Creating directories\<close>

lemma ensure_parts_file: "lookup_file (fst (ensure_parts ps d)) ks = lookup_file d ks"
proof (induction ps d arbitrary: ks rule: ensure_parts.induct)
  case (2 part parts d)
  show ?case
  proof (cases ks)
    case (Cons q qs)
    with 2 show ?thesis
      by (auto simp: lookup_file_Cons case_prod_beta split: option.splits node.splits)
  qed simp
qed simp

lemma ensure_parts_dir:
  "snd (ensure_parts ps d) = Inr t \<Longrightarrow> lookup_node (fst (ensure_parts ps d)) ps = Some (Dir t)"
proof (induction ps d rule: ensure_parts.induct)
  case (2 part parts d)
  then show ?case
    by (auto simp: case_prod_beta split: option.splits node.splits)
qed simp

lemma ensure_parts_existing:
  "wf_dir d \<Longrightarrow> lookup_node d ps = Some (Dir t) \<Longrightarrow> ensure_parts ps d = (d, Inr t)"
proof (induction ps arbitrary: d)
  case (Cons p ps)
  from Cons.prems(2) obtain s where s: "map_of d p = Some (Dir s)" "lookup_node s ps = Some (Dir t)"
    by (auto split: option.splits node.splits if_splits)
  with Cons.prems(1) have "wf_dir s" using wf_dir_map_of by blast
  with s have "ensure_parts ps s = (s, Inr t)" by (intro Cons.IH)
  with s wf_dir_distinct [OF Cons.prems(1)] show ?case by simp
qed simp

lemma ensure_parts_idem:
  assumes "wf_dir d" and "snd (ensure_parts ps d) = Inr t"
  shows "ensure_parts ps (fst (ensure_parts ps d)) = (fst (ensure_parts ps d), Inr t)"
  using wf_ensure_parts [OF assms(1)] ensure_parts_dir [OF assms(2)]
  by (rule ensure_parts_existing)

text \<open>The walk fails exactly when a file stands in its way.\<close>

lemma ensure_parts_conflict:
  "(\<exists>e. snd (ensure_parts ps d) = Inl e) \<longleftrightarrow>
     (\<exists>qs rs. ps = qs @ rs \<and> qs \<noteq> [] \<and> lookup_file d qs \<noteq> None)"
proof (induction ps d rule: ensure_parts.induct)
  case (2 part parts d)
  have split: "(\<exists>qs rs. part # parts = qs @ rs \<and> qs \<noteq> [] \<and> P qs) \<longleftrightarrow>
    (\<exists>qs rs. parts = qs @ rs \<and> P (part # qs))" for P
    by (metis append_Cons list.exhaust list.inject list.distinct(1))
  show ?case unfolding split
  proof (cases "map_of d part")
    case None
    with "2.IH"(1) show "(\<exists>e. snd (ensure_parts (part # parts) d) = Inl e) \<longleftrightarrow>
      (\<exists>qs rs. parts = qs @ rs \<and> lookup_file d (part # qs) \<noteq> None)"
      by (auto simp: case_prod_beta lookup_file_Cons)
  next
    case (Some n)
    show "(\<exists>e. snd (ensure_parts (part # parts) d) = Inl e) \<longleftrightarrow>
      (\<exists>qs rs. parts = qs @ rs \<and> lookup_file d (part # qs) \<noteq> None)"
    proof (cases n)
      case (File v)
      with Some have "lookup_file d [part] = Some v" by (simp add: lookup_file_Cons)
      then have "\<exists>qs rs. parts = qs @ rs \<and> lookup_file d (part # qs) \<noteq> None"
        by (intro exI [of _ "[]"] exI [of _ parts]) simp
      with Some File show ?thesis by simp
    next
      case (Dir s)
      have "(\<exists>qs rs. parts = qs @ rs \<and> lookup_file d (part # qs) \<noteq> None) \<longleftrightarrow>
        (\<exists>qs rs. parts = qs @ rs \<and> qs \<noteq> [] \<and> lookup_file s qs \<noteq> None)"
        using Some Dir by (auto simp: lookup_file_Cons)
      with "2.IH"(2) [OF Some Dir] Some Dir show ?thesis by (auto simp: case_prod_beta)
    qed
  qed
qed simp

lemma ensure_parts_error:
  "snd (ensure_parts ps d) = Inl e \<Longrightarrow> \<exists>part \<in> set ps. e = PathConflict part"
proof (induction ps d rule: ensure_parts.induct)
  case (2 part parts d)
  then show ?case
    by (auto simp: case_prod_beta split: option.splits node.splits)
qed simp

text \<open>The directory reached is the one that was there, or a new empty one.\<close>

lemma ensure_parts_result:
  "snd (ensure_parts ps d) = Inr t \<Longrightarrow>
     lookup_node d ps = Some (Dir t) \<or> t = [] \<and> lookup_node d ps = None"
proof (induction ps d rule: ensure_parts.induct)
  case (2 part parts d)
  then show ?case
    by (cases parts) (auto simp: case_prod_beta split: option.splits node.splits)
qed simp

lemma ensure_parts_keeps_dir:
  "lookup_node d qs = Some (Dir s) \<Longrightarrow> \<exists>s'. lookup_node (fst (ensure_parts ps d)) qs = Some (Dir s')"
proof (induction ps d arbitrary: qs s rule: ensure_parts.induct)
  case (2 part parts d)
  then show ?case
    by (cases qs) (auto simp: case_prod_beta split: option.splits node.splits if_splits)
qed simp

section \<open>Modifying the directory at a path\<close>

lemma modify_at_keeps_dir:
  assumes f: "\<And>ks s. lookup_node t ks = Some (Dir s) \<Longrightarrow> \<exists>s'. lookup_node (f t) ks = Some (Dir s')"
  shows "lookup_node d ps = Some (Dir t) \<Longrightarrow> lookup_node d qs = Some (Dir s) \<Longrightarrow>
    \<exists>s'. lookup_node (modify_at ps f d) qs = Some (Dir s')"
proof (induction ps arbitrary: d qs s)
  case (Cons p ps)
  then show ?case
    by (cases qs) (auto split: option.splits node.splits if_splits)
qed (use f in auto)

lemma update_entry_keeps_dir:
  assumes "\<nexists>u. map_of t b = Some (Dir u)" and "lookup_node t ks = Some (Dir s)"
  shows "\<exists>s'. lookup_node (AList.update b (File v) t) ks = Some (Dir s')"
  using assms by (cases ks) (auto split: option.splits node.splits if_splits)

lemma delete_entry_keeps_dir:
  assumes "\<nexists>u. map_of t b = Some (Dir u)" and "lookup_node t ks = Some (Dir s)"
  shows "\<exists>s'. lookup_node (AList.delete b t) ks = Some (Dir s')"
  using assms by (cases ks) (auto split: option.splits node.splits if_splits)

lemma modify_at_lookup:
  "lookup_node d ps = Some (Dir t) \<Longrightarrow> lookup_node (modify_at ps f d) ps = Some (Dir (f t))"
  by (induction ps arbitrary: d) (auto split: option.splits node.splits if_splits)

lemma modify_at_other:
  "\<not> prefix ps ks \<Longrightarrow> lookup_file (modify_at ps f d) ks = lookup_file d ks"
proof (induction ps arbitrary: d ks)
  case (Cons p ps)
  then show ?case
    by (cases ks) (auto simp: lookup_file_Cons split: option.splits node.splits)
qed simp

lemma modify_at_below:
  assumes "lookup_node d ps = Some (Dir t)"
  shows "lookup_file (modify_at ps f d) (ps @ qs) = lookup_file (f t) qs"
  using modify_at_lookup [OF assms] by (rule lookup_file_append)

lemma update_entry_file:
  assumes "lookup_node d ps = Some (Dir t)" and "\<nexists>s. map_of t b = Some (Dir s)"
  shows "lookup_file (modify_at ps (AList.update b (File v)) d) = (lookup_file d)(ps @ [b] \<mapsto> v)"
proof
  fix ks
  show "lookup_file (modify_at ps (AList.update b (File v)) d) ks = ((lookup_file d)(ps @ [b] \<mapsto> v)) ks"
  proof (cases "prefix ps ks")
    case True
    then obtain qs where ks: "ks = ps @ qs" by (auto simp: prefix_def)
    show ?thesis
      using assms(2) lookup_file_append [OF assms(1), of qs]
      unfolding ks fun_upd_apply modify_at_below [OF assms(1)]
      by (cases qs) (auto simp: lookup_file_Cons split: option.splits node.splits)
  next
    case False
    then show ?thesis by (auto simp: modify_at_other)
  qed
qed

lemma delete_entry_file:
  assumes "lookup_node d ps = Some (Dir t)"
  shows "lookup_file (modify_at ps (AList.delete b) d) ks =
    (if prefix (ps @ [b]) ks then None else lookup_file d ks)"
proof (cases "prefix ps ks")
  case True
  then obtain qs where ks: "ks = ps @ qs" by (auto simp: prefix_def)
  show ?thesis
    unfolding ks modify_at_below [OF assms] lookup_file_append [OF assms]
    by (cases qs) (auto simp: lookup_file_Cons split: option.splits node.splits)
next
  case False
  then have "\<not> prefix (ps @ [b]) ks" by (meson append_prefixD)
  with False show ?thesis by (simp add: modify_at_other)
qed

section \<open>All files below a directory\<close>

lemma node_files_iff:
  "wf_dir d \<Longrightarrow> (ks, v) \<in> set (node_files (Dir d)) \<longleftrightarrow> lookup_file d ks = Some v"
proof (induction "Dir d" arbitrary: d ks rule: node_files.induct)
  case (2 es)
  have IH: "(ks', v) \<in> set (node_files n) \<longleftrightarrow> (case n of File w \<Rightarrow> ks' = [] \<and> w = v | Dir s \<Rightarrow> lookup_file s ks' = Some v)"
    if "(k, n) \<in> set es" for k n ks'
  proof (cases n)
    case (Dir s)
    with that "2.prems" have "wf_dir s" by (auto simp: wf_dir_iff [of es])
    with that Dir "2.hyps" [of "(k, n)" s ks'] show ?thesis by simp
  qed auto
  have dist: "distinct (map fst es)" using "2.prems" by (rule wf_dir_distinct)
  show ?case
  proof (cases ks)
    case Nil
    then show ?thesis by auto
  next
    case (Cons p ps)
    have "(ks, v) \<in> set (node_files (Dir es)) \<longleftrightarrow>
      (\<exists>n. (p, n) \<in> set es \<and> (ps, v) \<in> set (node_files n))"
      using Cons by force
    also have "\<dots> \<longleftrightarrow> (\<exists>n. map_of es p = Some n \<and> (ps, v) \<in> set (node_files n))"
      using dist by simp
    also have "\<dots> \<longleftrightarrow> lookup_file es ks = Some v"
      using Cons IH [OF map_of_SomeD] by (auto simp: lookup_file_Cons split: option.splits node.splits)
    finally show ?thesis .
  qed
qed

lemma distinct_node_files: "wf_node n \<Longrightarrow> distinct (map fst (node_files n))"
proof (induction n rule: node_files.induct)
  case (2 es)
  have "distinct (map fst (concat (map (\<lambda>e. map (\<lambda>(ks, v). (fst e # ks, v)) (node_files (snd e))) xs)))"
    if "set xs \<subseteq> set es" "distinct (map fst xs)" for xs
    using that
  proof (induction xs)
    case (Cons e xs)
    have "wf_node (snd e)" using Cons.prems(1) "2.prems" by (auto simp: wf_dir_iff)
    then have "distinct (map fst (node_files (snd e)))"
      using "2.IH" [of e] Cons.prems(1) by auto
    then have "distinct (map fst (map (\<lambda>(ks, v). (fst e # ks, v)) (node_files (snd e))))"
      by (simp add: distinct_map inj_on_def case_prod_beta comp_def)
    moreover have "fst ` set (concat (map (\<lambda>e. map (\<lambda>(ks, v). (fst e # ks, v)) (node_files (snd e))) xs))
       \<inter> fst ` set (map (\<lambda>(ks, v). (fst e # ks, v)) (node_files (snd e))) = {}"
      (is "?L \<inter> ?R = {}")
    proof (rule equals0I)
      fix ks
      assume "ks \<in> ?L \<inter> ?R"
      then obtain e' where "e' \<in> set xs" "fst e' = fst e" by auto
      with Cons.prems(2) show False by (metis distinct.simps(2) image_eqI list.set_map list.simps(9))
    qed
    moreover have "distinct (map fst (concat (map (\<lambda>e. map (\<lambda>(ks, v). (fst e # ks, v)) (node_files (snd e))) xs)))"
      using Cons by simp
    ultimately show ?case
      unfolding list.map concat.simps map_append distinct_append set_map by blast
  qed simp
  from this [of es] "2.prems" show ?case by (simp add: wf_dir_iff)
qed simp

end
