(* ===== verification/Walk.thy ===== *)
theory Walk
  imports Fs_Interface Dir_Tree "HOL-Library.Multiset"
begin

text \<open>
  What the two implementations of \<open>FS.VisitDir\<close> share: the paths that a walk builds with
  \<open>filepath.Join\<close> on its way down, and the list of \<open>.json\<close> files that it visits.
\<close>

section \<open>Lemmas\<close>

lemma good_path_normal: "good_path d \<Longrightarrow> d = render (rooted d) (path_elems d) \<and> path_elems d \<noteq> []"
  by (auto simp: good_path_def Clean_def)

lemma path_below_inject:
  assumes "list_all plain_seg ks" and "list_all plain_seg ks'" and "path_below d ks = path_below d ks'"
  shows "ks = ks'"
proof -
  have "normal (rooted d) (path_elems d @ ks)" "normal (rooted d) (path_elems d @ ks')"
    using assms(1,2) by (simp_all add: normal_append_plain)
  from render_inject [OF this] assms(3) show ?thesis by (simp add: path_below_def)
qed

definition walk_path :: "string \<Rightarrow> string list \<Rightarrow> string" where
  "walk_path anc ks = foldl (\<lambda>a k. Join [a, k]) anc ks"

lemma walk_path_below:
  assumes "good_path d" and "list_all plain_seg ks"
  shows "walk_path d ks = path_below d ks"
  using assms(2)
proof (induction ks rule: rev_induct)
  case Nil
  from good_path_normal [OF assms(1)] show ?case by (simp add: walk_path_def path_below_def)
next
  case (snoc k ks)
  have n: "normal (rooted d) (path_elems d @ ks)" using snoc.prems by (simp add: normal_append_plain)
  have "walk_path d (ks @ [k]) = Join [path_below d ks, k]" using snoc by (simp add: walk_path_def)
  also have "\<dots> = render (rooted (path_below d ks)) (path_elems (path_below d ks) @ [k])"
    using snoc.prems by (simp add: Join_plain)
  also have "\<dots> = path_below d (ks @ [k])" using n by (simp add: path_below_def)
  finally show ?case .
qed

lemma mset_concat_map: "mset xs = mset ys \<Longrightarrow> mset (concat (map f xs)) = mset (concat (map f ys))"
proof -
  have "mset (concat (map f zs)) = \<Sum>\<^sub># (image_mset (\<lambda>z. mset (f z)) (mset zs))" for zs :: "'a list"
    by (induction zs) auto
  then show "mset xs = mset ys \<Longrightarrow> mset (concat (map f xs)) = mset (concat (map f ys))" by simp
qed

text \<open>The files below a directory, listed by their relative paths, as the contract of
  \<open>VisitDir\<close> wants them. \<open>C\<close> is the content at a path.\<close>

lemma listing_of_files:
  assumes dist: "distinct (map fst fl)"
    and fl: "\<And>ks v. (ks, v) \<in> set fl \<longleftrightarrow> ks \<noteq> [] \<and> list_all plain_seg ks \<and> C (path_below d ks) = Some v"
  defines "files \<equiv> map (\<lambda>(ks, v). (path_below d ks, v)) (filter (\<lambda>(ks, v). HasSuffix (last ks) ''.json'') fl)"
  shows "distinct (map fst files)"
    and "(p, c) \<in> set files \<longleftrightarrow>
      (\<exists>ks. ks \<noteq> [] \<and> list_all plain_seg ks \<and> HasSuffix (last ks) ''.json'' \<and> p = path_below d ks \<and> C p = Some c)"
proof -
  let ?sel = "filter (\<lambda>(ks, v). HasSuffix (last ks) ''.json'') fl"
  have "inj_on (path_below d) (fst ` set ?sel)"
  proof (rule inj_onI)
    fix ks ks'
    assume "ks \<in> fst ` set ?sel" "ks' \<in> fst ` set ?sel" and eq: "path_below d ks = path_below d ks'"
    then obtain v v' where "(ks, v) \<in> set fl" "(ks', v') \<in> set fl" by auto
    with eq show "ks = ks'" using path_below_inject unfolding fl by blast
  qed
  moreover have "distinct (map fst ?sel)" using dist by (rule distinct_map_filter)
  ultimately have "distinct (map (path_below d) (map fst ?sel))"
    unfolding distinct_map [of "path_below d"] set_map by blast
  then show "distinct (map fst files)"
    unfolding files_def by (simp only: map_map comp_def case_prod_beta fst_conv)
  have "(p, c) \<in> set files \<longleftrightarrow> (\<exists>ks. (ks, c) \<in> set fl \<and> HasSuffix (last ks) ''.json'' \<and> p = path_below d ks)"
    unfolding files_def by force
  then show "(p, c) \<in> set files \<longleftrightarrow>
      (\<exists>ks. ks \<noteq> [] \<and> list_all plain_seg ks \<and> HasSuffix (last ks) ''.json'' \<and> p = path_below d ks \<and> C p = Some c)"
    unfolding fl by blast
qed

end
