(* ===== verification/Memory_Fs.thy ===== *)
theory Memory_Fs
  imports Filepath_Rest Walk
begin

text \<open>
  \<open>MemoryFS\<close> of \<open>pkg/storage/filepath/fs.go\<close>: nested maps that pretend to be a file
  system, with a revision counter of 64 bits. Every method runs under the mutex, so each is one
  atomic state transformer; the parts of \<open>Write\<close>, \<open>Read\<close> and \<open>VisitDir\<close> that
  run outside the mutex touch no shared state.

  Go does not specify the order in which \<open>range\<close> visits a map. The model takes the order as
  a parameter of type \<open>map_order\<close>: for each directory (named by its path) some permutation
  of its entries. The theorems hold for every such order.
\<close>

section \<open>Definitions\<close>

subsection \<open>The order of map iteration\<close>

typedef 'a map_order =
  "{f :: string \<Rightarrow> (string \<times> 'a) list \<Rightarrow> (string \<times> 'a) list. \<forall>p es. mset (f p es) = mset es}"
  morphisms range_over Map_Order
  by (rule exI [of _ "\<lambda>p es. es"]) simp

text \<open>One possible order: the order of insertion.\<close>

definition insertion_order :: "'a map_order" where
  "insertion_order = Map_Order (\<lambda>p es. es)"

lemma map_order_abstype [code abstype]: "Map_Order (range_over f) = f"
  by (rule range_over_inverse)

lemma range_over_insertion_order [simp, code abstract]: "range_over insertion_order = (\<lambda>p es. es)"
  by (simp add: insertion_order_def Map_Order_inverse)

subsection \<open>State\<close>

record versionedData =
  version :: uint64
  data :: bytes

record memory_fs =
  mfs_dir :: "versionedData dir"
  mfs_rev :: uint64

definition NewMemoryFS :: memory_fs where
  "NewMemoryFS = \<lparr>mfs_dir = [], mfs_rev = 1\<rparr>"

subsection \<open>Directories and buffers\<close>

definition path_parts :: "string \<Rightarrow> string list" where
  "path_parts pathToDir = (if pathToDir = ''.'' then [] else split_on slash pathToDir)"

definition ensureDir :: "string \<Rightarrow> memory_fs \<Rightarrow> memory_fs \<times> (go_error + versionedData dir)" where
  "ensureDir pathToDir fs =
     (let (d, r) = ensure_parts (path_parts pathToDir) (mfs_dir fs)
      in (fs\<lparr>mfs_dir := d\<rparr>, r))"

text \<open>\<open>dir[filepath.Base(p)] = v\<close> and \<open>delete(dir, filepath.Base(p))\<close>, where \<open>dir\<close>
  is the directory that \<open>ensureDir(filepath.Dir(p))\<close> returned.\<close>

definition assign_entry :: "string \<Rightarrow> versionedData \<Rightarrow> memory_fs \<Rightarrow> memory_fs" where
  "assign_entry p v fs =
     fs\<lparr>mfs_dir := modify_at (path_parts (path_Dir p)) (AList.update (path_Base p) (File v)) (mfs_dir fs)\<rparr>"

definition delete_entry :: "string \<Rightarrow> memory_fs \<Rightarrow> memory_fs" where
  "delete_entry p fs =
     fs\<lparr>mfs_dir := modify_at (path_parts (path_Dir p)) (AList.delete (path_Base p)) (mfs_dir fs)\<rparr>"

definition incrementRev :: "memory_fs \<Rightarrow> memory_fs \<times> uint64" where
  "incrementRev fs = (let r = mfs_rev fs + 1 in (fs\<lparr>mfs_rev := r\<rparr>, r))"

definition readBuffer :: "string \<Rightarrow> memory_fs \<Rightarrow> memory_fs \<times> (go_error + versionedData)" where
  "readBuffer p fs =
     (let (fs1, r) = ensureDir (path_Dir p) fs
      in case r of
           Inl e \<Rightarrow> (fs1, Inl e)
         | Inr dir \<Rightarrow>
             (case map_of dir (path_Base p) of
                None \<Rightarrow> (fs1, Inl ErrNotExist)
              | Some (Dir _) \<Rightarrow> (fs1, Inl ErrNotExist)
              | Some (File v) \<Rightarrow> (fs1, Inr v)))"

definition decodeBuffer :: "'b decoder \<Rightarrow> versionedData \<Rightarrow> 'b Object \<Rightarrow> go_error + 'b Object" where
  "decodeBuffer dec rawObj newObj =
     (case dec (data rawObj) newObj of
        Inl e \<Rightarrow> Inl e
      | Inr decodedObj \<Rightarrow> setResourceVersion decodedObj (version rawObj))"

subsection \<open>The methods of the interface\<close>

definition MemoryFS_Remove :: "string \<Rightarrow> memory_fs \<Rightarrow> memory_fs \<times> go_error option" where
  "MemoryFS_Remove p fs =
     (let (fs1, r) = ensureDir (path_Dir p) fs
      in case r of
           Inl e \<Rightarrow> (fs1, Some e)
         | Inr dir \<Rightarrow>
             (case map_of dir (path_Base p) of
                None \<Rightarrow> (fs1, Some ErrNotExist)
              | Some _ \<Rightarrow> (delete_entry p fs1, None)))"

definition MemoryFS_Exists :: "string \<Rightarrow> memory_fs \<Rightarrow> memory_fs \<times> bool" where
  "MemoryFS_Exists p fs =
     (let (fs1, r) = ensureDir (path_Dir p) fs
      in case r of
           Inl e \<Rightarrow> (fs1, False)
         | Inr dir \<Rightarrow> (fs1, map_of dir (path_Base p) \<noteq> None))"

definition MemoryFS_EnsureDir :: "string \<Rightarrow> memory_fs \<Rightarrow> memory_fs \<times> go_error option" where
  "MemoryFS_EnsureDir dirname fs =
     (let (fs1, r) = ensureDir dirname fs
      in (fs1, case r of Inl e \<Rightarrow> Some e | Inr _ \<Rightarrow> None))"

text \<open>The second half of \<open>Write\<close>, reached when the checks passed.\<close>

definition Write_commit ::
  "string \<Rightarrow> 'b Object \<Rightarrow> bytes \<Rightarrow> memory_fs \<Rightarrow> memory_fs \<times> 'b Object \<times> go_error option" where
  "Write_commit p obj buf fs =
     (let (fs1, r) = ensureDir (path_Dir p) fs
      in case r of
           Inl e \<Rightarrow> (fs1, obj, Some e)
         | Inr dir \<Rightarrow>
             (let (fs2, newVersion) = incrementRev fs1
              in case setResourceVersion obj newVersion of
                   Inl e \<Rightarrow> (fs2, obj, Some e)
                 | Inr obj' \<Rightarrow>
                     (assign_entry p \<lparr>version = newVersion, data = buf\<rparr> fs2, obj', None)))"

definition MemoryFS_Write ::
  "'b encoder \<Rightarrow> string \<Rightarrow> 'b Object \<Rightarrow> uint64 \<Rightarrow> memory_fs \<Rightarrow> memory_fs \<times> 'b Object \<times> go_error option" where
  "MemoryFS_Write enc p obj storageVersion fs =
     (case clearResourceVersion obj of
        Inl e \<Rightarrow> (fs, obj, Some e)
      | Inr versionlessObj \<Rightarrow>
          (case enc versionlessObj of
             Inl e \<Rightarrow> (fs, obj, Some e)
           | Inr buf \<Rightarrow>
               (let (fs1, r) = readBuffer p fs
                in case r of
                     Inl e \<Rightarrow>
                       (if os_IsNotExist e
                        then (if storageVersion \<noteq> 0 then (fs1, obj, Some e)
                              else Write_commit p obj buf fs1)
                        else (fs1, obj, Some e))
                   | Inr rawObj \<Rightarrow>
                       (if version rawObj \<noteq> storageVersion then (fs1, obj, Some VersionError)
                        else if data rawObj = buf then (fs1, obj, None)
                        else Write_commit p obj buf fs1))))"

definition MemoryFS_Read ::
  "'b decoder \<Rightarrow> string \<Rightarrow> 'b Object \<Rightarrow> memory_fs \<Rightarrow> memory_fs \<times> (go_error + 'b Object)" where
  "MemoryFS_Read dec p newObj fs =
     (let (fs1, r) = readBuffer p fs
      in (fs1, case r of Inl e \<Rightarrow> Inl e | Inr buf \<Rightarrow> decodeBuffer dec buf newObj))"

subsection \<open>Walking a directory\<close>

text \<open>The tree below a directory as the nested \<open>range\<close> loops visit it.\<close>

fun reorder :: "'v node map_order \<Rightarrow> string \<Rightarrow> 'v node \<Rightarrow> 'v node" where
  "reorder ord anc (File v) = File v"
| "reorder ord anc (Dir es) =
     Dir (range_over ord anc (map (\<lambda>e. (fst e, reorder ord (Join [anc, fst e]) (snd e))) es))"

fun dir_entries :: "'v node \<Rightarrow> 'v dir" where
  "dir_entries (Dir es) = es"
| "dir_entries (File v) = []"

text \<open>The closure \<open>walk\<close> of \<open>readDir\<close>; the accumulators are \<open>keyPaths\<close> and
  \<open>buffers\<close>.\<close>

function walk ::
  "string \<Rightarrow> versionedData dir \<Rightarrow> memory_fs \<times> (string \<times> versionedData) list \<Rightarrow>
     (memory_fs \<times> (string \<times> versionedData) list) \<times> go_error option" where
  "walk anc [] acc = (acc, None)"
| "walk anc ((key, Dir innerDir) # es) acc =
     (case walk (Join [anc, key]) innerDir acc of
        (acc', Some e) \<Rightarrow> (acc', Some e)
      | (acc', None) \<Rightarrow> walk anc es acc')"
| "walk anc ((key, File v) # es) acc =
     (if \<not> HasSuffix key ''.json'' then walk anc es acc
      else
        let keyPath = Join [anc, key];
            (fs, found) = acc;
            (fs1, r) = readBuffer keyPath fs
        in case r of
             Inl e \<Rightarrow> ((fs1, found), Some e)
           | Inr rawObj \<Rightarrow> walk anc es (fs1, found @ [(keyPath, rawObj)]))"
  by pat_completeness auto
termination
  by (relation "measure (\<lambda>(anc, es, acc). size (Dir es))") auto

definition readDir ::
  "versionedData node map_order \<Rightarrow> string \<Rightarrow> memory_fs \<Rightarrow>
     memory_fs \<times> (go_error + (string \<times> versionedData) list)" where
  "readDir ord dirname fs =
     (let (fs1, r) = ensureDir dirname fs
      in case r of
           Inl e \<Rightarrow> (fs1, Inl e)
         | Inr dir \<Rightarrow>
             (case walk dirname (dir_entries (reorder ord dirname (Dir dir))) (fs1, []) of
                ((fs2, found), Some e) \<Rightarrow> (fs2, Inl e)
              | ((fs2, found), None) \<Rightarrow> (fs2, Inr found)))"

text \<open>The loop of \<open>VisitDir\<close> over the buffers that were read.\<close>

fun visit_all ::
  "'b decoder \<Rightarrow> 'b Object \<Rightarrow> ('fs, 'b) visitor \<Rightarrow> (string \<times> versionedData) list \<Rightarrow>
     'fs \<times> 'b Object list \<Rightarrow> (('fs \<times> 'b Object list) \<times> go_error option) option" where
  "visit_all dec newObj visitFunc [] st = Some (st, None)"
| "visit_all dec newObj visitFunc ((keyPath, buf) # rest) st =
     (case decodeBuffer dec buf newObj of
        Inl e \<Rightarrow> Some (st, Some e)
      | Inr obj \<Rightarrow>
          (case visitFunc keyPath obj st of
             None \<Rightarrow> None
           | Some (st', Some e) \<Rightarrow> Some (st', Some e)
           | Some (st', None) \<Rightarrow> visit_all dec newObj visitFunc rest st'))"

definition MemoryFS_VisitDir ::
  "versionedData node map_order \<Rightarrow> string \<Rightarrow> 'b Object \<Rightarrow> 'b decoder \<Rightarrow> (memory_fs, 'b) visitor \<Rightarrow>
     memory_fs \<times> 'b Object list \<Rightarrow>
     ((memory_fs \<times> 'b Object list) \<times> (go_error + uint64)) option" where
  "MemoryFS_VisitDir ord dirname newObj dec visitFunc st =
     (let (fs1, r) = readDir ord dirname (fst st)
      in case r of
           Inl e \<Rightarrow> Some ((fs1, snd st), Inl e)
         | Inr found \<Rightarrow>
             (case visit_all dec newObj visitFunc found (fs1, snd st) of
                None \<Rightarrow> None
              | Some (st', Some e) \<Rightarrow> Some (st', Inl e)
              | Some (st', None) \<Rightarrow> Some (st', Inr (mfs_rev fs1))))"

text \<open>\<open>*MemoryFS\<close> as an \<open>FS\<close>: every method returns.\<close>

definition MemoryFS :: "versionedData node map_order \<Rightarrow> (memory_fs, 'b) FS" where
  "MemoryFS ord =
     \<lparr>fs_Remove = (\<lambda>p s. Some (MemoryFS_Remove p s)),
      fs_Exists = (\<lambda>p s. Some (MemoryFS_Exists p s)),
      fs_EnsureDir = (\<lambda>d s. Some (MemoryFS_EnsureDir d s)),
      fs_Write = (\<lambda>enc p obj sv s. Some (MemoryFS_Write enc p obj sv s)),
      fs_Read = (\<lambda>dec p new s. Some (MemoryFS_Read dec p new s)),
      fs_VisitDir = MemoryFS_VisitDir ord\<rparr>"

section \<open>Abstraction\<close>

text \<open>The location of a file in the tree, the stored files, and well-formedness: keys are
  distinct, every file was stored under a cleaned path, and no stored version is 0.\<close>

definition mem_key :: "string \<Rightarrow> string list" where
  "mem_key p = path_parts (path_Dir p) @ [path_Base p]"

definition mem_content :: "memory_fs \<Rightarrow> string list \<Rightarrow> versionedData option" where
  "mem_content fs = lookup_file (mfs_dir fs)"

definition mem_blocked :: "memory_fs \<Rightarrow> string \<Rightarrow> bool" where
  "mem_blocked fs p \<longleftrightarrow>
     (\<exists>e. snd (ensureDir (path_Dir p) fs) = Inl e) \<or>
     (\<exists>s. lookup_node (mfs_dir fs) (mem_key p) = Some (Dir s))"

definition mem_has_dir :: "memory_fs \<Rightarrow> string \<Rightarrow> bool" where
  "mem_has_dir fs d \<longleftrightarrow> (\<exists>s. lookup_node (mfs_dir fs) (path_parts d) = Some (Dir s))"

definition mem_unpack :: "'b decoder \<Rightarrow> 'b Object \<Rightarrow> versionedData \<Rightarrow> go_error + 'b Object" where
  "mem_unpack dec new v = decodeBuffer dec v new"

definition mem_inv :: "memory_fs \<Rightarrow> bool" where
  "mem_inv fs \<longleftrightarrow> wf_dir (mfs_dir fs) \<and>
     (\<forall>k v. mem_content fs k = Some v \<longrightarrow> version v \<noteq> 0 \<and> (\<exists>p. good_path p \<and> k = mem_key p))"

section \<open>Paths\<close>

lemma path_parts_render:
  assumes "normal r cs" and "cs \<noteq> []"
  shows "path_parts (render r cs) = (if r then [] # cs else cs)"
proof -
  have "render r cs \<noteq> ''.''"
  proof
    assume "render r cs = ''.''"
    then have "render r cs = render False []" by (simp add: render_def)
    with assms show False using render_inject [of r cs False "[]"] by simp
  qed
  with assms show ?thesis by (simp add: path_parts_def split_render)
qed

lemma path_parts_root: "path_parts (render r []) = (if r then [[], []] else [])"
  by (simp add: path_parts_def render_def)

lemma mem_key_render:
  assumes "normal r cs" and "plain_seg c"
  shows "mem_key (render r (cs @ [c])) = path_parts (render r cs) @ [c]"
  using assms by (simp add: mem_key_def path_Dir_render path_Base_render)

lemma mem_key_below:
  assumes d: "good_path d" and ks: "list_all plain_seg ks" "ks \<noteq> []"
  shows "mem_key (path_below d ks) = path_parts d @ ks"
proof -
  from d obtain r cs c where c: "normal r cs" "plain_seg c" and d_eq: "d = render r (cs @ [c])"
    by (rule good_pathE)
  from c have n: "normal r (cs @ [c])" by (rule normal_snoc)
  from ks obtain ks' k where k: "ks = ks' @ [k]" "list_all plain_seg ks'" "plain_seg k"
    by (cases ks rule: rev_cases) auto
  have n': "normal r ((cs @ [c]) @ ks')"
    using n k(2) by (induction ks' rule: rev_induct) (auto dest: normal_snoc)
  from d_eq n have "path_below d ks = render r (((cs @ [c]) @ ks') @ [k])"
    by (simp add: path_below_def k(1))
  then have "mem_key (path_below d ks) = path_parts (render r ((cs @ [c]) @ ks')) @ [k]"
    using mem_key_render [OF n' k(3)] by simp
  also have "\<dots> = path_parts d @ ks"
    using path_parts_render [OF n'] path_parts_render [OF n] by (simp add: d_eq k(1))
  finally show ?thesis .
qed

text \<open>The parts of a directory determine whether it is rooted, and its elements.\<close>

lemma rooted_parts_inject:
  assumes "(if r then [] # xs else xs) = (if r' then [] # ys else ys)"
    and "xs \<noteq> []" and "hd xs \<noteq> []" and "ys \<noteq> []" and "hd ys \<noteq> []"
  shows "r = r' \<and> xs = ys"
  using assms by (cases r; cases r') auto

lemma normal_hd: "normal r cs \<Longrightarrow> cs \<noteq> [] \<Longrightarrow> hd cs \<noteq> []"
  using normal_elem_no_slash [of r cs "hd cs"] by simp

lemma dir_parts_inject:
  assumes n: "normal r (cs @ [c])" and n': "normal r' (es @ [e])" and ne: "ks \<noteq> []"
    and parts: "path_parts (render r' es) @ [e] = (if r then [] # cs @ [c] else cs @ [c]) @ ks"
  shows "r = r' \<and> cs @ c # ks = es @ [e]"
proof -
  have hc: "hd (cs @ c # ks) \<noteq> []" using normal_hd [OF n] by (cases cs) simp_all
  have he: "hd (es @ [e]) \<noteq> []" using normal_hd [OF n'] by simp
  have rhs: "(if r then [] # cs @ [c] else cs @ [c]) @ ks = (if r then [] # cs @ c # ks else cs @ c # ks)"
    by simp
  show ?thesis
  proof (cases "es = []")
    case False
    from n' have "normal r' es" using normal_butlast [of r' "es @ [e]"] by simp
    with False parts have "(if r' then [] # es @ [e] else es @ [e]) = (if r then [] # cs @ c # ks else cs @ c # ks)"
      unfolding rhs by (cases r'; cases r) (simp_all add: path_parts_render)
    from rooted_parts_inject [OF this] hc he show ?thesis by simp
  next
    case True
    show ?thesis
    proof (cases r')
      case True
      with parts \<open>es = []\<close> have "[] # [] # [e] = (if r then [] # cs @ c # ks else cs @ c # ks)"
        unfolding rhs by (simp add: path_parts_root)
      with hc show ?thesis by (cases r; cases cs) auto
    next
      case False
      with parts \<open>es = []\<close> have "[e] = (if r then [] # cs @ c # ks else cs @ c # ks)"
        unfolding rhs by (simp add: path_parts_root)
      then have "length [e] = length (if r then [] # cs @ c # ks else cs @ c # ks)" by simp
      with ne show ?thesis by (cases r; cases ks) simp_all
    qed
  qed
qed

text \<open>A file below a directory has a cleaned path below the path of the directory.\<close>

lemma mem_key_below_inv:
  assumes d: "good_path d" and p: "good_path p" and eq: "mem_key p = path_parts d @ ks" and ne: "ks \<noteq> []"
  shows "list_all plain_seg ks \<and> p = path_below d ks"
proof -
  from d obtain r cs c where c: "normal r cs" "plain_seg c" and d_eq: "d = render r (cs @ [c])"
    by (rule good_pathE)
  from p obtain r' es e where e: "normal r' es" "plain_seg e" and p_eq: "p = render r' (es @ [e])"
    by (rule good_pathE)
  from c have n: "normal r (cs @ [c])" by (rule normal_snoc)
  from e have n': "normal r' (es @ [e])" by (rule normal_snoc)
  have "path_parts d = (if r then [] # cs @ [c] else cs @ [c])"
    unfolding d_eq by (rule path_parts_render [OF n]) simp
  with eq have "path_parts (render r' es) @ [e] = (if r then [] # cs @ [c] else cs @ [c]) @ ks"
    by (simp only: p_eq mem_key_render [OF e])
  from dir_parts_inject [OF n n' ne this] have r: "r = r'" and es: "cs @ c # ks = es @ [e]" by auto
  from n' c(2) have "list_all plain_seg (c # ks)"
    unfolding es [symmetric] by (rule normal_plain_tail)
  moreover have "p = path_below d ks"
    using n by (simp add: path_below_def d_eq p_eq r flip: es)
  ultimately show ?thesis by simp
qed

section \<open>Directories and buffers: lemmas\<close>

lemma ensureDir_simps:
  "fst (ensureDir d fs) = fs\<lparr>mfs_dir := fst (ensure_parts (path_parts d) (mfs_dir fs))\<rparr>"
  "snd (ensureDir d fs) = snd (ensure_parts (path_parts d) (mfs_dir fs))"
  by (simp_all add: ensureDir_def case_prod_beta)

lemma ensureDir_content [simp]: "mem_content (fst (ensureDir d fs)) = mem_content fs"
  by (rule ext) (simp add: mem_content_def ensureDir_simps ensure_parts_file)

lemma ensureDir_rev [simp]: "mfs_rev (fst (ensureDir d fs)) = mfs_rev fs"
  by (simp add: ensureDir_simps)

lemma mem_invD:
  assumes "mem_inv fs"
  shows "wf_dir (mfs_dir fs)" and "mem_content fs k = Some v \<Longrightarrow> version v \<noteq> 0"
    and "mem_content fs k = Some v \<Longrightarrow> \<exists>p. good_path p \<and> k = mem_key p"
  using assms by (auto simp: mem_inv_def)

lemma mem_inv_cong:
  "mem_inv fs \<Longrightarrow> wf_dir (mfs_dir fs') \<Longrightarrow> mem_content fs' = mem_content fs \<Longrightarrow> mem_inv fs'"
  by (simp add: mem_inv_def)

lemma ensureDir_inv [simp]: "mem_inv fs \<Longrightarrow> mem_inv (fst (ensureDir d fs))"
  using ensureDir_content [of d fs] wf_ensure_parts [OF mem_invD(1), of fs "path_parts d"]
  by (auto intro: mem_inv_cong [of fs] simp: ensureDir_simps(1))

lemma ensureDir_has_dir [simp]: "mem_has_dir fs d \<Longrightarrow> mem_has_dir (fst (ensureDir d' fs)) d"
  by (auto simp: mem_has_dir_def ensureDir_simps dest: ensure_parts_keeps_dir)

lemma ensureDir_existing:
  assumes "mem_inv fs" and "lookup_node (mfs_dir fs) (path_parts d) = Some (Dir t)"
  shows "ensureDir d fs = (fs, Inr t)"
  using ensure_parts_existing [OF mem_invD(1) [OF assms(1)] assms(2)] by (simp add: ensureDir_def)

lemma ensureDir_not_blocked:
  assumes "\<not> mem_blocked fs p"
  shows "\<not> mem_blocked (fst (ensureDir (path_Dir p) fs)) p"
proof -
  let ?ps = "path_parts (path_Dir p)" and ?d = "mfs_dir fs"
  from assms obtain t where t: "snd (ensure_parts ?ps ?d) = Inr t"
    unfolding mem_blocked_def ensureDir_simps by (metis old.sum.exhaust)
  let ?d' = "fst (ensure_parts ?ps ?d)"
  from t have d': "lookup_node ?d' ?ps = Some (Dir t)" by (rule ensure_parts_dir)
  have "\<nexists>s. lookup_node ?d' (mem_key p) = Some (Dir s)"
    using ensure_parts_result [OF t] lookup_node_append [OF d'] lookup_node_append [of ?d ?ps t] assms
    by (auto simp: mem_key_def mem_blocked_def)
  moreover have "\<nexists>e. snd (ensure_parts ?ps ?d') = Inl e"
    using ensure_parts_conflict [of ?ps ?d'] ensure_parts_conflict [of ?ps ?d] t
    unfolding ensure_parts_file by auto
  ultimately show ?thesis by (simp add: mem_blocked_def ensureDir_simps)
qed

lemma readBuffer_state [simp]: "fst (readBuffer p fs) = fst (ensureDir (path_Dir p) fs)"
  by (auto simp: readBuffer_def case_prod_beta split: sum.splits option.splits node.splits)

lemma readBuffer_file:
  assumes "mem_inv fs" and "mem_content fs (mem_key p) = Some v"
  shows "readBuffer p fs = (fs, Inr v)"
proof -
  let ?ps = "path_parts (path_Dir p)"
  from assms(2) have f: "lookup_node (mfs_dir fs) (?ps @ [path_Base p]) = Some (File v)"
    by (auto simp: mem_content_def mem_key_def dest: lookup_file_SomeD)
  then obtain t where t: "lookup_node (mfs_dir fs) ?ps = Some (Dir t)"
    using lookup_node_prefix_dir by (metis option.distinct(1))
  with f have "map_of t (path_Base p) = Some (File v)"
    by (simp add: lookup_node_append split: option.splits node.splits)
  with ensureDir_existing [OF assms(1) t] show ?thesis by (simp add: readBuffer_def)
qed

lemma readBuffer_absent:
  assumes "mem_content fs (mem_key p) = None"
  shows "\<exists>e. snd (readBuffer p fs) = Inl e \<and> (\<not> mem_blocked fs p \<longrightarrow> e = ErrNotExist)"
proof (cases "snd (ensureDir (path_Dir p) fs)")
  case (Inl e)
  then show ?thesis by (simp add: readBuffer_def case_prod_beta mem_blocked_def)
next
  case (Inr t)
  let ?ps = "path_parts (path_Dir p)"
  from Inr have "lookup_node (fst (ensure_parts ?ps (mfs_dir fs))) ?ps = Some (Dir t)"
    by (simp add: ensureDir_simps ensure_parts_dir)
  from lookup_file_append [OF this, of "[path_Base p]"] assms
  have "lookup_file t [path_Base p] = None"
    by (simp add: ensure_parts_file mem_content_def mem_key_def)
  with Inr show ?thesis
    by (auto simp: readBuffer_def case_prod_beta lookup_file_Cons split: option.splits node.splits)
qed

lemma mem_blocked_absent:
  assumes "mem_inv fs" and "mem_blocked fs p"
  shows "mem_content fs (mem_key p) = None"
proof (rule ccontr)
  assume "mem_content fs (mem_key p) \<noteq> None"
  then obtain v where v: "lookup_node (mfs_dir fs) (mem_key p) = Some (File v)"
    by (auto simp: mem_content_def dest: lookup_file_SomeD)
  then obtain t where "lookup_node (mfs_dir fs) (path_parts (path_Dir p)) = Some (Dir t)"
    unfolding mem_key_def by (metis lookup_node_prefix_dir option.distinct(1))
  with assms(1) have "ensureDir (path_Dir p) fs = (fs, Inr t)" by (rule ensureDir_existing)
  with v assms(2) show False by (simp add: mem_blocked_def)
qed

section \<open>Writing and removing: lemmas\<close>

text \<open>What \<open>ensureDir\<close> of the parent of an unblocked path leaves: a directory without a
  subdirectory of that name.\<close>

lemma ensureDir_parent:
  assumes "\<not> mem_blocked fs p"
  obtains t where "snd (ensureDir (path_Dir p) fs) = Inr t"
    and "lookup_node (mfs_dir (fst (ensureDir (path_Dir p) fs))) (path_parts (path_Dir p)) = Some (Dir t)"
    and "\<nexists>s. map_of t (path_Base p) = Some (Dir s)"
proof -
  let ?fs = "fst (ensureDir (path_Dir p) fs)" and ?ps = "path_parts (path_Dir p)"
  from assms obtain t where t: "snd (ensureDir (path_Dir p) fs) = Inr t"
    unfolding mem_blocked_def by (metis old.sum.exhaust)
  then have d: "lookup_node (mfs_dir ?fs) ?ps = Some (Dir t)"
    by (simp add: ensureDir_simps ensure_parts_dir)
  from ensureDir_not_blocked [OF assms] lookup_node_append [OF d, of "[path_Base p]"]
  have "\<nexists>s. map_of t (path_Base p) = Some (Dir s)" by (auto simp: mem_blocked_def mem_key_def)
  with that d t show thesis by blast
qed

lemma assign_entry_content:
  assumes "lookup_node (mfs_dir fs) (path_parts (path_Dir p)) = Some (Dir t)"
    and "\<nexists>s. map_of t (path_Base p) = Some (Dir s)"
  shows "mem_content (assign_entry p v fs) = (mem_content fs)(mem_key p \<mapsto> v)"
  using update_entry_file [OF assms] by (simp add: mem_content_def assign_entry_def mem_key_def)

lemma assign_entry_inv:
  assumes "mem_inv fs" and "lookup_node (mfs_dir fs) (path_parts (path_Dir p)) = Some (Dir t)"
    and "\<nexists>s. map_of t (path_Base p) = Some (Dir s)" and "good_path p" and "version v \<noteq> 0"
  shows "mem_inv (assign_entry p v fs)"
proof -
  have "wf_dir (mfs_dir (assign_entry p v fs))"
    unfolding assign_entry_def by (simp add: wf_modify_at wf_dir_update mem_invD(1) [OF assms(1)])
  then show ?thesis
    using assms(1,4,5) assign_entry_content [OF assms(2,3), of v] by (auto simp: mem_inv_def)
qed

lemma assign_entry_has_dir:
  assumes "lookup_node (mfs_dir fs) (path_parts (path_Dir p)) = Some (Dir t)"
    and "\<nexists>s. map_of t (path_Base p) = Some (Dir s)" and "mem_has_dir fs d"
  shows "mem_has_dir (assign_entry p v fs) d"
  using modify_at_keeps_dir [of t "AList.update (path_Base p) (File v)", OF update_entry_keeps_dir [OF assms(2)] assms(1)]
    assms(3)
  by (auto simp: mem_has_dir_def assign_entry_def)

lemma incrementRev_simps [simp]:
  "fst (incrementRev fs) = fs\<lparr>mfs_rev := mfs_rev fs + 1\<rparr>" "snd (incrementRev fs) = mfs_rev fs + 1"
  by (simp_all add: incrementRev_def Let_def)

lemma mfs_rev_update_simps [simp]:
  "mem_content (fs\<lparr>mfs_rev := r\<rparr>) = mem_content fs"
  "mem_inv (fs\<lparr>mfs_rev := r\<rparr>) = mem_inv fs"
  "mem_has_dir (fs\<lparr>mfs_rev := r\<rparr>) = mem_has_dir fs"
  unfolding mem_content_def mem_inv_def mem_has_dir_def fun_eq_iff by simp_all

text \<open>The state and the outcome of the commit of a write to an unblocked path.\<close>

lemma Write_commit_cases:
  fixes obj :: "'b Object"
  assumes inv: "mem_inv fs" and p: "good_path p" and nb: "\<not> mem_blocked fs p"
    and w: "Write_commit p obj buf fs = (fs', obj', r)"
  shows "mem_inv fs' \<and> (\<forall>d. mem_has_dir fs d \<longrightarrow> mem_has_dir fs' d) \<and> mfs_rev fs' = mfs_rev fs + 1 \<and>
    (if mfs_rev fs + 1 \<noteq> 0 \<and> Metadata obj \<noteq> None
     then r = None \<and> obj' = with_rv (formatResourceVersion (mfs_rev fs + 1)) obj \<and>
       mem_content fs' = (mem_content fs)(mem_key p \<mapsto> \<lparr>version = mfs_rev fs + 1, data = buf\<rparr>)
     else r \<noteq> None \<and> mem_content fs' = mem_content fs)"
proof -
  let ?fs = "fst (ensureDir (path_Dir p) fs)" and ?v = "mfs_rev fs + 1"
  let ?fs2 = "?fs\<lparr>mfs_rev := ?v\<rparr>" and ?rec = "\<lparr>version = ?v, data = buf\<rparr>"
  from nb obtain t where e: "snd (ensureDir (path_Dir p) fs) = Inr t"
    and d: "lookup_node (mfs_dir ?fs2) (path_parts (path_Dir p)) = Some (Dir t)"
    and nd: "\<nexists>s. map_of t (path_Base p) = Some (Dir s)"
    by (rule ensureDir_parent) simp
  have inv2: "mem_inv ?fs2" and dir2: "\<And>d. mem_has_dir fs d \<Longrightarrow> mem_has_dir ?fs2 d"
    and con2: "mem_content ?fs2 = mem_content fs" using inv by simp_all
  have w': "Write_commit p obj buf fs =
      (case setResourceVersion obj ?v of
         Inl e \<Rightarrow> (?fs2, obj, Some e) | Inr obj' \<Rightarrow> (assign_entry p ?rec ?fs2, obj', None))"
    by (simp add: Write_commit_def case_prod_beta e Let_def split: sum.split)
  show ?thesis
  proof (cases "?v \<noteq> 0 \<and> Metadata obj \<noteq> None")
    case True
    then have "Write_commit p obj buf fs =
      (assign_entry p ?rec ?fs2, with_rv (formatResourceVersion ?v) obj, None)"
      by (simp add: w' setResourceVersion_ok)
    with w have "fs' = assign_entry p ?rec ?fs2" "r = None" "obj' = with_rv (formatResourceVersion ?v) obj"
      by simp_all
    then show ?thesis
      using True assign_entry_inv [OF inv2 d nd p, of ?rec] assign_entry_has_dir [OF d nd dir2]
        assign_entry_content [OF d nd, of ?rec] con2
      by (simp add: assign_entry_def)
  next
    case False
    then obtain e' where "setResourceVersion obj ?v = Inl e'"
      by (metis setResourceVersion_Inr_iff old.sum.exhaust)
    then have "fs' = ?fs2" "r = Some e'" using w by (simp_all add: w')
    then show ?thesis using False inv2 dir2 con2 by simp
  qed
qed

text \<open>Every outcome of \<open>Write\<close>.\<close>

lemma MemoryFS_Write_rejected:
  assumes "Metadata obj = None \<or> (\<exists>e. enc (with_rv [] obj) = Inl e)"
  shows "\<exists>e. MemoryFS_Write enc p obj sv fs = (fs, obj, Some e)"
  using assms
  by (cases "clearResourceVersion obj")
    (auto simp: MemoryFS_Write_def clearResourceVersion_Inr_iff split: sum.splits)

lemma MemoryFS_Write_encoded:
  assumes "Metadata obj \<noteq> None" and "enc (with_rv [] obj) = Inr buf"
  shows "MemoryFS_Write enc p obj sv fs =
    (let (fs1, r) = readBuffer p fs
     in case r of
          Inl e \<Rightarrow>
            (if e = ErrNotExist \<and> sv = 0 then Write_commit p obj buf fs1 else (fs1, obj, Some e))
        | Inr rawObj \<Rightarrow>
            (if version rawObj \<noteq> sv then (fs1, obj, Some VersionError)
             else if data rawObj = buf then (fs1, obj, None)
             else Write_commit p obj buf fs1))"
proof -
  from assms(1) have "clearResourceVersion obj = Inr (with_rv [] obj)"
    by (simp add: clearResourceVersion_Inr_iff)
  with assms(2) show ?thesis
    by (auto simp: MemoryFS_Write_def Let_def case_prod_beta split: sum.splits)
qed

lemma MemoryFS_Write_present:
  assumes "mem_inv fs" and "mem_content fs (mem_key p) = Some v"
    and "Metadata obj \<noteq> None" and "enc (with_rv [] obj) = Inr buf"
  shows "MemoryFS_Write enc p obj sv fs =
    (if version v \<noteq> sv then (fs, obj, Some VersionError)
     else if data v = buf then (fs, obj, None)
     else Write_commit p obj buf fs)"
  by (simp add: MemoryFS_Write_encoded [of obj enc buf, OF assms(3,4)] readBuffer_file [OF assms(1,2)])

lemma MemoryFS_Write_absent:
  assumes "mem_content fs (mem_key p) = None" and "\<not> mem_blocked fs p"
    and "Metadata obj \<noteq> None" and "enc (with_rv [] obj) = Inr buf"
  shows "MemoryFS_Write enc p obj sv fs =
    (if sv = 0 then Write_commit p obj buf (fst (ensureDir (path_Dir p) fs))
     else (fst (ensureDir (path_Dir p) fs), obj, Some ErrNotExist))"
proof -
  from readBuffer_absent [OF assms(1)] assms(2) have "snd (readBuffer p fs) = Inl ErrNotExist" by blast
  then show ?thesis by (simp add: MemoryFS_Write_encoded [of obj enc buf, OF assms(3,4)] case_prod_beta)
qed

text \<open>The effect of a write on an unblocked path: compare-and-swap on the version.\<close>

lemma MemoryFS_Write_cases:
  fixes obj :: "'b Object"
  assumes inv: "mem_inv fs" and p: "good_path p" and nb: "\<not> mem_blocked fs p"
    and w: "MemoryFS_Write enc p obj sv fs = (fs', obj', r)"
  obtains
    (rejected) e where "fs' = fs" "r = Some e" "Metadata obj = None \<or> (\<exists>e. enc (with_rv [] obj) = Inl e)"
  | (stale) v where "mem_content fs (mem_key p) = Some v" "version v \<noteq> sv" "r = Some VersionError" "fs' = fs"
  | (gone) "mem_content fs (mem_key p) = None" "sv \<noteq> 0" "r = Some ErrNotExist"
      "fs' = fst (ensureDir (path_Dir p) fs)"
  | (same) v where "mem_content fs (mem_key p) = Some v" "version v = sv" "r = None" "fs' = fs" "obj' = obj"
      "Metadata obj \<noteq> None" "enc (with_rv [] obj) = Inr (data v)"
  | (commit) fs1 buf where "Metadata obj \<noteq> None" "enc (with_rv [] obj) = Inr buf"
      "case mem_content fs (mem_key p) of None \<Rightarrow> sv = 0 | Some v \<Rightarrow> version v = sv \<and> data v \<noteq> buf"
      "Write_commit p obj buf fs1 = (fs', obj', r)" "mem_inv fs1" "\<not> mem_blocked fs1 p"
      "mem_content fs1 = mem_content fs" "mfs_rev fs1 = mfs_rev fs"
      "\<forall>d. mem_has_dir fs d \<longrightarrow> mem_has_dir fs1 d"
proof (cases "Metadata obj = None \<or> (\<exists>e. enc (with_rv [] obj) = Inl e)")
  case True
  with MemoryFS_Write_rejected obtain e where "MemoryFS_Write enc p obj sv fs = (fs, obj, Some e)"
    by blast
  with w have "fs' = fs" "r = Some e" by simp_all
  then show thesis using True by (rule rejected)
next
  case False
  then obtain buf where meta: "Metadata obj \<noteq> None" and buf: "enc (with_rv [] obj) = Inr buf"
    by (metis old.sum.exhaust)
  show thesis
  proof (cases "mem_content fs (mem_key p)")
    case None
    show thesis
    proof (cases "sv = 0")
      case True
      with w None MemoryFS_Write_absent [of fs p obj enc buf sv, OF None nb meta buf]
      have "Write_commit p obj buf (fst (ensureDir (path_Dir p) fs)) = (fs', obj', r)" by simp
      then show thesis
        using None True inv ensureDir_not_blocked [OF nb] by (intro commit [OF meta buf, of "fst (ensureDir (path_Dir p) fs)"]) simp_all
    next
      case False
      with w None MemoryFS_Write_absent [of fs p obj enc buf sv, OF None nb meta buf] show thesis
        by (intro gone) simp_all
    qed
  next
    case (Some v)
    from MemoryFS_Write_present [of fs p v obj enc buf sv, OF inv Some meta buf] w
    have w': "(if version v \<noteq> sv then (fs, obj, Some VersionError)
      else if data v = buf then (fs, obj, None) else Write_commit p obj buf fs) = (fs', obj', r)" by simp
    consider "version v \<noteq> sv" | "version v = sv" "data v = buf" | "version v = sv" "data v \<noteq> buf" by blast
    then show thesis
    proof cases
      case 1
      with w' Some show thesis by (intro stale) simp_all
    next
      case 2
      with w' Some meta buf show thesis by (intro same) auto
    next
      case 3
      with w' Some inv nb show thesis by (intro commit [OF meta buf, of fs]) simp_all
    qed
  qed
qed

section \<open>Walking a directory: lemmas\<close>

lemma mset_range_over [simp]: "mset (range_over ord p es) = mset es"
  using range_over [of ord] by simp

lemma node_files_reorder: "mset (node_files (reorder ord anc n)) = mset (node_files n)"
proof (induction ord anc n rule: reorder.induct)
  case (2 ord anc es)
  let ?f = "\<lambda>e. map (\<lambda>(ks, v). (fst e # ks, v)) (node_files (snd e))"
  let ?g = "\<lambda>e. (fst e, reorder ord (Join [anc, fst e]) (snd e))"
  have "mset (node_files (reorder ord anc (Dir es))) = mset (concat (map ?f (map ?g es)))"
    by (simp del: map_map) (rule mset_concat_map, simp)
  also have "\<dots> = mset (concat (map ?f es))"
    using 2
  proof (induction es)
    case (Cons e es)
    have "mset (?f (?g e)) = mset (?f e)" using Cons.prems [of e] by simp
    then show ?case using Cons by simp
  qed simp
  finally show ?case by simp
qed simp

lemma set_node_files_reorder [simp]: "set (node_files (reorder ord anc n)) = set (node_files n)"
  by (rule mset_eq_setD) (rule node_files_reorder)

text \<open>If every file below the directory can be read back at its path, the walk collects
  exactly the \<open>.json\<close> files and leaves the file system as it is.\<close>

lemma walk_files:
  assumes "\<And>ks v. (ks, v) \<in> set (node_files (Dir es)) \<Longrightarrow> readBuffer (walk_path anc ks) fs = (fs, Inr v)"
  shows "walk anc es (fs, found) =
    ((fs, found @ map (\<lambda>(ks, v). (walk_path anc ks, v))
       (filter (\<lambda>(ks, v). HasSuffix (last ks) ''.json'') (node_files (Dir es)))), None)"
  using assms
proof (induction anc es "(fs, found)" arbitrary: found rule: walk.induct)
  case (2 anc key innerDir es)
  have ne: "ks \<noteq> []" if "(ks, v) \<in> set (node_files (Dir innerDir))" for ks v using that by auto
  have "readBuffer (walk_path (Join [anc, key]) ks) fs = (fs, Inr v)"
    if "(ks, v) \<in> set (node_files (Dir innerDir))" for ks v
    using "2.prems" [of "key # ks" v] that by (force simp: walk_path_def)
  from "2.hyps"(1) [OF this] have IH1: "walk (Join [anc, key]) innerDir (fs, found) =
    ((fs, found @ map (\<lambda>(ks, v). (walk_path (Join [anc, key]) ks, v))
       (filter (\<lambda>(ks, v). HasSuffix (last ks) ''.json'') (node_files (Dir innerDir)))), None)"
    by blast
  have rest: "readBuffer (walk_path anc ks) fs = (fs, Inr v)" if "(ks, v) \<in> set (node_files (Dir es))" for ks v
    using "2.prems" [of ks v] that by simp
  have "filter (\<lambda>(ks, v). HasSuffix (last ks) ''.json'') (map (\<lambda>(ks, v). (key # ks, v)) (node_files (Dir innerDir)))
    = map (\<lambda>(ks, v). (key # ks, v)) (filter (\<lambda>(ks, v). HasSuffix (last ks) ''.json'') (node_files (Dir innerDir)))"
    unfolding filter_map by (rule arg_cong [where f = "map _"], rule filter_cong) (use ne in auto)
  then show ?case
    using IH1 "2.hyps"(2) [OF IH1 [symmetric] refl rest]
    by (simp add: comp_def case_prod_beta walk_path_def)
next
  case (3 anc key v es)
  have rest: "readBuffer (walk_path anc ks) fs = (fs, Inr w)" if "(ks, w) \<in> set (node_files (Dir es))" for ks w
    using "3.prems" [of ks w] that by simp
  have "readBuffer (Join [anc, key]) fs = (fs, Inr v)"
    using "3.prems" [of "[key]" v] by (simp add: walk_path_def)
  with "3.hyps" rest show ?case by (simp add: walk_path_def)
qed simp

text \<open>The files that a visit of a directory is about.\<close>

definition mem_listing :: "memory_fs \<Rightarrow> string \<Rightarrow> (string \<times> versionedData) list \<Rightarrow> bool" where
  "mem_listing fs d files \<longleftrightarrow> distinct (map fst files) \<and>
     (\<forall>p c. (p, c) \<in> set files \<longleftrightarrow>
        (\<exists>ks. ks \<noteq> [] \<and> list_all plain_seg ks \<and> HasSuffix (last ks) ''.json'' \<and>
          p = path_below d ks \<and> mem_content fs (mem_key p) = Some c))"

lemma mem_content_below:
  assumes "lookup_node (mfs_dir fs) (path_parts d) = Some (Dir t)"
  shows "lookup_file t ks = mem_content fs (path_parts d @ ks)"
  using lookup_file_append [OF assms] by (simp add: mem_content_def)

lemma mem_file_below:
  assumes inv: "mem_inv fs" and d: "good_path d" and v: "mem_content fs (path_parts d @ ks) = Some v" and ne: "ks \<noteq> []"
  shows "list_all plain_seg ks \<and> mem_content fs (mem_key (path_below d ks)) = Some v"
proof -
  from mem_invD(3) [OF inv v] obtain p where p: "good_path p" "mem_key p = path_parts d @ ks" by auto
  from mem_key_below_inv [OF d p ne] show ?thesis using p(2) v by simp
qed

lemma mem_listing_of_files:
  assumes inv: "mem_inv fs" and d: "good_path d" and dist: "distinct (map fst fl)"
    and fl: "\<And>ks v. (ks, v) \<in> set fl \<longleftrightarrow> ks \<noteq> [] \<and> mem_content fs (path_parts d @ ks) = Some v"
  shows "mem_listing fs d (map (\<lambda>(ks, v). (path_below d ks, v)) (filter (\<lambda>(ks, v). HasSuffix (last ks) ''.json'') fl))"
proof -
  have "(ks, v) \<in> set fl \<longleftrightarrow> ks \<noteq> [] \<and> list_all plain_seg ks \<and> mem_content fs (mem_key (path_below d ks)) = Some v" for ks v
    using mem_file_below [OF inv d] mem_key_below [OF d] unfolding fl by metis
  from listing_of_files [OF dist this] show ?thesis unfolding mem_listing_def by blast
qed

lemma readDir_ok:
  assumes inv: "mem_inv fs" and d: "good_path d" and dir: "mem_has_dir fs d"
  obtains files where "readDir ord d fs = (fs, Inr files)" and "mem_listing fs d files"
proof -
  from dir obtain t where t: "lookup_node (mfs_dir fs) (path_parts d) = Some (Dir t)"
    by (auto simp: mem_has_dir_def)
  then have wf: "wf_dir t" using wf_dir_lookup mem_invD(1) [OF inv] by blast
  define es where "es = dir_entries (reorder ord d (Dir t))"
  have es: "Dir es = reorder ord d (Dir t)" by (simp add: es_def)
  let ?fl = "node_files (Dir es)"
  have fl: "(ks, v) \<in> set ?fl \<longleftrightarrow> ks \<noteq> [] \<and> mem_content fs (path_parts d @ ks) = Some v" for ks v
    unfolding es set_node_files_reorder node_files_iff [OF wf] mem_content_below [OF t, symmetric]
    by auto
  have "mset (map fst ?fl) = mset (map fst (node_files (Dir t)))"
    unfolding mset_map es node_files_reorder ..
  then have dist: "distinct (map fst ?fl)"
    using distinct_node_files [OF wf] mset_eq_imp_distinct_iff by blast
  have read: "walk_path d ks = path_below d ks \<and> readBuffer (walk_path d ks) fs = (fs, Inr v)"
    if "(ks, v) \<in> set ?fl" for ks v
  proof -
    from that have "list_all plain_seg ks" and "mem_content fs (mem_key (path_below d ks)) = Some v"
      using mem_file_below [OF inv d] unfolding fl by blast+
    with walk_path_below [OF d] readBuffer_file [OF inv] show ?thesis by simp
  qed
  let ?files = "map (\<lambda>(ks, v). (path_below d ks, v)) (filter (\<lambda>(ks, v). HasSuffix (last ks) ''.json'') ?fl)"
  have "walk d es (fs, []) =
    ((fs, [] @ map (\<lambda>(ks, v). (walk_path d ks, v)) (filter (\<lambda>(ks, v). HasSuffix (last ks) ''.json'') ?fl)), None)"
    by (rule walk_files) (use read in blast)
  also have "map (\<lambda>(ks, v). (walk_path d ks, v)) (filter (\<lambda>(ks, v). HasSuffix (last ks) ''.json'') ?fl) = ?files"
    by (rule map_cong [OF refl]) (use read in \<open>auto simp del: node_files.simps\<close>)
  finally have "walk d es (fs, []) = ((fs, ?files), None)" by simp
  then have "readDir ord d fs = (fs, Inr ?files)"
    using ensureDir_existing [OF inv t] by (simp add: readDir_def es_def [symmetric] del: reorder.simps dir_entries.simps node_files.simps)
  moreover have "mem_listing fs d ?files" using inv d dist fl by (rule mem_listing_of_files)
  ultimately show thesis by (rule that)
qed

text \<open>The visit of a directory by a visitor that does not touch the file system.\<close>

lemma visit_all_pure:
  "visit_all dec new (pure_visitor g) files (s, acc) =
     Some (case collect (mem_unpack dec new) g files acc of (acc', r) \<Rightarrow> ((s, acc'), r))"
  by (induction files arbitrary: acc)
    (auto simp: mem_unpack_def pure_visitor_def case_prod_beta split: sum.splits option.splits prod.splits)

lemma VisitDir_pure:
  assumes "readDir ord d s = (s', Inr files)"
  shows "MemoryFS_VisitDir ord d new dec (pure_visitor g) (s, acc) =
    Some (case collect (mem_unpack dec new) g files acc of
            (acc', Some e) \<Rightarrow> ((s', acc'), Inl e)
          | (acc', None) \<Rightarrow> ((s', acc'), Inr (mfs_rev s')))"
  using assms
  by (auto simp: MemoryFS_VisitDir_def visit_all_pure split: prod.splits option.splits)

section \<open>The contract holds\<close>

lemma MemoryFS_Read_present:
  assumes "mem_inv fs" and "mem_content fs (mem_key p) = Some v"
  shows "MemoryFS_Read dec p new fs = (fs, mem_unpack dec new v)"
  using readBuffer_file [OF assms] by (simp add: MemoryFS_Read_def mem_unpack_def)

lemma MemoryFS_Read_absent:
  assumes "mem_content fs (mem_key p) = None"
  shows "\<exists>e. MemoryFS_Read dec p new fs = (fst (ensureDir (path_Dir p) fs), Inl e) \<and>
    (\<not> mem_blocked fs p \<longrightarrow> e = ErrNotExist)"
  using readBuffer_absent [OF assms] by (auto simp: MemoryFS_Read_def case_prod_beta)

lemma MemoryFS_Exists_present:
  assumes "mem_inv fs" and "mem_content fs (mem_key p) = Some v"
  shows "MemoryFS_Exists p fs = (fs, True)"
  using readBuffer_file [OF assms]
  by (auto simp: MemoryFS_Exists_def readBuffer_def case_prod_beta split: sum.splits option.splits node.splits)

lemma MemoryFS_Exists_state [simp]: "fst (MemoryFS_Exists p fs) = fst (ensureDir (path_Dir p) fs)"
  by (simp add: MemoryFS_Exists_def case_prod_beta split: sum.splits)

lemma MemoryFS_Exists_absent:
  assumes "mem_content fs (mem_key p) = None" and "\<not> mem_blocked fs p"
  shows "\<not> snd (MemoryFS_Exists p fs)"
proof -
  from assms(2) obtain t where t: "snd (ensureDir (path_Dir p) fs) = Inr t"
    "\<nexists>s. map_of t (path_Base p) = Some (Dir s)" by (rule ensureDir_parent)
  from readBuffer_absent [OF assms(1)] t show ?thesis
    by (auto simp: MemoryFS_Exists_def readBuffer_def case_prod_beta split: option.splits node.splits)
qed

lemma MemoryFS_Remove_present:
  assumes "mem_inv fs" and "mem_content fs (mem_key p) = Some v"
  shows "\<exists>fs'. MemoryFS_Remove p fs = (fs', None) \<and> mem_inv fs' \<and> mfs_rev fs' = mfs_rev fs \<and>
    mem_content fs' = (mem_content fs)(mem_key p := None) \<and> (\<forall>d. mem_has_dir fs d \<longrightarrow> mem_has_dir fs' d)"
proof -
  let ?ps = "path_parts (path_Dir p)" and ?b = "path_Base p"
  from assms(2) have f: "lookup_node (mfs_dir fs) (?ps @ [?b]) = Some (File v)"
    by (auto simp: mem_content_def mem_key_def dest: lookup_file_SomeD)
  then obtain t where t: "lookup_node (mfs_dir fs) ?ps = Some (Dir t)"
    using lookup_node_prefix_dir by (metis option.distinct(1))
  with f have b: "map_of t ?b = Some (File v)"
    by (simp add: lookup_node_append split: option.splits node.splits)
  then have nd: "\<nexists>u. map_of t ?b = Some (Dir u)" by simp
  let ?fs = "delete_entry p fs"
  have r: "MemoryFS_Remove p fs = (?fs, None)"
    using ensureDir_existing [OF assms(1) t] b by (simp add: MemoryFS_Remove_def)
  have below: "lookup_file (mfs_dir fs) (?ps @ ?b # q # qs) = None" for q qs
    using lookup_file_append [OF t, of "?b # q # qs"] b by (simp add: lookup_file_Cons)
  have con: "mem_content ?fs = (mem_content fs)(mem_key p := None)"
  proof
    fix ks
    have "prefix (?ps @ [?b]) ks \<Longrightarrow> ks \<noteq> mem_key p \<Longrightarrow> lookup_file (mfs_dir fs) ks = None"
      using below by (elim prefixE, rename_tac zs, case_tac zs) (auto simp: mem_key_def)
    then show "mem_content ?fs ks = ((mem_content fs)(mem_key p := None)) ks"
      using delete_entry_file [OF t, of ?b ks]
      by (auto simp: mem_content_def delete_entry_def mem_key_def)
  qed
  have "wf_dir (mfs_dir ?fs)"
    unfolding delete_entry_def by (simp add: wf_modify_at wf_dir_delete mem_invD(1) [OF assms(1)])
  then have "mem_inv ?fs" using assms(1) con by (auto simp: mem_inv_def)
  moreover have "mem_has_dir fs d \<Longrightarrow> mem_has_dir ?fs d" for d
    using modify_at_keeps_dir [of t "AList.delete ?b", OF delete_entry_keeps_dir [OF nd] t]
    by (auto simp: mem_has_dir_def delete_entry_def)
  ultimately show ?thesis using r con by (simp add: delete_entry_def)
qed

lemma MemoryFS_Write_returns:
  assumes "mem_inv fs" and "good_path p" and "\<not> mem_blocked fs p"
    and w: "MemoryFS_Write enc p obj sv fs = (fs', obj', r)"
  shows "mem_inv fs' \<and> (\<forall>d. mem_has_dir fs d \<longrightarrow> mem_has_dir fs' d) \<and>
    (r \<noteq> None \<longrightarrow> mem_content fs' = mem_content fs)"
  using assms
proof (cases rule: MemoryFS_Write_cases)
  case (commit fs1 buf)
  then show ?thesis
    using Write_commit_cases [OF commit(5) assms(2) commit(6,4)] by (auto split: if_splits)
qed (use assms in auto)

lemma MemoryFS_Write_ok:
  assumes "mem_inv fs" and "good_path p" and "\<not> mem_blocked fs p"
    and w: "MemoryFS_Write enc p obj sv fs = (fs', obj', None)"
  shows "\<exists>v. mem_content fs' = (mem_content fs)(mem_key p \<mapsto> v) \<and> Metadata obj \<noteq> None \<and> version v \<noteq> 0 \<and>
    enc (with_rv [] obj) = Inr (data v) \<and>
    (mem_content fs (mem_key p) = Some v \<and> fs' = fs \<and> obj' = obj \<or>
     version v = mfs_rev fs + 1 \<and> mfs_rev fs' = mfs_rev fs + 1 \<and>
     obj' = with_rv (formatResourceVersion (version v)) obj)"
  using assms
proof (cases rule: MemoryFS_Write_cases)
  case (same v)
  then have "mem_content fs = (mem_content fs)(mem_key p \<mapsto> v)" by (simp add: fun_upd_idem)
  with same mem_invD(2) [OF assms(1) same(1)] show ?thesis by blast
next
  case (commit fs1 buf)
  from Write_commit_cases [OF commit(5) assms(2) commit(6,4)] commit(1,2,7,8)
  show ?thesis by (intro exI [of _ "\<lparr>version = mfs_rev fs + 1, data = buf\<rparr>"]) (simp split: if_splits)
qed auto

lemma mem_unpack_written:
  assumes "codec_ok enc dec canon" and "enc (with_rv [] obj) = Inr (data v)" and "version v \<noteq> 0"
    and "Metadata obj \<noteq> None"
  shows "mem_unpack dec new v = Inr (with_rv (formatResourceVersion (version v)) (canon obj))"
proof -
  have "dec (data v) new = Inr (with_rv [] (canon obj))"
    using codec_ok_decode [OF assms(1,2)] codec_ok_rv [OF assms(1)] by simp
  moreover have "Metadata (with_rv [] (canon obj)) \<noteq> None"
    using codec_ok_has_meta [OF assms(1), of obj] assms(4) by simp
  ultimately show ?thesis
    using assms(3) by (simp add: mem_unpack_def decodeBuffer_def setResourceVersion_ok comp_def)
qed

lemma ensureDir_conflict:
  assumes "snd (ensureDir d fs) = Inl e"
  shows "\<exists>e'. snd (ensureDir d (fst (ensureDir d fs))) = Inl e' \<and> e' \<noteq> ErrNotExist"
proof -
  let ?ps = "path_parts d" and ?t = "mfs_dir fs"
  have "(\<exists>e. snd (ensure_parts ?ps (fst (ensure_parts ?ps ?t))) = Inl e) = (\<exists>e. snd (ensure_parts ?ps ?t) = Inl e)"
    unfolding ensure_parts_conflict ensure_parts_file ..
  with assms obtain e' where "snd (ensure_parts ?ps (fst (ensure_parts ?ps ?t))) = Inl e'"
    by (auto simp: ensureDir_simps)
  with ensure_parts_error [OF this] show ?thesis by (auto simp: ensureDir_simps)
qed

text \<open>A write below a file fails and stores nothing.\<close>

lemma MemoryFS_Write_blocked:
  assumes inv: "mem_inv fs" and b: "mem_blocked fs p" and ex: "MemoryFS_Exists p fs = (fs1, False)"
  shows "\<exists>fs' e. MemoryFS_Write enc p obj sv fs1 = (fs', obj, Some e) \<and> mem_inv fs' \<and>
    (\<forall>d. mem_has_dir fs d \<longrightarrow> mem_has_dir fs' d) \<and> mem_content fs' = mem_content fs"
proof -
  have fs1: "fs1 = fst (ensureDir (path_Dir p) fs)" using MemoryFS_Exists_state [of p fs] ex by simp
  have "\<exists>e. snd (ensureDir (path_Dir p) fs) = Inl e"
  proof (rule ccontr)
    assume "\<nexists>e. snd (ensureDir (path_Dir p) fs) = Inl e"
    then obtain t where t: "snd (ensureDir (path_Dir p) fs) = Inr t" by (metis old.sum.exhaust)
    with b obtain u where u: "lookup_node (mfs_dir fs) (mem_key p) = Some (Dir u)" by (auto simp: mem_blocked_def)
    then obtain t' where t': "lookup_node (mfs_dir fs) (path_parts (path_Dir p)) = Some (Dir t')"
      unfolding mem_key_def by (metis lookup_node_prefix_dir option.distinct(1))
    with u have "map_of t' (path_Base p) \<noteq> None" by (auto simp: mem_key_def lookup_node_append split: option.splits)
    with ensureDir_existing [OF inv t'] ex show False by (simp add: MemoryFS_Exists_def)
  qed
  then obtain e' where e': "snd (ensureDir (path_Dir p) fs1) = Inl e'" "e' \<noteq> ErrNotExist"
    using ensureDir_conflict unfolding fs1 by blast
  then have rb: "snd (readBuffer p fs1) = Inl e'" by (simp add: readBuffer_def case_prod_beta)
  show ?thesis
  proof (cases "Metadata obj = None \<or> (\<exists>e. enc (with_rv [] obj) = Inl e)")
    case True
    with MemoryFS_Write_rejected obtain e where "MemoryFS_Write enc p obj sv fs1 = (fs1, obj, Some e)" by blast
    with inv show ?thesis by (simp add: fs1)
  next
    case False
    then obtain buf where "Metadata obj \<noteq> None" "enc (with_rv [] obj) = Inr buf" by (metis old.sum.exhaust)
    then have "MemoryFS_Write enc p obj sv fs1 = (fst (readBuffer p fs1), obj, Some e')"
      using rb e'(2) by (simp add: MemoryFS_Write_encoded [of obj enc buf] case_prod_beta)
    with inv show ?thesis by (simp add: fs1)
  qed
qed

lemmas MemoryFS_ops = MemoryFS_def FS.simps

interpretation mem: fs_contract "MemoryFS ord" mem_inv mem_key mem_content mem_unpack mem_blocked mem_has_dir mfs_rev
  for ord
proof unfold_locales
  fix d ks ks' assume "good_path d" "list_all plain_seg ks" "list_all plain_seg ks'" "ks \<noteq> []" "ks' \<noteq> []"
    "mem_key (path_below d ks) = mem_key (path_below d ks')"
  then show "ks = ks'" by (simp add: mem_key_below)
next
  fix s p assume "mem_inv s" "mem_blocked s p"
  then show "mem_content s (mem_key p) = None" by (rule mem_blocked_absent)
next
  fix s p c and dec :: "'b decoder" and new assume "mem_inv s" "mem_content s (mem_key p) = Some c"
  then show "fs_Read (MemoryFS ord) dec p new s = Some (s, mem_unpack dec new c)"
    by (simp add: MemoryFS_ops MemoryFS_Read_present)
next
  fix s p and dec :: "'b decoder" and new assume "mem_inv s" and n: "mem_content s (mem_key p) = None"
  then show "\<exists>s' e. fs_Read (MemoryFS ord) dec p new s = Some (s', Inl e) \<and> mem_inv s' \<and> mem_content s' = mem_content s \<and>
      (\<forall>d. mem_has_dir s d \<longrightarrow> mem_has_dir s' d) \<and> (\<not> mem_blocked s p \<longrightarrow> e = ErrNotExist \<and> \<not> mem_blocked s' p)"
    using MemoryFS_Read_absent [OF n, of dec new] ensureDir_not_blocked [of s p] by (auto simp: MemoryFS_ops)
next
  fix s p c assume "mem_inv s" "mem_content s (mem_key p) = Some c"
  then show "fs_Exists (MemoryFS ord) p s = Some (s, True)" by (simp add: MemoryFS_ops MemoryFS_Exists_present)
next
  fix s p assume "mem_inv s" and n: "mem_content s (mem_key p) = None"
  then show "\<exists>s' b. fs_Exists (MemoryFS ord) p s = Some (s', b) \<and> mem_inv s' \<and> mem_content s' = mem_content s \<and>
      (\<forall>d. mem_has_dir s d \<longrightarrow> mem_has_dir s' d) \<and> (\<not> mem_blocked s p \<longrightarrow> \<not> b \<and> \<not> mem_blocked s' p)"
    using MemoryFS_Exists_absent [OF n] ensureDir_not_blocked [of s p]
    by (intro exI [of _ "fst (MemoryFS_Exists p s)"] exI [of _ "snd (MemoryFS_Exists p s)"]) (simp add: MemoryFS_ops prod_eq_iff)
next
  fix s d assume "mem_inv s"
  moreover have "snd (MemoryFS_EnsureDir d s) = None \<longrightarrow> mem_has_dir (fst (ensureDir d s)) d"
    using ensure_parts_dir [of "path_parts d" "mfs_dir s"]
    by (auto simp: MemoryFS_EnsureDir_def ensureDir_simps mem_has_dir_def case_prod_beta split: sum.splits)
  ultimately show "\<exists>s' r. fs_EnsureDir (MemoryFS ord) d s = Some (s', r) \<and> mem_inv s' \<and> mem_content s' = mem_content s \<and>
      (\<forall>d. mem_has_dir s d \<longrightarrow> mem_has_dir s' d) \<and> (r = None \<longrightarrow> mem_has_dir s' d \<or> mem_content s (mem_key d) \<noteq> None)"
    by (intro exI [of _ "fst (ensureDir d s)"] exI [of _ "snd (MemoryFS_EnsureDir d s)"])
      (simp add: MemoryFS_ops MemoryFS_EnsureDir_def case_prod_beta)
next
  fix s d assume "mem_inv s" "mem_has_dir s d"
  then show "fs_EnsureDir (MemoryFS ord) d s = Some (s, None)"
    using ensureDir_existing by (auto simp: MemoryFS_ops MemoryFS_EnsureDir_def mem_has_dir_def)
next
  fix s d k assume "good_path d" "plain_seg k" "mem_content s (mem_key (path_below d [k])) \<noteq> None"
  then have "lookup_node (mfs_dir s) (path_parts d @ [k]) \<noteq> None"
    by (auto simp: mem_key_below mem_content_def dest: lookup_file_SomeD)
  then show "mem_has_dir s d" unfolding mem_has_dir_def by (rule lookup_node_prefix_dir)
next
  fix s p and enc :: "'b encoder" and obj sv assume "mem_inv s" "good_path p" "\<not> mem_blocked s p"
  then show "\<exists>s' obj' r. fs_Write (MemoryFS ord) enc p obj sv s = Some (s', obj', r) \<and> mem_inv s' \<and>
      (\<forall>d. mem_has_dir s d \<longrightarrow> mem_has_dir s' d) \<and> (r \<noteq> None \<longrightarrow> mem_content s' = mem_content s)"
    using MemoryFS_Write_returns [of s p enc obj sv] by (cases "MemoryFS_Write enc p obj sv s") (simp add: MemoryFS_ops)
next
  fix s p s1 and enc :: "'b encoder" and obj sv assume "mem_inv s" "mem_blocked s p"
    and "fs_Exists (MemoryFS ord :: (memory_fs, 'b) FS) p s = Some (s1, False)"
  then show "\<exists>s' obj' e. fs_Write (MemoryFS ord) enc p obj sv s1 = Some (s', obj', Some e) \<and> mem_inv s' \<and>
      (\<forall>d. mem_has_dir s d \<longrightarrow> mem_has_dir s' d) \<and> mem_content s' = mem_content s"
    using MemoryFS_Write_blocked [of s p s1 enc obj sv] by (auto simp: MemoryFS_ops)
next
  fix s p and enc :: "'b encoder" and obj sv s' obj' assume "mem_inv s" "good_path p" "\<not> mem_blocked s p"
    and "fs_Write (MemoryFS ord) enc p obj sv s = Some (s', obj', None)"
  with MemoryFS_Write_ok [of s p enc obj sv s' obj'] obtain v where
    v: "mem_content s' = (mem_content s)(mem_key p \<mapsto> v)" "Metadata obj \<noteq> None" "version v \<noteq> 0"
      "enc (with_rv [] obj) = Inr (data v)"
    and obj': "mem_content s (mem_key p) \<noteq> None \<and> obj' = obj \<or> obj' = with_rv (formatResourceVersion (version v)) obj"
    by (auto simp: MemoryFS_ops)
  have rv: "\<exists>rv. obj' = with_rv rv obj" using obj' v(2) with_rv_same by blast
  have "(\<exists>rv. mem_unpack dec new v = Inr (with_rv rv (canon obj))) \<and>
      (mem_content s (mem_key p) = None \<longrightarrow> mem_unpack dec new v = Inr (canon obj'))"
    if "codec_ok enc dec canon" for dec canon new
    using mem_unpack_written [of enc dec canon obj v new, OF that v(4,3,2)] obj' codec_ok_rv [OF that] by auto
  with rv v(1,2)
  show "\<exists>c. mem_content s' = (mem_content s)(mem_key p \<mapsto> c) \<and> Metadata obj \<noteq> None \<and> (\<exists>rv. obj' = with_rv rv obj) \<and>
      (\<forall>dec canon new. codec_ok enc dec canon \<longrightarrow>
         (\<exists>rv. mem_unpack dec new c = Inr (with_rv rv (canon obj))) \<and>
         (mem_content s (mem_key p) = None \<longrightarrow> mem_unpack dec new c = Inr (canon obj')))"
    by blast
next
  fix s p c assume "mem_inv s" "mem_content s (mem_key p) = Some c"
  then show "\<exists>s'. fs_Remove (MemoryFS ord) p s = Some (s', None) \<and> mem_inv s' \<and>
      mem_content s' = (mem_content s)(mem_key p := None) \<and> (\<forall>d. mem_has_dir s d \<longrightarrow> mem_has_dir s' d)"
    using MemoryFS_Remove_present [of s p c] by (auto simp: MemoryFS_ops)
next
  fix s d new and dec :: "'b decoder" and g acc
  assume "mem_inv s" "good_path d" "mem_has_dir s d"
  then obtain files where files: "readDir ord d s = (s, Inr files)" "mem_listing s d files" by (rule readDir_ok)
  then show "\<exists>files. distinct (map fst files) \<and>
           (\<forall>p c. (p, c) \<in> set files \<longleftrightarrow>
              (\<exists>ks. ks \<noteq> [] \<and> list_all plain_seg ks \<and> HasSuffix (last ks) ''.json'' \<and>
                p = path_below d ks \<and> mem_content s (mem_key p) = Some c)) \<and>
           fs_VisitDir (MemoryFS ord) d new dec (pure_visitor g) (s, acc) =
             Some (case collect (mem_unpack dec new) g files acc of
                     (acc', Some e) \<Rightarrow> ((s, acc'), Inl e)
                   | (acc', None) \<Rightarrow> ((s, acc'), Inr (mfs_rev s)))"
    unfolding mem_listing_def using VisitDir_pure [OF files(1), of new dec g acc]
    by (intro exI [of _ files]) (simp add: MemoryFS_ops)
qed

interpretation memv: versioned_fs "MemoryFS ord" mem_inv mem_key mem_content mem_unpack mem_blocked mem_has_dir
    mfs_rev version
  for ord
proof unfold_locales
  fix s k c and dec :: "'b decoder" and new obj
  assume "mem_content s k = Some c" "mem_unpack dec new c = Inr obj"
  then show "Metadata obj \<noteq> None \<and> getResourceVersion (Some obj) = Inr (version c)"
    by (auto simp: mem_unpack_def decodeBuffer_def setResourceVersion_Inr_iff getResourceVersion_with_rv
        split: sum.splits)
next
  fix s p c and sv :: uint64 and obj :: "'b Object" and enc :: "'b encoder" and buf
  assume "mem_inv s" "mem_content s (mem_key p) = Some c" "version c \<noteq> sv" "Metadata obj \<noteq> None"
    "enc (with_rv [] obj) = Inr buf"
  then show "fs_Write (MemoryFS ord) enc p obj sv s = Some (s, obj, Some VersionError)"
    by (simp add: MemoryFS_ops MemoryFS_Write_present [of s p c obj enc buf])
next
  fix s p and sv :: uint64 and obj :: "'b Object" and enc :: "'b encoder" and buf
  assume "mem_content s (mem_key p) = None" "\<not> mem_blocked s p" "sv \<noteq> 0" "Metadata obj \<noteq> None"
    "enc (with_rv [] obj) = Inr buf"
  then show "\<exists>s'. fs_Write (MemoryFS ord) enc p obj sv s = Some (s', obj, Some ErrNotExist)"
    by (simp add: MemoryFS_ops MemoryFS_Write_absent [of s p obj enc buf])
next
  fix s p and sv :: uint64 and obj :: "'b Object" and enc :: "'b encoder" and buf
  assume a: "mem_inv s" "good_path p" "\<not> mem_blocked s p"
    "case mem_content s (mem_key p) of None \<Rightarrow> sv = 0 | Some c \<Rightarrow> version c = sv" "mfs_rev s \<noteq> - 1"
    "Metadata obj \<noteq> None" "enc (with_rv [] obj) = Inr buf"
  obtain s' obj' r where w: "MemoryFS_Write enc p obj sv s = (s', obj', r)" by (cases "MemoryFS_Write enc p obj sv s")
  with a(1,2,3) have "r = None"
  proof (cases rule: MemoryFS_Write_cases)
    case (commit fs1 buf')
    with Write_commit_cases [OF commit(5) a(2) commit(6,4)] uint64_inc_pos(2) [OF a(5)] show ?thesis by simp
  qed (use a in auto)
  with w show "\<exists>s' obj'. fs_Write (MemoryFS ord) enc p obj sv s = Some (s', obj', None)"
    by (simp add: MemoryFS_ops)
next
  fix s p and enc :: "'b encoder" and obj :: "'b Object" and sv s' obj'
  assume a: "mem_inv s" "good_path p" "\<not> mem_blocked s p"
    and "fs_Write (MemoryFS ord) enc p obj sv s = Some (s', obj', None)"
  then have w: "MemoryFS_Write enc p obj sv s = (s', obj', None)" by (simp add: MemoryFS_ops)
  with a have "case mem_content s (mem_key p) of None \<Rightarrow> sv = 0 | Some c \<Rightarrow> version c = sv"
    by (cases rule: MemoryFS_Write_cases) (auto split: option.splits)
  with MemoryFS_Write_ok [OF a w]
  show "(case mem_content s (mem_key p) of None \<Rightarrow> sv = 0 | Some c \<Rightarrow> version c = sv) \<and>
         (mem_content s (mem_key p) \<noteq> None \<and> s' = s \<and> obj' = obj \<or>
          (\<exists>c. mem_content s' (mem_key p) = Some c \<and> version c = mfs_rev s + 1 \<and> mfs_rev s' = mfs_rev s + 1 \<and>
             obj' = with_rv (formatResourceVersion (version c)) obj))"
    by auto
qed

end
