(* ===== verification/Manifest.thy ===== *)
theory Manifest
  imports Memory_Fs
begin

text \<open>
  The resource type of \<open>pkg/apis/core/v1alpha1/types.go\<close>: \<open>Manifest\<close>, a
  cluster-scoped object with a message in its spec and one in its status, and the optional
  methods it implements.

  The theory also holds the concrete instance that the witnesses of the properties evaluate: a
  serializer of manifests that satisfies \<open>codec_ok\<close> (the one the server uses is a
  parameter of the model), and a store of manifests on a new \<open>MemoryFS\<close>.
\<close>

section \<open>Definitions\<close>

record ManifestSpec =
  spec_Message :: string

record ManifestStatus =
  status_Message :: string

text \<open>What a \<open>Manifest\<close> has besides its type and metadata.\<close>

record ManifestBody =
  Spec :: ManifestSpec
  Status :: ManifestStatus

definition Manifest_NamespaceScoped :: bool where
  "Manifest_NamespaceScoped = False"

definition Manifest_ShortNames :: "string list" where
  "Manifest_ShortNames = [''m'']"

definition Manifest_GetSingularName :: string where
  "Manifest_GetSingularName = ''manifest''"

definition Manifest_GroupResource :: GroupResource where
  "Manifest_GroupResource = \<lparr>gr_Group = ''core.tilt.dev'', gr_Resource = ''manifests''\<rparr>"

definition Manifest_Validate :: "request_ctx \<Rightarrow> ManifestBody Object \<Rightarrow> field_error list" where
  "Manifest_Validate ctx obj = []"

text \<open>\<open>in.GetStatus().CopyTo(parent)\<close>.\<close>

definition ManifestStatus_CopyTo :: "ManifestBody Object \<Rightarrow> ManifestBody Object \<Rightarrow> ManifestBody Object" where
  "ManifestStatus_CopyTo inObj parent = parent\<lparr>Body := (Body parent)\<lparr>Status := Status (Body inObj)\<rparr>\<rparr>"

text \<open>\<open>&Manifest{}\<close> and \<open>&ManifestList{}\<close>.\<close>

definition empty_ObjectMeta :: ObjectMeta where
  "empty_ObjectMeta =
     \<lparr>Name = [], GenerateName = [], Namespace = [], SelfLink = [], UID = [], ResourceVersion = [],
      Generation = 0, CreationTimestamp = 0, DeletionTimestamp = None, DeletionGracePeriodSeconds = None,
      Labels = [], Annotations = [], OwnerReferences = [], Finalizers = [], ManagedFields = []\<rparr>"

definition Manifest_New :: "ManifestBody Object" where
  "Manifest_New =
     \<lparr>TypeMeta = ([], []), Metadata = Some empty_ObjectMeta,
      Body = \<lparr>Spec = \<lparr>spec_Message = []\<rparr>, Status = \<lparr>status_Message = []\<rparr>\<rparr>\<rparr>"

definition Manifest_NewList :: "ManifestBody ListObject" where
  "Manifest_NewList = \<lparr>ListResourceVersion = Some [], Items = Inr []\<rparr>"

text \<open>The methods of the Go type, as reflection and type assertions see them.\<close>

definition Manifest_methods :: "ManifestBody type_methods" where
  "Manifest_methods =
     \<lparr>tm_GenerateName = None, tm_NamespaceScoped = Some Manifest_NamespaceScoped,
      tm_ShortNames = Some Manifest_ShortNames, tm_GetSingularName = Some Manifest_GetSingularName,
      tm_PrepareForCreate = None, tm_PrepareForUpdate = None, tm_Validate = Some Manifest_Validate,
      tm_ValidateUpdate = None, tm_Canonicalize = None, tm_AllowCreateOnUpdate = None,
      tm_AllowUnconditionalUpdate = None, tm_StatusCopyTo = Some ManifestStatus_CopyTo,
      tm_DeepCopyInto = Some \<lparr>NumIn = 1, In0_AssignableTo = True, NumOut = 0\<rparr>\<rparr>"

definition Manifest_Strategy :: "ManifestBody Strategy" where
  "Manifest_Strategy =
     default_strategy (\<lambda>n. replicate n CHR ''x'') (\<lambda>_. Manifest_methods)
       \<lparr>ds_Object = Some Manifest_methods, ds_ObjectTyper = (\<lambda>_. Inr ''Manifest'')\<rparr>"

section \<open>A serializer of manifests\<close>

definition pack_item :: "string \<Rightarrow> string" where
  "pack_item s = concat (map (\<lambda>c. [CHR ''x'', c]) s) @ ''.''"

fun unpack_items :: "string \<Rightarrow> string \<Rightarrow> string list" where
  "unpack_items acc [] = []"
| "unpack_items acc (c # cs) =
     (if c = CHR ''.'' then acc # unpack_items [] cs
      else case cs of [] \<Rightarrow> [] | d # ds \<Rightarrow> unpack_items (acc @ [d]) ds)"

definition manifest_enc :: "ManifestBody encoder" where
  "manifest_enc obj =
     (case Metadata obj of
        None \<Rightarrow> Inl ErrNotObject
      | Some m \<Rightarrow>
          Inr (concat (map pack_item
                 ([Name m, Namespace m, UID m, ResourceVersion m,
                   spec_Message (Spec (Body obj)), status_Message (Status (Body obj)),
                   if DeletionTimestamp m = None then [] else ''deleted''] @ Finalizers m))))"

definition manifest_of ::
  "string \<Rightarrow> string \<Rightarrow> string \<Rightarrow> string \<Rightarrow> string \<Rightarrow> string \<Rightarrow> bool \<Rightarrow> string list \<Rightarrow> ManifestBody Object" where
  "manifest_of name ns uid rv spec status del fins =
     \<lparr>TypeMeta = (''core.tilt.dev/v1alpha1'', ''Manifest''),
      Metadata = Some (empty_ObjectMeta\<lparr>Name := name, Namespace := ns, UID := uid, ResourceVersion := rv,
        DeletionTimestamp := (if del then Some 1 else None), Finalizers := fins\<rparr>),
      Body = \<lparr>Spec = \<lparr>spec_Message = spec\<rparr>, Status = \<lparr>status_Message = status\<rparr>\<rparr>\<rparr>"

definition manifest_dec :: "ManifestBody decoder" where
  "manifest_dec buf new =
     (case unpack_items [] buf of
        name # ns # uid # rv # spec # status # del # fins \<Rightarrow>
          Inr (manifest_of name ns uid rv spec status (del \<noteq> []) fins)
      | _ \<Rightarrow> Inl (OtherError ''cannot decode''))"

definition manifest_canon :: "ManifestBody Object \<Rightarrow> ManifestBody Object" where
  "manifest_canon obj =
     (case Metadata obj of
        None \<Rightarrow> obj
      | Some m \<Rightarrow>
          manifest_of (Name m) (Namespace m) (UID m) (ResourceVersion m) (spec_Message (Spec (Body obj)))
            (status_Message (Status (Body obj))) (DeletionTimestamp m \<noteq> None) (Finalizers m))"

lemma unpack_pack_item: "unpack_items acc (pack_item s @ rest) = (acc @ s) # unpack_items [] rest"
  by (induction s arbitrary: acc) (simp_all add: pack_item_def)

lemma unpack_pack_items: "unpack_items [] (concat (map pack_item xs)) = xs"
  by (induction xs) (simp_all add: unpack_pack_item)

lemma manifest_codec_ok: "codec_ok manifest_enc manifest_dec manifest_canon"
proof -
  have "manifest_dec buf new = Inr (manifest_canon obj)" if "manifest_enc obj = Inr buf" for obj buf new
  proof -
    from that obtain m where m: "Metadata obj = Some m"
      by (auto simp: manifest_enc_def split: option.splits)
    with that have "unpack_items [] buf = [Name m, Namespace m, UID m, ResourceVersion m,
                   spec_Message (Spec (Body obj)), status_Message (Status (Body obj)),
                   if DeletionTimestamp m = None then [] else ''deleted''] @ Finalizers m"
      by (auto simp: manifest_enc_def unpack_pack_item unpack_pack_items)
    with m show ?thesis by (auto simp: manifest_dec_def manifest_canon_def)
  qed
  moreover have "manifest_canon (with_rv rv obj) = with_rv rv (manifest_canon obj)" for obj rv
    by (cases "Metadata obj") (auto simp: manifest_canon_def manifest_of_def update_meta_def)
  moreover have "Metadata obj = None \<Longrightarrow> Metadata (manifest_canon obj) = None" for obj
    by (simp add: manifest_canon_def)
  moreover have "\<exists>m'. Metadata (manifest_canon obj) = Some m' \<and> Name m' = Name m \<and>
              ResourceVersion m' = ResourceVersion m \<and> Finalizers m' = Finalizers m \<and>
              (DeletionTimestamp m = None \<longrightarrow> DeletionTimestamp m' = None) \<and>
              (\<not> Time_IsZero (DeletionTimestamp m) \<longrightarrow> DeletionTimestamp m' \<noteq> None)" if "Metadata obj = Some m" for obj m
    using that by (cases "DeletionTimestamp m") (simp_all add: manifest_canon_def manifest_of_def empty_ObjectMeta_def)
  ultimately show ?thesis unfolding codec_ok_def by blast
qed

section \<open>A store of manifests\<close>

definition no_checks :: meta_validators where
  "no_checks = \<lparr>ValidateLabels = (\<lambda>_. []), ValidateAnnotations = (\<lambda>_. []), ValidateOwnerReferences = (\<lambda>_. []),
     ValidateFinalizerName = (\<lambda>_. []), ValidateManagedFields = (\<lambda>_. [])\<rparr>"

definition manifest_rest :: "(memory_fs, ManifestBody) filepathREST" where
  "manifest_rest =
     \<lparr>rest_enc = manifest_enc, rest_dec = manifest_dec,
      objRootPath = ''/data/core.tilt.dev/manifests'',
      newFunc = Manifest_New, newListFunc = Manifest_NewList, rest_strategy = Manifest_Strategy,
      groupResource = Manifest_GroupResource, rest_fs = MemoryFS insertion_order\<rparr>"

definition cluster_ctx :: request_ctx where
  "cluster_ctx = \<lparr>ctx_namespace = Some [], ctx_Err = (\<lambda>_. None)\<rparr>"

definition new_store :: "(memory_fs, ManifestBody) store" where
  "new_store = \<lparr>st_fs = NewMemoryFS, st_ws = NewWatchSet\<rparr>"

definition sample_manifest :: "string \<Rightarrow> string \<Rightarrow> ManifestBody Object" where
  "sample_manifest name msg = manifest_of name [] [] [] msg [] False []"

end
