(* ===== verification/Storage.thy ===== *)
theory Storage
  imports Manifest
begin

text \<open>
  The REST handlers on \<open>MemoryFS\<close>: the properties of the storage as a client of the API
  sees it. They are the handler lemmas of the locales \<open>fs_contract\<close> and
  \<open>versioned_fs\<close>, through their interpretations on \<open>MemoryFS\<close>, with the
  statements written out over the model. The witnesses run the handlers on the store of manifests
  of \<open>Manifest\<close>.
\<close>

section \<open>Definitions\<close>

text \<open>A request can be served: the storage object uses \<open>MemoryFS\<close>, its directory and the
  namespace of the request are ordinary, the file system is well-formed, and every registered
  watch has its goroutine.\<close>

definition mem_ready ::
  "versionedData node map_order \<Rightarrow> (memory_fs, 'b) filepathREST \<Rightarrow> request_ctx \<Rightarrow> (memory_fs, 'b) store \<Rightarrow> bool" where
  "mem_ready ord f ctx s \<longleftrightarrow> rest_fs f = MemoryFS ord \<and> wf_rest f \<and> wf_ctx ctx \<and>
     mem_inv (st_fs s) \<and> ws_live (st_ws s)"

text \<open>The stored file of an object.\<close>

definition mem_file ::
  "(memory_fs, 'b) filepathREST \<Rightarrow> request_ctx \<Rightarrow> string \<Rightarrow> memory_fs \<Rightarrow> versionedData option" where
  "mem_file f ctx name s = mem_content s (mem_key (objectFileName f ctx name))"

text \<open>The object that a read of it returns.\<close>

definition stored_object ::
  "(memory_fs, 'b) filepathREST \<Rightarrow> request_ctx \<Rightarrow> string \<Rightarrow> memory_fs \<Rightarrow> 'b Object option" where
  "stored_object f ctx name s =
     (case mem_file f ctx name s of
        None \<Rightarrow> None
      | Some v \<Rightarrow> (case decodeBuffer (rest_dec f) v (newFunc f) of Inl e \<Rightarrow> None | Inr obj \<Rightarrow> Some obj))"

text \<open>The effect of a write: exactly one file is removed (\<open>None\<close>) or replaced, and every
  watch is handed one event.\<close>

definition file_effect ::
  "(memory_fs, 'b) filepathREST \<Rightarrow> request_ctx \<Rightarrow> string \<Rightarrow> (memory_fs, 'b) store \<Rightarrow> (memory_fs, 'b) store \<Rightarrow>
     versionedData option \<Rightarrow> EventType \<Rightarrow> 'b Object \<Rightarrow> bool" where
  "file_effect f ctx name s s' file ty obj \<longleftrightarrow>
     mem_content (st_fs s') = (mem_content (st_fs s))(mem_key (objectFileName f ctx name) := file) \<and>
     WatchSet_notifyWatchers \<lparr>ev_Type = ty, ev_Object = obj\<rparr> (st_ws s) = Some (st_ws s')"

text \<open>The content of a file: read with the decoder of the storage, it is the canonical form of the
  object, with the version of the file as its resource version, for every codec that reads back
  what it wrote.\<close>

definition file_holds :: "(memory_fs, 'b) filepathREST \<Rightarrow> versionedData \<Rightarrow> 'b Object \<Rightarrow> bool" where
  "file_holds f v obj \<longleftrightarrow>
     (\<forall>canon. codec_ok (rest_enc f) (rest_dec f) canon \<longrightarrow>
        decodeBuffer (rest_dec f) v (newFunc f) = Inr (with_rv (formatResourceVersion (version v)) (canon obj)))"

definition unchanged :: "(memory_fs, 'b) store \<Rightarrow> (memory_fs, 'b) store \<Rightarrow> bool" where
  "unchanged s s' \<longleftrightarrow> mem_content (st_fs s') = mem_content (st_fs s) \<and> st_ws s' = st_ws s"

section \<open>Lemmas\<close>

lemma mem_readyD:
  assumes "mem_ready ord f ctx s"
  shows "mem.ready ord f ctx" and "mem_inv (st_fs s)" and "ws_live (st_ws s)"
  using assms by (auto simp: mem_ready_def mem.ready_def)

lemma mem_readyI:
  assumes "mem_ready ord f ctx s" and "mem_inv (st_fs s')" and "ws_live (st_ws s')"
  shows "mem_ready ord f ctx s'"
  using assms by (simp add: mem_ready_def)

lemma mem_has_dir_code [code]:
  "mem_has_dir fs d = (case lookup_node (mfs_dir fs) (path_parts d) of Some (Dir _) \<Rightarrow> True | _ \<Rightarrow> False)"
  by (auto simp: mem_has_dir_def split: option.splits node.splits)

lemma objectFileName_in_dir:
  assumes "wf_rest f" and "wf_ctx ctx" and "slash \<notin> set name"
  shows "objectFileName f ctx name = path_below (objectDirName f ctx) [name @ ''.json'']"
  unfolding objectFileName_below [OF assms(2,3)] objectDirName_below(1) [OF assms(1,2)]
  using normal_append_plain [OF normal_path_elems dir_segs_plain [OF assms(2)], of "objRootPath f" f]
  by (simp add: path_below_def)

lemma mem_file_loc: "mem_file f ctx name s = mem_content s (mem.loc f ctx name)"
  by (simp add: mem_file_def mem.loc_def)

lemma mem_inv_new [simp]: "mem_inv NewMemoryFS"
  by (simp add: mem_inv_def NewMemoryFS_def mem_content_def)

lemma manifest_rest_wf [simp]: "wf_rest manifest_rest"
  unfolding wf_rest_def good_path_def by code_simp

lemma cluster_ctx_wf [simp]: "wf_ctx cluster_ctx"
  by (simp add: wf_ctx_def cluster_ctx_def)

lemma manifest_ready:
  "mem_inv (st_fs s) \<Longrightarrow> ws_live (st_ws s) \<Longrightarrow> mem_ready insertion_order manifest_rest cluster_ctx s"
  by (simp add: mem_ready_def) (simp add: manifest_rest_def)

lemma new_store_ready [simp]: "mem_ready insertion_order manifest_rest cluster_ctx new_store"
  by (rule manifest_ready) (simp_all add: new_store_def)

text \<open>A successful write leaves a file that holds the object which the write returned.\<close>

lemma decodeBuffer_version:
  assumes "decodeBuffer dec v new = Inr obj"
  shows "with_rv (formatResourceVersion (version v)) obj = obj"
  using assms by (auto simp: decodeBuffer_def setResourceVersion_Inr_iff comp_def split: sum.splits)

lemma stored_file_holds:
  assumes "mem.stored new_file (rest_enc f) obj v obj'"
  shows "file_holds f v obj'" and "\<exists>rv. obj' = with_rv rv obj"
proof -
  show "\<exists>rv. obj' = with_rv rv obj" using assms by (simp add: mem.stored_def)
  then obtain rv' where obj': "obj' = with_rv rv' obj" ..
  show "file_holds f v obj'"
    unfolding file_holds_def
  proof (intro allI impI)
    fix canon assume codec: "codec_ok (rest_enc f) (rest_dec f) canon"
    with assms obtain rv where d: "decodeBuffer (rest_dec f) v (newFunc f) = Inr (with_rv rv (canon obj))"
      unfolding mem.stored_def mem_unpack_def by blast
    from decodeBuffer_version [OF d] d
    show "decodeBuffer (rest_dec f) v (newFunc f) = Inr (with_rv (formatResourceVersion (version v)) (canon obj'))"
      unfolding obj' codec_ok_rv [OF codec] with_rv_with_rv by simp
  qed
qed

lemma file_holds_stored:
  assumes "file_holds f v obj" and "codec_ok (rest_enc f) (rest_dec f) canon" and "file_effect f ctx name s s' (Some v) ty o'"
  shows "stored_object f ctx name (st_fs s') = Some (with_rv (formatResourceVersion (version v)) (canon obj))"
  using assms by (simp add: file_holds_def file_effect_def stored_object_def mem_file_def)

text \<open>A handler returned without an error, with a result that satisfies a test.\<close>

definition returned :: "('s \<Rightarrow> 'r \<Rightarrow> bool) \<Rightarrow> ('s \<times> (go_error + 'r)) option \<Rightarrow> bool" where
  "returned P X = (case X of Some (s', Inr y) \<Rightarrow> P s' y | _ \<Rightarrow> False)"

lemma returned_ok: "returned P X \<Longrightarrow> X = Some (fst (the X), Inr (projr (snd (the X))))"
  by (auto simp: returned_def split: option.splits prod.splits sum.splits)

lemma returnedE:
  assumes "returned P X"
  obtains s' y where "X = Some (s', Inr y)" and "P s' y"
  using assms by (auto simp: returned_def split: option.splits prod.splits sum.splits)

lemma Create_keeps_ready:
  assumes "mem_ready ord f ctx s" and "rest_Create V now uuid f ctx obj createValidation s = Some (s', r)"
  shows "mem_ready ord f ctx s'"
  using mem.rest_Create_total [OF mem_readyD [OF assms(1)], of V now uuid obj createValidation] assms(2)
  by (auto intro: mem_readyI [OF assms(1)])

text \<open>The store after one manifest was created.\<close>

definition create_a :: "((memory_fs, ManifestBody) store \<times> (go_error + ManifestBody Object)) option" where
  "create_a = rest_Create no_checks 5 ''u1'' manifest_rest cluster_ctx (sample_manifest ''a'' ''hi'') None new_store"

definition store_a :: "(memory_fs, ManifestBody) store" where
  "store_a = fst (the create_a)"

definition manifest_a :: "ManifestBody Object" where
  "manifest_a = projr (snd (the create_a))"

lemma create_a_ok: "create_a = Some (store_a, Inr manifest_a)"
proof -
  have "returned (\<lambda>s' y. True) create_a" by code_simp
  from returned_ok [OF this] show ?thesis unfolding store_a_def manifest_a_def .
qed

lemma create_a_eq:
  "rest_Create no_checks 5 ''u1'' manifest_rest cluster_ctx (sample_manifest ''a'' ''hi'') None new_store =
     Some (store_a, Inr manifest_a)"
  using create_a_ok by (simp add: create_a_def)

lemma store_a_ready [simp]: "mem_ready insertion_order manifest_rest cluster_ctx store_a"
  using Create_keeps_ready [OF new_store_ready create_a_eq] .

section \<open>Properties\<close>

text \<open>C1. What \<open>Create\<close> returned can be read back: after a successful create, a \<open>Get\<close> of
  the object's name returns the canonical form of exactly the object that \<open>Create\<close>
  returned, resource version included, and changes nothing.\<close>

theorem Create_then_Get:
  assumes "mem_ready ord f ctx s"
    and "codec_ok (rest_enc f) (rest_dec f) canon"
    and "rest_Create V now uuid f ctx obj createValidation s = Some (s', Inr obj')"
  shows "\<exists>m. Metadata obj' = Some m \<and>
    rest_Get f ctx (Name m) (st_fs s') = Some (st_fs s', Inr (canon obj'))"
  using mem.rest_Create_then_Get [OF mem_readyD [OF assms(1)] assms(2,3)] .

theorem Create_then_Get_witness:
  "\<exists>m. Metadata manifest_a = Some m \<and>
    rest_Get manifest_rest cluster_ctx (Name m) (st_fs store_a) = Some (st_fs store_a, Inr (manifest_canon manifest_a))"
proof -
  have "codec_ok (rest_enc manifest_rest) (rest_dec manifest_rest) manifest_canon"
    by (simp add: manifest_rest_def manifest_codec_ok)
  from Create_then_Get [OF new_store_ready this create_a_eq] show ?thesis .
qed

text \<open>C2. \<open>Create\<close> returns on every input. A failed create stores nothing and notifies
  nobody. A successful one adds one file, at a place that was free: it never overwrites an object
  and touches no other file; every watch receives one \<open>Added\<close> event with the returned
  object.\<close>

theorem Create_outcome:
  assumes "mem_ready ord f ctx s"
  shows "\<exists>s' r. rest_Create V now uuid f ctx obj createValidation s = Some (s', r) \<and> mem_ready ord f ctx s' \<and>
    (case r of
       Inl e \<Rightarrow> unchanged s s'
     | Inr obj' \<Rightarrow> \<exists>m v. Metadata obj' = Some m \<and> mem_file f ctx (Name m) (st_fs s) = None \<and>
         file_effect f ctx (Name m) s s' (Some v) Added obj')"
proof -
  obtain s' r where r: "rest_Create V now uuid f ctx obj createValidation s = Some (s', r)"
    "mem_inv (st_fs s')" "ws_live (st_ws s')"
    "case r of Inl e \<Rightarrow> mem_content (st_fs s') = mem_content (st_fs s) \<and> st_ws s' = st_ws s
     | Inr obj' \<Rightarrow> \<exists>obj1 m. BeforeCreate V (rest_strategy f) ctx (FillObjectMetaSystemFields now uuid obj) = Inr obj1 \<and>
         Metadata obj1 = Some m \<and> mem.created f ctx (Name m) obj1 s s' obj'"
    using mem.rest_Create_total [OF mem_readyD [OF assms]] by blast
  note ready = mem_readyI [OF assms r(2,3)]
  show ?thesis
  proof (cases r)
    case (Inl e)
    with r ready show ?thesis by (auto simp: unchanged_def)
  next
    case (Inr obj')
    with r(4) obtain obj1 m where "Metadata obj1 = Some m" "mem.created f ctx (Name m) obj1 s s' obj'" by auto
    with Inr r(1) ready show ?thesis
      by (auto simp: mem.created_def mem.stored_def mem.loc_def mem_file_def file_effect_def)
  qed
qed

theorem Create_outcome_witness:
  "\<exists>m v. Metadata manifest_a = Some m \<and> mem_file manifest_rest cluster_ctx (Name m) (st_fs new_store) = None \<and>
     file_effect manifest_rest cluster_ctx (Name m) new_store store_a (Some v) Added manifest_a"
  using Create_outcome [OF new_store_ready, of no_checks 5 "''u1''" "sample_manifest ''a'' ''hi''" None]
  by (simp add: create_a_eq)

text \<open>An edit of a manifest: a new message in the spec, and the finalizers and the resource
  version that the client sends.\<close>

definition edit :: "string \<Rightarrow> string list \<Rightarrow> string \<Rightarrow> ManifestBody Object option \<Rightarrow> go_error + ManifestBody Object" where
  "edit msg fins rv input =
     (case input of
        None \<Rightarrow> Inr (sample_manifest ''a'' msg)
      | Some old \<Rightarrow>
          Inr (update_meta (\<lambda>m. m\<lparr>Finalizers := fins, ResourceVersion := rv\<rparr>)
                (old\<lparr>Body := (Body old)\<lparr>Spec := \<lparr>spec_Message = msg\<rparr>\<rparr>\<rparr>)))"

lemma manifest_hooks_return [simp]: "hooks_return (rest_strategy manifest_rest) cluster_ctx"
  by (simp add: hooks_return_def manifest_rest_def Manifest_Strategy_def default_strategy_def
      DefaultStrategy_PrepareForUpdate_def Manifest_methods_def)

text \<open>The store after a finalizer was put on the manifest.\<close>

definition store_f :: "(memory_fs, ManifestBody) store" where
  "store_f = fst (the (rest_Update no_checks manifest_rest cluster_ctx ''a'' (edit ''hi'' [''keep''] ''2'') None None False store_a))"

lemma Update_keeps_ready:
  assumes "mem_ready ord f ctx s" and "hooks_return (rest_strategy f) ctx"
    and "rest_Update V f ctx name upd cv uv force s = Some (s', r)"
  shows "mem_ready ord f ctx s'"
  using mem.rest_Update_total [OF mem_readyD [OF assms(1)] assms(2), of V name upd cv uv force] assms(3)
  by (auto intro: mem_readyI [OF assms(1)])

lemma store_f_ready [simp]: "mem_ready insertion_order manifest_rest cluster_ctx store_f"
proof -
  have "returned (\<lambda>s' y. True) (rest_Update no_checks manifest_rest cluster_ctx ''a'' (edit ''hi'' [''keep''] ''2'') None None False store_a)"
    by code_simp
  from Update_keeps_ready [OF store_a_ready manifest_hooks_return returned_ok [OF this]]
  show ?thesis unfolding store_f_def .
qed

lemma manifest_rest_codec: "codec_ok (rest_enc manifest_rest) (rest_dec manifest_rest) manifest_canon"
  by (simp add: manifest_rest_def manifest_codec_ok)

text \<open>C3. \<open>Delete\<close> returns on every input. A failed delete changes nothing. On success the
  object was there; if it has no finalizers, exactly its file is removed, the old object is
  returned and every watch receives a \<open>Deleted\<close> event; if it has finalizers, the returned
  object is the old one with the deletion marks, the file is rewritten and holds that object, so
  that a later read returns it with its deletion timestamp, and every watch receives a
  \<open>Modified\<close> event.\<close>

theorem Delete_outcome:
  assumes "mem_ready ord f ctx s"
  shows "\<exists>s' r. rest_Delete now f ctx name deleteValidation s = Some (s', r) \<and> mem_ready ord f ctx s' \<and>
    (case r of
       Inl e \<Rightarrow> unchanged s s'
     | Inr (obj', gone) \<Rightarrow> \<exists>old m. stored_object f ctx name (st_fs s) = Some old \<and> Metadata old = Some m \<and>
         gone = (Finalizers m = []) \<and>
         (if gone then obj' = old \<and> file_effect f ctx name s s' None Deleted old
          else (\<exists>rv. obj' = with_rv rv (mark_deleted now old)) \<and>
            (\<exists>v. file_effect f ctx name s s' (Some v) Modified obj' \<and> file_holds f v obj')))"
proof -
  obtain s' r where r: "rest_Delete now f ctx name deleteValidation s = Some (s', r)"
    "mem_inv (st_fs s')" "ws_live (st_ws s')"
    "case r of Inl e \<Rightarrow> mem_content (st_fs s') = mem_content (st_fs s) \<and> st_ws s' = st_ws s
     | Inr (obj', gone) \<Rightarrow> mem.deleted now f ctx name s s' obj' gone"
    using mem.rest_Delete_total [OF mem_readyD [OF assms]] by blast
  note ready = mem_readyI [OF assms r(2,3)]
  show ?thesis
  proof (cases r)
    case (Inl e)
    with r ready show ?thesis by (auto simp: unchanged_def)
  next
    case (Inr ok)
    obtain obj' gone where ok: "ok = (obj', gone)" by (cases ok)
    with Inr r(4) have "mem.deleted now f ctx name s s' obj' gone" by simp
    then obtain v old m where v: "stored_object f ctx name (st_fs s) = Some old" "Metadata old = Some m"
      "gone = (Finalizers m = [])" and g: "if gone
         then obj' = old \<and> mem_content (st_fs s') = (mem_content (st_fs s))(mem.loc f ctx name := None) \<and>
           WatchSet_notifyWatchers \<lparr>ev_Type = Deleted, ev_Object = old\<rparr> (st_ws s) = Some (st_ws s')
         else (\<exists>c'. mem_content (st_fs s') = (mem_content (st_fs s))(mem.loc f ctx name \<mapsto> c') \<and>
             mem.stored False (rest_enc f) (mark_deleted now old) c' obj') \<and>
           WatchSet_notifyWatchers \<lparr>ev_Type = Modified, ev_Object = obj'\<rparr> (st_ws s) = Some (st_ws s')"
      unfolding mem.deleted_def mem_file_loc [symmetric] mem_unpack_def stored_object_def by force
    from g have "if gone then obj' = old \<and> file_effect f ctx name s s' None Deleted old
          else (\<exists>rv. obj' = with_rv rv (mark_deleted now old)) \<and>
            (\<exists>v. file_effect f ctx name s s' (Some v) Modified obj' \<and> file_holds f v obj')"
      using stored_file_holds unfolding mem.loc_def file_effect_def by (cases gone) (simp, simp, blast)
    with v have "\<exists>old m. stored_object f ctx name (st_fs s) = Some old \<and> Metadata old = Some m \<and>
         gone = (Finalizers m = []) \<and>
         (if gone then obj' = old \<and> file_effect f ctx name s s' None Deleted old
          else (\<exists>rv. obj' = with_rv rv (mark_deleted now old)) \<and>
            (\<exists>v. file_effect f ctx name s s' (Some v) Modified obj' \<and> file_holds f v obj'))" by blast
    with Inr ok r(1) ready show ?thesis by simp
  qed
qed

theorem Delete_outcome_witness:
  "(\<exists>s' obj'. rest_Delete 9 manifest_rest cluster_ctx ''a'' None store_a = Some (s', Inr (obj', True)) \<and>
     file_effect manifest_rest cluster_ctx ''a'' store_a s' None Deleted obj') \<and>
   (\<exists>s' obj' v m rv. rest_Delete 9 manifest_rest cluster_ctx ''a'' None store_f = Some (s', Inr (obj', False)) \<and>
     Metadata obj' = Some m \<and> DeletionTimestamp m = Some 9 \<and> Finalizers m = [''keep''] \<and>
     file_effect manifest_rest cluster_ctx ''a'' store_f s' (Some v) Modified obj' \<and>
     stored_object manifest_rest cluster_ctx ''a'' (st_fs s') = Some (with_rv rv (manifest_canon obj')))"
proof
  have "returned (\<lambda>s' y. snd y) (rest_Delete 9 manifest_rest cluster_ctx ''a'' None store_a)" by code_simp
  then obtain s' obj' where "rest_Delete 9 manifest_rest cluster_ctx ''a'' None store_a = Some (s', Inr (obj', True))"
    by (elim returnedE) auto
  with Delete_outcome [OF store_a_ready, of 9 "''a''" None]
  show "\<exists>s' obj'. rest_Delete 9 manifest_rest cluster_ctx ''a'' None store_a = Some (s', Inr (obj', True)) \<and>
     file_effect manifest_rest cluster_ctx ''a'' store_a s' None Deleted obj'" by auto
next
  have "returned (\<lambda>s' y. \<not> snd y \<and> map_option (\<lambda>m. (DeletionTimestamp m, Finalizers m)) (Metadata (fst y)) = Some (Some 9, [''keep'']))
      (rest_Delete 9 manifest_rest cluster_ctx ''a'' None store_f)" by code_simp
  then obtain s' obj' m where d: "rest_Delete 9 manifest_rest cluster_ctx ''a'' None store_f = Some (s', Inr (obj', False))"
    and m: "Metadata obj' = Some m" "DeletionTimestamp m = Some 9" "Finalizers m = [''keep'']"
    by (elim returnedE) auto
  from d Delete_outcome [OF store_f_ready, of 9 "''a''" None] obtain v where
    v: "file_effect manifest_rest cluster_ctx ''a'' store_f s' (Some v) Modified obj'" "file_holds manifest_rest v obj'"
    by auto
  from d m v(1) file_holds_stored [OF v(2) manifest_rest_codec v(1)]
  show "\<exists>s' obj' v m rv. rest_Delete 9 manifest_rest cluster_ctx ''a'' None store_f = Some (s', Inr (obj', False)) \<and>
     Metadata obj' = Some m \<and> DeletionTimestamp m = Some 9 \<and> Finalizers m = [''keep''] \<and>
     file_effect manifest_rest cluster_ctx ''a'' store_f s' (Some v) Modified obj' \<and>
     stored_object manifest_rest cluster_ctx ''a'' (st_fs s') = Some (with_rv rv (manifest_canon obj'))" by blast
qed

lemma mem_updatedE:
  assumes "mem.updated V f ctx name upd cv uv s s' obj' isNew"
  shows "\<not> isNew \<and>
         (\<exists>old w out isDelete m. stored_object f ctx name (st_fs s) = Some old \<and>
            getResourceVersion (Some old) = Inr w \<and>
            tryUpdate_checks V f ctx name upd cv uv (Some old) w = Some (Inr (out, False, isDelete)) \<and>
            Metadata out = Some m \<and> (\<exists>rv. obj' = with_rv rv out) \<and>
            isDelete = (Finalizers m = [] \<and> \<not> Time_IsZero (DeletionTimestamp m)) \<and>
            (if isDelete then file_effect f ctx name s s' None Deleted obj'
             else \<exists>v. file_effect f ctx name s s' (Some v) Modified obj' \<and> file_holds f v obj'))"
proof -
  from assms obtain s1 isDelete v old w out v' where new: "\<not> isNew" and
    c: "mem_file f ctx name (st_fs s) = Some v" "decodeBuffer (rest_dec f) v (newFunc f) = Inr old"
      "getResourceVersion (Some old) = Inr w"
      "tryUpdate_checks V f ctx name upd cv uv (Some old) w = Some (Inr (out, False, isDelete))"
      "mem_content s1 = (mem_content (st_fs s))(mem_key (objectFileName f ctx name) \<mapsto> v')"
    and st: "mem.stored False (rest_enc f) out v' obj'"
    and d: "if isDelete
       then mem_content (st_fs s') = (mem_content (st_fs s))(mem_key (objectFileName f ctx name) := None) \<and>
         WatchSet_notifyWatchers \<lparr>ev_Type = Deleted, ev_Object = obj'\<rparr> (st_ws s) = Some (st_ws s')
       else mem_content (st_fs s') = mem_content s1 \<and>
         WatchSet_notifyWatchers \<lparr>ev_Type = Modified, ev_Object = obj'\<rparr> (st_ws s) = Some (st_ws s')"
    unfolding mem.updated_def mem.committed_def mem_file_loc mem.loc_def mem_unpack_def by blast
  obtain m where m: "Metadata out = Some m" "isDelete = (Finalizers m = [] \<and> \<not> Time_IsZero (DeletionTimestamp m))"
    using c(4) by (rule tryUpdate_checks_ok)
  have old: "stored_object f ctx name (st_fs s) = Some old" using c(1,2) by (simp add: stored_object_def)
  have "if isDelete then file_effect f ctx name s s' None Deleted obj'
        else \<exists>v. file_effect f ctx name s s' (Some v) Modified obj' \<and> file_holds f v obj'"
    using d c(5) stored_file_holds(1) [OF st] by (cases isDelete) (auto simp: file_effect_def)
  with new old c(3,4) stored_file_holds(2) [OF st] m show ?thesis by blast
qed

text \<open>C4. \<open>Update\<close> returns on every input, provided the update hook of the strategy does
  not panic. A failed update changes nothing. A successful one is one read-check-write of the
  stored object: the old object was decoded from the file, the new one passed the checks against
  it, and only this file changes. If the new object has no finalizers and a deletion timestamp,
  the file is removed and a \<open>Deleted\<close> event sent (the second phase of a delete); otherwise
  the file holds the new object, so that a later read returns it, and a \<open>Modified\<close> event
  is sent.\<close>

theorem Update_outcome:
  assumes "mem_ready ord f ctx s" and "hooks_return (rest_strategy f) ctx"
  shows "\<exists>s' r. rest_Update V f ctx name upd cv uv force s = Some (s', r) \<and> mem_ready ord f ctx s' \<and>
    (case r of
       Inl e \<Rightarrow> unchanged s s'
     | Inr (obj', isNew) \<Rightarrow> \<not> isNew \<and>
         (\<exists>old w out isDelete m. stored_object f ctx name (st_fs s) = Some old \<and>
            getResourceVersion (Some old) = Inr w \<and>
            tryUpdate_checks V f ctx name upd cv uv (Some old) w = Some (Inr (out, False, isDelete)) \<and>
            Metadata out = Some m \<and> (\<exists>rv. obj' = with_rv rv out) \<and>
            isDelete = (Finalizers m = [] \<and> \<not> Time_IsZero (DeletionTimestamp m)) \<and>
            (if isDelete then file_effect f ctx name s s' None Deleted obj'
             else \<exists>v. file_effect f ctx name s s' (Some v) Modified obj' \<and> file_holds f v obj')))"
proof -
  obtain s' r where r: "rest_Update V f ctx name upd cv uv force s = Some (s', r)"
    "mem_inv (st_fs s')" "ws_live (st_ws s')"
    "case r of Inl e \<Rightarrow> mem_content (st_fs s') = mem_content (st_fs s) \<and> st_ws s' = st_ws s
     | Inr (obj', isNew) \<Rightarrow> mem.updated V f ctx name upd cv uv s s' obj' isNew"
    using mem.rest_Update_total [OF mem_readyD [OF assms(1)] assms(2)] by blast
  note ready = mem_readyI [OF assms(1) r(2,3)]
  show ?thesis
  proof (cases r)
    case (Inl e)
    with r ready show ?thesis by (auto simp: unchanged_def)
  next
    case (Inr ok)
    obtain obj' isNew where ok: "ok = (obj', isNew)" by (cases ok)
    with Inr r(4) have "mem.updated V f ctx name upd cv uv s s' obj' isNew" by simp
    from mem_updatedE [OF this] Inr ok r(1) ready show ?thesis by simp
  qed
qed

definition update_a :: "((memory_fs, ManifestBody) store \<times> (go_error + ManifestBody Object \<times> bool)) option" where
  "update_a = rest_Update no_checks manifest_rest cluster_ctx ''a'' (edit ''new'' [] ''2'') None None False store_a"

theorem Update_outcome_witness:
  "\<exists>s' obj' v rv. update_a = Some (s', Inr (obj', False)) \<and> spec_Message (Spec (Body obj')) = ''new'' \<and>
     file_effect manifest_rest cluster_ctx ''a'' store_a s' (Some v) Modified obj' \<and>
     stored_object manifest_rest cluster_ctx ''a'' (st_fs s') = Some (with_rv rv (manifest_canon obj'))"
proof -
  have "returned (\<lambda>s' y. \<not> snd y \<and> map_option DeletionTimestamp (Metadata (fst y)) = Some None \<and>
      spec_Message (Spec (Body (fst y))) = ''new'') update_a" by code_simp
  then obtain s' obj' m where d: "update_a = Some (s', Inr (obj', False))" "Metadata obj' = Some m" "DeletionTimestamp m = None"
    and new: "spec_Message (Spec (Body obj')) = ''new''"
    by (elim returnedE) auto
  from Update_outcome [OF store_a_ready manifest_hooks_return, of no_checks "''a''" "edit ''new'' [] ''2''" None None False,
        folded update_a_def, unfolded d(1)] d(2,3)
  obtain v where v: "file_effect manifest_rest cluster_ctx ''a'' store_a s' (Some v) Modified obj'" "file_holds manifest_rest v obj'"
    by auto
  from d(1) new v(1) file_holds_stored [OF v(2) manifest_rest_codec v(1)] show ?thesis by blast
qed

text \<open>C5. Optimistic concurrency: an update whose object carries a resource version other than
  the stored one is refused with a conflict, and neither the files nor the watches change.\<close>

theorem Update_stale_conflict:
  assumes "mem_ready ord f ctx s" and "slash \<notin> set name" and "NamespaceScoped f \<longrightarrow> ctx_namespace ctx \<noteq> None"
    and "ctx_Err ctx 0 = None"
    and "mem_file f ctx name (st_fs s) = Some v" and "stored_object f ctx name (st_fs s) = Some old"
    and "upd (Some old) = Inr outp" and "getResourceVersion (Some outp) = Inr w" and "w \<noteq> version v"
  shows "rest_Update V f ctx name upd cv uv force s = Some (s, Inl (Conflict (groupResource f) name))"
proof -
  have "mem_unpack (rest_dec f) (newFunc f) v = Inr old"
    using assms(5,6) by (auto simp: stored_object_def mem_unpack_def split: sum.splits)
  with memv.rest_Update_stale [OF mem_readyD(1,2) [OF assms(1)] assms(5) [unfolded mem_file_loc]] assms
  show ?thesis by blast
qed

lemma manifest_a_stored:
  "stored_object manifest_rest cluster_ctx ''a'' (st_fs store_a) = Some (manifest_of ''a'' [] ''u1'' ''2'' ''hi'' [] False [])"
  by code_simp

lemma manifest_a_version: "map_option version (mem_file manifest_rest cluster_ctx ''a'' (st_fs store_a)) = Some 2"
  by code_simp

lemma manifest_unscoped [simp]: "\<not> NamespaceScoped manifest_rest"
  by code_simp

lemma cluster_ctx_live [simp]: "ctx_Err cluster_ctx n = None"
  by (simp add: cluster_ctx_def)

theorem Update_stale_conflict_witness:
  "rest_Update no_checks manifest_rest cluster_ctx ''a'' (edit ''new'' [] ''1'') None None False store_a =
     Some (store_a, Inl (Conflict Manifest_GroupResource ''a''))"
proof -
  obtain v where v: "mem_file manifest_rest cluster_ctx ''a'' (st_fs store_a) = Some v" "version v = 2"
    using manifest_a_version by auto
  have e: "edit ''new'' [] ''1'' (Some (manifest_of ''a'' [] ''u1'' ''2'' ''hi'' [] False [])) =
      Inr (manifest_of ''a'' [] ''u1'' ''1'' ''new'' [] False [])" by code_simp
  have g: "getResourceVersion (Some (manifest_of ''a'' [] ''u1'' ''1'' ''new'' [] False [])) = Inr 1" by code_simp
  have "slash \<notin> set ''a''" by simp
  with Update_stale_conflict [where upd = "edit ''new'' [] ''1''", OF store_a_ready _ _ _ v(1) manifest_a_stored e g] v(2)
  have "rest_Update no_checks manifest_rest cluster_ctx ''a'' (edit ''new'' [] ''1'') None None False store_a =
     Some (store_a, Inl (Conflict (groupResource manifest_rest) ''a''))" by simp
  then show ?thesis by (simp add: manifest_rest_def)
qed

text \<open>C6. An update computed from the stored object succeeds at the first attempt, without
  retries: the checks pass, the object can be encoded, and the revision counter is not at its
  maximum.\<close>

theorem Update_fresh_succeeds:
  assumes "mem_ready ord f ctx s" and "slash \<notin> set name" and "NamespaceScoped f \<longrightarrow> ctx_namespace ctx \<noteq> None"
    and "ctx_Err ctx 0 = None"
    and "mem_file f ctx name (st_fs s) = Some v" and "stored_object f ctx name (st_fs s) = Some old"
    and "tryUpdate_checks V f ctx name upd cv uv (Some old) (version v) = Some (Inr (out, False, isDelete))"
    and "rest_enc f (with_rv [] out) = Inr buf" and "mfs_rev (st_fs s) \<noteq> - 1"
  shows "\<exists>s' obj'. rest_Update V f ctx name upd cv uv force s = Some (s', Inr (obj', False))"
proof -
  have "mem_unpack (rest_dec f) (newFunc f) v = Inr old"
    using assms(5,6) by (auto simp: stored_object_def mem_unpack_def split: sum.splits)
  from memv.rest_Update_fresh [OF mem_readyD [OF assms(1)] assms(5) [unfolded mem_file_loc] this assms(2,3,4,7,8,9)]
  show ?thesis .
qed

theorem Update_fresh_succeeds_witness:
  "\<exists>s' obj'. rest_Update no_checks manifest_rest cluster_ctx ''a'' (edit ''new'' [] ''2'') None None False store_a =
     Some (s', Inr (obj', False))"
proof -
  obtain v where v: "mem_file manifest_rest cluster_ctx ''a'' (st_fs store_a) = Some v" "version v = 2"
    using manifest_a_version by auto
  have c: "tryUpdate_checks no_checks manifest_rest cluster_ctx ''a'' (edit ''new'' [] ''2'') None None
      (Some (manifest_of ''a'' [] ''u1'' ''2'' ''hi'' [] False [])) 2 =
      Some (Inr (manifest_of ''a'' [] ''u1'' ''2'' ''new'' [] False [], False, False))" by code_simp
  have "\<exists>buf. rest_enc manifest_rest (with_rv [] (manifest_of ''a'' [] ''u1'' ''2'' ''new'' [] False [])) = Inr buf"
    by (simp add: manifest_rest_def manifest_enc_def manifest_of_def)
  then obtain buf where buf: "rest_enc manifest_rest (with_rv [] (manifest_of ''a'' [] ''u1'' ''2'' ''new'' [] False [])) = Inr buf" ..
  have r: "mfs_rev (st_fs store_a) \<noteq> - 1" by code_simp
  show ?thesis
    by (rule Update_fresh_succeeds [OF store_a_ready _ _ _ v(1) manifest_a_stored c [folded v(2)] buf r]) simp_all
qed

text \<open>C9. \<open>Update\<close> never creates an object, not even with \<open>forceAllowCreate\<close>: when
  there is no stored object, it fails and changes nothing (the checks before the write refuse the
  missing old object).\<close>

theorem Update_never_creates:
  assumes "mem_ready ord f ctx s" and "hooks_return (rest_strategy f) ctx"
    and "stored_object f ctx name (st_fs s) = None"
  shows "\<exists>s' e. rest_Update V f ctx name upd cv uv True s = Some (s', Inl e) \<and> unchanged s s'"
proof -
  obtain s' r where r: "rest_Update V f ctx name upd cv uv True s = Some (s', r)"
    "case r of Inl e \<Rightarrow> mem_content (st_fs s') = mem_content (st_fs s) \<and> st_ws s' = st_ws s
     | Inr (obj', isNew) \<Rightarrow> mem.updated V f ctx name upd cv uv s s' obj' isNew"
    using mem.rest_Update_total [OF mem_readyD [OF assms(1)] assms(2)] by blast
  show ?thesis
  proof (cases r)
    case (Inl e)
    with r show ?thesis by (auto simp: unchanged_def)
  next
    case (Inr ok)
    with r(2) mem_updatedE [of V f ctx name upd cv uv s s'] assms(3) show ?thesis by (cases ok) auto
  qed
qed

theorem Update_never_creates_witness:
  "\<exists>s' e. rest_Update no_checks manifest_rest cluster_ctx ''b'' (edit ''new'' [] ''2'') None None True store_a = Some (s', Inl e) \<and>
     unchanged store_a s'"
proof -
  have "stored_object manifest_rest cluster_ctx ''b'' (st_fs store_a) = None" by code_simp
  from Update_never_creates [OF store_a_ready manifest_hooks_return this] show ?thesis .
qed

text \<open>What a handler does to the object of another name or namespace.\<close>

lemma other_object:
  assumes "mem_ready ord f ctx s" and "wf_ctx ctx'" and "slash \<notin> set name" and "slash \<notin> set name'"
    and "(dir_segs f ctx, name) \<noteq> (dir_segs f ctx', name')"
  shows "mem_key (objectFileName f ctx name) \<noteq> mem_key (objectFileName f ctx' name')"
proof -
  have "mem.ready ord f ctx'" using assms(1,2) by (simp add: mem_ready_def mem.ready_def)
  from mem.loc_inject [OF mem_readyD(1) [OF assms(1)] this assms(3,4)] assms(5)
  show ?thesis unfolding mem.loc_def by blast
qed

lemma created_name:
  "mem.created f ctx name obj s s' obj' \<Longrightarrow> Metadata obj = Some m \<Longrightarrow> Metadata obj' = Some m' \<Longrightarrow> Name m = Name m'"
  by (auto simp: mem.created_def mem.stored_def)

lemma one_file:
  "mem.created f ctx name obj s s' obj' \<Longrightarrow>
     \<exists>file. mem_content (st_fs s') = (mem_content (st_fs s))(mem_key (objectFileName f ctx name) := file)"
  "mem.deleted now f ctx name s s' obj' gone \<Longrightarrow>
     \<exists>file. mem_content (st_fs s') = (mem_content (st_fs s))(mem_key (objectFileName f ctx name) := file)"
  "mem.updated V f ctx name upd cv uv s s' obj' isNew \<Longrightarrow>
     \<exists>file. mem_content (st_fs s') = (mem_content (st_fs s))(mem_key (objectFileName f ctx name) := file)"
  "mem_content (st_fs s') = mem_content (st_fs s) \<Longrightarrow>
     \<exists>file. mem_content (st_fs s') = (mem_content (st_fs s))(mem_key (objectFileName f ctx name) := file)"
proof -
  show "mem.created f ctx name obj s s' obj' \<Longrightarrow>
     \<exists>file. mem_content (st_fs s') = (mem_content (st_fs s))(mem_key (objectFileName f ctx name) := file)"
    unfolding mem.created_def mem.loc_def by blast
  show "mem.deleted now f ctx name s s' obj' gone \<Longrightarrow>
     \<exists>file. mem_content (st_fs s') = (mem_content (st_fs s))(mem_key (objectFileName f ctx name) := file)"
    unfolding mem.deleted_def mem.loc_def by (cases gone) (simp, blast)+
  show "mem.updated V f ctx name upd cv uv s s' obj' isNew \<Longrightarrow>
     \<exists>file. mem_content (st_fs s') = (mem_content (st_fs s))(mem_key (objectFileName f ctx name) := file)"
    by (drule mem_updatedE) (metis file_effect_def)
  show "mem_content (st_fs s') = mem_content (st_fs s) \<Longrightarrow>
     \<exists>file. mem_content (st_fs s') = (mem_content (st_fs s))(mem_key (objectFileName f ctx name) := file)"
    by (metis fun_upd_triv)
qed

text \<open>C7. Isolation: a create, an update or a delete of one object leaves the object with any
  other name or namespace as it was: a read of it returns the same before and after.\<close>

theorem Handlers_isolated:
  assumes "mem_ready ord f ctx s" and "hooks_return (rest_strategy f) ctx" and "wf_ctx ctx'"
    and "slash \<notin> set name" and "slash \<notin> set name'"
    and "(dir_segs f ctx, name) \<noteq> (dir_segs f ctx', name')"
    and "(\<exists>V now uuid obj cv obj' m. rest_Create V now uuid f ctx obj cv s = Some (s', Inr obj') \<and>
            Metadata obj' = Some m \<and> Name m = name) \<or>
         (\<exists>V upd cv uv force r. rest_Update V f ctx name upd cv uv force s = Some (s', r)) \<or>
         (\<exists>now dv r. rest_Delete now f ctx name dv s = Some (s', r))"
  shows "stored_object f ctx' name' (st_fs s') = stored_object f ctx' name' (st_fs s)"
proof -
  let ?k = "mem_key (objectFileName f ctx name)"
  note total = mem_readyD [OF assms(1)]
  have "\<exists>file. mem_content (st_fs s') = (mem_content (st_fs s))(?k := file)"
    using assms(7)
  proof (elim disjE exE conjE)
    fix V now uuid obj cv obj' m
    assume c: "rest_Create V now uuid f ctx obj cv s = Some (s', Inr obj')" and m: "Metadata obj' = Some m" "Name m = name"
    from mem.rest_Create_total [OF total, of V now uuid obj cv] c
    obtain obj1 m1 where m1: "Metadata obj1 = Some m1" and cr: "mem.created f ctx (Name m1) obj1 s s' obj'" by auto
    with m have "Name m1 = name" using created_name by metis
    with one_file(1) [OF cr] show ?thesis by simp
  next
    fix V upd cv uv force r
    assume u: "rest_Update V f ctx name upd cv uv force s = Some (s', r)"
    from mem.rest_Update_total [OF total assms(2), of V name upd cv uv force] u
    show ?thesis by (cases r) (auto intro: one_file(3) one_file(4) [OF refl])
  next
    fix now dv r
    assume d: "rest_Delete now f ctx name dv s = Some (s', r)"
    from mem.rest_Delete_total [OF total, of now name dv] d
    show ?thesis by (cases r) (auto intro: one_file(2) one_file(4) [OF refl])
  qed
  with other_object [OF assms(1,3,4,5,6)] show ?thesis
    by (auto simp: stored_object_def mem_file_def)
qed

theorem Handlers_isolated_witness:
  "\<exists>s' r. rest_Delete 9 manifest_rest cluster_ctx ''b'' None store_a = Some (s', r) \<and>
     stored_object manifest_rest cluster_ctx ''a'' (st_fs s') = stored_object manifest_rest cluster_ctx ''a'' (st_fs store_a)"
proof -
  obtain s' r where r: "rest_Delete 9 manifest_rest cluster_ctx ''b'' None store_a = Some (s', r)"
    using mem.rest_Delete_total [OF mem_readyD [OF store_a_ready]] by blast
  have "stored_object manifest_rest cluster_ctx ''a'' (st_fs s') = stored_object manifest_rest cluster_ctx ''a'' (st_fs store_a)"
    by (rule Handlers_isolated [OF store_a_ready manifest_hooks_return cluster_ctx_wf, of "''b''"]) (use r in auto)
  with r show ?thesis by blast
qed

text \<open>Every stored object is listed.\<close>

lemma mem_listing_stored:
  assumes "mem_ready ord f ctx s" and "mem_listing fs (objectDirName f ctx) files" and "slash \<notin> set name"
    and "stored_object f ctx name fs = Some obj"
  obtains v where "(path_below (objectDirName f ctx) [name @ ''.json''], v) \<in> set files"
    and "decodeBuffer (rest_dec f) v (newFunc f) = Inr obj"
proof -
  from assms(1) have w: "wf_rest f" "wf_ctx ctx" by (auto simp: mem_ready_def)
  from assms(4) obtain v where v: "mem_file f ctx name fs = Some v" "decodeBuffer (rest_dec f) v (newFunc f) = Inr obj"
    by (auto simp: stored_object_def split: option.splits sum.splits)
  with assms(2) plain_seg_json [OF assms(3)] have "(path_below (objectDirName f ctx) [name @ ''.json''], v) \<in> set files"
    unfolding mem_listing_def mem_file_def objectFileName_in_dir [OF w assms(3)] by (auto intro!: exI [of _ "[name @ ''.json'']"])
  with v(2) that show thesis by blast
qed

text \<open>C8. \<open>List\<close> is exact: for every order in which Go may iterate over the maps, the
  items are the decoded \<open>.json\<close> files below the directory of the request that match the
  selectors, each file once; the list carries the revision of the file system, and nothing
  changes. In particular every stored object of the namespace that matches is in the list.\<close>

theorem List_exact:
  assumes "mem_ready ord f ctx s" and "mem_has_dir (st_fs s) (objectDirName f ctx)"
    and "\<forall>k v. mem_content (st_fs s) k = Some v \<longrightarrow> (\<exists>obj. decodeBuffer (rest_dec f) v (newFunc f) = Inr obj)"
    and "newListFunc f = \<lparr>ListResourceVersion = Some rv0, Items = Inr []\<rparr>" and "mfs_rev (st_fs s) \<noteq> 0"
  shows "\<exists>files items. mem_listing (st_fs s) (objectDirName f ctx) files \<and>
    items = filter (\<lambda>obj. SelectionPredicate_Matches (newSelectionPredicate options) obj = Inr True)
              (map (\<lambda>(p, v). projr (decodeBuffer (rest_dec f) v (newFunc f))) files) \<and>
    rest_List f ctx options (st_fs s) =
      Some (st_fs s, Inr \<lparr>ListResourceVersion = Some (formatResourceVersion (mfs_rev (st_fs s))), Items = Inr items\<rparr>) \<and>
    (\<forall>name obj. slash \<notin> set name \<and> stored_object f ctx name (st_fs s) = Some obj \<and>
       SelectionPredicate_Matches (newSelectionPredicate options) obj = Inr True \<longrightarrow> obj \<in> set items)"
proof -
  let ?d = "objectDirName f ctx" and ?s = "st_fs s"
  let ?sel = "\<lambda>files. filter (\<lambda>obj. SelectionPredicate_Matches (newSelectionPredicate options) obj = Inr True)
              (map (\<lambda>(p, v). projr (decodeBuffer (rest_dec f) v (newFunc f))) files)"
  have dec: "\<forall>k c. mem_content ?s k = Some c \<longrightarrow>
      (\<exists>obj. mem_unpack (rest_dec f) (newFunc f) c = Inr obj \<and> Metadata obj \<noteq> None)"
    using assms(3) memv.unpack_ver [OF mem_readyD(2) [OF assms(1)]] unfolding mem_unpack_def by blast
  have items: "Items (newListFunc f) = Inr []" using assms(4) by simp
  from mem.rest_List_exact [where options = options, OF mem_readyD(1,2) [OF assms(1)] assms(2) dec items]
  obtain files where li: "mem.listing ?s ?d files" and l:
    "rest_List f ctx options ?s = Some (?s, setListResourceVersion (newListFunc f\<lparr>Items := Inr (?sel files)\<rparr>) (mfs_rev ?s))"
    unfolding mem_unpack_def by (elim exE conjE)
  from li have files: "mem_listing ?s ?d files" unfolding mem.listing_def mem_listing_def .
  have sel: "obj \<in> set (?sel files)" if name: "slash \<notin> set name" and st: "stored_object f ctx name ?s = Some obj"
    and m: "SelectionPredicate_Matches (newSelectionPredicate options) obj = Inr True" for name obj
  proof -
    from assms(1) files name st obtain v where "(path_below ?d [name @ ''.json''], v) \<in> set files"
      "decodeBuffer (rest_dec f) v (newFunc f) = Inr obj" by (rule mem_listing_stored)
    with m show ?thesis by force
  qed
  have rv: "setListResourceVersion (newListFunc f\<lparr>Items := Inr (?sel files)\<rparr>) (mfs_rev ?s) =
      Inr \<lparr>ListResourceVersion = Some (formatResourceVersion (mfs_rev ?s)), Items = Inr (?sel files)\<rparr>"
    using assms(4,5) by (simp add: setListResourceVersion_def)
  show ?thesis
    using files l [unfolded rv] sel by (intro exI [of _ files] exI [of _ "?sel files"] conjI allI impI) (assumption | rule refl | blast)+
qed

lemma store_a_content:
  obtains v where "mem_content (st_fs store_a) = [mem_key (objectFileName manifest_rest cluster_ctx ''a'') \<mapsto> v]"
    and "decodeBuffer manifest_dec v Manifest_New = Inr (manifest_of ''a'' [] ''u1'' ''2'' ''hi'' [] False [])"
proof -
  have "map_option Name (Metadata manifest_a) = Some ''a''" by code_simp
  then obtain m where m: "Metadata manifest_a = Some m" "Name m = ''a''" by auto
  from mem.rest_Create_total [OF mem_readyD [OF new_store_ready], of no_checks 5 "''u1''" "sample_manifest ''a'' ''hi''" None]
  obtain obj1 m1 where m1: "Metadata obj1 = Some m1"
    and cr: "mem.created manifest_rest cluster_ctx (Name m1) obj1 new_store store_a manifest_a"
    by (auto simp: create_a_eq)
  with m have "Name m1 = ''a''" using created_name by metis
  with cr have "mem.created manifest_rest cluster_ctx ''a'' obj1 new_store store_a manifest_a" by simp
  then obtain v where v: "mem_content (st_fs store_a) =
      (mem_content (st_fs new_store))(mem_key (objectFileName manifest_rest cluster_ctx ''a'') \<mapsto> v)"
    unfolding mem.created_def mem.loc_def by blast
  moreover have "mem_content (st_fs new_store) = Map.empty"
    by (rule ext) (simp add: new_store_def NewMemoryFS_def mem_content_def)
  moreover from v manifest_a_stored have "decodeBuffer manifest_dec v Manifest_New = Inr (manifest_of ''a'' [] ''u1'' ''2'' ''hi'' [] False [])"
    by (simp add: stored_object_def mem_file_def manifest_rest_def split: sum.splits)
  ultimately show thesis using that by simp
qed

theorem List_exact_witness:
  "\<exists>items. rest_List manifest_rest cluster_ctx None (st_fs store_a) =
      Some (st_fs store_a, Inr \<lparr>ListResourceVersion = Some ''2'', Items = Inr items\<rparr>) \<and>
    manifest_of ''a'' [] ''u1'' ''2'' ''hi'' [] False [] \<in> set items"
proof -
  obtain v where v: "mem_content (st_fs store_a) = [mem_key (objectFileName manifest_rest cluster_ctx ''a'') \<mapsto> v]"
    "decodeBuffer manifest_dec v Manifest_New = Inr (manifest_of ''a'' [] ''u1'' ''2'' ''hi'' [] False [])"
    by (rule store_a_content)
  have dec: "\<forall>k w. mem_content (st_fs store_a) k = Some w \<longrightarrow>
      (\<exists>obj. decodeBuffer (rest_dec manifest_rest) w (newFunc manifest_rest) = Inr obj)"
    using v by (auto simp: manifest_rest_def split: if_splits)
  have r: "mfs_rev (st_fs store_a) = 2" by code_simp
  have f: "formatResourceVersion 2 = ''2''" by code_simp
  have d: "mem_has_dir (st_fs store_a) (objectDirName manifest_rest cluster_ctx)"
    by code_simp
  have l: "newListFunc manifest_rest = \<lparr>ListResourceVersion = Some [], Items = Inr []\<rparr>"
    by (simp add: manifest_rest_def Manifest_NewList_def)
  have rv: "mfs_rev (st_fs store_a) \<noteq> 0" by (simp add: r)
  from List_exact [where options = None, OF store_a_ready d dec l rv]
  obtain items where items: "rest_List manifest_rest cluster_ctx None (st_fs store_a) =
      Some (st_fs store_a, Inr \<lparr>ListResourceVersion = Some (formatResourceVersion (mfs_rev (st_fs store_a))), Items = Inr items\<rparr>)"
    and all: "\<forall>name obj. slash \<notin> set name \<and> stored_object manifest_rest cluster_ctx name (st_fs store_a) = Some obj \<and>
       SelectionPredicate_Matches (newSelectionPredicate None) obj = Inr True \<longrightarrow> obj \<in> set items"
    by (elim exE conjE)
  have "slash \<notin> set ''a''" by simp
  moreover have "SelectionPredicate_Matches (newSelectionPredicate None) (manifest_of ''a'' [] ''u1'' ''2'' ''hi'' [] False []) = Inr True"
    by code_simp
  ultimately have "manifest_of ''a'' [] ''u1'' ''2'' ''hi'' [] False [] \<in> set items"
    using all manifest_a_stored by blast
  with items show ?thesis unfolding r f by blast
qed

end
