(* ===== verification/Checks.thy ===== *)
theory Checks
  imports Storage
begin

text \<open>
  What the checks before a write guarantee: \<open>BeforeCreate\<close> and \<open>BeforeUpdate\<close> (the
  vendored registry, as the handlers call it with a strategy of
  \<open>pkg/server/builder/rest\<close>), and through them the handlers. An object that reaches the
  file system has a safe name, an update cannot change the identity of an object, an update of
  the resource cannot change its status and an update of the status nothing else.
\<close>

section \<open>Definitions\<close>

text \<open>The storage of \<open>manifests/status\<close>, as \<open>withSubresources\<close> builds it: the same
  files and watch set, with the status strategy.\<close>

definition manifest_status_rest :: "(memory_fs, ManifestBody) filepathREST" where
  "manifest_status_rest =
     manifest_rest\<lparr>rest_strategy := status_strategy (\<lambda>_. Manifest_methods) Manifest_Strategy\<rparr>"

text \<open>The hooks of a strategy do not touch metadata they should not: canonicalization keeps the
  metadata, and the update hook keeps those of the old object.\<close>

definition hooks_keep_metadata :: "'b Strategy \<Rightarrow> request_ctx \<Rightarrow> bool" where
  "hooks_keep_metadata st ctx \<longleftrightarrow>
     (\<forall>obj. Metadata (strat_Canonicalize st obj) = Metadata obj) \<and>
     (\<forall>obj old obj1 old1. strat_PrepareForUpdate st ctx obj old = Some (obj1, old1) \<longrightarrow> Metadata old1 = Metadata old)"

text \<open>What an accepted name looks like.\<close>

definition safe_name :: "string \<Rightarrow> bool" where
  "safe_name n \<longleftrightarrow> n \<noteq> [] \<and> n \<noteq> ''.'' \<and> n \<noteq> ''..'' \<and> CHR ''/'' \<notin> set n \<and> CHR ''%'' \<notin> set n"

text \<open>The identity of an object, which no update may change.\<close>

definition same_identity :: "ObjectMeta \<Rightarrow> ObjectMeta \<Rightarrow> bool" where
  "same_identity m old \<longleftrightarrow>
     Name m = Name old \<and> Namespace m = Namespace old \<and> UID m = UID old \<and>
     CreationTimestamp m = CreationTimestamp old \<and> DeletionTimestamp m = DeletionTimestamp old \<and>
     DeletionGracePeriodSeconds m = DeletionGracePeriodSeconds old"

section \<open>Lemmas\<close>

lemma set_meta_simps [simp]:
  "Metadata (set_meta m obj) = Some m" "Body (set_meta m obj) = Body obj" "TypeMeta (set_meta m obj) = TypeMeta obj"
  by (simp_all add: set_meta_def)

lemma set_meta_same: "Metadata obj = Some m \<Longrightarrow> set_meta m obj = obj"
  by (cases obj) (simp add: set_meta_def)

lemma ValidateImmutableField_ok [simp]: "ValidateImmutableField a b fld = [] \<longleftrightarrow> a = b"
  by (auto simp: ValidateImmutableField_def)

lemma ValidateNoNewFinalizers_ok [simp]: "ValidateNoNewFinalizers new old fld = [] \<longleftrightarrow> set new \<subseteq> set old"
  by (auto simp: ValidateNoNewFinalizers_def filter_empty_conv)

lemma ValidatePathSegmentName_ok: "n \<noteq> [] \<Longrightarrow> ValidatePathSegmentName n False = [] \<Longrightarrow> safe_name n"
  by (auto simp: ValidatePathSegmentName_def IsValidPathSegmentName_def safe_name_def split: if_splits)

lemma ValidateObjectMetaAccessor_name:
  "ValidateObjectMetaAccessor V m scoped ValidatePathSegmentName = [] \<Longrightarrow> safe_name (Name m)"
  by (auto simp: ValidateObjectMetaAccessor_def intro: ValidatePathSegmentName_ok split: if_splits)

lemma ValidateObjectMetaAccessor_namespace:
  "ValidateObjectMetaAccessor V m scoped nameFn = [] \<Longrightarrow>
     (if scoped then dns1123Label_match (Namespace m) \<and> length (Namespace m) \<le> 63 else Namespace m = [])"
  by (auto simp: ValidateObjectMetaAccessor_def validateObjectMetaAccessorWithOptsCommon_def
      ValidateNamespaceName_def IsDNS1123Label_def split: if_splits)

lemma ValidateObjectMetaAccessorUpdate_ok:
  assumes "ValidateObjectMetaAccessorUpdate V new old = []"
  shows "same_identity new old" and "ResourceVersion new \<noteq> []" and "Generation old \<le> Generation new"
    and "DeletionTimestamp old \<noteq> None \<Longrightarrow> set (Finalizers new) \<subseteq> set (Finalizers old)"
  using assms by (auto simp: ValidateObjectMetaAccessorUpdate_def same_identity_def split: if_splits)

lemma meta_Accessor_Inr_iff [simp]: "meta_Accessor obj = Inr m \<longleftrightarrow> Metadata obj = Some m"
  by (auto simp: meta_Accessor_def split: option.splits)

lemma BeforeUpdate_ok:
  assumes "BeforeUpdate V st ctx obj (Some old) = Some (Inr (out, old'))"
  obtains ns m0 m1 om0 obj1 m2 om where "ctx_namespace ctx = Some ns" and "Metadata obj = Some m0"
    and "EnsureObjectNamespaceMatchesRequestNamespace (ExpectedNamespaceForScope ns (strat_NamespaceScoped st)) m0 = Inr m1"
    and "Metadata old = Some om0"
    and "strat_PrepareForUpdate st ctx (set_meta (m1\<lparr>Generation := Generation om0\<rparr>) obj) old = Some (obj1, old')"
    and "Metadata obj1 = Some m2" and "Metadata old' = Some om"
    and "out = strat_Canonicalize st (set_meta (keep_system_fields om m2) obj1)"
    and "ValidateObjectMetaAccessor V (keep_system_fields om m2) (strat_NamespaceScoped st) ValidatePathSegmentName = []"
    and "ValidateObjectMetaAccessorUpdate V (keep_system_fields om m2) om = []"
    and "strat_ValidateUpdate st ctx (set_meta (keep_system_fields om m2) obj1) old' = []"
  using assms
  unfolding BeforeUpdate_def objectMetaAndKind_def validateCommonFields_def Let_def
  by (auto split: sum.splits option.splits prod.splits if_splits)

lemma keep_system_fields_same [simp]: "keep_system_fields m m = m"
  by (simp add: keep_system_fields_def Let_def)

lemma rest_Update_checked:
  assumes "mem_ready ord f ctx s" and "hooks_return (rest_strategy f) ctx"
    and "rest_Update V f ctx name upd cv uv force s = Some (s', Inr (obj', isNew))"
  obtains old outp out old' rv where "stored_object f ctx name (st_fs s) = Some old" and "upd (Some old) = Inr outp"
    and "BeforeUpdate V (rest_strategy f) ctx outp (Some old) = Some (Inr (out, old'))"
    and "obj' = with_rv rv out"
proof -
  from mem.rest_Update_total [OF mem_readyD [OF assms(1)] assms(2), of V name upd cv uv force] assms(3)
  have "mem.updated V f ctx name upd cv uv s s' obj' isNew" by simp
  from mem_updatedE [OF this] obtain old w out isDelete rv where
    old: "stored_object f ctx name (st_fs s) = Some old" and rv: "obj' = with_rv rv out" and
    c: "tryUpdate_checks V f ctx name upd cv uv (Some old) w = Some (Inr (out, False, isDelete))" by blast
  from c show thesis by (rule tryUpdate_checks_ok) (use old rv that in blast)
qed

lemma BeforeUpdate_identity:
  assumes "BeforeUpdate V st ctx obj (Some old) = Some (Inr (out, old'))" and "hooks_keep_metadata st ctx"
  obtains m om where "Metadata out = Some m" and "Metadata old = Some om" and "same_identity m om"
    and "safe_name (Name m)" and "Generation om \<le> Generation m"
    and "DeletionTimestamp om \<noteq> None \<longrightarrow> set (Finalizers m) \<subseteq> set (Finalizers om)"
proof -
  from assms(1) obtain ob obj1 m2 om where
    p: "strat_PrepareForUpdate st ctx ob old = Some (obj1, old')" and om: "Metadata old' = Some om"
    and out: "out = strat_Canonicalize st (set_meta (keep_system_fields om m2) obj1)"
    and v: "ValidateObjectMetaAccessor V (keep_system_fields om m2) (strat_NamespaceScoped st) ValidatePathSegmentName = []"
    and u: "ValidateObjectMetaAccessorUpdate V (keep_system_fields om m2) om = []"
    by (rule BeforeUpdate_ok)
  have "Metadata old = Some om" using p om assms(2) by (auto simp: hooks_keep_metadata_def)
  moreover have "Metadata out = Some (keep_system_fields om m2)"
    using assms(2) by (simp add: out hooks_keep_metadata_def)
  ultimately show thesis
    using that ValidateObjectMetaAccessorUpdate_ok [OF u] ValidateObjectMetaAccessor_name [OF v] by blast
qed

lemma BeforeCreate_validated:
  assumes "BeforeCreate V st ctx obj = Inr obj1" and "Metadata obj1 = Some m" and "hooks_keep_metadata st ctx"
  shows "ValidateObjectMetaAccessor V m (strat_NamespaceScoped st) ValidatePathSegmentName = []"
  using assms
  by (auto simp: BeforeCreate_def Let_def hooks_keep_metadata_def split: sum.splits option.splits prod.splits if_splits)

lemma Manifest_hooks_keep_metadata [simp]:
  "hooks_keep_metadata Manifest_Strategy ctx"
  "hooks_keep_metadata (status_strategy (\<lambda>_. Manifest_methods) Manifest_Strategy) ctx"
  by (auto simp: hooks_keep_metadata_def Manifest_Strategy_def default_strategy_def status_strategy_def
      DefaultStrategy_Canonicalize_def DefaultStrategy_PrepareForUpdate_def Manifest_methods_def
      StatusSubResourceStrategy_PrepareForUpdate_def util_DeepCopy_def checkSignature_def ManifestStatus_CopyTo_def Let_def)

lemma status_hooks_return [simp]:
  "hooks_return (status_strategy (\<lambda>_. Manifest_methods) Manifest_Strategy) ctx"
  by (simp add: hooks_return_def status_strategy_def StatusSubResourceStrategy_PrepareForUpdate_def
      Manifest_methods_def util_DeepCopy_def checkSignature_def Let_def)

lemma Manifest_hooks_return [simp]: "hooks_return Manifest_Strategy ctx"
  by (simp add: hooks_return_def Manifest_Strategy_def default_strategy_def
      DefaultStrategy_PrepareForUpdate_def Manifest_methods_def)

lemma status_BeforeUpdate:
  assumes "BeforeUpdate V (status_strategy (\<lambda>_. Manifest_methods) Manifest_Strategy) ctx obj (Some old) = Some (Inr (out, old'))"
  shows "out = old\<lparr>Body := (Body old)\<lparr>Status := Status (Body obj)\<rparr>\<rparr>" and "old' = out"
proof -
  let ?st = "status_strategy (\<lambda>_. Manifest_methods) Manifest_Strategy"
  from assms obtain m1 om0 obj1 m2 om where om0: "Metadata old = Some om0" and
    p: "strat_PrepareForUpdate ?st ctx (set_meta (m1\<lparr>Generation := Generation om0\<rparr>) obj) old = Some (obj1, old')"
    and m2: "Metadata obj1 = Some m2" and om: "Metadata old' = Some om"
    and out: "out = strat_Canonicalize ?st (set_meta (keep_system_fields om m2) obj1)"
    by (rule BeforeUpdate_ok)
  from p have o: "obj1 = old\<lparr>Body := (Body old)\<lparr>Status := Status (Body obj)\<rparr>\<rparr>" "old' = obj1"
    by (auto simp: status_strategy_def StatusSubResourceStrategy_PrepareForUpdate_def Manifest_methods_def
        util_DeepCopy_def checkSignature_def ManifestStatus_CopyTo_def Let_def)
  with m2 om have "set_meta (keep_system_fields om m2) obj1 = obj1"
    using set_meta_same [of obj1 m2] by simp
  then have "out = obj1"
    by (simp add: out status_strategy_def Manifest_Strategy_def default_strategy_def DefaultStrategy_Canonicalize_def
        Manifest_methods_def)
  with o show "out = old\<lparr>Body := (Body old)\<lparr>Status := Status (Body obj)\<rparr>\<rparr>" and "old' = out" by simp_all
qed

lemma spec_BeforeUpdate:
  assumes "BeforeUpdate V Manifest_Strategy ctx obj (Some old) = Some (Inr (out, old'))"
  shows "Body out = (Body obj)\<lparr>Status := Status (Body old)\<rparr>" and "old' = old"
proof -
  from assms obtain mm obj1 m2 om where
    p: "strat_PrepareForUpdate Manifest_Strategy ctx (set_meta mm obj) old = Some (obj1, old')"
    and out: "out = strat_Canonicalize Manifest_Strategy (set_meta (keep_system_fields om m2) obj1)"
    by (rule BeforeUpdate_ok) (rule that)
  from p show "Body out = (Body obj)\<lparr>Status := Status (Body old)\<rparr>" and "old' = old"
    by (auto simp: out Manifest_Strategy_def default_strategy_def DefaultStrategy_Canonicalize_def
        DefaultStrategy_PrepareForUpdate_def Manifest_methods_def ManifestStatus_CopyTo_def)
qed

section \<open>Properties\<close>

text \<open>C12. Identity: a successful \<open>Update\<close> of an object with a strategy whose hooks keep metadata
  leaves its name, namespace, UID, creation and deletion timestamps and grace period as they were
  stored; the generation does not decrease, and an object that is being deleted gets no new
  finalizers.\<close>

theorem Update_keeps_identity:
  assumes "mem_ready ord f ctx s" and "hooks_return (rest_strategy f) ctx" and "hooks_keep_metadata (rest_strategy f) ctx"
    and "rest_Update V f ctx name upd cv uv force s = Some (s', Inr (obj', isNew))"
  shows "\<exists>old om m. stored_object f ctx name (st_fs s) = Some old \<and> Metadata old = Some om \<and> Metadata obj' = Some m \<and>
    same_identity m om \<and> safe_name (Name m) \<and> Generation om \<le> Generation m \<and>
    (DeletionTimestamp om \<noteq> None \<longrightarrow> set (Finalizers m) \<subseteq> set (Finalizers om))"
proof -
  obtain old outp out old' rv where o: "stored_object f ctx name (st_fs s) = Some old" "obj' = with_rv rv out"
    and b: "BeforeUpdate V (rest_strategy f) ctx outp (Some old) = Some (Inr (out, old'))"
    by (rule rest_Update_checked [OF assms(1,2,4)]) (rule that)
  from b assms(3) obtain m om where m: "Metadata out = Some m" "Metadata old = Some om"
    "same_identity m om" "safe_name (Name m)" "Generation om \<le> Generation m"
    "DeletionTimestamp om \<noteq> None \<longrightarrow> set (Finalizers m) \<subseteq> set (Finalizers om)"
    by (rule BeforeUpdate_identity)
  from o m show ?thesis by (auto simp: same_identity_def)
qed

theorem Update_keeps_identity_witness:
  "\<exists>s' obj' m. update_a = Some (s', Inr (obj', False)) \<and> Metadata obj' = Some m \<and> Name m = ''a'' \<and> UID m = ''u1''"
proof -
  have "returned (\<lambda>s' y. \<not> snd y) update_a" by code_simp
  then obtain s' obj' where u: "update_a = Some (s', Inr (obj', False))" by (elim returnedE) auto
  have k: "hooks_keep_metadata (rest_strategy manifest_rest) cluster_ctx" by (simp add: manifest_rest_def)
  from Update_keeps_identity [OF store_a_ready manifest_hooks_return k u [unfolded update_a_def]] manifest_a_stored u
  show ?thesis by (auto simp: same_identity_def manifest_of_def)
qed

text \<open>C23. An update through \<open>manifests/status\<close> changes the status and the resource version and
  nothing else: spec, labels, finalizers and all other metadata of the request are ignored.\<close>

theorem Status_update_only_status:
  assumes "mem_ready ord f ctx s" and "rest_strategy f = status_strategy (\<lambda>_. Manifest_methods) Manifest_Strategy"
    and "rest_Update V f ctx name upd cv uv force s = Some (s', Inr (obj', isNew))"
  shows "\<exists>old new rv. stored_object f ctx name (st_fs s) = Some old \<and> upd (Some old) = Inr new \<and>
    obj' = with_rv rv (old\<lparr>Body := (Body old)\<lparr>Status := Status (Body new)\<rparr>\<rparr>)"
proof -
  have "hooks_return (rest_strategy f) ctx" by (simp add: assms(2))
  with assms(1,3) obtain old outp out old' rv where
    o: "stored_object f ctx name (st_fs s) = Some old" "upd (Some old) = Inr outp"
    "BeforeUpdate V (rest_strategy f) ctx outp (Some old) = Some (Inr (out, old'))" "obj' = with_rv rv out"
    by (elim rest_Update_checked)
  from o(1,2,4) status_BeforeUpdate(1) [OF o(3) [unfolded assms(2)]] show ?thesis by blast
qed

text \<open>A change of the status, with a change of the spec that the status endpoint has to ignore.\<close>

definition set_status :: "string \<Rightarrow> string \<Rightarrow> ManifestBody Object option \<Rightarrow> go_error + ManifestBody Object" where
  "set_status spec msg input =
     (case input of
        None \<Rightarrow> Inr (sample_manifest ''a'' msg)
      | Some old \<Rightarrow>
          Inr (old\<lparr>Body := \<lparr>Spec = \<lparr>spec_Message = spec\<rparr>, Status = \<lparr>status_Message = msg\<rparr>\<rparr>\<rparr>))"

lemma status_rest_ready: "mem_ready insertion_order manifest_status_rest cluster_ctx store_a"
  using store_a_ready by (simp add: mem_ready_def manifest_status_rest_def wf_rest_def)

lemma status_rest_stored:
  "stored_object manifest_status_rest cluster_ctx ''a'' (st_fs store_a) = Some (manifest_of ''a'' [] ''u1'' ''2'' ''hi'' [] False [])"
  by code_simp

theorem Status_update_only_status_witness:
  "\<exists>s' rv. rest_Update no_checks manifest_status_rest cluster_ctx ''a'' (set_status ''ignored'' ''ok'') None None False store_a =
     Some (s', Inr (with_rv rv (manifest_of ''a'' [] ''u1'' ''2'' ''hi'' ''ok'' False []), False))"
proof -
  have "returned (\<lambda>s' y. \<not> snd y)
     (rest_Update no_checks manifest_status_rest cluster_ctx ''a'' (set_status ''ignored'' ''ok'') None None False store_a)"
    by code_simp
  then obtain s' obj' where
    u: "rest_Update no_checks manifest_status_rest cluster_ctx ''a'' (set_status ''ignored'' ''ok'') None None False store_a =
      Some (s', Inr (obj', False))" by (elim returnedE) auto
  have "rest_strategy manifest_status_rest = status_strategy (\<lambda>_. Manifest_methods) Manifest_Strategy"
    by (simp add: manifest_status_rest_def)
  from Status_update_only_status [OF status_rest_ready this u] u status_rest_stored
  show ?thesis by (auto simp: set_status_def manifest_of_def)
qed

text \<open>C24. An update of a manifest through its main endpoint never changes the status: the stored
  status is kept, whatever the request says, and the spec is the one of the request.\<close>

theorem Spec_update_keeps_status:
  assumes "mem_ready ord f ctx s" and "rest_strategy f = Manifest_Strategy"
    and "rest_Update V f ctx name upd cv uv force s = Some (s', Inr (obj', isNew))"
  shows "\<exists>old new. stored_object f ctx name (st_fs s) = Some old \<and> upd (Some old) = Inr new \<and>
    Status (Body obj') = Status (Body old) \<and> Spec (Body obj') = Spec (Body new)"
proof -
  have "hooks_return (rest_strategy f) ctx" by (simp add: assms(2))
  with assms(1,3) obtain old outp out old' rv where
    o: "stored_object f ctx name (st_fs s) = Some old" "upd (Some old) = Inr outp"
    "BeforeUpdate V (rest_strategy f) ctx outp (Some old) = Some (Inr (out, old'))" "obj' = with_rv rv out"
    by (elim rest_Update_checked)
  from spec_BeforeUpdate(1) [OF o(3) [unfolded assms(2)]] o(1,2,4) show ?thesis by simp
qed

theorem Spec_update_keeps_status_witness:
  "\<exists>s' obj'. rest_Update no_checks manifest_rest cluster_ctx ''a'' (set_status ''new'' ''ignored'') None None False store_a =
     Some (s', Inr (obj', False)) \<and> status_Message (Status (Body obj')) = [] \<and> spec_Message (Spec (Body obj')) = ''new''"
proof -
  have "returned (\<lambda>s' y. \<not> snd y)
     (rest_Update no_checks manifest_rest cluster_ctx ''a'' (set_status ''new'' ''ignored'') None None False store_a)"
    by code_simp
  then obtain s' obj' where
    u: "rest_Update no_checks manifest_rest cluster_ctx ''a'' (set_status ''new'' ''ignored'') None None False store_a =
      Some (s', Inr (obj', False))" by (elim returnedE) auto
  have "rest_strategy manifest_rest = Manifest_Strategy" by (simp add: manifest_rest_def)
  from Spec_update_keeps_status [OF store_a_ready this u] u manifest_a_stored
  show ?thesis by (auto simp: set_status_def manifest_of_def)
qed

text \<open>The checks of a status update compare the new object with itself: the update hook has
  already overwritten the old object, so \<open>ValidateUpdate\<close> and the update validation never
  see the old status.\<close>

theorem Status_old_is_overwritten:
  assumes "BeforeUpdate V (status_strategy (\<lambda>_. Manifest_methods) Manifest_Strategy) ctx obj (Some old) = Some (Inr (out, old'))"
  shows "old' = out \<and> Status (Body old') = Status (Body obj)"
  using status_BeforeUpdate [OF assms] by simp

theorem Status_old_is_overwritten_witness:
  "\<exists>out old'. BeforeUpdate no_checks (status_strategy (\<lambda>_. Manifest_methods) Manifest_Strategy) cluster_ctx
      (manifest_of ''a'' [] ''u1'' ''2'' ''hi'' ''ok'' False []) (Some (manifest_of ''a'' [] ''u1'' ''2'' ''hi'' [] False [])) =
      Some (Inr (out, old')) \<and> status_Message (Status (Body old')) = ''ok''"
proof -
  let ?b = "BeforeUpdate no_checks (status_strategy (\<lambda>_. Manifest_methods) Manifest_Strategy) cluster_ctx
      (manifest_of ''a'' [] ''u1'' ''2'' ''hi'' ''ok'' False []) (Some (manifest_of ''a'' [] ''u1'' ''2'' ''hi'' [] False []))"
  have "case ?b of Some (Inr _) \<Rightarrow> True | _ \<Rightarrow> False" by code_simp
  then obtain out old' where b: "?b = Some (Inr (out, old'))" by (auto split: option.splits sum.splits)
  from Status_old_is_overwritten [OF b]
  have "status_Message (Status (Body old')) = ''ok''" by (elim conjE) (simp add: manifest_of_def)
  with b show ?thesis by blast
qed

text \<open>C25. Every object that \<open>Create\<close> stores has a safe name: not empty, not \<open>.\<close> or
  \<open>..\<close>, without slashes and percent signs; it has no namespace if the resource is
  cluster-scoped, and a DNS label as its namespace otherwise. Its file lies directly in the
  directory of the request.\<close>

theorem Create_safe_name:
  assumes "mem_ready ord f ctx s" and "hooks_keep_metadata (rest_strategy f) ctx"
    and "rest_Create V now uuid f ctx obj cv s = Some (s', Inr obj')"
  shows "\<exists>m. Metadata obj' = Some m \<and> safe_name (Name m) \<and>
    (if NamespaceScoped f then dns1123Label_match (Namespace m) else Namespace m = []) \<and>
    objectFileName f ctx (Name m) = path_below (objectDirName f ctx) [Name m @ ''.json'']"
proof -
  from mem.rest_Create_total [OF mem_readyD [OF assms(1)], of V now uuid obj cv] assms(3)
  obtain obj1 m1 rv where b: "BeforeCreate V (rest_strategy f) ctx (FillObjectMetaSystemFields now uuid obj) = Inr obj1"
    and m1: "Metadata obj1 = Some m1" and o: "obj' = with_rv rv obj1"
    by (auto simp: mem.created_def mem.stored_def)
  note v = BeforeCreate_validated [OF b m1 assms(2)]
  have w: "wf_rest f" "wf_ctx ctx" using assms(1) by (auto simp: mem_ready_def)
  from ValidateObjectMetaAccessor_name [OF v] have safe: "safe_name (Name m1)" .
  then have "slash \<notin> set (Name m1)" by (simp add: safe_name_def)
  from objectFileName_in_dir [OF w this] safe ValidateObjectMetaAccessor_namespace [OF v] o m1
  show ?thesis by (auto simp: NamespaceScoped_def)
qed

theorem Create_safe_name_witness:
  "\<exists>m. Metadata manifest_a = Some m \<and> safe_name (Name m) \<and> Namespace m = []"
proof -
  have k: "hooks_keep_metadata (rest_strategy manifest_rest) cluster_ctx" by (simp add: manifest_rest_def)
  from Create_safe_name [OF new_store_ready k create_a_eq] show ?thesis by auto
qed

end
