(* ===== verification/Real_Fs.thy ===== *)
theory Real_Fs
  imports Filepath_Rest Walk "HOL-Library.Char_ord" "HOL-Library.List_Lexorder"
begin

text \<open>
  \<open>RealFS\<close> of \<open>pkg/storage/filepath/fs.go\<close>: files on a disk, with a revision counter
  that every write and every removal increments, and a mutex.

  The operating system is a directory tree without links, on which an operation fails only for
  the reasons below (no such file, not a directory, is a directory, not empty); the working
  directory is a parameter. The mutex is a flag of the state: a method that finds it locked never
  returns. Since a handler runs alone here, the flag is set only while a visitor of
  \<open>VisitDir\<close> runs, which is called with the mutex held.
\<close>

section \<open>Definitions\<close>

subsection \<open>The operating system\<close>

type_synonym disk = "bytes dir"

text \<open>The elements of the absolute path of a path.\<close>

definition resolve :: "string list \<Rightarrow> string \<Rightarrow> string list" where
  "resolve cwd p = foldl (clean_step True) (if rooted p then [] else cwd) (split_on slash p)"

text \<open>A file stands where the path needs a directory: the error is \<open>ENOTDIR\<close>, which
  \<open>os.IsNotExist\<close> does not recognise.\<close>

definition through_file :: "disk \<Rightarrow> string list \<Rightarrow> bool" where
  "through_file d ks \<longleftrightarrow> list_ex (\<lambda>n. lookup_file d (take n ks) \<noteq> None) [0..<length ks]"

definition no_entry :: "disk \<Rightarrow> string list \<Rightarrow> go_error" where
  "no_entry d ks = (if through_file d ks then OtherError ''not a directory'' else ErrNotExist)"

definition os_Stat :: "disk \<Rightarrow> string list \<Rightarrow> go_error option" where
  "os_Stat d ks = (case lookup_node d ks of Some _ \<Rightarrow> None | None \<Rightarrow> Some (no_entry d ks))"

definition os_ReadFile :: "disk \<Rightarrow> string list \<Rightarrow> go_error + bytes" where
  "os_ReadFile d ks =
     (case lookup_node d ks of
        Some (File c) \<Rightarrow> Inr c
      | Some (Dir _) \<Rightarrow> Inl (OtherError ''is a directory'')
      | None \<Rightarrow> Inl (no_entry d ks))"

text \<open>\<open>os.WriteFile\<close> creates the file or truncates it; its directory has to exist.\<close>

definition os_WriteFile :: "string list \<Rightarrow> bytes \<Rightarrow> disk \<Rightarrow> disk \<times> go_error option" where
  "os_WriteFile ks buf d =
     (case lookup_node d ks of
        Some (Dir _) \<Rightarrow> (d, Some (OtherError ''is a directory''))
      | _ \<Rightarrow>
          (case lookup_node d (butlast ks) of
             Some (Dir _) \<Rightarrow> (modify_at (butlast ks) (AList.update (last ks) (File buf)) d, None)
           | _ \<Rightarrow> (d, Some (no_entry d ks))))"

text \<open>\<open>os.Remove\<close> removes a file or an empty directory, but not the root.\<close>

definition os_Remove :: "string list \<Rightarrow> disk \<Rightarrow> disk \<times> go_error option" where
  "os_Remove ks d =
     (case lookup_node d ks of
        None \<Rightarrow> (d, Some (no_entry d ks))
      | Some (Dir (e # es)) \<Rightarrow> (d, Some (OtherError ''directory not empty''))
      | Some _ \<Rightarrow>
          (if ks = [] then (d, Some (OtherError ''device or resource busy''))
           else (modify_at (butlast ks) (AList.delete (last ks)) d, None)))"

definition os_MkdirAll :: "string list \<Rightarrow> disk \<Rightarrow> disk \<times> go_error option" where
  "os_MkdirAll ks d =
     (let (d', r) = ensure_parts ks d
      in case r of Inl e \<Rightarrow> (d, Some (OtherError ''not a directory'')) | Inr _ \<Rightarrow> (d', None))"

subsection \<open>State\<close>

record real_fs =
  rfs_disk :: disk
  rfs_rev :: uint64
  rfs_locked :: bool

text \<open>The disk is there before the server starts.\<close>

definition NewRealFS :: "disk \<Rightarrow> real_fs" where
  "NewRealFS d = \<lparr>rfs_disk = d, rfs_rev = 1, rfs_locked = False\<rparr>"

definition RealFS_incrementRev :: "real_fs \<Rightarrow> real_fs \<times> uint64" where
  "RealFS_incrementRev fs = (let r = rfs_rev fs + 1 in (fs\<lparr>rfs_rev := r\<rparr>, r))"

subsection \<open>Methods\<close>

text \<open>Each method takes the mutex: \<open>None\<close> when it is held.\<close>

definition RealFS_Remove :: "string list \<Rightarrow> string \<Rightarrow> real_fs \<Rightarrow> (real_fs \<times> go_error option) option" where
  "RealFS_Remove cwd p fs =
     (if rfs_locked fs then None
      else
        let (fs1, _) = RealFS_incrementRev fs;
            (d, r) = os_Remove (resolve cwd p) (rfs_disk fs1)
        in Some (fs1\<lparr>rfs_disk := d\<rparr>, r))"

definition RealFS_Exists :: "string list \<Rightarrow> string \<Rightarrow> real_fs \<Rightarrow> (real_fs \<times> bool) option" where
  "RealFS_Exists cwd p fs =
     (if rfs_locked fs then None else Some (fs, os_Stat (rfs_disk fs) (resolve cwd p) = None))"

definition RealFS_EnsureDir :: "string list \<Rightarrow> string \<Rightarrow> real_fs \<Rightarrow> (real_fs \<times> go_error option) option" where
  "RealFS_EnsureDir cwd dirname fs =
     (if rfs_locked fs then None
      else if os_Stat (rfs_disk fs) (resolve cwd dirname) \<noteq> None
      then (let (d, r) = os_MkdirAll (resolve cwd dirname) (rfs_disk fs) in Some (fs\<lparr>rfs_disk := d\<rparr>, r))
      else Some (fs, None))"

definition RealFS_Write ::
  "string list \<Rightarrow> 'b encoder \<Rightarrow> string \<Rightarrow> 'b Object \<Rightarrow> uint64 \<Rightarrow> real_fs \<Rightarrow>
     (real_fs \<times> 'b Object \<times> go_error option) option" where
  "RealFS_Write cwd enc p obj storageVersion fs =
     (if rfs_locked fs then None
      else
        let (fs1, r) = RealFS_incrementRev fs
        in case setResourceVersion obj r of
             Inl e \<Rightarrow> Some (fs1, obj, Some e)
           | Inr obj' \<Rightarrow>
               (case enc obj' of
                  Inl e \<Rightarrow> Some (fs1, obj', Some e)
                | Inr buf \<Rightarrow>
                    (let (d, w) = os_WriteFile (resolve cwd p) buf (rfs_disk fs1)
                     in Some (fs1\<lparr>rfs_disk := d\<rparr>, obj', w))))"

definition RealFS_decode :: "'b decoder \<Rightarrow> 'b Object \<Rightarrow> bytes \<Rightarrow> go_error + 'b Object" where
  "RealFS_decode dec newObj content = (case dec content newObj of Inl e \<Rightarrow> Inl e | Inr decodedObj \<Rightarrow> Inr decodedObj)"

definition RealFS_Read ::
  "string list \<Rightarrow> 'b decoder \<Rightarrow> string \<Rightarrow> 'b Object \<Rightarrow> real_fs \<Rightarrow> (real_fs \<times> (go_error + 'b Object)) option" where
  "RealFS_Read cwd dec p newObj fs =
     (if rfs_locked fs then None
      else
        Some (fs,
          case os_ReadFile (rfs_disk fs) (resolve cwd (Clean p)) of
            Inl e \<Rightarrow> Inl e
          | Inr content \<Rightarrow> RealFS_decode dec newObj content))"

text \<open>
  \<open>filepath.Walk\<close> with the function that \<open>VisitDir\<close> passes to it: the entries of a
  directory in the order of their names, directories entered, files whose name ends in
  \<open>.json\<close> read, decoded and handed to the visitor. Only this server changes the files, so
  while the mutex is held the tree is the one at the start.
\<close>

fun real_walk ::
  "'b decoder \<Rightarrow> 'b Object \<Rightarrow> ('fs, 'b) visitor \<Rightarrow> string \<Rightarrow> string \<Rightarrow> bytes node \<Rightarrow>
     'fs \<times> 'b Object list \<Rightarrow> (('fs \<times> 'b Object list) \<times> go_error option) option"
  and real_walk_entries ::
  "'b decoder \<Rightarrow> 'b Object \<Rightarrow> ('fs, 'b) visitor \<Rightarrow> string \<Rightarrow> (string \<times> bytes node) list \<Rightarrow>
     'fs \<times> 'b Object list \<Rightarrow> (('fs \<times> 'b Object list) \<times> go_error option) option" where
  "real_walk dec newObj visitFunc path name (File content) st =
     (if \<not> HasSuffix name ''.json'' then Some (st, None)
      else
        (case RealFS_decode dec newObj content of
           Inl e \<Rightarrow> Some (st, Some e)
         | Inr obj \<Rightarrow> visitFunc path obj st))"
| "real_walk dec newObj visitFunc path name (Dir es) st = real_walk_entries dec newObj visitFunc path es st"
| "real_walk_entries dec newObj visitFunc path [] st = Some (st, None)"
| "real_walk_entries dec newObj visitFunc path ((k, n) # es) st =
     (case real_walk dec newObj visitFunc (Join [path, k]) k n st of
        None \<Rightarrow> None
      | Some (st', Some e) \<Rightarrow> Some (st', Some e)
      | Some (st', None) \<Rightarrow> real_walk_entries dec newObj visitFunc path es st')"

text \<open>The names of a directory are sorted when it is read.\<close>

fun sort_node :: "'v node \<Rightarrow> 'v node" where
  "sort_node (File v) = File v"
| "sort_node (Dir es) = Dir (sort_key fst (map (\<lambda>e. (fst e, sort_node (snd e))) es))"

definition RealFS_VisitDir ::
  "string list \<Rightarrow> string \<Rightarrow> 'b Object \<Rightarrow> 'b decoder \<Rightarrow> (real_fs, 'b) visitor \<Rightarrow>
     real_fs \<times> 'b Object list \<Rightarrow> ((real_fs \<times> 'b Object list) \<times> (go_error + uint64)) option" where
  "RealFS_VisitDir cwd dirname newObj dec visitFunc st =
     (let (fs, acc) = st
      in if rfs_locked fs then None
         else
           case lookup_node (rfs_disk fs) (resolve cwd dirname) of
             None \<Rightarrow> Some (st, Inl (no_entry (rfs_disk fs) (resolve cwd dirname)))
           | Some n \<Rightarrow>
               (case real_walk dec newObj visitFunc dirname (path_Base dirname) (sort_node n) (fs\<lparr>rfs_locked := True\<rparr>, acc) of
                  None \<Rightarrow> None
                | Some ((fs', acc'), Some e) \<Rightarrow> Some ((fs'\<lparr>rfs_locked := False\<rparr>, acc'), Inl e)
                | Some ((fs', acc'), None) \<Rightarrow> Some ((fs'\<lparr>rfs_locked := False\<rparr>, acc'), Inr (rfs_rev fs'))))"

definition RealFS :: "string list \<Rightarrow> (real_fs, 'b) FS" where
  "RealFS cwd =
     \<lparr>fs_Remove = RealFS_Remove cwd, fs_Exists = RealFS_Exists cwd, fs_EnsureDir = RealFS_EnsureDir cwd,
      fs_Write = RealFS_Write cwd, fs_Read = RealFS_Read cwd, fs_VisitDir = RealFS_VisitDir cwd\<rparr>"

section \<open>Abstraction\<close>

definition real_content :: "real_fs \<Rightarrow> string list \<Rightarrow> bytes option" where
  "real_content fs = lookup_file (rfs_disk fs)"

definition real_has_dir :: "string list \<Rightarrow> real_fs \<Rightarrow> string \<Rightarrow> bool" where
  "real_has_dir cwd fs d \<longleftrightarrow> (\<exists>t. lookup_node (rfs_disk fs) (resolve cwd d) = Some (Dir t))"

definition real_blocked :: "string list \<Rightarrow> real_fs \<Rightarrow> string \<Rightarrow> bool" where
  "real_blocked cwd fs p \<longleftrightarrow>
     through_file (rfs_disk fs) (resolve cwd p) \<or>
     (\<exists>t. lookup_node (rfs_disk fs) (resolve cwd p) = Some (Dir t))"

text \<open>Directories have no duplicate names, file names are ordinary, the working directory is an
  ordinary path, and the mutex is free.\<close>

definition real_inv :: "string list \<Rightarrow> real_fs \<Rightarrow> bool" where
  "real_inv cwd fs \<longleftrightarrow> wf_dir (rfs_disk fs) \<and> \<not> rfs_locked fs \<and> list_all plain_seg cwd \<and>
     (\<forall>k v. real_content fs k = Some v \<longrightarrow> list_all plain_seg k)"

section \<open>Paths\<close>

lemma foldl_clean_plain: "list_all plain_seg ks \<Longrightarrow> foldl (clean_step r) out ks = out @ ks"
  by (induction ks arbitrary: out) auto

lemma clean_step_keeps_plain:
  assumes "list_all plain_seg out" and "c \<in> set cs" and "normal r cs"
  shows "list_all plain_seg (clean_step True out c)"
proof -
  from assms(2,3) have "c = ''..'' \<or> plain_seg c" by (auto simp: normal_def list_all_iff)
  with assms(1) show ?thesis
    by (auto simp: clean_step_def list_all_iff dest: in_set_butlastD)
qed

lemma foldl_clean_keeps_plain:
  "list_all plain_seg out \<Longrightarrow> set ds \<subseteq> set cs \<Longrightarrow> normal r cs \<Longrightarrow> list_all plain_seg (foldl (clean_step True) out ds)"
  by (induction ds arbitrary: out) (auto dest: clean_step_keeps_plain)

lemma resolve_render:
  assumes "normal r cs"
  shows "resolve cwd (render r cs) = foldl (clean_step True) (if r then [] else cwd) cs"
proof (cases "cs = []")
  case True
  then show ?thesis by (simp add: resolve_def render_def rooted_def clean_step_def)
next
  case False
  with assms show ?thesis by (simp add: resolve_def split_render)
qed

lemma resolve_below:
  assumes "good_path d" and "list_all plain_seg ks"
  shows "resolve cwd (path_below d ks) = resolve cwd d @ ks"
proof -
  from good_path_normal [OF assms(1)] have d: "d = render (rooted d) (path_elems d)" by blast
  have "resolve cwd (path_below d ks) = foldl (clean_step True) (if rooted d then [] else cwd) (path_elems d @ ks)"
    unfolding path_below_def by (rule resolve_render) (simp add: normal_append_plain assms(2))
  also have "\<dots> = foldl (clean_step True) (if rooted d then [] else cwd) (path_elems d) @ ks"
    by (simp add: foldl_clean_plain assms(2))
  also have "foldl (clean_step True) (if rooted d then [] else cwd) (path_elems d) = resolve cwd d"
    by (subst (3) d) (simp add: resolve_render)
  finally show ?thesis .
qed

lemma resolve_good:
  assumes "good_path p"
  obtains ks c where "resolve cwd p = ks @ [c]" and "plain_seg c"
    and "list_all plain_seg cwd \<Longrightarrow> list_all plain_seg ks"
proof -
  from assms obtain r cs c where c: "normal r cs" "plain_seg c" and p: "p = render r (cs @ [c])" by (rule good_pathE)
  let ?ks = "foldl (clean_step True) (if r then [] else cwd) cs"
  have "resolve cwd p = ?ks @ [c]" using resolve_render [OF normal_snoc [OF c], of cwd] c(2) by (simp add: p)
  moreover have "list_all plain_seg cwd \<Longrightarrow> list_all plain_seg ?ks"
    using foldl_clean_keeps_plain [OF _ subset_refl c(1), of "if r then [] else cwd"] by simp
  ultimately show thesis using that c(2) by blast
qed

lemma resolve_Clean [simp]: "good_path p \<Longrightarrow> resolve cwd (Clean p) = resolve cwd p"
  by (simp add: good_path_def)

section \<open>The operating system: lemmas\<close>

lemma through_file_iff: "through_file d ks \<longleftrightarrow> (\<exists>qs rs. ks = qs @ rs \<and> rs \<noteq> [] \<and> lookup_file d qs \<noteq> None)"
proof
  assume "through_file d ks"
  then obtain n where "n < length ks" "lookup_file d (take n ks) \<noteq> None"
    by (auto simp: through_file_def list_ex_iff)
  then show "\<exists>qs rs. ks = qs @ rs \<and> rs \<noteq> [] \<and> lookup_file d qs \<noteq> None"
    by (intro exI [of _ "take n ks"] exI [of _ "drop n ks"]) simp
next
  assume "\<exists>qs rs. ks = qs @ rs \<and> rs \<noteq> [] \<and> lookup_file d qs \<noteq> None"
  then obtain qs rs where "ks = qs @ rs" "rs \<noteq> []" "lookup_file d qs \<noteq> None" by blast
  then show "through_file d ks"
    by (auto simp: through_file_def list_ex_iff intro!: bexI [of _ "length qs"])
qed

lemma through_file_none: "through_file d ks \<Longrightarrow> lookup_node d ks = None"
proof -
  assume "through_file d ks"
  then obtain qs rs v where q: "ks = qs @ rs" "rs \<noteq> []" "lookup_file d qs = Some v" by (auto simp: through_file_iff)
  have "lookup_node d (qs @ rs) = None" if "rs \<noteq> []" "lookup_node d qs = Some (File v)" for qs rs d
    using that by (induction qs arbitrary: d) (auto split: option.splits node.splits if_splits)
  with q show ?thesis by (simp add: lookup_file_SomeD)
qed

lemma lookup_node_None: "lookup_file d ks = None \<Longrightarrow> lookup_node d ks = None \<or> (\<exists>t. lookup_node d ks = Some (Dir t))"
  by (cases "lookup_node d ks") (auto simp: lookup_file_def split: node.splits)

lemma parent_of_file:
  assumes "lookup_node d (ks @ [c]) = Some (File v)"
  obtains t where "lookup_node d ks = Some (Dir t)" and "map_of t c = Some (File v)"
proof -
  from assms have "lookup_node d (ks @ c # []) \<noteq> None" by simp
  from lookup_node_prefix_dir [OF this] obtain t where t: "lookup_node d ks = Some (Dir t)" by blast
  with lookup_node_append [OF t, of "[c]"] assms have "map_of t c = Some (File v)"
    by (auto split: option.splits node.splits)
  with t show thesis by (rule that)
qed

lemma os_WriteFile_cases:
  assumes "wf_dir d" and "\<nexists>t. lookup_node d (ks @ [c]) = Some (Dir t)"
  shows "(\<exists>e. os_WriteFile (ks @ [c]) buf d = (d, Some e)) \<and> (\<nexists>t. lookup_node d ks = Some (Dir t)) \<or>
    (\<exists>d'. os_WriteFile (ks @ [c]) buf d = (d', None) \<and> wf_dir d' \<and>
       lookup_file d' = (lookup_file d)(ks @ [c] \<mapsto> buf) \<and>
       (\<forall>qs s. lookup_node d qs = Some (Dir s) \<longrightarrow> (\<exists>s'. lookup_node d' qs = Some (Dir s'))))"
proof (cases "\<exists>t. lookup_node d ks = Some (Dir t)")
  case True
  then obtain t where t: "lookup_node d ks = Some (Dir t)" by blast
  have nd: "\<nexists>s. map_of t c = Some (Dir s)"
    using assms(2) lookup_node_append [OF t, of "[c]"] by auto
  let ?d = "modify_at ks (AList.update c (File buf)) d"
  have "os_WriteFile (ks @ [c]) buf d = (?d, None)"
    using assms(2) t by (auto simp: os_WriteFile_def split: option.splits node.splits)
  moreover have "wf_dir ?d" by (rule wf_modify_at [OF _ assms(1)]) (simp add: wf_dir_update)
  moreover have "lookup_file ?d = (lookup_file d)(ks @ [c] \<mapsto> buf)" by (rule update_entry_file [OF t nd])
  moreover have "\<exists>s'. lookup_node ?d qs = Some (Dir s')" if "lookup_node d qs = Some (Dir s)" for qs s
    by (rule modify_at_keeps_dir [OF _ t that]) (rule update_entry_keeps_dir [OF nd])
  ultimately show ?thesis by blast
next
  case False
  with assms(2) have "os_WriteFile (ks @ [c]) buf d = (d, Some (no_entry d (ks @ [c])))"
    by (auto simp: os_WriteFile_def split: option.splits node.splits)
  with False show ?thesis by blast
qed

lemma os_WriteFile_through:
  assumes "through_file d (ks @ [c])" and "\<nexists>t. lookup_node d (ks @ [c]) = Some (Dir t)"
  shows "\<exists>e. os_WriteFile (ks @ [c]) buf d = (d, Some e)"
proof -
  from assms(1) obtain qs rs where q: "ks @ [c] = qs @ rs" "rs \<noteq> []" "lookup_file d qs \<noteq> None"
    by (auto simp: through_file_iff)
  then obtain ys where ys: "ks = qs @ ys" by (cases rs rule: rev_cases) auto
  have "\<nexists>t. lookup_node d ks = Some (Dir t)"
  proof (cases "ys = []")
    case True
    with q(3) ys show ?thesis by (auto simp: lookup_file_def)
  next
    case False
    with q(3) ys have "through_file d ks" unfolding through_file_iff by blast
    then show ?thesis by (simp add: through_file_none)
  qed
  with assms(2) show ?thesis by (auto simp: os_WriteFile_def split: option.splits node.splits)
qed

lemma os_Remove_file:
  assumes "wf_dir d" and "lookup_file d (ks @ [c]) = Some v"
  shows "\<exists>d'. os_Remove (ks @ [c]) d = (d', None) \<and> wf_dir d' \<and> lookup_file d' = (lookup_file d)(ks @ [c] := None) \<and>
    (\<forall>qs s. lookup_node d qs = Some (Dir s) \<longrightarrow> (\<exists>s'. lookup_node d' qs = Some (Dir s')))"
proof -
  from lookup_file_SomeD [OF assms(2)] have n: "lookup_node d (ks @ [c]) = Some (File v)" .
  then obtain t where t: "lookup_node d ks = Some (Dir t)" "map_of t c = Some (File v)" by (rule parent_of_file)
  let ?d = "modify_at ks (AList.delete c) d"
  have "os_Remove (ks @ [c]) d = (?d, None)" using n by (simp add: os_Remove_def)
  moreover have "wf_dir ?d" by (rule wf_modify_at [OF _ assms(1)]) (simp add: wf_dir_delete)
  moreover have "lookup_file ?d = (lookup_file d)(ks @ [c] := None)"
  proof
    fix qs
    have "lookup_file d qs = None" if "prefix (ks @ [c]) qs" "qs \<noteq> ks @ [c]"
    proof -
      from that obtain rs where "qs = (ks @ [c]) @ rs" "rs \<noteq> []" by (auto simp: prefix_def)
      then have "through_file d qs" using assms(2) unfolding through_file_iff by blast
      then show ?thesis using through_file_none [of d qs] by (simp add: lookup_file_def)
    qed
    then show "lookup_file ?d qs = ((lookup_file d)(ks @ [c] := None)) qs"
      using delete_entry_file [OF t(1), of c qs] by (cases "prefix (ks @ [c]) qs") auto
  qed
  moreover have "\<exists>s'. lookup_node ?d qs = Some (Dir s')" if "lookup_node d qs = Some (Dir s)" for qs s
    by (rule modify_at_keeps_dir [OF _ t(1) that]) (rule delete_entry_keeps_dir, use t(2) in simp)
  ultimately show ?thesis by blast
qed

section \<open>Walking a directory: lemmas\<close>

lemma mset_sort_node: "mset (node_files (sort_node n)) = mset (node_files n)"
proof (induction n rule: sort_node.induct)
  case (2 es)
  let ?f = "\<lambda>e. map (\<lambda>(ks, v). (fst e # ks, v)) (node_files (snd e))"
  let ?g = "\<lambda>e. (fst e, sort_node (snd e))"
  have "mset (node_files (sort_node (Dir es))) = mset (concat (map ?f (map ?g es)))"
    by (simp del: map_map) (rule mset_concat_map, simp)
  also have "\<dots> = mset (concat (map ?f es))"
    using 2
  proof (induction es)
    case (Cons e es)
    have "mset (?f (?g e)) = mset (?f e)" using Cons.prems [of e] by simp
    then show ?case using Cons by simp
  qed simp
  finally show ?case by simp
qed simp

text \<open>The files that a walk visits, with the paths it builds.\<close>

fun walk_list :: "string \<Rightarrow> string \<Rightarrow> bytes node \<Rightarrow> (string \<times> bytes) list" where
  "walk_list path name (File c) = (if HasSuffix name ''.json'' then [(path, c)] else [])"
| "walk_list path name (Dir es) = concat (map (\<lambda>e. walk_list (Join [path, fst e]) (fst e) (snd e)) es)"

lemma collect_append:
  "collect dec g (xs @ ys) acc =
     (case collect dec g xs acc of (acc', Some e) \<Rightarrow> (acc', Some e) | (acc', None) \<Rightarrow> collect dec g ys acc')"
  by (induction dec g xs acc rule: collect.induct) (auto split: sum.splits prod.splits option.splits)

lemma real_walk_collect:
  "real_walk dec new (pure_visitor g) path name n (s, acc) =
     Some (case collect (RealFS_decode dec new) g (walk_list path name n) acc of (acc', r) \<Rightarrow> ((s, acc'), r))"
proof (induction n arbitrary: path name acc)
  case (File c)
  show ?case by (auto simp: pure_visitor_def split: sum.splits prod.splits option.splits)
next
  case (Dir es)
  then have "real_walk_entries dec new (pure_visitor g) path es (s, acc) =
     Some (case collect (RealFS_decode dec new) g (walk_list path name (Dir es)) acc of (acc', r) \<Rightarrow> ((s, acc'), r))"
  proof (induction es arbitrary: acc)
    case (Cons e es)
    obtain k n where e: "e = (k, n)" by (cases e)
    have "real_walk dec new (pure_visitor g) p m n (s, a) =
       Some (case collect (RealFS_decode dec new) g (walk_list p m n) a of (acc', r) \<Rightarrow> ((s, acc'), r))" for p m a
      using Cons.prems [of e n] e by simp
    moreover have "real_walk_entries dec new (pure_visitor g) path es (s, a) =
       Some (case collect (RealFS_decode dec new) g (walk_list path name (Dir es)) a of (acc', r) \<Rightarrow> ((s, acc'), r))" for a
      by (rule Cons.IH) (rule Cons.prems, auto)
    ultimately show ?case by (auto simp: e collect_append split: prod.splits option.splits)
  qed simp
  then show ?case by simp
qed

lemma walk_list_files:
  "walk_list d name (Dir es) = map (\<lambda>(ks, v). (walk_path d ks, v))
     (filter (\<lambda>(ks, v). HasSuffix (last ks) ''.json'') (node_files (Dir es)))"
proof -
  have "walk_list d name n = map (\<lambda>(ks, v). (walk_path d ks, v))
     (filter (\<lambda>(ks, v). HasSuffix (if ks = [] then name else last ks) ''.json'') (node_files n))" for d name n
  proof (induction d name n rule: walk_list.induct)
    case (1 path name c)
    show ?case by (simp add: walk_path_def)
  next
    case (2 path name es)
    then show ?case
    proof (induction es)
      case (Cons e es)
      have "walk_list (Join [path, fst e]) (fst e) (snd e) = map (\<lambda>(ks, v). (walk_path (Join [path, fst e]) ks, v))
         (filter (\<lambda>(ks, v). HasSuffix (if ks = [] then fst e else last ks) ''.json'') (node_files (snd e)))"
        by (rule Cons.prems) simp
      also have "\<dots> = map (\<lambda>(ks, v). (walk_path path ks, v)) (filter (\<lambda>(ks, v). HasSuffix (if ks = [] then name else last ks) ''.json'')
          (map (\<lambda>(ks, v). (fst e # ks, v)) (node_files (snd e))))"
        unfolding filter_map by (simp add: comp_def case_prod_unfold walk_path_def)
      finally show ?case using Cons by simp
    qed simp
  qed
  moreover have "filter (\<lambda>(ks, v). HasSuffix (if ks = [] then name else last ks) ''.json'') (node_files (Dir es)) =
      filter (\<lambda>(ks, v). HasSuffix (last ks) ''.json'') (node_files (Dir es))"
    by (rule filter_cong) auto
  ultimately show ?thesis by simp
qed

text \<open>The visitor of \<open>DeleteCollection\<close> under the mutex: it gets stuck at the first file that
  matches, since \<open>Remove\<close> waits for the mutex that its caller holds.\<close>

lemma real_walk_delete:
  assumes "rfs_locked fs"
  shows "\<forall>(q, c) \<in> set (walk_list path name n). \<exists>obj b. RealFS_decode dec new c = Inr obj \<and> SelectionPredicate_Matches p obj = Inr b \<Longrightarrow>
    real_walk dec new (delete_visitor (RealFS cwd) p) path name n (fs, acc) =
      (if \<exists>(q, c) \<in> set (walk_list path name n). \<exists>obj. RealFS_decode dec new c = Inr obj \<and> SelectionPredicate_Matches p obj = Inr True
       then None else Some ((fs, acc), None))"
proof (induction n arbitrary: path name)
  case (File c)
  with assms show ?case
    by (auto simp: delete_visitor_def RealFS_def RealFS_Remove_def split: if_splits sum.splits)
next
  case (Dir es)
  let ?hit = "\<lambda>fl. \<exists>(q, c) \<in> set fl. \<exists>obj. RealFS_decode dec new c = Inr obj \<and> SelectionPredicate_Matches p obj = Inr True"
  have "real_walk_entries dec new (delete_visitor (RealFS cwd) p) path es (fs, acc) =
      (if ?hit (walk_list path name (Dir es)) then None else Some ((fs, acc), None))"
    using Dir
  proof (induction es)
    case (Cons e es)
    obtain k n where e: "e = (k, n)" by (cases e)
    have "real_walk dec new (delete_visitor (RealFS cwd) p) (Join [path, k]) k n (fs, acc) =
      (if ?hit (walk_list (Join [path, k]) k n) then None else Some ((fs, acc), None))"
      by (rule Cons.prems(1) [of e n]) (use Cons.prems(2) e in auto)
    moreover have "real_walk_entries dec new (delete_visitor (RealFS cwd) p) path es (fs, acc) =
      (if ?hit (walk_list path name (Dir es)) then None else Some ((fs, acc), None))"
      by (rule Cons.IH) (rule Cons.prems(1), use Cons.prems(2) in auto)
    moreover have wl: "walk_list path name (Dir (e # es)) = walk_list (Join [path, k]) k n @ walk_list path name (Dir es)"
      by (simp add: e)
    ultimately show ?case unfolding wl set_append bex_Un by (simp add: e del: walk_list.simps)
  qed simp
  then show ?case by simp
qed

section \<open>Methods: lemmas\<close>

lemma real_invD:
  assumes "real_inv cwd fs"
  shows "wf_dir (rfs_disk fs)" and "\<not> rfs_locked fs" and "list_all plain_seg cwd"
    and "real_content fs k = Some v \<Longrightarrow> list_all plain_seg k"
  using assms by (auto simp: real_inv_def)

lemma unlocked: "\<not> rfs_locked fs \<Longrightarrow> fs\<lparr>rfs_locked := False\<rparr> = fs"
  by (cases fs) simp

lemma real_inv_rev [simp]: "real_inv cwd (fs\<lparr>rfs_rev := r\<rparr>) = real_inv cwd fs"
  by (simp add: real_inv_def real_content_def)

lemma real_content_simps [simp]: "real_content (fs\<lparr>rfs_rev := r\<rparr>) = real_content fs"
  "real_content (fs\<lparr>rfs_disk := d\<rparr>) = lookup_file d"
  by (simp_all add: real_content_def)

lemma RealFS_tree:
  assumes inv: "real_inv cwd fs" and d: "good_path d" and dir: "real_has_dir cwd fs d"
  obtains t files where "lookup_node (rfs_disk fs) (resolve cwd d) = Some (Dir t)" and "distinct (map fst files)"
    and "\<And>p c. (p, c) \<in> set files \<longleftrightarrow>
      (\<exists>ks. ks \<noteq> [] \<and> list_all plain_seg ks \<and> HasSuffix (last ks) ''.json'' \<and>
         p = path_below d ks \<and> real_content fs (resolve cwd p) = Some c)"
    and "\<And>name. walk_list d name (sort_node (Dir t)) = files"
proof -
  from dir obtain t where t: "lookup_node (rfs_disk fs) (resolve cwd d) = Some (Dir t)" by (auto simp: real_has_dir_def)
  then have wf: "wf_dir t" using wf_dir_lookup real_invD(1) [OF inv] by blast
  obtain es where es: "sort_node (Dir t) = Dir es" by simp
  let ?fl = "node_files (Dir es)"
  have ms: "mset ?fl = mset (node_files (Dir t))" using mset_sort_node [of "Dir t"] by (simp only: es)
  have below: "lookup_file t ks = real_content fs (resolve cwd d @ ks)" for ks
    using lookup_file_append [OF t] by (simp add: real_content_def)
  have fl: "(ks, v) \<in> set ?fl \<longleftrightarrow> ks \<noteq> [] \<and> list_all plain_seg ks \<and> real_content fs (resolve cwd (path_below d ks)) = Some v" for ks v
  proof -
    have "(ks, v) \<in> set ?fl \<longleftrightarrow> lookup_file t ks = Some v"
      using mset_eq_setD [OF ms] node_files_iff [OF wf] by simp
    also have "\<dots> \<longleftrightarrow> ks \<noteq> [] \<and> list_all plain_seg ks \<and> real_content fs (resolve cwd (path_below d ks)) = Some v"
      using real_invD(4) [OF inv, of "resolve cwd d @ ks" v] resolve_below [OF d, of ks cwd] below [of ks] by auto
    finally show ?thesis .
  qed
  have "mset (map fst ?fl) = mset (map fst (node_files (Dir t)))" unfolding mset_map ms ..
  then have dist: "distinct (map fst ?fl)"
    using distinct_node_files [OF wf] mset_eq_imp_distinct_iff by blast
  let ?files = "map (\<lambda>(ks, v). (path_below d ks, v)) (filter (\<lambda>(ks, v). HasSuffix (last ks) ''.json'') ?fl)"
  have "walk_list d name (sort_node (Dir t)) = ?files" for name
    unfolding walk_list_files es
    by (rule map_cong [OF refl]) (use fl walk_path_below [OF d] in \<open>auto simp del: node_files.simps\<close>)
  with t listing_of_files [OF dist fl] show thesis by (rule that)
qed

lemma RealFS_visit:
  assumes inv: "real_inv cwd fs" and d: "good_path d" and dir: "real_has_dir cwd fs d"
  obtains files where "distinct (map fst files)"
    and "\<And>p c. (p, c) \<in> set files \<longleftrightarrow>
      (\<exists>ks. ks \<noteq> [] \<and> list_all plain_seg ks \<and> HasSuffix (last ks) ''.json'' \<and>
         p = path_below d ks \<and> real_content fs (resolve cwd p) = Some c)"
    and "\<And>new dec g acc. RealFS_VisitDir cwd d new dec (pure_visitor g) (fs, acc) =
      Some (case collect (RealFS_decode dec new) g files acc of
              (acc', Some e) \<Rightarrow> ((fs, acc'), Inl e)
            | (acc', None) \<Rightarrow> ((fs, acc'), Inr (rfs_rev fs)))"
proof -
  from inv d dir obtain t files where t: "lookup_node (rfs_disk fs) (resolve cwd d) = Some (Dir t)"
    and files: "distinct (map fst files)" "\<And>p c. (p, c) \<in> set files \<longleftrightarrow>
      (\<exists>ks. ks \<noteq> [] \<and> list_all plain_seg ks \<and> HasSuffix (last ks) ''.json'' \<and>
         p = path_below d ks \<and> real_content fs (resolve cwd p) = Some c)"
    and w: "\<And>name. walk_list d name (sort_node (Dir t)) = files" by (rule RealFS_tree) blast
  have "RealFS_VisitDir cwd d new dec (pure_visitor g) (fs, acc) =
      Some (case collect (RealFS_decode dec new) g files acc of
              (acc', Some e) \<Rightarrow> ((fs, acc'), Inl e)
            | (acc', None) \<Rightarrow> ((fs, acc'), Inr (rfs_rev fs)))" for new dec g acc
    using real_invD(2) [OF inv] t
    by (auto simp: RealFS_VisitDir_def real_walk_collect w unlocked simp del: real_walk.simps sort_node.simps walk_list.simps
        split: prod.splits option.splits)
  with files show thesis by (rule that)
qed

lemma real_keys:
  assumes "real_inv cwd fs" and "good_path p" and "wf_dir d"
    and "lookup_file d = (lookup_file (rfs_disk fs))(resolve cwd p := file)" and "rfs_locked fs = rfs_locked fs'"
    and "rfs_disk fs' = d"
  shows "real_inv cwd fs'"
proof -
  have "list_all plain_seg (resolve cwd p)"
  proof -
    from assms(2) obtain ks c where "resolve cwd p = ks @ [c]" "plain_seg c" "list_all plain_seg cwd \<Longrightarrow> list_all plain_seg ks"
      by (rule resolve_good) blast
    with real_invD(3) [OF assms(1)] show ?thesis by simp
  qed
  with assms show ?thesis by (auto simp: real_inv_def real_content_def)
qed

lemma RealFS_Write_outcome:
  assumes inv: "real_inv cwd fs" and p: "good_path p" and nd: "\<nexists>t. lookup_node (rfs_disk fs) (resolve cwd p) = Some (Dir t)"
  shows "\<exists>fs' obj' r. RealFS_Write cwd enc p obj sv fs = Some (fs', obj', r) \<and> real_inv cwd fs' \<and>
    (\<forall>d. real_has_dir cwd fs d \<longrightarrow> real_has_dir cwd fs' d) \<and>
    (case r of
       Some e \<Rightarrow> real_content fs' = real_content fs
     | None \<Rightarrow> \<not> through_file (rfs_disk fs) (resolve cwd p) \<and> Metadata obj \<noteq> None \<and>
         obj' = with_rv (formatResourceVersion (rfs_rev fs + 1)) obj \<and>
         (\<exists>buf. enc obj' = Inr buf \<and> real_content fs' = (real_content fs)(resolve cwd p \<mapsto> buf)))"
proof -
  note unl = real_invD(2) [OF inv]
  let ?fs1 = "fs\<lparr>rfs_rev := rfs_rev fs + 1\<rparr>"
  show ?thesis
  proof (cases "setResourceVersion obj (rfs_rev fs + 1)")
    case (Inl e)
    with inv unl show ?thesis by (simp add: RealFS_Write_def RealFS_incrementRev_def real_has_dir_def Let_def)
  next
    case (Inr obj')
    then have o: "Metadata obj \<noteq> None" "obj' = with_rv (formatResourceVersion (rfs_rev fs + 1)) obj"
      by (auto simp: setResourceVersion_Inr_iff)
    show ?thesis
    proof (cases "enc obj'")
      case (Inl e)
      with Inr inv unl show ?thesis by (simp add: RealFS_Write_def RealFS_incrementRev_def real_has_dir_def Let_def)
    next
      case buf: (Inr buf)
      from p obtain ks c where r: "resolve cwd p = ks @ [c]" by (rule resolve_good)
      obtain d w where dw: "os_WriteFile (ks @ [c]) buf (rfs_disk fs) = (d, w)" by fastforce
      have run: "RealFS_Write cwd enc p obj sv fs = Some (?fs1\<lparr>rfs_disk := d\<rparr>, obj', w)"
        using Inr buf unl dw by (simp add: RealFS_Write_def RealFS_incrementRev_def r Let_def)
      from os_WriteFile_cases [OF real_invD(1) [OF inv] nd [unfolded r], of buf]
      show ?thesis
      proof (elim disjE conjE exE)
        fix e
        assume "os_WriteFile (ks @ [c]) buf (rfs_disk fs) = (rfs_disk fs, Some e)"
        with dw have "d = rfs_disk fs" "w = Some e" by auto
        with run inv show ?thesis by (auto simp: real_has_dir_def real_inv_def real_content_def)
      next
        fix d'
        assume a: "os_WriteFile (ks @ [c]) buf (rfs_disk fs) = (d', None)" "wf_dir d'"
          "lookup_file d' = (lookup_file (rfs_disk fs))(ks @ [c] \<mapsto> buf)"
          "\<forall>qs s. lookup_node (rfs_disk fs) qs = Some (Dir s) \<longrightarrow> (\<exists>s'. lookup_node d' qs = Some (Dir s'))"
        with dw have "d = d'" "w = None" by auto
        moreover have "real_inv cwd (?fs1\<lparr>rfs_disk := d'\<rparr>)"
          by (rule real_keys [OF inv p a(2), of "Some buf"]) (simp_all add: a(3) r)
        moreover have "\<not> through_file (rfs_disk fs) (ks @ [c])"
          using a(1) os_WriteFile_through [of "rfs_disk fs" ks c buf] nd by (auto simp: r)
        ultimately show ?thesis using run o buf a(3,4) by (auto simp: real_has_dir_def r real_content_def)
      qed
    qed
  qed
qed

lemma RealFS_Remove_file:
  assumes inv: "real_inv cwd fs" and p: "good_path p" and v: "real_content fs (resolve cwd p) = Some v"
  shows "\<exists>fs'. RealFS_Remove cwd p fs = Some (fs', None) \<and> real_inv cwd fs' \<and>
    real_content fs' = (real_content fs)(resolve cwd p := None) \<and> (\<forall>d. real_has_dir cwd fs d \<longrightarrow> real_has_dir cwd fs' d)"
proof -
  let ?fs1 = "fs\<lparr>rfs_rev := rfs_rev fs + 1\<rparr>"
  from p obtain ks c where r: "resolve cwd p = ks @ [c]" by (rule resolve_good)
  from os_Remove_file [OF real_invD(1) [OF inv] v [unfolded r real_content_def]]
  obtain d where d: "os_Remove (ks @ [c]) (rfs_disk fs) = (d, None)" "wf_dir d"
    "lookup_file d = (lookup_file (rfs_disk fs))(ks @ [c] := None)"
    "\<forall>qs s. lookup_node (rfs_disk fs) qs = Some (Dir s) \<longrightarrow> (\<exists>s'. lookup_node d qs = Some (Dir s'))" by blast
  have "real_inv cwd (?fs1\<lparr>rfs_disk := d\<rparr>)"
    by (rule real_keys [OF inv p d(2), of None]) (simp_all add: d(3) r)
  moreover have "RealFS_Remove cwd p fs = Some (?fs1\<lparr>rfs_disk := d\<rparr>, None)"
    using real_invD(2) [OF inv] d(1) by (simp add: RealFS_Remove_def RealFS_incrementRev_def r Let_def)
  ultimately show ?thesis using d(3,4) by (auto simp: real_has_dir_def r real_content_def)
qed

lemma RealFS_EnsureDir_outcome:
  assumes inv: "real_inv cwd fs"
  shows "\<exists>fs' r. RealFS_EnsureDir cwd d fs = Some (fs', r) \<and> real_inv cwd fs' \<and> real_content fs' = real_content fs \<and>
    (\<forall>d. real_has_dir cwd fs d \<longrightarrow> real_has_dir cwd fs' d) \<and>
    (r = None \<longrightarrow> real_has_dir cwd fs' d \<or> real_content fs (resolve cwd d) \<noteq> None)"
proof (cases "lookup_node (rfs_disk fs) (resolve cwd d)")
  case (Some n)
  with inv show ?thesis
    by (cases n) (auto simp: RealFS_EnsureDir_def os_Stat_def real_invD real_has_dir_def real_content_def lookup_file_def)
next
  case None
  let ?e = "ensure_parts (resolve cwd d) (rfs_disk fs)"
  show ?thesis
  proof (cases "snd ?e")
    case (Inl e)
    with None inv show ?thesis
      by (simp add: RealFS_EnsureDir_def os_Stat_def os_MkdirAll_def real_invD case_prod_beta)
  next
    case (Inr t)
    have "real_inv cwd (fs\<lparr>rfs_disk := fst ?e\<rparr>)"
      using inv wf_ensure_parts [OF real_invD(1) [OF inv]] ensure_parts_file [of "resolve cwd d" "rfs_disk fs"]
      by (simp add: real_inv_def real_content_def)
    moreover have "real_content (fs\<lparr>rfs_disk := fst ?e\<rparr>) = real_content fs"
      by (rule ext) (simp add: real_content_def ensure_parts_file)
    moreover have "RealFS_EnsureDir cwd d fs = Some (fs\<lparr>rfs_disk := fst ?e\<rparr>, None)"
      using None Inr real_invD(2) [OF inv]
      by (simp add: RealFS_EnsureDir_def os_Stat_def os_MkdirAll_def case_prod_beta)
    ultimately show ?thesis
      using ensure_parts_keeps_dir [of "rfs_disk fs"] ensure_parts_dir [OF Inr] by (auto simp: real_has_dir_def)
  qed
qed

lemma real_unblocked:
  assumes "real_content fs (resolve cwd p) = None" and "\<not> real_blocked cwd fs p"
  shows "lookup_node (rfs_disk fs) (resolve cwd p) = None" and "no_entry (rfs_disk fs) (resolve cwd p) = ErrNotExist"
  using assms lookup_node_None [of "rfs_disk fs" "resolve cwd p"]
  by (auto simp: real_blocked_def real_content_def no_entry_def)

section \<open>The contract holds\<close>

lemmas RealFS_ops = RealFS_def FS.simps

interpretation realfs: fs_contract "RealFS cwd" "real_inv cwd" "resolve cwd" real_content
    "\<lambda>dec new c. RealFS_decode dec new c" "real_blocked cwd" "real_has_dir cwd" rfs_rev
  for cwd
proof unfold_locales
  fix d ks ks' assume "good_path d" "list_all plain_seg ks" "list_all plain_seg ks'"
    "resolve cwd (path_below d ks) = resolve cwd (path_below d ks')"
  then show "ks = ks'" by (simp add: resolve_below)
next
  fix s p assume "real_blocked cwd s p"
  then show "real_content s (resolve cwd p) = None"
    using through_file_none [of "rfs_disk s" "resolve cwd p"] by (auto simp: real_blocked_def real_content_def lookup_file_def)
next
  fix s p c and dec :: "'b decoder" and new assume "real_inv cwd s" "good_path p" "real_content s (resolve cwd p) = Some c"
  then show "fs_Read (RealFS cwd) dec p new s = Some (s, RealFS_decode dec new c)"
    by (simp add: RealFS_ops RealFS_Read_def real_invD os_ReadFile_def real_content_def lookup_file_SomeD)
next
  fix s p and dec :: "'b decoder" and new assume a: "real_inv cwd s" "good_path p" and n: "real_content s (resolve cwd p) = None"
  then obtain e where "os_ReadFile (rfs_disk s) (resolve cwd p) = Inl e" "\<not> real_blocked cwd s p \<longrightarrow> e = ErrNotExist"
    using lookup_node_None [of "rfs_disk s" "resolve cwd p"] real_unblocked(2) [OF n]
    by (auto simp: os_ReadFile_def real_content_def real_blocked_def)
  with a show "\<exists>s' e. fs_Read (RealFS cwd) dec p new s = Some (s', Inl e) \<and> real_inv cwd s' \<and> real_content s' = real_content s \<and>
      (\<forall>d. real_has_dir cwd s d \<longrightarrow> real_has_dir cwd s' d) \<and> (\<not> real_blocked cwd s p \<longrightarrow> e = ErrNotExist \<and> \<not> real_blocked cwd s' p)"
    by (auto simp: RealFS_ops RealFS_Read_def real_invD)
next
  fix s p c assume "real_inv cwd s" "real_content s (resolve cwd p) = Some c"
  then show "fs_Exists (RealFS cwd) p s = Some (s, True)"
    by (simp add: RealFS_ops RealFS_Exists_def real_invD os_Stat_def real_content_def lookup_file_SomeD)
next
  fix s p assume "real_inv cwd s" and n: "real_content s (resolve cwd p) = None"
  then show "\<exists>s' b. fs_Exists (RealFS cwd) p s = Some (s', b) \<and> real_inv cwd s' \<and> real_content s' = real_content s \<and>
      (\<forall>d. real_has_dir cwd s d \<longrightarrow> real_has_dir cwd s' d) \<and> (\<not> real_blocked cwd s p \<longrightarrow> \<not> b \<and> \<not> real_blocked cwd s' p)"
    using real_unblocked [OF n] by (auto simp: RealFS_ops RealFS_Exists_def real_invD os_Stat_def)
next
  fix s d assume "real_inv cwd s"
  then show "\<exists>s' r. fs_EnsureDir (RealFS cwd) d s = Some (s', r) \<and> real_inv cwd s' \<and> real_content s' = real_content s \<and>
      (\<forall>d. real_has_dir cwd s d \<longrightarrow> real_has_dir cwd s' d) \<and> (r = None \<longrightarrow> real_has_dir cwd s' d \<or> real_content s (resolve cwd d) \<noteq> None)"
    using RealFS_EnsureDir_outcome [of cwd s d] by (simp add: RealFS_ops)
next
  fix s d assume "real_inv cwd s" "real_has_dir cwd s d"
  then show "fs_EnsureDir (RealFS cwd) d s = Some (s, None)"
    by (auto simp: RealFS_ops RealFS_EnsureDir_def real_invD os_Stat_def real_has_dir_def)
next
  fix s d k assume "good_path d" "plain_seg k" "real_content s (resolve cwd (path_below d [k])) \<noteq> None"
  then have "lookup_node (rfs_disk s) (resolve cwd d @ [k]) \<noteq> None"
    by (auto simp: resolve_below real_content_def dest: lookup_file_SomeD)
  then show "real_has_dir cwd s d" unfolding real_has_dir_def by (rule lookup_node_prefix_dir)
next
  fix s p and enc :: "'b encoder" and obj sv assume "real_inv cwd s" "good_path p" "\<not> real_blocked cwd s p"
  then show "\<exists>s' obj' r. fs_Write (RealFS cwd) enc p obj sv s = Some (s', obj', r) \<and> real_inv cwd s' \<and>
      (\<forall>d. real_has_dir cwd s d \<longrightarrow> real_has_dir cwd s' d) \<and> (r \<noteq> None \<longrightarrow> real_content s' = real_content s)"
    using RealFS_Write_outcome [of cwd s p enc obj sv] by (fastforce simp: RealFS_ops real_blocked_def)
next
  fix s p s1 and enc :: "'b encoder" and obj sv assume a: "real_inv cwd s" "good_path p" "real_blocked cwd s p"
    and "fs_Exists (RealFS cwd :: (real_fs, 'b) FS) p s = Some (s1, False)"
  then have s1: "s1 = s" and n: "lookup_node (rfs_disk s) (resolve cwd p) = None"
    by (auto simp: RealFS_ops RealFS_Exists_def real_invD os_Stat_def split: option.splits)
  with a(3) have "through_file (rfs_disk s) (resolve cwd p)" by (simp add: real_blocked_def)
  with RealFS_Write_outcome [OF a(1,2), of enc obj sv] n
  show "\<exists>s' obj' e. fs_Write (RealFS cwd) enc p obj sv s1 = Some (s', obj', Some e) \<and> real_inv cwd s' \<and>
      (\<forall>d. real_has_dir cwd s d \<longrightarrow> real_has_dir cwd s' d) \<and> real_content s' = real_content s"
    by (auto simp: RealFS_ops s1 split: option.splits)
next
  fix s p and enc :: "'b encoder" and obj sv s' obj' assume a: "real_inv cwd s" "good_path p" "\<not> real_blocked cwd s p"
    and "fs_Write (RealFS cwd) enc p obj sv s = Some (s', obj', None)"
  with RealFS_Write_outcome [OF a(1,2), of enc obj sv] obtain buf where
    w: "Metadata obj \<noteq> None" "obj' = with_rv (formatResourceVersion (rfs_rev s + 1)) obj" "enc obj' = Inr buf"
      "real_content s' = (real_content s)(resolve cwd p \<mapsto> buf)"
    by (auto simp: RealFS_ops real_blocked_def)
  have "RealFS_decode dec new buf = Inr (canon obj')" if "codec_ok enc dec canon" for dec canon new
    using codec_ok_decode [OF that w(3)] by (simp add: RealFS_decode_def)
  with w(1,2,4)
  show "\<exists>c. real_content s' = (real_content s)(resolve cwd p \<mapsto> c) \<and> Metadata obj \<noteq> None \<and> (\<exists>rv. obj' = with_rv rv obj) \<and>
      (\<forall>dec canon new. codec_ok enc dec canon \<longrightarrow>
         (\<exists>rv. RealFS_decode dec new c = Inr (with_rv rv (canon obj))) \<and>
         (real_content s (resolve cwd p) = None \<longrightarrow> RealFS_decode dec new c = Inr (canon obj')))"
    by (intro exI [of _ buf]) (auto simp: codec_ok_rv)
next
  fix s p c assume "real_inv cwd s" "good_path p" "real_content s (resolve cwd p) = Some c"
  then show "\<exists>s'. fs_Remove (RealFS cwd) p s = Some (s', None) \<and> real_inv cwd s' \<and>
      real_content s' = (real_content s)(resolve cwd p := None) \<and> (\<forall>d. real_has_dir cwd s d \<longrightarrow> real_has_dir cwd s' d)"
    using RealFS_Remove_file [of cwd s p c] by (simp add: RealFS_ops)
next
  fix s d new and dec :: "'b decoder" and g acc
  assume "real_inv cwd s" "good_path d" "real_has_dir cwd s d"
  then obtain files where "distinct (map fst files)"
    "\<And>p c. (p, c) \<in> set files \<longleftrightarrow>
      (\<exists>ks. ks \<noteq> [] \<and> list_all plain_seg ks \<and> HasSuffix (last ks) ''.json'' \<and>
         p = path_below d ks \<and> real_content s (resolve cwd p) = Some c)"
    "RealFS_VisitDir cwd d new dec (pure_visitor g) (s, acc) =
      Some (case collect (RealFS_decode dec new) g files acc of
              (acc', Some e) \<Rightarrow> ((s, acc'), Inl e)
            | (acc', None) \<Rightarrow> ((s, acc'), Inr (rfs_rev s)))"
    by (rule RealFS_visit) blast
  then show "\<exists>files. distinct (map fst files) \<and>
           (\<forall>p c. (p, c) \<in> set files \<longleftrightarrow>
              (\<exists>ks. ks \<noteq> [] \<and> list_all plain_seg ks \<and> HasSuffix (last ks) ''.json'' \<and>
                p = path_below d ks \<and> real_content s (resolve cwd p) = Some c)) \<and>
           fs_VisitDir (RealFS cwd) d new dec (pure_visitor g) (s, acc) =
             Some (case collect (RealFS_decode dec new) g files acc of
                     (acc', Some e) \<Rightarrow> ((s, acc'), Inl e)
                   | (acc', None) \<Rightarrow> ((s, acc'), Inr (rfs_rev s)))"
    by (intro exI [of _ files]) (simp add: RealFS_ops)
qed

end
