(* ===== verification/Real_Storage.thy ===== *)
theory Real_Storage
  imports Real_Fs Storage
begin

text \<open>
  The REST handlers on \<open>RealFS\<close>, through the interpretation of \<open>fs_contract\<close>, and
  where the two file systems differ: \<open>DeleteCollection\<close> on files never returns, and a list
  of a namespace without a directory fails on files but not in memory.
\<close>

section \<open>Definitions\<close>

definition real_ready ::
  "string list \<Rightarrow> (real_fs, 'b) filepathREST \<Rightarrow> request_ctx \<Rightarrow> (real_fs, 'b) store \<Rightarrow> bool" where
  "real_ready cwd f ctx s \<longleftrightarrow> rest_fs f = RealFS cwd \<and> wf_rest f \<and> wf_ctx ctx \<and>
     real_inv cwd (st_fs s) \<and> ws_live (st_ws s)"

text \<open>The object that a read of a file returns.\<close>

definition file_object ::
  "string list \<Rightarrow> (real_fs, 'b) filepathREST \<Rightarrow> request_ctx \<Rightarrow> string \<Rightarrow> real_fs \<Rightarrow> 'b Object option" where
  "file_object cwd f ctx name s =
     (case real_content s (resolve cwd (objectFileName f ctx name)) of
        None \<Rightarrow> None
      | Some c \<Rightarrow> (case RealFS_decode (rest_dec f) (newFunc f) c of Inl e \<Rightarrow> None | Inr obj \<Rightarrow> Some obj))"

text \<open>A store of manifests on an empty disk that has their directory.\<close>

definition disk_rest :: "(real_fs, ManifestBody) filepathREST" where
  "disk_rest =
     \<lparr>rest_enc = manifest_enc, rest_dec = manifest_dec,
      objRootPath = ''/data/core.tilt.dev/manifests'',
      newFunc = Manifest_New, newListFunc = Manifest_NewList, rest_strategy = Manifest_Strategy,
      groupResource = Manifest_GroupResource, rest_fs = RealFS []\<rparr>"

definition disk_store :: "(real_fs, ManifestBody) store" where
  "disk_store =
     \<lparr>st_fs = NewRealFS [(''data'', Dir [(''core.tilt.dev'', Dir [(''manifests'', Dir [])])])], st_ws = NewWatchSet\<rparr>"

definition disk_create_a :: "((real_fs, ManifestBody) store \<times> (go_error + ManifestBody Object)) option" where
  "disk_create_a = rest_Create no_checks 5 ''u1'' disk_rest cluster_ctx (sample_manifest ''a'' ''hi'') None disk_store"

section \<open>Lemmas\<close>

lemma real_readyD:
  assumes "real_ready cwd f ctx s"
  shows "realfs.ready cwd f ctx" and "real_inv cwd (st_fs s)" and "ws_live (st_ws s)"
  using assms by (auto simp: real_ready_def realfs.ready_def)

lemma disk_rest_wf [simp]: "wf_rest disk_rest"
  unfolding wf_rest_def good_path_def by code_simp

lemma disk_store_empty: "real_content (st_fs disk_store) k = None"
proof -
  let ?d = "[(''data'', Dir [(''core.tilt.dev'', Dir [(''manifests'', Dir [])])])] :: bytes dir"
  have "wf_dir ?d" by (simp add: wf_node.simps)
  from node_files_iff [OF this, of k] have "lookup_file ?d k \<noteq> Some v" for v by auto
  then have "lookup_file ?d k = None" by (meson option.exhaust)
  then show ?thesis by (simp add: real_content_def disk_store_def NewRealFS_def)
qed

lemma disk_store_ready [simp]: "real_ready [] disk_rest cluster_ctx disk_store"
proof -
  have "real_content (st_fs disk_store) k = None" for k by (rule disk_store_empty)
  then have "real_inv [] (st_fs disk_store)"
    by (simp add: real_inv_def) (simp add: disk_store_def NewRealFS_def wf_node.simps)
  then show ?thesis by (simp add: real_ready_def) (simp add: disk_rest_def disk_store_def)
qed

section \<open>Properties\<close>

text \<open>C20. What \<open>Create\<close> returned can be read back from the disk: after a successful create, a
  \<open>Get\<close> of the object's name returns the canonical form of exactly the object that
  \<open>Create\<close> returned, resource version included.\<close>

theorem Disk_Create_then_Get:
  assumes "real_ready cwd f ctx s" and "codec_ok (rest_enc f) (rest_dec f) canon"
    and "rest_Create V now uuid f ctx obj createValidation s = Some (s', Inr obj')"
  shows "\<exists>m. Metadata obj' = Some m \<and> rest_Get f ctx (Name m) (st_fs s') = Some (st_fs s', Inr (canon obj'))"
  using realfs.rest_Create_then_Get [OF real_readyD [OF assms(1)] assms(2,3)] .

theorem Disk_Create_then_Get_witness:
  "\<exists>s' obj' m. disk_create_a = Some (s', Inr obj') \<and> Metadata obj' = Some m \<and>
     rest_Get disk_rest cluster_ctx (Name m) (st_fs s') = Some (st_fs s', Inr (manifest_canon obj'))"
proof -
  have "returned (\<lambda>s' y. True) disk_create_a" by code_simp
  then obtain s' obj' where c: "disk_create_a = Some (s', Inr obj')" by (elim returnedE)
  have "codec_ok (rest_enc disk_rest) (rest_dec disk_rest) manifest_canon" by (simp add: disk_rest_def manifest_codec_ok)
  from Disk_Create_then_Get [OF disk_store_ready this c [unfolded disk_create_a_def]] c show ?thesis by blast
qed

text \<open>C21. \<open>DeleteCollection\<close> on \<open>RealFS\<close> never returns when there is something to
  delete: \<open>VisitDir\<close> holds the mutex while its visitor calls \<open>Remove\<close>, which waits
  for it.\<close>

theorem Disk_DeleteCollection_blocks:
  assumes "real_ready cwd f ctx s" and "real_has_dir cwd (st_fs s) (objectDirName f ctx)"
    and "Items (newListFunc f) = Inr []"
    and "\<forall>k c. real_content (st_fs s) k = Some c \<longrightarrow>
      (\<exists>obj. RealFS_decode (rest_dec f) (newFunc f) c = Inr obj \<and> Metadata obj \<noteq> None)"
    and "slash \<notin> set name" and "file_object cwd f ctx name (st_fs s) = Some obj"
    and "SelectionPredicate_Matches (newSelectionPredicate options) obj = Inr True"
  shows "rest_DeleteCollection f ctx deleteValidation options s = None"
proof -
  let ?d = "objectDirName f ctx" and ?p = "newSelectionPredicate options :: 'a SelectionPredicate"
  let ?dec = "RealFS_decode (rest_dec f) (newFunc f)"
  have w: "wf_rest f" "wf_ctx ctx" and ops: "rest_fs f = RealFS cwd" using assms(1) by (auto simp: real_ready_def)
  note inv = real_readyD(2) [OF assms(1)]
  from RealFS_tree [OF inv objectDirName_below(2) [OF w] assms(2)] obtain t files where
    t: "lookup_node (rfs_disk (st_fs s)) (resolve cwd ?d) = Some (Dir t)"
    and files: "\<And>q c. (q, c) \<in> set files \<longleftrightarrow>
      (\<exists>ks. ks \<noteq> [] \<and> list_all plain_seg ks \<and> HasSuffix (last ks) ''.json'' \<and>
         q = path_below ?d ks \<and> real_content (st_fs s) (resolve cwd q) = Some c)"
    and wl: "\<And>name. walk_list ?d name (sort_node (Dir t)) = files" by metis
  have dec: "\<forall>(q, c) \<in> set files. \<exists>obj b. ?dec c = Inr obj \<and> SelectionPredicate_Matches ?p obj = Inr b"
  proof clarify
    fix q c assume "(q, c) \<in> set files"
    with assms(4) files obtain obj where "?dec c = Inr obj" "Metadata obj \<noteq> None" by blast
    then show "\<exists>obj b. ?dec c = Inr obj \<and> SelectionPredicate_Matches ?p obj = Inr b"
      using SelectionPredicate_Matches_meta by blast
  qed
  from assms(6) obtain c where c: "real_content (st_fs s) (resolve cwd (objectFileName f ctx name)) = Some c" "?dec c = Inr obj"
    by (auto simp: file_object_def split: option.splits sum.splits)
  have "objectFileName f ctx name = path_below ?d [name @ ''.json'']" by (rule objectFileName_in_dir [OF w assms(5)])
  with c(1) have "(path_below ?d [name @ ''.json''], c) \<in> set files"
    using plain_seg_json [OF assms(5)] unfolding files by (auto intro!: exI [of _ "[name @ ''.json'']"])
  with c(2) assms(7) have hit: "\<exists>(q, c) \<in> set files. \<exists>obj. ?dec c = Inr obj \<and> SelectionPredicate_Matches ?p obj = Inr True" by auto
  have "real_walk (rest_dec f) (newFunc f) (delete_visitor (RealFS cwd) ?p) ?d n (sort_node (Dir t))
      ((st_fs s)\<lparr>rfs_locked := True\<rparr>, acc) = None" for n acc
    using real_walk_delete [of "(st_fs s)\<lparr>rfs_locked := True\<rparr>" ?d n "sort_node (Dir t)" "rest_dec f" "newFunc f" ?p cwd acc]
      dec hit unfolding wl by simp
  then have "fs_VisitDir (RealFS cwd) ?d (newFunc f) (rest_dec f) (delete_visitor (RealFS cwd) ?p) (st_fs s, []) = None"
    using real_invD(2) [OF inv] t by (simp add: RealFS_ops RealFS_VisitDir_def del: sort_node.simps)
  then show ?thesis using assms(3) by (simp add: rest_DeleteCollection_def ops Let_def)
qed

lemma disk_created:
  obtains s' where "real_ready [] disk_rest cluster_ctx s'" and "real_has_dir [] (st_fs s') (objectDirName disk_rest cluster_ctx)"
    and "file_object [] disk_rest cluster_ctx ''a'' (st_fs s') = Some (manifest_of ''a'' [] ''u1'' ''2'' ''hi'' [] False [])"
    and "\<forall>k c. real_content (st_fs s') k = Some c \<longrightarrow>
      RealFS_decode manifest_dec Manifest_New c = Inr (manifest_of ''a'' [] ''u1'' ''2'' ''hi'' [] False [])"
proof -
  have "returned (\<lambda>s' y. file_object [] disk_rest cluster_ctx ''a'' (st_fs s') = Some (manifest_of ''a'' [] ''u1'' ''2'' ''hi'' [] False []) \<and>
      os_Stat (rfs_disk (st_fs s')) (butlast (resolve [] (objectFileName disk_rest cluster_ctx ''a''))) = None \<and>
      map_option Name (Metadata y) = Some ''a'') disk_create_a" by code_simp
  then obtain s' y my where c: "disk_create_a = Some (s', Inr y)" and y: "Metadata y = Some my" "Name my = ''a''"
    and fo: "file_object [] disk_rest cluster_ctx ''a'' (st_fs s') = Some (manifest_of ''a'' [] ''u1'' ''2'' ''hi'' [] False [])"
    by (elim returnedE) auto
  from realfs.rest_Create_total [OF real_readyD [OF disk_store_ready], of no_checks 5 "''u1''" "sample_manifest ''a'' ''hi''" None]
    c [unfolded disk_create_a_def]
  obtain obj1 m1 where s': "real_inv [] (st_fs s')" "ws_live (st_ws s')" and m1: "Metadata obj1 = Some m1"
    and cr: "realfs.created [] disk_rest cluster_ctx (Name m1) obj1 disk_store s' y" by auto
  from cr m1 y have n: "Name m1 = ''a''" by (auto simp: realfs.created_def realfs.stored_def)
  from cr obtain v where v: "real_content (st_fs s') =
      (real_content (st_fs disk_store))(resolve [] (objectFileName disk_rest cluster_ctx ''a'') \<mapsto> v)"
    unfolding realfs.created_def realfs.loc_def n by blast
  have ready: "real_ready [] disk_rest cluster_ctx s'" using s' disk_store_ready by (simp add: real_ready_def)
  have "slash \<notin> set ''a''" by simp
  from objectFileName_in_dir [OF disk_rest_wf cluster_ctx_wf this]
  have "real_has_dir [] (st_fs s') (objectDirName disk_rest cluster_ctx)"
    by (intro realfs.parent_dir [OF s'(1) objectDirName_below(2) plain_seg_json [of "''a''"]]) (simp_all add: v flip: fun_upd_def)
  moreover have "\<forall>k c. real_content (st_fs s') k = Some c \<longrightarrow>
      RealFS_decode manifest_dec Manifest_New c = Inr (manifest_of ''a'' [] ''u1'' ''2'' ''hi'' [] False [])"
    using fo by (auto simp: v disk_store_empty file_object_def disk_rest_def split: if_splits sum.splits)
  ultimately show thesis using that ready fo by blast
qed

theorem Disk_DeleteCollection_blocks_witness:
  "\<exists>s. real_ready [] disk_rest cluster_ctx s \<and> rest_DeleteCollection disk_rest cluster_ctx None None s = None"
proof -
  obtain s' where s: "real_ready [] disk_rest cluster_ctx s'" "real_has_dir [] (st_fs s') (objectDirName disk_rest cluster_ctx)"
    "file_object [] disk_rest cluster_ctx ''a'' (st_fs s') = Some (manifest_of ''a'' [] ''u1'' ''2'' ''hi'' [] False [])"
    "\<forall>k c. real_content (st_fs s') k = Some c \<longrightarrow>
      RealFS_decode manifest_dec Manifest_New c = Inr (manifest_of ''a'' [] ''u1'' ''2'' ''hi'' [] False [])"
    by (rule disk_created)
  have i: "Items (newListFunc disk_rest) = Inr []" by (simp add: disk_rest_def Manifest_NewList_def)
  have d: "\<forall>k c. real_content (st_fs s') k = Some c \<longrightarrow>
      (\<exists>obj. RealFS_decode (rest_dec disk_rest) (newFunc disk_rest) c = Inr obj \<and> Metadata obj \<noteq> None)"
    using s(4) by (auto simp: disk_rest_def manifest_of_def)
  from Disk_DeleteCollection_blocks [OF s(1,2) i d _ s(3), of None None] s(1) show ?thesis by auto
qed

text \<open>The two file systems disagree about a namespace that has no directory yet: a list of it
  fails on the disk with the error of the missing directory, and returns an empty list in
  memory.\<close>

theorem List_missing_dir:
  assumes "real_ready cwd f ctx s" and "\<not> real_blocked cwd (st_fs s) (objectDirName f ctx)"
    and "real_content (st_fs s) (resolve cwd (objectDirName f ctx)) = None"
    and "Items (newListFunc f) = Inr []"
    and "mem_ready ord g ctx t" and "lookup_node (mfs_dir (st_fs t)) (path_parts (objectDirName g ctx)) = None"
    and "\<not> (\<exists>e. snd (ensureDir (objectDirName g ctx) (st_fs t)) = Inl e)"
    and "Items (newListFunc g) = Inr []"
  shows "rest_List f ctx options (st_fs s) = Some (st_fs s, Inl (WalkError (objectDirName f ctx) ErrNotExist)) \<and>
    (\<exists>t'. mem_content t' = mem_content (st_fs t) \<and>
      rest_List g ctx options (st_fs t) = Some (t', setListResourceVersion (newListFunc g) (mfs_rev (st_fs t))))"
proof (rule conjI)
  have n: "lookup_node (rfs_disk (st_fs s)) (resolve cwd (objectDirName f ctx)) = None"
    "no_entry (rfs_disk (st_fs s)) (resolve cwd (objectDirName f ctx)) = ErrNotExist"
    using real_unblocked [OF assms(3,2)] .
  have "\<not> rfs_locked (st_fs s)" by (rule real_invD(2) [OF real_readyD(2) [OF assms(1)]])
  then show "rest_List f ctx options (st_fs s) = Some (st_fs s, Inl (WalkError (objectDirName f ctx) ErrNotExist))"
    using assms(1,4) n by (simp add: rest_List_def real_ready_def RealFS_ops RealFS_VisitDir_def Let_def)
next
  let ?d = "objectDirName g ctx"
  obtain es where es: "snd (ensureDir ?d (st_fs t)) = Inr es" using assms(7) by (cases "snd (ensureDir ?d (st_fs t))") auto
  then have "es = []" using ensure_parts_result [of "path_parts ?d" "mfs_dir (st_fs t)" es] assms(6) by (simp add: ensureDir_simps)
  with es obtain t' where e: "ensureDir ?d (st_fs t) = (t', Inr [])" by (cases "ensureDir ?d (st_fs t)") simp
  have "range_over ord p [] = []" for p using mset_range_over [of ord p "[]"] by (simp del: mset_range_over)
  with e have "readDir ord ?d (st_fs t) = (t', Inr [])" by (simp add: readDir_def)
  moreover have u: "newListFunc g\<lparr>Items := Inr []\<rparr> = newListFunc g" using assms(8) by (cases "newListFunc g") simp
  moreover have "mfs_rev t' = mfs_rev (st_fs t)" and c: "mem_content t' = mem_content (st_fs t)"
    using ensureDir_rev [of ?d "st_fs t"] ensureDir_content [of ?d "st_fs t"] by (simp_all add: e)
  ultimately have "rest_List g ctx options (st_fs t) =
      Some (t', setListResourceVersion (newListFunc g) (mfs_rev (st_fs t)))"
    using assms(5,8) by (simp add: rest_List_def mem_ready_def MemoryFS_ops MemoryFS_VisitDir_def Let_def u)
  then show "\<exists>t'. mem_content t' = mem_content (st_fs t) \<and>
      rest_List g ctx options (st_fs t) = Some (t', setListResourceVersion (newListFunc g) (mfs_rev (st_fs t)))"
    using c by blast
qed

definition blank_disk :: "(real_fs, ManifestBody) store" where
  "blank_disk = \<lparr>st_fs = NewRealFS [], st_ws = NewWatchSet\<rparr>"

lemma blank_disk_ready: "real_ready [] disk_rest cluster_ctx blank_disk"
proof -
  have "real_inv [] (st_fs blank_disk)" by (simp add: real_inv_def blank_disk_def NewRealFS_def real_content_def)
  then show ?thesis by (simp add: real_ready_def) (simp add: disk_rest_def blank_disk_def)
qed

theorem List_missing_dir_witness:
  "rest_List disk_rest cluster_ctx None (st_fs blank_disk) =
     Some (st_fs blank_disk, Inl (WalkError ''/data/core.tilt.dev/manifests'' ErrNotExist)) \<and>
   (\<exists>t'. rest_List manifest_rest cluster_ctx None NewMemoryFS = Some (t', Inr \<lparr>ListResourceVersion = Some ''1'', Items = Inr []\<rparr>))"
proof -
  have d: "objectDirName disk_rest cluster_ctx = ''/data/core.tilt.dev/manifests''"
    "objectDirName manifest_rest cluster_ctx = ''/data/core.tilt.dev/manifests''" by code_simp+
  have blank: "rfs_disk (st_fs blank_disk) = []" by (simp add: blank_disk_def NewRealFS_def)
  have ks: "resolve [] ''/data/core.tilt.dev/manifests'' = [''data'', ''core.tilt.dev'', ''manifests'']" by code_simp
  have nb: "\<not> real_blocked [] (st_fs blank_disk) (objectDirName disk_rest cluster_ctx)"
    by (simp add: real_blocked_def d ks through_file_iff blank)
  have nc: "real_content (st_fs blank_disk) (resolve [] (objectDirName disk_rest cluster_ctx)) = None"
    by (simp add: real_content_def d ks blank)
  have i: "Items (newListFunc disk_rest) = Inr []" "Items (newListFunc manifest_rest) = Inr []"
    by (simp_all add: disk_rest_def manifest_rest_def Manifest_NewList_def)
  have m: "lookup_node (mfs_dir (st_fs new_store)) (path_parts (objectDirName manifest_rest cluster_ctx)) = None" by code_simp
  have "(case snd (ensureDir (objectDirName manifest_rest cluster_ctx) (st_fs new_store)) of Inl e \<Rightarrow> False | Inr d \<Rightarrow> True)" by code_simp
  then have e: "\<not> (\<exists>e. snd (ensureDir (objectDirName manifest_rest cluster_ctx) (st_fs new_store)) = Inl e)" by auto
  have l: "setListResourceVersion (newListFunc manifest_rest) (mfs_rev (st_fs new_store)) =
      Inr \<lparr>ListResourceVersion = Some ''1'', Items = Inr []\<rparr>"
    unfolding manifest_rest_def by code_simp
  from List_missing_dir [OF blank_disk_ready nb nc i(1) new_store_ready m e i(2), of None] show ?thesis
    unfolding l d by (auto simp: new_store_def)
qed

end
