(* ===== verification/Watch_Props.thy ===== *)
theory Watch_Props
  imports Real_Storage
begin

text \<open>
  Watches and collections: what a watch delivers, what a watch that failed to start does to later
  writes, what \<open>DeleteCollection\<close> removes from \<open>MemoryFS\<close>, and which field
  selectors can match.
\<close>

section \<open>Definitions\<close>

text \<open>The events that the consumer of a watch has received.\<close>

definition events_of :: "64 word \<Rightarrow> 'b WatchSet \<Rightarrow> 'b Event list option" where
  "events_of i ws = map_option wn_out (map_of (ws_nodes ws) i)"

abbreviation selected :: "ListOptions option \<Rightarrow> 'b Object \<Rightarrow> bool" where
  "selected options obj \<equiv> SelectionPredicate_Matches (newSelectionPredicate options) obj = Inr True"

text \<open>A sequence of notifications, as a sequence of writes makes them.\<close>

fun notify_all :: "'b Event list \<Rightarrow> 'b WatchSet \<Rightarrow> 'b WatchSet option" where
  "notify_all [] ws = Some ws"
| "notify_all (ev # evs) ws = do { ws' \<leftarrow> WatchSet_notifyWatchers ev ws; notify_all evs ws' }"

section \<open>Lemmas\<close>

lemma notifyWatchers_dead_None: "\<not> ws_live (st_ws s) \<Longrightarrow> notifyWatchers ev (s\<lparr>st_fs := t\<rparr>) = None"
  by (simp add: notifyWatchers_def notifyWatchers_dead)

lemma dead_Create:
  assumes "\<not> ws_live (st_ws s)"
  shows "rest_Create V now uuid f ctx obj cv s \<noteq> Some (s', Inr obj')"
proof -
  have "create_store f ctx obj s \<noteq> Some (s', Inr obj')" for obj
    using notifyWatchers_dead_None [OF assms]
    by (auto simp: create_store_def Let_def bind_eq_Some_conv split: option.splits if_splits)
  then show ?thesis by (auto simp: rest_Create_def split: sum.splits option.splits)
qed

lemma dead_Update:
  assumes "\<not> ws_live (st_ws s)"
  shows "rest_Update V f ctx name upd cv uv force s \<noteq> Some (s', Inr r)"
proof (cases "guaranteedUpdate f ctx name (tryUpdate V f ctx name upd cv uv force) (st_fs s)")
  case (Some g)
  obtain t res where g: "g = (t, res)" by (cases g)
  show ?thesis
  proof (cases res)
    case (Inr ok)
    obtain obj c d where "ok = (obj, c, d)" by (cases ok)
    with Some g Inr notifyWatchers_dead_None [OF assms] show ?thesis
      by (auto simp: rest_Update_def bind_eq_Some_conv split: option.splits)
  qed (use Some g in \<open>simp add: rest_Update_def\<close>)
qed (simp add: rest_Update_def)

lemma dead_Delete:
  assumes "\<not> ws_live (st_ws s)"
  shows "rest_Delete now f ctx name dv s \<noteq> Some (s', Inr r)"
proof (cases "rest_Get f ctx name (st_fs s)")
  case (Some g)
  obtain t got where g: "g = (t, got)" by (cases g)
  show ?thesis
  proof (cases got)
    case (Inr old)
    show ?thesis
    proof (cases "run_validation dv (Some old)")
      case None
      with Some g Inr notifyWatchers_dead_None [OF assms] show ?thesis
        by (cases "meta_Accessor old"; cases "getResourceVersion (Some (mark_deleted now old))")
          (auto simp: rest_Delete_def Let_def bind_eq_Some_conv split: option.splits)
    qed (use Some g Inr in \<open>simp add: rest_Delete_def\<close>)
  qed (use Some g in \<open>simp add: rest_Delete_def\<close>)
qed (simp add: rest_Delete_def)

lemma failed_watch_dead:
  assumes "rest_Watch f ctx options s = Some (s', i, Some e)"
  shows "\<not> ws_live (st_ws s')"
proof -
  obtain ws w where w: "newWatch (st_ws s) = (ws, w)" by fastforce
  then have "\<not> wn_running w" by (auto simp: newWatch_def Let_def)
  moreover from assms w have "st_ws s' = ws\<lparr>ws_nodes := AList.update (wn_id w) w (ws_nodes ws)\<rparr>"
    by (auto simp: rest_Watch_def watchNode_Start_def Let_def split: option.splits sum.splits prod.splits)
  moreover have "(wn_id w, w) \<in> set (AList.update (wn_id w) w (ws_nodes ws))"
    by (rule map_of_SomeD) simp
  ultimately show ?thesis by (auto simp: ws_live_def list_all_iff)
qed

lemma init_events_meta:
  assumes "\<forall>obj \<in> set objs. Metadata obj \<noteq> None"
  shows "init_events (newSelectionPredicate options) objs =
    Inr (map (\<lambda>obj. \<lparr>ev_Type = Added, ev_Object = obj\<rparr>) (filter (selected options) objs))"
  using assms
proof (induction objs)
  case (Cons obj objs)
  then obtain m where "Metadata obj = Some m" by auto
  from SelectionPredicate_Matches_meta [OF this, of options] Cons show ?case by auto
qed simp

lemma receive_meta:
  assumes "wn_p w = Some (newSelectionPredicate options)" and "Metadata (ev_Object ev) \<noteq> None"
  shows "receive ev w = w\<lparr>wn_out := wn_out w @ filter (\<lambda>ev. selected options (ev_Object ev)) [ev]\<rparr>"
proof -
  from assms(2) obtain m where "Metadata (ev_Object ev) = Some m" by auto
  from SelectionPredicate_Matches_meta [OF this, of options] assms(1) show ?thesis by (auto simp: receive_def)
qed

lemma notify_all_events:
  assumes "ws_live ws" and "map_of (ws_nodes ws) i = Some w" and "wn_p w = Some (newSelectionPredicate options)"
    and "\<forall>ev \<in> set evs. Metadata (ev_Object ev) \<noteq> None"
  shows "\<exists>ws'. notify_all evs ws = Some ws' \<and>
    events_of i ws' = Some (wn_out w @ filter (\<lambda>ev. selected options (ev_Object ev)) evs)"
  using assms
proof (induction evs arbitrary: ws w)
  case Nil
  then show ?case by (simp add: events_of_def)
next
  case (Cons ev evs)
  let ?ws = "ws\<lparr>ws_nodes := map (\<lambda>(i, w). (i, receive ev w)) (ws_nodes ws)\<rparr>"
  have n: "WatchSet_notifyWatchers ev ws = Some ?ws" using Cons.prems(1) by simp
  have "map_of (ws_nodes ?ws) i = Some (receive ev w)"
    using Cons.prems(2) by (simp add: map_of_map [of "receive ev" "ws_nodes ws", simplified case_prod_beta] case_prod_beta)
  moreover have "receive ev w = w\<lparr>wn_out := wn_out w @ filter (\<lambda>ev. selected options (ev_Object ev)) [ev]\<rparr>"
    by (rule receive_meta) (use Cons.prems in auto)
  ultimately show ?case
    using Cons.IH [OF notifyWatchers_keeps_live [OF n], of "receive ev w"] n Cons.prems by auto
qed

text \<open>A watch whose list succeeds starts, with the listed objects as its first events.\<close>

lemma rest_Watch_starts:
  assumes "rest_List f ctx options (st_fs s) = Some (fs1, Inr l)" and "Items l = Inr items"
    and "\<forall>obj \<in> set items. Metadata obj \<noteq> None" and "ws_live (st_ws s)"
  obtains s1 i w where "rest_Watch f ctx options s = Some (s1, i, None)" and "st_fs s1 = fs1" and "ws_live (st_ws s1)"
    and "map_of (ws_nodes (st_ws s1)) i = Some w" and "wn_p w = Some (newSelectionPredicate options)"
    and "wn_out w = map (\<lambda>obj. \<lparr>ev_Type = Added, ev_Object = obj\<rparr>) (filter (selected options) items)"
proof -
  let ?p = "newSelectionPredicate options"
  let ?init = "map (\<lambda>obj. \<lparr>ev_Type = Added, ev_Object = obj\<rparr>) (filter (selected options) items)"
  let ?i = "ws_counter (st_ws s) + 1"
  let ?w0 = "\<lparr>wn_id = ?i, wn_p = None, wn_running = False, wn_out = []\<rparr>"
  let ?w = "\<lparr>wn_id = ?i, wn_p = Some ?p, wn_running = True, wn_out = ?init\<rparr>"
  let ?ws = "(st_ws s)\<lparr>ws_counter := ?i, ws_nodes := AList.update ?i ?w (AList.update ?i ?w0 (ws_nodes (st_ws s)))\<rparr>"
  have g: "getInitEvents f ctx options (st_fs s) = Some (fs1, Inr ?init)"
    using assms(1,2) init_events_meta [OF assms(3)] by (simp add: getInitEvents_def)
  have w: "rest_Watch f ctx options s = Some (s\<lparr>st_fs := fs1, st_ws := ?ws\<rparr>, ?i, None)"
    using g by (simp add: rest_Watch_def newWatch_def watchNode_Start_def Let_def)
  have "ws_live ?ws"
    using assms(4) set_update_subset [of ?i ?w "AList.update ?i ?w0 (ws_nodes (st_ws s))"]
    by (auto simp: ws_live_def list_all_iff dest!: subsetD [OF set_update_subset])
  then show thesis using that [OF w, of ?w] by simp
qed

text \<open>The visitor of \<open>DeleteCollection\<close> on \<open>MemoryFS\<close>.\<close>

lemma visit_all_delete:
  assumes "mem_inv s" and "\<forall>(p, v) \<in> set files. mem_content s (mem_key p) = Some v"
    and "distinct (map (\<lambda>(p, v). mem_key p) files)"
    and "\<forall>(p, v) \<in> set files. \<exists>obj. decodeBuffer dec v new = Inr obj \<and> Metadata obj \<noteq> None"
  shows "\<exists>s'. visit_all dec new (delete_visitor (MemoryFS ord) (newSelectionPredicate options)) files (s, acc) =
      Some ((s', acc @ filter (selected options) (map (\<lambda>(p, v). projr (decodeBuffer dec v new)) files)), None) \<and>
    mem_content s' = (\<lambda>k. if \<exists>(p, v) \<in> set files. k = mem_key p \<and> selected options (projr (decodeBuffer dec v new))
                         then None else mem_content s k)"
  using assms
proof (induction files arbitrary: s acc)
  case Nil
  then show ?case by simp
next
  case (Cons x files)
  obtain p v where x: "x = (p, v)" by (cases x)
  from Cons.prems(4) x obtain obj m where obj: "decodeBuffer dec v new = Inr obj" "Metadata obj = Some m" by auto
  have rest: "\<forall>(q, w) \<in> set files. mem_key q \<noteq> mem_key p" using Cons.prems(3) x by (force simp: case_prod_beta)
  show ?case
  proof (cases "selected options obj")
    case True
    have c: "mem_content s (mem_key p) = Some v" using Cons.prems(2) x by simp
    obtain s1 where s1: "MemoryFS_Remove p s = (s1, None)" "mem_inv s1"
      "mem_content s1 = (mem_content s)(mem_key p := None)"
      using MemoryFS_Remove_present [OF Cons.prems(1) c] by blast
    have "\<forall>(q, w) \<in> set files. mem_content s1 (mem_key q) = Some w"
      using Cons.prems(2) rest s1(3) by auto
    from Cons.IH [OF s1(2) this, of "acc @ [obj]"] Cons.prems(3,4)
    obtain s' where s': "visit_all dec new (delete_visitor (MemoryFS ord) (newSelectionPredicate options)) files (s1, acc @ [obj]) =
      Some ((s', (acc @ [obj]) @ filter (selected options) (map (\<lambda>(p, v). projr (decodeBuffer dec v new)) files)), None)"
      "mem_content s' = (\<lambda>k. if \<exists>(p, v) \<in> set files. k = mem_key p \<and> selected options (projr (decodeBuffer dec v new))
                         then None else mem_content s1 k)" by auto
    moreover have "delete_visitor (MemoryFS ord) (newSelectionPredicate options) p obj (s, acc) = Some ((s1, acc @ [obj]), None)"
      by (simp add: delete_visitor_def MemoryFS_ops True s1)
    moreover have "mem_content s' = (\<lambda>k. if \<exists>(p, v) \<in> set (x # files). k = mem_key p \<and> selected options (projr (decodeBuffer dec v new))
                         then None else mem_content s k)"
      by (rule ext) (simp add: s'(2) s1(3) x obj True)
    ultimately show ?thesis by (simp add: x obj True)
  next
    case False
    then have m: "SelectionPredicate_Matches (newSelectionPredicate options) obj = Inr False"
      using SelectionPredicate_Matches_meta [OF obj(2), of options] by auto
    from Cons.IH [OF Cons.prems(1), of acc] Cons.prems(2-4)
    obtain s' where s': "visit_all dec new (delete_visitor (MemoryFS ord) (newSelectionPredicate options)) files (s, acc) =
      Some ((s', acc @ filter (selected options) (map (\<lambda>(p, v). projr (decodeBuffer dec v new)) files)), None)"
      "mem_content s' = (\<lambda>k. if \<exists>(p, v) \<in> set files. k = mem_key p \<and> selected options (projr (decodeBuffer dec v new))
                         then None else mem_content s k)" by auto
    moreover have "delete_visitor (MemoryFS ord) (newSelectionPredicate options) p obj (s, acc) = Some ((s, acc), None)"
      by (simp add: delete_visitor_def m)
    ultimately show ?thesis by (simp add: x obj m)
  qed
qed

section \<open>Properties\<close>

text \<open>C16. A watch that fails to start blocks the storage: its node is registered before the initial
  events are listed and is not removed when that fails, and no goroutine reads from it. From then
  on no create, update or delete returns a result: the notification of the watches waits for the
  dead node forever. (The handlers of the resource and of its status share one watch set.)\<close>

theorem Failed_watch_blocks_writes:
  assumes "rest_Watch f ctx options s = Some (s', i, Some e)"
  shows "rest_Create V now uuid f' ctx' obj cv s' \<noteq> Some (s'', Inr obj') \<and>
    rest_Update V f' ctx' name upd cv uv force s' \<noteq> Some (s'', Inr r) \<and>
    rest_Delete now f' ctx' name dv s' \<noteq> Some (s'', Inr r)"
  using dead_Create dead_Update dead_Delete failed_watch_dead [OF assms] by metis

theorem Failed_watch_blocks_writes_witness:
  "\<exists>s' i e. rest_Watch disk_rest cluster_ctx None blank_disk = Some (s', i, Some e) \<and>
     (\<forall>s'' obj'. rest_Create no_checks 5 ''u1'' disk_rest cluster_ctx (sample_manifest ''a'' ''hi'') None s' \<noteq> Some (s'', Inr obj'))"
proof -
  have "case rest_Watch disk_rest cluster_ctx None blank_disk of Some (s', i, Some e) \<Rightarrow> True | _ \<Rightarrow> False" by code_simp
  then obtain s' i e where w: "rest_Watch disk_rest cluster_ctx None blank_disk = Some (s', i, Some e)"
    by (auto split: option.splits)
  from Failed_watch_blocks_writes [OF w] w show ?thesis by blast
qed

text \<open>C13. The event stream of a watch: it starts, in order, with one \<open>Added\<close> event for every
  listed object that matches its selectors, followed by exactly the matching events of all later
  notifications, in their order, none lost and none twice.\<close>

theorem Watch_event_stream:
  assumes "rest_List f ctx options (st_fs s) = Some (fs1, Inr l)" and "Items l = Inr items"
    and "\<forall>obj \<in> set items. Metadata obj \<noteq> None" and "ws_live (st_ws s)"
    and "\<forall>ev \<in> set evs. Metadata (ev_Object ev) \<noteq> None"
  shows "\<exists>s1 i ws. rest_Watch f ctx options s = Some (s1, i, None) \<and> st_fs s1 = fs1 \<and>
    notify_all evs (st_ws s1) = Some ws \<and>
    events_of i ws = Some (map (\<lambda>obj. \<lparr>ev_Type = Added, ev_Object = obj\<rparr>) (filter (selected options) items) @
      filter (\<lambda>ev. selected options (ev_Object ev)) evs)"
proof -
  from assms(1-4) obtain s1 i w where w: "rest_Watch f ctx options s = Some (s1, i, None)" "st_fs s1 = fs1" "ws_live (st_ws s1)"
    "map_of (ws_nodes (st_ws s1)) i = Some w" "wn_p w = Some (newSelectionPredicate options)"
    "wn_out w = map (\<lambda>obj. \<lparr>ev_Type = Added, ev_Object = obj\<rparr>) (filter (selected options) items)"
    by (rule rest_Watch_starts)
  from notify_all_events [OF w(3-5) assms(5)] w show ?thesis by auto
qed

definition the_manifest :: "ManifestBody Object" where
  "the_manifest = manifest_of ''a'' [] ''u1'' ''2'' ''hi'' [] False []"

theorem Watch_event_stream_witness:
  "\<exists>s1 i ws. rest_Watch manifest_rest cluster_ctx None store_a = Some (s1, i, None) \<and>
    notify_all [\<lparr>ev_Type = Deleted, ev_Object = the_manifest\<rparr>] (st_ws s1) = Some ws \<and>
    events_of i ws = Some [\<lparr>ev_Type = Added, ev_Object = the_manifest\<rparr>, \<lparr>ev_Type = Deleted, ev_Object = the_manifest\<rparr>]"
proof -
  have "returned (\<lambda>fs l. Items l = Inr [the_manifest]) (rest_List manifest_rest cluster_ctx None (st_fs store_a))" by code_simp
  then obtain fs l where l: "rest_List manifest_rest cluster_ctx None (st_fs store_a) = Some (fs, Inr l)" "Items l = Inr [the_manifest]"
    by (elim returnedE)
  have m: "Metadata the_manifest \<noteq> None" by (simp add: the_manifest_def manifest_of_def)
  have live: "ws_live (st_ws store_a)" by (rule mem_readyD(3) [OF store_a_ready])
  from Watch_event_stream [OF l _ live, of "[\<lparr>ev_Type = Deleted, ev_Object = the_manifest\<rparr>]"] m show ?thesis by auto
qed

text \<open>C22. On \<open>MemoryFS\<close>, \<open>DeleteCollection\<close> removes exactly the files of the listed
  objects that match and returns them. It does so whatever their finalizers are and whatever the
  deletion validation says, and it notifies no watch.\<close>

theorem Mem_DeleteCollection_outcome:
  assumes "mem_ready ord f ctx s" and "mem_has_dir (st_fs s) (objectDirName f ctx)"
    and "\<forall>k v. mem_content (st_fs s) k = Some v \<longrightarrow> (\<exists>obj. decodeBuffer (rest_dec f) v (newFunc f) = Inr obj)"
    and "Items (newListFunc f) = Inr []"
  shows "\<exists>s' files. mem_listing (st_fs s) (objectDirName f ctx) files \<and>
    rest_DeleteCollection f ctx deleteValidation options s =
      Some (s', setListResourceVersion (newListFunc f\<lparr>Items := Inr (filter (selected options)
        (map (\<lambda>(p, v). projr (decodeBuffer (rest_dec f) v (newFunc f))) files))\<rparr>) (mfs_rev (st_fs s))) \<and>
    st_ws s' = st_ws s \<and>
    mem_content (st_fs s') = (\<lambda>k. if \<exists>(p, v) \<in> set files. k = mem_key p \<and>
        selected options (projr (decodeBuffer (rest_dec f) v (newFunc f))) then None else mem_content (st_fs s) k)"
proof -
  let ?d = "objectDirName f ctx"
  have w: "wf_rest f" "wf_ctx ctx" and ops: "rest_fs f = MemoryFS ord" using assms(1) by (auto simp: mem_ready_def)
  note inv = mem_readyD(2) [OF assms(1)] and good = objectDirName_below(2) [OF w]
  from inv good assms(2) obtain files where r: "readDir ord ?d (st_fs s) = (st_fs s, Inr files)" and l: "mem_listing (st_fs s) ?d files"
    by (rule readDir_ok)
  have content: "\<forall>(p, v) \<in> set files. mem_content (st_fs s) (mem_key p) = Some v"
    using l by (auto simp: mem_listing_def)
  have inj: "inj_on mem_key (fst ` set files)"
  proof (rule inj_onI)
    fix p q assume "p \<in> fst ` set files" "q \<in> fst ` set files" and eq: "mem_key p = mem_key q"
    then obtain ks ks' where "ks \<noteq> []" "list_all plain_seg ks" "p = path_below ?d ks"
      "ks' \<noteq> []" "list_all plain_seg ks'" "q = path_below ?d ks'"
      using l unfolding mem_listing_def by force
    with eq mem.key_below [OF good] show "p = q" by metis
  qed
  have "distinct (map mem_key (map fst files))"
    using l inj unfolding mem_listing_def distinct_map [of mem_key] by simp
  then have dist: "distinct (map (\<lambda>(p, v). mem_key p) files)" by (simp add: comp_def case_prod_beta')
  have dec: "\<forall>(p, v) \<in> set files. \<exists>obj. decodeBuffer (rest_dec f) v (newFunc f) = Inr obj \<and> Metadata obj \<noteq> None"
  proof clarify
    fix p v assume "(p, v) \<in> set files"
    with content have c: "mem_content (st_fs s) (mem_key p) = Some v" by auto
    with assms(3) obtain obj where "decodeBuffer (rest_dec f) v (newFunc f) = Inr obj" by blast
    with memv.unpack_ver [OF inv c, of "rest_dec f" "newFunc f" obj]
    show "\<exists>obj. decodeBuffer (rest_dec f) v (newFunc f) = Inr obj \<and> Metadata obj \<noteq> None" by (simp add: mem_unpack_def)
  qed
  from visit_all_delete [OF inv content dist dec, of ord options "[]"] obtain s1 where
    v: "visit_all (rest_dec f) (newFunc f) (delete_visitor (MemoryFS ord) (newSelectionPredicate options)) files (st_fs s, []) =
      Some ((s1, filter (selected options) (map (\<lambda>(p, v). projr (decodeBuffer (rest_dec f) v (newFunc f))) files)), None)"
    "mem_content s1 = (\<lambda>k. if \<exists>(p, v) \<in> set files. k = mem_key p \<and>
        selected options (projr (decodeBuffer (rest_dec f) v (newFunc f))) then None else mem_content (st_fs s) k)" by auto
  have "rest_DeleteCollection f ctx deleteValidation options s =
      Some (s\<lparr>st_fs := s1\<rparr>, setListResourceVersion (newListFunc f\<lparr>Items := Inr (filter (selected options)
        (map (\<lambda>(p, v). projr (decodeBuffer (rest_dec f) v (newFunc f))) files))\<rparr>) (mfs_rev (st_fs s)))"
    using r v(1) assms(4) by (simp add: rest_DeleteCollection_def ops MemoryFS_ops(1) MemoryFS_VisitDir_def Let_def)
  with l v(2) show ?thesis by (intro exI [of _ "s\<lparr>st_fs := s1\<rparr>"] exI [of _ files]) simp
qed

theorem Mem_DeleteCollection_outcome_witness:
  "\<exists>s' r. rest_DeleteCollection manifest_rest cluster_ctx None None store_a = Some (s', r) \<and>
     st_ws s' = st_ws store_a \<and> mem_file manifest_rest cluster_ctx ''a'' (st_fs s') = None"
proof -
  obtain v where v: "mem_content (st_fs store_a) = [mem_key (objectFileName manifest_rest cluster_ctx ''a'') \<mapsto> v]"
    "decodeBuffer manifest_dec v Manifest_New = Inr (manifest_of ''a'' [] ''u1'' ''2'' ''hi'' [] False [])"
    by (rule store_a_content)
  have dec: "\<forall>k w. mem_content (st_fs store_a) k = Some w \<longrightarrow>
      (\<exists>obj. decodeBuffer (rest_dec manifest_rest) w (newFunc manifest_rest) = Inr obj)"
    using v by (auto simp: manifest_rest_def split: if_splits)
  have d: "mem_has_dir (st_fs store_a) (objectDirName manifest_rest cluster_ctx)" by code_simp
  have i: "Items (newListFunc manifest_rest) = Inr []" by (simp add: manifest_rest_def Manifest_NewList_def)
  from Mem_DeleteCollection_outcome [OF store_a_ready d dec i, of None None] obtain s' files r where
    l: "mem_listing (st_fs store_a) (objectDirName manifest_rest cluster_ctx) files"
    and r: "rest_DeleteCollection manifest_rest cluster_ctx None None store_a = Some (s', r)" "st_ws s' = st_ws store_a"
    and c: "mem_content (st_fs s') = (\<lambda>k. if \<exists>(p, v) \<in> set files. k = mem_key p \<and>
        selected None (projr (decodeBuffer (rest_dec manifest_rest) v (newFunc manifest_rest))) then None else mem_content (st_fs store_a) k)"
    by blast
  have n: "slash \<notin> set ''a''" by simp
  have "(objectFileName manifest_rest cluster_ctx ''a'', v) \<in> set files"
    using l v(1) plain_seg_json [OF n] objectFileName_in_dir [OF manifest_rest_wf cluster_ctx_wf n] unfolding mem_listing_def
    by (auto simp: HasSuffix_def intro!: exI [of _ "[''a.json'']"])
  then have "mem_file manifest_rest cluster_ctx ''a'' (st_fs s') = None"
    unfolding mem_file_def c by force
  with r show ?thesis by blast
qed

text \<open>A field selector on \<open>metadata.namespace\<close> never matches: the selection predicate
  of the storage offers the name as the only field, also for namespaced resources.\<close>

theorem Namespace_selector_never_matches:
  assumes "Metadata obj \<noteq> None" and "ns \<noteq> []"
  shows "SelectionPredicate_Matches
    (newSelectionPredicate (Some \<lparr>LabelSelector = l, FieldSelector = Some (HasTerm ''metadata.namespace'' ns)\<rparr>)) obj = Inr False"
proof -
  from assms(1) obtain m where m: "Metadata obj = Some m" by blast
  from assms(2) show ?thesis
    unfolding SelectionPredicate_Matches_meta [OF m]
    by (simp add: newSelectionPredicate_def fields_Get_def Let_def)
qed

theorem Namespace_selector_never_matches_witness:
  "SelectionPredicate_Matches
    (newSelectionPredicate (Some \<lparr>LabelSelector = None, FieldSelector = Some (HasTerm ''metadata.namespace'' ''x'')\<rparr>))
    (manifest_of ''a'' ''x'' ''u1'' ''2'' ''hi'' [] False []) = Inr False"
  by (rule Namespace_selector_never_matches) (simp_all add: manifest_of_def)

end
