(* ===== verification/Watch_Concurrency.thy ===== *)
theory Watch_Concurrency
  imports Watch_Set "HOL-Library.Sublist" "HOL-Library.Multiset"
begin

text \<open>
  The watch set of \<open>pkg/storage/filepath/watchset.go\<close> under concurrency: calls of
  \<open>notifyWatchers\<close>, \<open>Start\<close> and \<open>Stop\<close> and the goroutines of the watches, cut into
  their operations on the lock and on the channels. A call is a thread; the threads of a system may
  start at any time and in any order. Every watch node is one that \<open>newWatch\<close> returned, so nodes
  are numbered; \<open>Start\<close> is called once on each of them, by the \<open>Watch\<close> handler, and
  \<open>Stop\<close> at most once, by the consumer, after \<open>Start\<close> has returned. The critical section of
  \<open>newWatch\<close>, which only counts, is not among the steps.

  Every run of the system is finite, its calls return unless a watch failed to start, no channel is
  misused, and each watch gets its events in the order in which its node received them.
\<close>

section \<open>Definitions\<close>

text \<open>The goroutine of a node: not started; at the \<open>select\<close> for the first of the initial events;
  at the receive from \<open>updateCh\<close>; at the \<open>select\<close> for an event; returned, with
  \<open>outCh\<close> closed.\<close>

datatype 'b goroutine =
    G_None
  | G_Init "'b Event list"
  | G_Recv
  | G_Send "'b Event"
  | G_Exited

text \<open>A node: its goroutine with its predicate, whether \<open>stopCh\<close> and \<open>updateCh\<close> are
  closed, the events received from \<open>updateCh\<close> and those that the consumer got from
  \<open>outCh\<close>.\<close>

record 'b node_state =
  nd_go :: "'b goroutine"
  nd_p :: "'b SelectionPredicate option"
  nd_init :: "'b Event list"
  nd_stopCh :: bool
  nd_updateCh :: bool
  nd_in :: "'b Event list"
  nd_out :: "'b Event list"

text \<open>The watch set: its \<open>sync.RWMutex\<close>, the registered nodes, and all nodes.\<close>

record 'b wset =
  mu_readers :: nat
  mu_writer :: bool
  reg :: "nat list"
  nds :: "'b node_state list"

datatype 'b thread =
    N_Call "'b Event"
  | N_Loop "'b Event" "nat list"
  | N_Done
  | W_Call nat "'b SelectionPredicate" "go_error + 'b Event list"
  | W_Locked nat "'b SelectionPredicate" "go_error + 'b Event list"
  | W_Registered nat "'b SelectionPredicate" "go_error + 'b Event list"
  | W_Started nat
  | W_Failed nat
  | W_Watching nat
  | S_Call nat
  | S_Locked nat
  | S_Deleted nat
  | S_Unlocked nat
  | S_Done nat
  | Panicked

definition matches :: "'b SelectionPredicate option \<Rightarrow> 'b Event \<Rightarrow> bool" where
  "matches p ev = (case p of None \<Rightarrow> False | Some p \<Rightarrow> SelectionPredicate_Matches p (ev_Object ev) = Inr True)"

text \<open>The receive of an event, up to the next blocking operation of the goroutine.\<close>

definition handle :: "'b Event \<Rightarrow> 'b node_state \<Rightarrow> 'b node_state" where
  "handle ev n = n\<lparr>nd_go := (if matches (nd_p n) ev then G_Send ev else G_Recv), nd_in := nd_in n @ [ev]\<rparr>"

abbreviation set_node :: "nat \<Rightarrow> ('b node_state \<Rightarrow> 'b node_state) \<Rightarrow> 'b wset \<Rightarrow> 'b wset" where
  "set_node i f s \<equiv> s\<lparr>nds := (nds s)[i := f (nds s ! i)]\<rparr>"

text \<open>One operation of a thread. \<open>None\<close>: it has to wait, or it has returned. \<open>order\<close> is the
  order in which \<open>range\<close> visits the map of nodes. Sending on a closed channel and closing a
  closed channel panic; a send on \<open>updateCh\<close> waits for the receiver.\<close>

fun thread_step :: "nat list \<Rightarrow> 'b thread \<Rightarrow> 'b wset \<Rightarrow> ('b thread \<times> 'b wset) option" where
  "thread_step order (N_Call ev) s =
     (if mu_writer s \<or> \<not> (distinct order \<and> set order = set (reg s)) then None
      else Some (N_Loop ev order, s\<lparr>mu_readers := mu_readers s + 1\<rparr>))"
| "thread_step order (N_Loop ev []) s = Some (N_Done, s\<lparr>mu_readers := mu_readers s - 1\<rparr>)"
| "thread_step order (N_Loop ev (i # is)) s =
     (if nd_updateCh (nds s ! i) then Some (Panicked, s)
      else if nd_go (nds s ! i) = G_Recv then Some (N_Loop ev is, set_node i (handle ev) s)
      else None)"
| "thread_step order (W_Call i p ini) s =
     (if mu_writer s \<or> mu_readers s \<noteq> 0 then None else Some (W_Locked i p ini, s\<lparr>mu_writer := True\<rparr>))"
| "thread_step order (W_Locked i p ini) s = Some (W_Registered i p ini, s\<lparr>reg := List.insert i (reg s)\<rparr>)"
| "thread_step order (W_Registered i p (Inl e)) s = Some (W_Failed i, s\<lparr>mu_writer := False\<rparr>)"
| "thread_step order (W_Registered i p (Inr es)) s =
     Some (W_Started i, set_node i (\<lambda>n. n\<lparr>nd_go := G_Init es, nd_p := Some p, nd_init := es\<rparr>) s)"
| "thread_step order (W_Started i) s = Some (W_Watching i, s\<lparr>mu_writer := False\<rparr>)"
| "thread_step order (W_Watching i) s =
     (if nd_stopCh (nds s ! i) then Some (Panicked, s)
      else Some (S_Call i, set_node i (\<lambda>n. n\<lparr>nd_stopCh := True\<rparr>) s))"
| "thread_step order (S_Call i) s =
     (if mu_writer s \<or> mu_readers s \<noteq> 0 then None else Some (S_Locked i, s\<lparr>mu_writer := True\<rparr>))"
| "thread_step order (S_Locked i) s = Some (S_Deleted i, s\<lparr>reg := removeAll i (reg s)\<rparr>)"
| "thread_step order (S_Deleted i) s = Some (S_Unlocked i, s\<lparr>mu_writer := False\<rparr>)"
| "thread_step order (S_Unlocked i) s =
     (if nd_updateCh (nds s ! i) then Some (Panicked, s)
      else Some (S_Done i, set_node i (\<lambda>n. n\<lparr>nd_updateCh := True\<rparr>) s))"
| "thread_step order N_Done s = None"
| "thread_step order (W_Failed i) s = None"
| "thread_step order (S_Done i) s = None"
| "thread_step order Panicked s = None"

text \<open>One operation of a goroutine. In a \<open>select\<close>, \<open>stop\<close> says which branch is taken: the
  one of \<open>stopCh\<close>, which is possible once it is closed, or the one of \<open>outCh\<close>, in which
  the consumer reads.\<close>

fun go_step :: "bool \<Rightarrow> 'b goroutine \<Rightarrow> 'b node_state \<Rightarrow> 'b node_state option" where
  "go_step stop (G_Init (e # es)) n =
     (if stop then if nd_stopCh n then Some (n\<lparr>nd_go := G_Init es\<rparr>) else None
      else Some (n\<lparr>nd_go := G_Init es, nd_out := nd_out n @ [e]\<rparr>))"
| "go_step stop (G_Init []) n = Some (n\<lparr>nd_go := G_Recv\<rparr>)"
| "go_step stop G_Recv n = (if nd_updateCh n then Some (n\<lparr>nd_go := G_Exited\<rparr>) else None)"
| "go_step stop (G_Send e) n =
     (if stop then if nd_stopCh n then Some (n\<lparr>nd_go := G_Recv\<rparr>) else None
      else Some (n\<lparr>nd_go := G_Recv, nd_out := nd_out n @ [e]\<rparr>))"
| "go_step stop G_None n = None"
| "go_step stop G_Exited n = None"

section \<open>Runs\<close>

type_synonym 'b wsystem = "'b wset \<times> 'b thread list"

inductive watch_step :: "'b wsystem \<Rightarrow> 'b wsystem \<Rightarrow> bool" where
  step_thread: "t < length ts \<Longrightarrow> thread_step order (ts ! t) s = Some (th, s') \<Longrightarrow> watch_step (s, ts) (s', ts[t := th])"
| step_go: "i < length (nds s) \<Longrightarrow> go_step stop (nd_go (nds s ! i)) (nds s ! i) = Some n \<Longrightarrow>
    watch_step (s, ts) (s\<lparr>nds := (nds s)[i := n]\<rparr>, ts)"

text \<open>The node that a thread starts and stops.\<close>

fun thread_node :: "'b thread \<Rightarrow> nat option" where
  "thread_node (W_Call i p ini) = Some i"
| "thread_node (W_Locked i p ini) = Some i"
| "thread_node (W_Registered i p ini) = Some i"
| "thread_node (W_Started i) = Some i"
| "thread_node (W_Failed i) = Some i"
| "thread_node (W_Watching i) = Some i"
| "thread_node (S_Call i) = Some i"
| "thread_node (S_Locked i) = Some i"
| "thread_node (S_Deleted i) = Some i"
| "thread_node (S_Unlocked i) = Some i"
| "thread_node (S_Done i) = Some i"
| "thread_node _ = None"

fun is_call :: "'b thread \<Rightarrow> bool" where
  "is_call (N_Call ev) = True"
| "is_call (W_Call i p ini) = True"
| "is_call _ = False"

definition fresh_node :: "'b node_state" where
  "fresh_node = \<lparr>nd_go = G_None, nd_p = None, nd_init = [], nd_stopCh = False, nd_updateCh = False, nd_in = [], nd_out = []\<rparr>"

definition new_wset :: "nat \<Rightarrow> 'b wset" where
  "new_wset n = \<lparr>mu_readers = 0, mu_writer = False, reg = [], nds = replicate n fresh_node\<rparr>"

text \<open>The calls of a run: any notifications, and for each of \<open>n\<close> nodes at most one watch.\<close>

definition calls_ok :: "nat \<Rightarrow> 'b thread list \<Rightarrow> bool" where
  "calls_ok n ts \<longleftrightarrow> list_all is_call ts \<and> distinct (List.map_filter thread_node ts) \<and>
     list_all (\<lambda>i. i < n) (List.map_filter thread_node ts)"

inductive watch_reach :: "'b wsystem \<Rightarrow> bool" where
  reach_init: "calls_ok n ts \<Longrightarrow> watch_reach (new_wset n, ts)"
| reach_step: "watch_reach x \<Longrightarrow> watch_step x y \<Longrightarrow> watch_reach y"

section \<open>The invariant\<close>

fun is_loop :: "'b thread \<Rightarrow> bool" where
  "is_loop (N_Loop ev is) = True"
| "is_loop _ = False"

fun holds_lock :: "'b thread \<Rightarrow> bool" where
  "holds_lock (W_Locked i p ini) = True"
| "holds_lock (W_Registered i p ini) = True"
| "holds_lock (W_Started i) = True"
| "holds_lock (S_Locked i) = True"
| "holds_lock (S_Deleted i) = True"
| "holds_lock _ = False"

text \<open>What a thread knows of its node, and whether that is registered.\<close>

abbreviation running :: "'b node_state \<Rightarrow> bool" where
  "running n \<equiv> nd_go n \<noteq> G_None \<and> nd_go n \<noteq> G_Exited"

fun node_ok :: "bool \<Rightarrow> 'b node_state \<Rightarrow> 'b thread \<Rightarrow> bool" where
  "node_ok r n (W_Call i p ini) = (\<not> r \<and> nd_go n = G_None \<and> \<not> nd_stopCh n \<and> \<not> nd_updateCh n)"
| "node_ok r n (W_Locked i p ini) = (\<not> r \<and> nd_go n = G_None \<and> \<not> nd_stopCh n \<and> \<not> nd_updateCh n)"
| "node_ok r n (W_Registered i p ini) = (r \<and> nd_go n = G_None \<and> \<not> nd_stopCh n \<and> \<not> nd_updateCh n)"
| "node_ok r n (W_Failed i) = (r \<and> nd_go n = G_None \<and> \<not> nd_updateCh n)"
| "node_ok r n (W_Started i) = (r \<and> running n \<and> \<not> nd_stopCh n \<and> \<not> nd_updateCh n)"
| "node_ok r n (W_Watching i) = (r \<and> running n \<and> \<not> nd_stopCh n \<and> \<not> nd_updateCh n)"
| "node_ok r n (S_Call i) = (r \<and> running n \<and> nd_stopCh n \<and> \<not> nd_updateCh n)"
| "node_ok r n (S_Locked i) = (r \<and> running n \<and> nd_stopCh n \<and> \<not> nd_updateCh n)"
| "node_ok r n (S_Deleted i) = (\<not> r \<and> running n \<and> nd_stopCh n \<and> \<not> nd_updateCh n)"
| "node_ok r n (S_Unlocked i) = (\<not> r \<and> running n \<and> nd_stopCh n \<and> \<not> nd_updateCh n)"
| "node_ok r n (S_Done i) = (\<not> r \<and> nd_updateCh n)"
| "node_ok r n _ = True"

text \<open>The events of a node: what the consumer got and what the goroutine still holds are the initial
  events followed by the matching ones of those received, in order; some may be missing once the
  watch is stopped.\<close>

fun pending :: "'b goroutine \<Rightarrow> 'b Event list" where
  "pending (G_Init es) = es"
| "pending (G_Send e) = [e]"
| "pending _ = []"

definition stream :: "'b node_state \<Rightarrow> 'b Event list" where
  "stream n = nd_init n @ filter (matches (nd_p n)) (nd_in n)"

definition node_log :: "'b node_state \<Rightarrow> bool" where
  "node_log n \<longleftrightarrow>
     (nd_go n = G_None \<longrightarrow> nd_in n = [] \<and> nd_out n = []) \<and>
     (\<forall>es. nd_go n = G_Init es \<longrightarrow> nd_in n = []) \<and>
     subseq (nd_out n @ pending (nd_go n)) (stream n) \<and>
     (\<not> nd_stopCh n \<longrightarrow> nd_out n @ pending (nd_go n) = stream n)"

definition same_node :: "'b thread list \<Rightarrow> bool" where
  "same_node ts \<longleftrightarrow> (\<forall>t u i. t < length ts \<longrightarrow> u < length ts \<longrightarrow> thread_node (ts ! t) = Some i \<longrightarrow> thread_node (ts ! u) = Some i \<longrightarrow> t = u)"

definition wset_ok :: "'b wset \<Rightarrow> 'b thread list \<Rightarrow> bool" where
  "wset_ok s ts \<longleftrightarrow>
     mu_readers s = length (filter is_loop ts) \<and>
     length (filter holds_lock ts) = of_bool (mu_writer s) \<and>
     (mu_writer s \<longrightarrow> mu_readers s = 0) \<and>
     distinct (reg s) \<and> same_node ts \<and> Panicked \<notin> set ts \<and>
     (\<forall>i \<in> set (reg s). \<exists>th \<in> set ts. thread_node th = Some i) \<and>
     (\<forall>th \<in> set ts. \<forall>i. thread_node th = Some i \<longrightarrow> i < length (nds s) \<and> node_ok (i \<in> set (reg s)) (nds s ! i) th) \<and>
     (\<forall>ev is. N_Loop ev is \<in> set ts \<longrightarrow> distinct is \<and> set is \<subseteq> set (reg s)) \<and>
     list_all node_log (nds s)"

lemma length_filter_update:
  "t < length ts \<Longrightarrow> length (filter P (ts[t := x])) + of_bool (P (ts ! t)) = length (filter P ts) + of_bool (P x)"
proof (induction ts arbitrary: t)
  case (Cons a ts)
  then show ?case by (cases t) auto
qed simp

lemma same_node_update:
  "same_node ts \<Longrightarrow> t < length ts \<Longrightarrow> thread_node th = thread_node (ts ! t) \<Longrightarrow> same_node (ts[t := th])"
  by (auto simp: same_node_def nth_list_update)

text \<open>The frame of a step of one thread.\<close>

lemma wset_ok_thread:
  assumes ok: "wset_ok s ts" and t: "t < length ts"
    and th: "thread_node th = thread_node (ts ! t)" "th \<noteq> Panicked"
    and readers: "mu_readers s' + of_bool (is_loop (ts ! t)) = mu_readers s + of_bool (is_loop th)"
    and writer: "of_bool (mu_writer s') + of_bool (holds_lock (ts ! t)) = (of_bool (mu_writer s) + of_bool (holds_lock th) :: nat)"
    and excl: "mu_writer s' \<longrightarrow> mu_readers s' = 0"
    and reg: "distinct (reg s')" "reg s' \<noteq> reg s \<longrightarrow> mu_readers s = 0"
      "\<And>i. thread_node th \<noteq> Some i \<Longrightarrow> i \<in> set (reg s') \<longleftrightarrow> i \<in> set (reg s)"
    and nds: "length (nds s') = length (nds s)" "list_all node_log (nds s')"
      "\<And>i r u. thread_node th \<noteq> Some i \<Longrightarrow> node_ok r (nds s ! i) u \<Longrightarrow> node_ok r (nds s' ! i) u"
    and own: "\<And>i. thread_node th = Some i \<Longrightarrow> node_ok (i \<in> set (reg s')) (nds s' ! i) th"
    and loop: "\<And>ev is. th = N_Loop ev is \<Longrightarrow> distinct is \<and> set is \<subseteq> set (reg s')"
  shows "wset_ok s' (ts[t := th])"
proof -
  note ok = ok [unfolded wset_ok_def]
  have mem: "x \<in> set (ts[t := th]) \<Longrightarrow> x = th \<or> (\<exists>u < length ts. u \<noteq> t \<and> x = ts ! u)" for x
    unfolding in_set_conv_nth by (metis length_list_update nth_list_update_eq nth_list_update_neq)
  have others: "thread_node (ts ! u) \<noteq> Some i" if "u < length ts" "u \<noteq> t" "thread_node th = Some i" for u i
    using ok that t th(1) unfolding same_node_def by metis
  have loops: "distinct is \<and> set is \<subseteq> set (reg s')" if "N_Loop ev is \<in> set (ts[t := th])" for ev "is"
  proof (cases "th = N_Loop ev is")
    case False
    with mem [OF that] t have "N_Loop ev is \<in> set ts" by auto
    moreover from this have "filter is_loop ts \<noteq> []" by (force simp: filter_empty_conv)
    ultimately show ?thesis using ok reg(2) by auto
  qed (simp add: loop)
  have nodes: "i < length (nds s') \<and> node_ok (i \<in> set (reg s')) (nds s' ! i) x"
    if x: "x \<in> set (ts[t := th])" and i: "thread_node x = Some i" for x i
    using mem [OF x]
  proof
    assume "x = th"
    with i own th(1) ok t nds(1) show ?thesis by (metis nth_mem)
  next
    assume "\<exists>u < length ts. u \<noteq> t \<and> x = ts ! u"
    then obtain u where u: "u < length ts" "u \<noteq> t" "x = ts ! u" by blast
    with others i have n: "thread_node th \<noteq> Some i" by blast
    from u i ok have "i < length (nds s) \<and> node_ok (i \<in> set (reg s)) (nds s ! i) x" by auto
    with nds(1) nds(3) [OF n] reg(3) [OF n] show ?thesis by simp
  qed
  have reg': "\<exists>x \<in> set (ts[t := th]). thread_node x = Some i" if "i \<in> set (reg s')" for i
  proof (cases "thread_node th = Some i")
    case True
    with t show ?thesis by (meson set_update_memI)
  next
    case False
    with reg(3) that ok obtain x where "x \<in> set ts" "thread_node x = Some i" by blast
    with False th(1) t show ?thesis by (metis in_set_conv_nth length_list_update nth_list_update_neq nth_mem)
  qed
  have "Panicked \<notin> set (ts[t := th])" using mem ok th(2) t by (metis nth_mem)
  moreover have "mu_readers s' = length (filter is_loop (ts[t := th]))"
    using ok readers length_filter_update [OF t, of is_loop th] by linarith
  moreover have "length (filter holds_lock (ts[t := th])) = of_bool (mu_writer s')"
    using ok writer length_filter_update [OF t, of holds_lock th] by linarith
  moreover have "same_node (ts[t := th])" using ok same_node_update [OF _ t th(1)] by blast
  ultimately show ?thesis unfolding wset_ok_def using excl reg(1) reg' nodes loops nds(2) by blast
qed

lemma subseq_drop: "subseq (xs @ e # es) zs \<Longrightarrow> subseq (xs @ es) zs"
  by (erule subseq_order.trans [rotated]) (rule list_emb_append_mono, auto)

lemma subseq_snoc: "subseq xs (ys @ zs) \<Longrightarrow> subseq (xs @ [e]) (ys @ zs @ [e])"
  using list_emb_append_mono [of "(=)" xs "ys @ zs" "[e]" "[e]"] by simp

lemma node_log_handle: "node_log n \<Longrightarrow> nd_go n = G_Recv \<Longrightarrow> node_log (handle ev n)"
  by (auto simp: node_log_def handle_def stream_def intro: subseq_snoc)

lemma node_log_go:
  assumes "node_log n" and "go_step stop (nd_go n) n = Some n'"
  shows "node_log n'"
  using assms subseq_drop [of "nd_out n" _ "[]"]
  by (cases "(stop, nd_go n, n)" rule: go_step.cases)
    (auto simp: node_log_def stream_def split: if_splits dest: subseq_drop)

lemma go_step_frame:
  assumes "go_step stop (nd_go n) n = Some n'"
  shows "nd_stopCh n' = nd_stopCh n" "nd_updateCh n' = nd_updateCh n" "nd_go n \<noteq> G_None" "nd_go n' \<noteq> G_None"
    "nd_go n' = G_Exited \<Longrightarrow> nd_updateCh n"
  using assms by (cases "(stop, nd_go n, n)" rule: go_step.cases; auto split: if_splits)+

lemma node_ok_go:
  assumes "node_ok r n th" and "go_step stop (nd_go n) n = Some n'"
  shows "node_ok r n' th"
  using assms(1) go_step_frame [OF assms(2)] by (cases th) auto

lemma node_ok_handle: "node_ok r n th \<Longrightarrow> nd_go n = G_Recv \<Longrightarrow> node_ok r (handle ev n) th"
  by (cases th) (auto simp: handle_def)

lemma list_all_update: "list_all P xs \<Longrightarrow> P x \<Longrightarrow> list_all P (xs[i := x])"
  using set_update_subset_insert [of xs i x] by (auto simp: list_all_iff)

lemma wset_ok_node:
  assumes "wset_ok s ts"
  shows "th \<in> set ts \<Longrightarrow> thread_node th = Some i \<Longrightarrow> i < length (nds s) \<and> node_ok (i \<in> set (reg s)) (nds s ! i) th"
    and "i < length (nds s) \<Longrightarrow> node_log (nds s ! i)"
    and "N_Loop ev is \<in> set ts \<Longrightarrow> distinct is \<and> set is \<subseteq> set (reg s)"
    and "i \<in> set (reg s) \<Longrightarrow> i < length (nds s) \<and> \<not> nd_updateCh (nds s ! i)"
proof -
  note ok = assms [unfolded wset_ok_def]
  show node: "i < length (nds s) \<and> node_ok (i \<in> set (reg s)) (nds s ! i) th" if "th \<in> set ts" "thread_node th = Some i" for th i
    using ok that by blast
  show "i < length (nds s) \<Longrightarrow> node_log (nds s ! i)" using ok by (simp add: list_all_length)
  show "N_Loop ev is \<in> set ts \<Longrightarrow> distinct is \<and> set is \<subseteq> set (reg s)" using ok by blast
  assume i: "i \<in> set (reg s)"
  with ok obtain u where u: "u \<in> set ts" "thread_node u = Some i" by blast
  from node [OF this] i u(2) show "i < length (nds s) \<and> \<not> nd_updateCh (nds s ! i)" by (cases u) auto
qed

lemma wset_ok_lock:
  assumes "wset_ok s ts" and "th \<in> set ts"
  shows "is_loop th \<Longrightarrow> mu_readers s \<noteq> 0" and "holds_lock th \<Longrightarrow> mu_writer s"
    and "mu_writer s \<Longrightarrow> mu_readers s = 0"
proof -
  note ok = assms(1) [unfolded wset_ok_def]
  show "mu_readers s \<noteq> 0" if "is_loop th"
  proof -
    from that assms(2) have "filter is_loop ts \<noteq> []" by (auto simp: filter_empty_conv)
    with ok show ?thesis by simp
  qed
  show "mu_writer s" if "holds_lock th"
  proof -
    from that assms(2) have "filter holds_lock ts \<noteq> []" by (auto simp: filter_empty_conv)
    with ok show ?thesis by (cases "mu_writer s") auto
  qed
  show "mu_writer s \<Longrightarrow> mu_readers s = 0" using ok by blast
qed

lemma wset_ok_go:
  assumes ok: "wset_ok s ts" and i: "i < length (nds s)" and st: "go_step stop (nd_go (nds s ! i)) (nds s ! i) = Some n"
  shows "wset_ok (s\<lparr>nds := (nds s)[i := n]\<rparr>) ts"
proof -
  have "list_all node_log ((nds s)[i := n])"
    using node_log_go [OF wset_ok_node(2) [OF ok i] st] ok by (simp add: wset_ok_def list_all_update)
  moreover have "node_ok r ((nds s)[i := n] ! j) th" if "node_ok r (nds s ! j) th" for r j th
    using that node_ok_go [OF _ st] i by (cases "i = j") auto
  ultimately show ?thesis using ok unfolding wset_ok_def by (elim conjE, intro conjI, simp_all)
qed

lemma wset_ok_step_thread:
  assumes ok: "wset_ok s ts" and t: "t < length ts" and st: "thread_step order (ts ! t) s = Some (th, s')"
  shows "wset_ok s' (ts[t := th])"
proof -
  have m: "ts ! t \<in> set ts" using t by simp
  note lock = wset_ok_lock [OF ok m] and node = wset_ok_node(1) [OF ok m]
  have k: "distinct (reg s)" "list_all node_log (nds s)" using ok by (simp_all add: wset_ok_def)
  show ?thesis
  proof (cases "ts ! t")
    case (N_Call ev)
    with st have c: "th = N_Loop ev order" "s' = s\<lparr>mu_readers := mu_readers s + 1\<rparr>" "\<not> mu_writer s"
      "distinct order" "set order = set (reg s)" by (auto split: if_splits)
    show ?thesis unfolding c(1,2) by (rule wset_ok_thread [OF ok t]) (simp_all add: N_Call c k)
  next
    case (N_Loop ev "is")
    note c = N_Loop and l = wset_ok_node(3) [OF ok m [unfolded N_Loop]]
    show ?thesis
    proof (cases "is")
      case Nil
      with c st lock show ?thesis by (intro wset_ok_thread [OF ok t]) (auto simp: k)
    next
      case (Cons i js)
      with l have i: "i \<in> set (reg s)" "distinct js" "set js \<subseteq> set (reg s)" by auto
      note n = wset_ok_node(4) [OF ok i(1)]
      with c st Cons have go: "nd_go (nds s ! i) = G_Recv" and th: "th = N_Loop ev js" "s' = set_node i (handle ev) s"
        by (auto split: if_splits)
      have "node_ok r (nds s' ! j) u" if "node_ok r (nds s ! j) u" for j r u
        using that n node_ok_handle [OF _ go] unfolding th(2) by (cases "i = j") auto
      then show ?thesis
        using c th i node_log_handle [OF wset_ok_node(2) [OF ok] go] n lock
        by (intro wset_ok_thread [OF ok t]) (auto simp: k list_all_update)
    qed
  next
    case (W_Call i p ini)
    with st lock node [of i] show ?thesis by (intro wset_ok_thread [OF ok t]) (auto simp: k split: if_splits)
  next
    case (W_Locked i p ini)
    with st lock node [of i] show ?thesis by (intro wset_ok_thread [OF ok t]) (auto simp: k split: if_splits)
  next
    case (W_Registered i p ini)
    show ?thesis
    proof (cases ini)
      case (Inl e)
      with W_Registered st lock node [of i] show ?thesis by (intro wset_ok_thread [OF ok t]) (auto simp: k)
    next
      case (Inr es)
      have "node_log ((nds s ! i)\<lparr>nd_go := G_Init es, nd_p := Some p, nd_init := es\<rparr>)"
        using wset_ok_node(2) [OF ok, of i] node [of i] W_Registered by (auto simp: node_log_def stream_def)
      with Inr W_Registered st lock node [of i] show ?thesis
        by (intro wset_ok_thread [OF ok t]) (auto simp: k list_all_update)
    qed
  next
    case (W_Started i)
    with st lock node [of i] show ?thesis by (intro wset_ok_thread [OF ok t]) (auto simp: k split: if_splits)
  next
    case (W_Watching i)
    from wset_ok_node(2) [OF ok, of i] node [of i] W_Watching
    have "node_log ((nds s ! i)\<lparr>nd_stopCh := True\<rparr>)" by (auto simp: node_log_def stream_def)
    with W_Watching st lock node [of i] show ?thesis by (intro wset_ok_thread [OF ok t]) (auto simp: k list_all_update)
  next
    case (S_Call i)
    with st lock node [of i] show ?thesis by (intro wset_ok_thread [OF ok t]) (auto simp: k split: if_splits)
  next
    case (S_Locked i)
    with st lock node [of i] show ?thesis by (intro wset_ok_thread [OF ok t]) (auto simp: k distinct_removeAll)
  next
    case (S_Deleted i)
    with st lock node [of i] show ?thesis by (intro wset_ok_thread [OF ok t]) (auto simp: k split: if_splits)
  next
    case (S_Unlocked i)
    from wset_ok_node(2) [OF ok, of i] node [of i] S_Unlocked
    have "node_log ((nds s ! i)\<lparr>nd_updateCh := True\<rparr>)" by (auto simp: node_log_def stream_def)
    with S_Unlocked st lock node [of i] show ?thesis by (intro wset_ok_thread [OF ok t]) (auto simp: k list_all_update)
  qed (use st in simp_all)
qed

lemma distinct_map_filter:
  "distinct (List.map_filter f xs) \<Longrightarrow> t < length xs \<Longrightarrow> u < length xs \<Longrightarrow> f (xs ! t) = Some i \<Longrightarrow> f (xs ! u) = Some i \<Longrightarrow> t = u"
proof (induction xs arbitrary: t u)
  case (Cons x xs)
  have "i \<in> set (List.map_filter f xs)" if "v < length xs" "f (xs ! v) = Some i" for v
    using that by (force simp: List.map_filter_def image_iff)
  with Cons show ?case by (cases t; cases u) (auto simp: List.map_filter_simps split: option.splits)
qed simp

lemma wset_ok_init:
  assumes "calls_ok n ts"
  shows "wset_ok (new_wset n) ts"
proof -
  from assms have c: "is_call th" if "th \<in> set ts" for th using that by (simp add: calls_ok_def list_all_iff)
  have "\<not> is_loop th" "\<not> holds_lock th" "th \<noteq> Panicked" if "th \<in> set ts" for th
    using c [OF that] by (cases th; simp)+
  moreover have "N_Loop ev is \<notin> set ts" for ev "is" using c by fastforce
  moreover have "i < n \<and> node_ok False fresh_node th" if "th \<in> set ts" "thread_node th = Some i" for th i
  proof
    from that have "i \<in> set (List.map_filter thread_node ts)" by (force simp: List.map_filter_def image_iff)
    with assms show "i < n" by (simp add: calls_ok_def list_all_iff)
    show "node_ok False fresh_node th" using c [OF that(1)] that(2) by (cases th) (simp_all add: fresh_node_def)
  qed
  moreover have "same_node ts" using assms distinct_map_filter [of thread_node ts] by (auto simp: calls_ok_def same_node_def)
  moreover have "node_log fresh_node" by (simp add: node_log_def fresh_node_def stream_def)
  ultimately show ?thesis
    unfolding wset_ok_def by (auto simp: new_wset_def filter_empty_conv list_all_iff)
qed

lemma watch_reach_ok: "watch_reach x \<Longrightarrow> wset_ok (fst x) (snd x)"
proof (induction rule: watch_reach.induct)
  case (reach_step x y)
  from reach_step(2,3) show ?case by (cases rule: watch_step.cases) (auto intro: wset_ok_step_thread wset_ok_go)
qed (simp add: wset_ok_init)

section \<open>Progress\<close>

text \<open>A call has returned, or the consumer of a watch has not yet called \<open>Stop\<close>.\<close>

fun at_rest :: "'b thread \<Rightarrow> bool" where
  "at_rest N_Done = True"
| "at_rest (W_Watching i) = True"
| "at_rest (W_Failed i) = True"
| "at_rest (S_Done i) = True"
| "at_rest _ = False"

fun fails :: "'b thread \<Rightarrow> bool" where
  "fails (W_Call i p ini) = (\<exists>e. ini = Inl e)"
| "fails (W_Locked i p ini) = (\<exists>e. ini = Inl e)"
| "fails (W_Registered i p ini) = (\<exists>e. ini = Inl e)"
| "fails (W_Failed i) = True"
| "fails _ = False"

fun waits_for_lock :: "'b thread \<Rightarrow> bool" where
  "waits_for_lock (W_Call i p ini) = True"
| "waits_for_lock (S_Call i) = True"
| "waits_for_lock _ = False"

text \<open>The steps that must happen: nobody has to call \<open>Stop\<close>; a reader need not get the lock
  while a writer waits for it; a consumer need not read once it has stopped its watch.\<close>

inductive quiet_step :: "'b wsystem \<Rightarrow> 'b wsystem \<Rightarrow> bool" where
  quiet_thread: "t < length ts \<Longrightarrow> \<not> at_rest (ts ! t) \<Longrightarrow> (\<exists>ev. ts ! t = N_Call ev) \<longrightarrow> \<not> list_ex waits_for_lock ts \<Longrightarrow>
    thread_step order (ts ! t) s = Some (th, s') \<Longrightarrow> quiet_step (s, ts) (s', ts[t := th])"
| quiet_go: "i < length (nds s) \<Longrightarrow> go_step (nd_stopCh (nds s ! i)) (nd_go (nds s ! i)) (nds s ! i) = Some n \<Longrightarrow>
    quiet_step (s, ts) (s\<lparr>nds := (nds s)[i := n]\<rparr>, ts)"

text \<open>The operations that are left.\<close>

fun thread_work :: "nat \<Rightarrow> 'b thread \<Rightarrow> nat" where
  "thread_work n (N_Call ev) = 2 * n + 2"
| "thread_work n (N_Loop ev is) = 2 * length is + 1"
| "thread_work n (W_Call i p ini) = 11 + (case ini of Inl e \<Rightarrow> 0 | Inr es \<Rightarrow> length es)"
| "thread_work n (W_Locked i p ini) = 10 + (case ini of Inl e \<Rightarrow> 0 | Inr es \<Rightarrow> length es)"
| "thread_work n (W_Registered i p ini) = 9 + (case ini of Inl e \<Rightarrow> 0 | Inr es \<Rightarrow> length es)"
| "thread_work n (W_Started i) = 6"
| "thread_work n (W_Watching i) = 5"
| "thread_work n (S_Call i) = 4"
| "thread_work n (S_Locked i) = 3"
| "thread_work n (S_Deleted i) = 2"
| "thread_work n (S_Unlocked i) = 1"
| "thread_work n _ = 0"

fun go_work :: "'b goroutine \<Rightarrow> nat" where
  "go_work (G_Init es) = length es + 2"
| "go_work (G_Send e) = 2"
| "go_work G_Recv = 1"
| "go_work _ = 0"

definition work :: "'b wsystem \<Rightarrow> nat" where
  "work x = sum_list (map (thread_work (length (nds (fst x)))) (snd x)) + sum_list (map (\<lambda>n. go_work (nd_go n)) (nds (fst x)))"

lemma sum_list_map_update:
  "i < length xs \<Longrightarrow> sum_list (map f (xs[i := x])) + f (xs ! i) = sum_list (map f xs) + f x" for f :: "'a \<Rightarrow> nat"
proof (induction xs arbitrary: i)
  case (Cons a xs)
  then show ?case by (cases i) auto
qed simp

lemma work_thread:
  assumes ok: "wset_ok s ts" and t: "t < length ts" and st: "thread_step order (ts ! t) s = Some (th, s')"
  shows "work (s', ts[t := th]) < work (s, ts)"
proof -
  let ?n = "length (nds s)" and ?g = "\<lambda>s. sum_list (map (\<lambda>n. go_work (nd_go n)) (nds s))"
  have m: "ts ! t \<in> set ts" using t by simp
  note node = wset_ok_node(1) [OF ok m] and loop = wset_ok_node(3) [OF ok] and reg = wset_ok_node(4) [OF ok]
  have order: "length order \<le> ?n" if "distinct order" "set order = set (reg s)"
  proof -
    have "set order \<subseteq> {..< ?n}" using reg that(2) by auto
    then have "card (set order) \<le> card {..< ?n}" by (rule card_mono [OF finite_lessThan])
    with distinct_card [OF that(1)] show ?thesis by simp
  qed
  have nodes: "?g (set_node i f s) + go_work (nd_go (nds s ! i)) = ?g s + go_work (nd_go (f (nds s ! i)))"
    if "i < ?n" for i f using sum_list_map_update [OF that, of "\<lambda>n. go_work (nd_go n)" "f (nds s ! i)"] by simp
  have len: "length (nds s') = ?n"
    using st by (cases "(order, ts ! t, s)" rule: thread_step.cases) (auto split: if_splits)
  have "thread_work ?n th + ?g s' < thread_work ?n (ts ! t) + ?g s"
  proof (cases "ts ! t")
    case (N_Call ev)
    with st order show ?thesis by (auto split: if_splits)
  next
    case (N_Loop ev "is")
    show ?thesis
    proof (cases "is")
      case Nil
      with N_Loop st show ?thesis by auto
    next
      case (Cons i js)
      from loop [OF m [unfolded N_Loop]] Cons have "i \<in> set (reg s)" by simp
      with nodes [of i "handle ev"] reg [of i] N_Loop Cons st show ?thesis
        by (auto simp: handle_def split: if_splits)
    qed
  next
    case (W_Registered i p ini)
    with st node [of i] nodes [of i "\<lambda>n. n\<lparr>nd_go := G_Init es, nd_p := Some p, nd_init := es\<rparr>" for es]
    show ?thesis by (cases ini) auto
  next
    case (W_Watching i)
    with st node [of i] nodes [of i "\<lambda>n. n\<lparr>nd_stopCh := True\<rparr>"] show ?thesis by auto
  next
    case (S_Unlocked i)
    with st node [of i] nodes [of i "\<lambda>n. n\<lparr>nd_updateCh := True\<rparr>"] show ?thesis by auto
  qed (use st in \<open>auto split: if_splits\<close>)
  with sum_list_map_update [OF t, of "thread_work ?n" th] len show ?thesis by (simp add: work_def)
qed

lemma work_go:
  assumes i: "i < length (nds s)" and st: "go_step stop (nd_go (nds s ! i)) (nds s ! i) = Some n"
  shows "work (s\<lparr>nds := (nds s)[i := n]\<rparr>, ts) < work (s, ts)"
proof -
  have "go_work (nd_go n) < go_work (nd_go (nds s ! i))"
    using st by (cases "(stop, nd_go (nds s ! i), nds s ! i)" rule: go_step.cases) (auto split: if_splits)
  with sum_list_map_update [OF i, of "\<lambda>n. go_work (nd_go n)" n] show ?thesis by (simp add: work_def)
qed

lemma quiet_step_watch: "quiet_step x y \<Longrightarrow> watch_step x y"
  by (induction rule: quiet_step.induct) (auto intro: step_thread step_go)

lemma watch_step_work: "wset_ok (fst x) (snd x) \<Longrightarrow> watch_step x y \<Longrightarrow> work y < work x"
  by (cases rule: watch_step.cases) (auto intro: work_thread work_go)

lemma fails_step:
  assumes "watch_step x y" and "list_ex fails (snd y)"
  shows "list_ex fails (snd x)"
  using assms(1)
proof cases
  case (step_thread t ts order s th s')
  have "fails th \<Longrightarrow> fails (ts ! t)"
    using step_thread(4) by (cases "(order, ts ! t, s)" rule: thread_step.cases) (auto split: if_splits)
  moreover from assms(2) step_thread have "fails th \<or> list_ex fails ts"
    using set_update_subset_insert [of ts t th] by (auto simp: list_ex_iff)
  ultimately show ?thesis using step_thread by (auto simp: list_ex_iff)
qed (use assms(2) in simp)

lemma registered_running:
  assumes ok: "wset_ok s ts" and "\<not> mu_writer s" and "\<not> list_ex fails ts" and i: "i \<in> set (reg s)"
  shows "running (nds s ! i)"
proof -
  from ok i obtain u where u: "u \<in> set ts" "thread_node u = Some i" unfolding wset_ok_def by blast
  with assms(3) have "\<not> fails u" by (auto simp: list_ex_iff)
  with wset_ok_node(1) [OF ok u] wset_ok_lock(2) [OF ok u(1)] i u(2) assms(2) show ?thesis by (cases u) auto
qed

lemma quiet_stepI:
  assumes "th \<in> set ts" and "\<not> at_rest th" and "(\<exists>ev. th = N_Call ev) \<longrightarrow> \<not> list_ex waits_for_lock ts"
    and "thread_step order th s \<noteq> None"
  shows "\<exists>y. quiet_step (s, ts) y"
proof -
  from assms(1) obtain t where t: "t < length ts" "ts ! t = th" by (auto simp: in_set_conv_nth)
  from assms(4) obtain th' s' where "thread_step order th s = Some (th', s')" by auto
  with t assms(2,3) show ?thesis using quiet_thread [of t ts order s th' s'] by blast
qed

lemma writer_progress:
  assumes "wset_ok s ts" and "mu_writer s"
  shows "\<exists>y. quiet_step (s, ts) y"
proof -
  from assms have "filter holds_lock ts \<noteq> []" by (auto simp: wset_ok_def)
  then obtain th where th: "th \<in> set ts" "holds_lock th" by (auto simp: filter_empty_conv)
  have "\<not> at_rest th" "thread_step [] th s \<noteq> None" "\<not> (\<exists>ev. th = N_Call ev)"
    using th(2) by (cases "([] :: nat list, th, s)" rule: thread_step.cases; simp)+
  with quiet_stepI [OF th(1)] show ?thesis by blast
qed

lemma reader_progress:
  assumes ok: "wset_ok s ts" and nf: "\<not> list_ex fails ts" and w: "\<not> mu_writer s" and "mu_readers s \<noteq> 0"
  shows "\<exists>y. quiet_step (s, ts) y"
proof -
  from ok assms(4) have "filter is_loop ts \<noteq> []" by (auto simp: wset_ok_def)
  then obtain th where th: "th \<in> set ts" "is_loop th" by (auto simp: filter_empty_conv)
  from th(2) obtain ev js where j: "th = N_Loop ev js" by (cases th) auto
  show ?thesis
  proof (cases js)
    case Nil
    with quiet_stepI [OF th(1), of "[]"] j show ?thesis by simp
  next
    case (Cons i ks)
    with wset_ok_node(3) [OF ok] th(1) j have i: "i \<in> set (reg s)" by fastforce
    note n = wset_ok_node(4) [OF ok i] registered_running [OF ok w nf i]
    show ?thesis
    proof (cases "nd_go (nds s ! i) = G_Recv")
      case True
      with quiet_stepI [OF th(1), of "[]"] j Cons n show ?thesis by simp
    next
      case False
      with n have "go_step (nd_stopCh (nds s ! i)) (nd_go (nds s ! i)) (nds s ! i) \<noteq> None"
        by (cases "(nd_stopCh (nds s ! i), nd_go (nds s ! i), nds s ! i)" rule: go_step.cases) auto
      with n quiet_go [of i s] show ?thesis by blast
    qed
  qed
qed

lemma quiet_progress:
  assumes ok: "wset_ok s ts" and nf: "\<not> list_ex fails ts" and busy: "\<not> list_all at_rest ts"
  shows "\<exists>y. quiet_step (s, ts) y"
proof (cases "mu_writer s \<or> mu_readers s \<noteq> 0")
  case True
  with writer_progress [OF ok] reader_progress [OF ok nf] show ?thesis by blast
next
  case free: False
  show ?thesis
  proof (cases "list_ex waits_for_lock ts")
    case True
    then obtain u where u: "u \<in> set ts" "waits_for_lock u" by (auto simp: list_ex_iff)
    have "\<not> at_rest u" "thread_step [] u s \<noteq> None" "\<not> (\<exists>ev. u = N_Call ev)"
      using u(2) free by (cases u; simp)+
    with quiet_stepI [OF u(1)] show ?thesis by blast
  next
    case False
    from busy obtain th where th: "th \<in> set ts" "\<not> at_rest th" by (auto simp: list_all_iff)
    have "thread_step (reg s) th s \<noteq> None"
      using th free wset_ok_lock [OF ok th(1)] ok
      by (cases "(reg s, th, s)" rule: thread_step.cases) (auto simp: wset_ok_def)
    with quiet_stepI [OF th] False show ?thesis by blast
  qed
qed

lemma quiet_run:
  assumes "(quiet_step ^^ k) x y" and "wset_ok (fst x) (snd x)" and "\<not> list_ex fails (snd x)"
  shows "k + work y \<le> work x \<and> wset_ok (fst y) (snd y) \<and> \<not> list_ex fails (snd y)"
  using assms
proof (induction k arbitrary: y)
  case (Suc k)
  from Suc.prems(1) obtain z where z: "(quiet_step ^^ k) x z" "quiet_step z y" by auto
  note h = Suc.IH [OF z(1) Suc.prems(2,3)] and st = quiet_step_watch [OF z(2)]
  have "wset_ok (fst y) (snd y)"
    using st h by (cases rule: watch_step.cases) (auto intro: wset_ok_step_thread wset_ok_go)
  with h watch_step_work [OF _ st] fails_step [OF st] show ?case by fastforce
qed simp

section \<open>Schedules\<close>

text \<open>Runs by a schedule: which thread or goroutine moves, and how.\<close>

datatype move = Thread nat "nat list" | Go nat bool

fun do_move :: "move \<Rightarrow> 'b wsystem \<Rightarrow> 'b wsystem option" where
  "do_move (Thread t order) (s, ts) =
     (if t < length ts then map_option (\<lambda>(th, s'). (s', ts[t := th])) (thread_step order (ts ! t) s) else None)"
| "do_move (Go i stop) (s, ts) =
     (if i < length (nds s)
      then map_option (\<lambda>n. (s\<lparr>nds := (nds s)[i := n]\<rparr>, ts)) (go_step stop (nd_go (nds s ! i)) (nds s ! i)) else None)"

fun run_schedule :: "move list \<Rightarrow> 'b wsystem \<Rightarrow> 'b wsystem option" where
  "run_schedule [] x = Some x"
| "run_schedule (m # ms) x = (case do_move m x of None \<Rightarrow> None | Some y \<Rightarrow> run_schedule ms y)"

lemma do_move_step: "do_move m x = Some y \<Longrightarrow> watch_step x y"
  by (cases "(m, x)" rule: do_move.cases) (auto split: if_splits intro: step_thread step_go)

lemma run_schedule_reach: "run_schedule ms x = Some y \<Longrightarrow> watch_reach x \<Longrightarrow> watch_reach y"
proof (induction ms arbitrary: x)
  case (Cons m ms)
  then obtain z where "do_move m x = Some z" "run_schedule ms z = Some y" by (auto split: option.splits)
  with Cons reach_step [OF Cons.prems(2) do_move_step] show ?case by blast
qed simp

lemma run_cases:
  assumes "case x of None \<Rightarrow> False | Some (s, ts) \<Rightarrow> P s ts"
  obtains s ts where "x = Some (s, ts)" and "P s ts"
  using assms by (cases x) auto

text \<open>Two watches of everything and two notifications.\<close>

definition demo_event :: "EventType \<Rightarrow> unit Event" where
  "demo_event ty = \<lparr>ev_Type = ty, ev_Object = \<lparr>TypeMeta = ([], []), Metadata = None, Body = ()\<rparr>\<rparr>"

definition demo_threads :: "unit thread list" where
  "demo_threads = [W_Call 0 (newSelectionPredicate None) (Inr []), W_Call 1 (newSelectionPredicate None) (Inr []),
     N_Call (demo_event Added), N_Call (demo_event Deleted)]"

definition demo_watching :: "move list" where
  "demo_watching = replicate 4 (Thread 0 []) @ replicate 4 (Thread 1 []) @ [Go 0 False, Go 1 False]"

text \<open>The notifications overlap: one visits the nodes in one order, one in the other.\<close>

definition demo_crossing :: "move list" where
  "demo_crossing = [Thread 2 [0, 1], Thread 3 [1, 0], Thread 2 [], Go 0 False, Thread 3 [], Go 1 False,
     Thread 2 [], Go 1 False, Thread 3 [], Go 0 False, Thread 2 [], Thread 3 []]"

lemma demo_init: "watch_reach (new_wset 2, demo_threads)"
  by (rule reach_init) code_simp

section \<open>Properties\<close>

text \<open>C17. The watch set is safe under every interleaving: no send on a closed channel, no channel closed
  twice, at most one holder of the write lock, and none while a notification is under way.\<close>

theorem Watch_set_no_panic:
  assumes "watch_reach (s, ts)"
  shows "Panicked \<notin> set ts \<and> length (filter holds_lock ts) \<le> 1 \<and> (list_ex holds_lock ts \<longrightarrow> \<not> list_ex is_loop ts)"
proof -
  from watch_reach_ok [OF assms] have ok: "wset_ok s ts" by simp
  then have "length (filter holds_lock ts) = of_bool (mu_writer s)" "Panicked \<notin> set ts" by (auto simp: wset_ok_def)
  moreover have "\<not> list_ex is_loop ts" if "list_ex holds_lock ts"
    using that wset_ok_lock [OF ok] by (auto simp: list_ex_iff)
  ultimately show ?thesis by simp
qed

theorem Watch_set_no_panic_witness:
  "\<exists>s ts. run_schedule demo_watching (new_wset 2, demo_threads) = Some (s, ts) \<and> \<not> list_all is_call ts \<and> Panicked \<notin> set ts"
proof -
  have "case run_schedule demo_watching (new_wset 2, demo_threads) of None \<Rightarrow> False | Some (s, ts) \<Rightarrow> \<not> list_all is_call ts"
    by code_simp
  then obtain s ts where r: "run_schedule demo_watching (new_wset 2, demo_threads) = Some (s, ts)" "\<not> list_all is_call ts"
    by (rule run_cases)
  with Watch_set_no_panic [OF run_schedule_reach [OF r(1) demo_init]] show ?thesis by blast
qed

text \<open>What a consumer has got is a part, in order, of the initial events followed by the matching ones
  of the events its node received. As long as it has not stopped the watch nothing is missing: when the
  goroutine is idle the consumer has got all of them.\<close>

theorem Watch_stream_order:
  assumes "watch_reach (s, ts)" and "n \<in> set (nds s)"
  shows "subseq (nd_out n) (nd_init n @ filter (matches (nd_p n)) (nd_in n)) \<and>
    (\<not> nd_stopCh n \<and> nd_go n = G_Recv \<longrightarrow> nd_out n = nd_init n @ filter (matches (nd_p n)) (nd_in n))"
proof -
  from watch_reach_ok [OF assms(1)] assms(2) have l: "node_log n" by (auto simp: wset_ok_def list_all_iff)
  have "subseq (nd_out n) (nd_out n @ pending (nd_go n))" by (simp add: prefix_imp_subseq)
  with l show ?thesis by (auto simp: node_log_def stream_def elim: subseq_order.trans)
qed

theorem Watch_stream_order_witness:
  "\<exists>s ts. run_schedule (demo_watching @ demo_crossing) (new_wset 2, demo_threads) = Some (s, ts) \<and>
     nd_out (nds s ! 0) = nd_init (nds s ! 0) @ filter (matches (nd_p (nds s ! 0))) (nd_in (nds s ! 0)) \<and>
     nd_out (nds s ! 0) = [demo_event Added, demo_event Deleted]"
proof -
  have "case run_schedule (demo_watching @ demo_crossing) (new_wset 2, demo_threads) of None \<Rightarrow> False
    | Some (s, ts) \<Rightarrow> length (nds s) = 2 \<and> \<not> nd_stopCh (nds s ! 0) \<and> nd_go (nds s ! 0) = G_Recv \<and>
        nd_out (nds s ! 0) = [demo_event Added, demo_event Deleted]" by code_simp
  then obtain s ts where r: "run_schedule (demo_watching @ demo_crossing) (new_wset 2, demo_threads) = Some (s, ts)"
    and n: "length (nds s) = 2 \<and> \<not> nd_stopCh (nds s ! 0) \<and> nd_go (nds s ! 0) = G_Recv \<and>
      nd_out (nds s ! 0) = [demo_event Added, demo_event Deleted]" by (rule run_cases)
  from n have "nds s ! 0 \<in> set (nds s)" by simp
  from Watch_stream_order [OF run_schedule_reach [OF r demo_init] this] n r show ?thesis by blast
qed

text \<open>C18. Every call returns as long as no watch has failed to start: whatever the threads and goroutines
  do, no run has more steps than there is work, and a run that has come to an end has all calls
  returned. A consumer that stops its watch need not read any more, and one that does not read must stop.\<close>

theorem Watch_calls_return:
  assumes "watch_reach (s, ts)" and "\<not> list_ex fails ts" and "(quiet_step ^^ k) (s, ts) y"
  shows "k \<le> work (s, ts) \<and> (list_all at_rest (snd y) \<or> (\<exists>z. quiet_step y z))"
proof -
  from watch_reach_ok [OF assms(1)] have "wset_ok (fst (s, ts)) (snd (s, ts))" by simp
  from quiet_run [OF assms(3) this] assms(2) have "k + work y \<le> work (s, ts)" "wset_ok (fst y) (snd y)" "\<not> list_ex fails (snd y)"
    by auto
  with quiet_progress [of "fst y" "snd y"] show ?thesis by auto
qed

theorem Watch_calls_return_witness:
  "\<exists>s ts z. run_schedule demo_watching (new_wset 2, demo_threads) = Some (s, ts) \<and> quiet_step (s, ts) z"
proof -
  have "case run_schedule demo_watching (new_wset 2, demo_threads) of None \<Rightarrow> False
    | Some (s, ts) \<Rightarrow> \<not> list_all at_rest ts \<and> \<not> list_ex (\<lambda>th. case th of W_Call i p ini \<Rightarrow> True | W_Locked i p ini \<Rightarrow> True
        | W_Registered i p ini \<Rightarrow> True | W_Failed i \<Rightarrow> True | _ \<Rightarrow> False) ts" by code_simp
  then obtain s ts where r: "run_schedule demo_watching (new_wset 2, demo_threads) = Some (s, ts)"
    and f: "\<not> list_all at_rest ts \<and> \<not> list_ex (\<lambda>th. case th of W_Call i p ini \<Rightarrow> True | W_Locked i p ini \<Rightarrow> True
        | W_Registered i p ini \<Rightarrow> True | W_Failed i \<Rightarrow> True | _ \<Rightarrow> False) ts" by (rule run_cases)
  have "\<not> list_ex fails ts"
    using f by (fastforce simp: list_ex_iff elim!: fails.elims split: thread.splits)
  from Watch_calls_return [OF run_schedule_reach [OF r demo_init] this, of 0 "(s, ts)"] f r show ?thesis by auto
qed

text \<open>C19. Notifications share the lock, so two that overlap may cross: two watches of everything can see
  the same two events in opposite orders.\<close>

theorem Notifications_may_cross:
  "\<exists>s ts. watch_reach (s, ts) \<and> list_all at_rest ts \<and>
     nd_out (nds s ! 0) = [demo_event Added, demo_event Deleted] \<and>
     nd_out (nds s ! 1) = [demo_event Deleted, demo_event Added]"
proof -
  have "case run_schedule (demo_watching @ demo_crossing) (new_wset 2, demo_threads) of None \<Rightarrow> False
    | Some (s, ts) \<Rightarrow> list_all at_rest ts \<and> nd_out (nds s ! 0) = [demo_event Added, demo_event Deleted] \<and>
        nd_out (nds s ! 1) = [demo_event Deleted, demo_event Added]" by code_simp
  then obtain s ts where "run_schedule (demo_watching @ demo_crossing) (new_wset 2, demo_threads) = Some (s, ts)"
    and "list_all at_rest ts \<and> nd_out (nds s ! 0) = [demo_event Added, demo_event Deleted] \<and>
        nd_out (nds s ! 1) = [demo_event Deleted, demo_event Added]" by (rule run_cases)
  with run_schedule_reach [OF _ demo_init] show ?thesis by blast
qed

end
