(* ===== verification/Kv_Refinement.thy ===== *)
theory Kv_Refinement
  imports Storage
begin

text \<open>
  What a directory of \<open>MemoryFS\<close> promises its users, as an abstract specification: a map from
  file names to versioned contents with a revision counter, where a write is a compare-and-swap on
  the version. The theory shows that the nested maps of \<open>pkg/storage/filepath/fs.go\<close> implement
  it: every sequence of \<open>Exists\<close>, \<open>Read\<close>, \<open>Write\<close> and \<open>Remove\<close> on the
  files of a directory returns what the specification returns, and the abstraction of the final
  state is the final state of the specification.
\<close>

section \<open>The specification\<close>

record kv =
  kv_files :: "string \<Rightarrow> versionedData option"
  kv_rev :: uint64

definition kv_new :: kv where
  "kv_new = \<lparr>kv_files = (\<lambda>_. None), kv_rev = 1\<rparr>"

datatype 'b fs_op =
    OpExists (op_key: string)
  | OpRead (op_key: string)
  | OpWrite (op_key: string) "'b Object" uint64
  | OpRemove (op_key: string)

datatype 'b fs_result =
    ResExists bool
  | ResRead "go_error + 'b Object"
  | ResWrite "'b Object" "go_error option"
  | ResRemove "go_error option"

text \<open>The version that a writer has to name: 0 for a file that does not exist.\<close>

definition kv_version :: "kv \<Rightarrow> string \<Rightarrow> uint64" where
  "kv_version s k = (case kv_files s k of None \<Rightarrow> 0 | Some v \<Rightarrow> version v)"

definition kv_swap :: "string \<Rightarrow> 'b Object \<Rightarrow> uint64 \<Rightarrow> bytes \<Rightarrow> kv \<Rightarrow> kv \<times> 'b fs_result" where
  "kv_swap k obj sv buf s =
     (if kv_version s k \<noteq> sv
      then (s, ResWrite obj (Some (if kv_files s k = None then ErrNotExist else VersionError)))
      else if map_option data (kv_files s k) = Some buf then (s, ResWrite obj None)
      else
        let r = kv_rev s + 1
        in case setResourceVersion obj r of
             Inl e \<Rightarrow> (s\<lparr>kv_rev := r\<rparr>, ResWrite obj (Some e))
           | Inr obj' \<Rightarrow> (\<lparr>kv_files = (kv_files s)(k \<mapsto> \<lparr>version = r, data = buf\<rparr>), kv_rev = r\<rparr>, ResWrite obj' None))"

fun kv_step :: "'b encoder \<Rightarrow> 'b decoder \<Rightarrow> 'b Object \<Rightarrow> 'b fs_op \<Rightarrow> kv \<Rightarrow> kv \<times> 'b fs_result" where
  "kv_step enc dec new (OpExists k) s = (s, ResExists (kv_files s k \<noteq> None))"
| "kv_step enc dec new (OpRead k) s =
     (s, ResRead (case kv_files s k of None \<Rightarrow> Inl ErrNotExist | Some v \<Rightarrow> decodeBuffer dec v new))"
| "kv_step enc dec new (OpWrite k obj sv) s =
     (case clearResourceVersion obj of
        Inl e \<Rightarrow> (s, ResWrite obj (Some e))
      | Inr obj0 \<Rightarrow> (case enc obj0 of Inl e \<Rightarrow> (s, ResWrite obj (Some e)) | Inr buf \<Rightarrow> kv_swap k obj sv buf s))"
| "kv_step enc dec new (OpRemove k) s =
     (if kv_files s k = None then (s, ResRemove (Some ErrNotExist))
      else (s\<lparr>kv_files := (kv_files s)(k := None)\<rparr>, ResRemove None))"

fun run :: "('op \<Rightarrow> 's \<Rightarrow> 's \<times> 'r) \<Rightarrow> 'op list \<Rightarrow> 's \<Rightarrow> 's \<times> 'r list" where
  "run step [] s = (s, [])"
| "run step (x # xs) s = (let (s1, r) = step x s; (s2, rs) = run step xs s1 in (s2, r # rs))"

section \<open>The implementation\<close>

text \<open>The methods of \<open>MemoryFS\<close> on the files of the directory \<open>d\<close>.\<close>

fun mem_step :: "'b encoder \<Rightarrow> 'b decoder \<Rightarrow> 'b Object \<Rightarrow> string \<Rightarrow> 'b fs_op \<Rightarrow> memory_fs \<Rightarrow> memory_fs \<times> 'b fs_result" where
  "mem_step enc dec new d (OpExists k) s = (let (s', b) = MemoryFS_Exists (path_below d [k]) s in (s', ResExists b))"
| "mem_step enc dec new d (OpRead k) s = (let (s', r) = MemoryFS_Read dec (path_below d [k]) new s in (s', ResRead r))"
| "mem_step enc dec new d (OpWrite k obj sv) s =
     (let (s', obj', r) = MemoryFS_Write enc (path_below d [k]) obj sv s in (s', ResWrite obj' r))"
| "mem_step enc dec new d (OpRemove k) s = (let (s', r) = MemoryFS_Remove (path_below d [k]) s in (s', ResRemove r))"

text \<open>A directory that holds files only, and its abstraction.\<close>

definition flat :: "string \<Rightarrow> memory_fs \<Rightarrow> bool" where
  "flat d s \<longleftrightarrow> mem_inv s \<and>
     (\<exists>es. lookup_node (mfs_dir s) (path_parts d) = Some (Dir es) \<and> (\<forall>n \<in> snd ` set es. \<exists>v. n = File v))"

definition kv_abs :: "string \<Rightarrow> memory_fs \<Rightarrow> kv" where
  "kv_abs d s = \<lparr>kv_files = (\<lambda>k. mem_content s (path_parts d @ [k])), kv_rev = mfs_rev s\<rparr>"

section \<open>Lemmas\<close>

text \<open>The entries of the directory are the abstraction.\<close>

lemma flatE:
  assumes "flat d s"
  obtains es where "mem_inv s" "lookup_node (mfs_dir s) (path_parts d) = Some (Dir es)"
    "\<forall>k. map_of es k = map_option File (kv_files (kv_abs d s) k)" "distinct (map fst es)" "ensureDir d s = (s, Inr es)"
proof -
  from assms obtain es where s: "mem_inv s" "lookup_node (mfs_dir s) (path_parts d) = Some (Dir es)"
    "\<forall>n \<in> snd ` set es. \<exists>v. n = File v" by (auto simp: flat_def)
  have "map_of es k = map_option File (kv_files (kv_abs d s) k)" for k
  proof -
    have "lookup_file (mfs_dir s) (path_parts d @ [k]) = lookup_file es [k]" by (rule lookup_file_append [OF s(2)])
    moreover have "\<exists>v. n = File v" if "map_of es k = Some n" for n using map_of_SomeD [OF that] s(3) by force
    ultimately show ?thesis
      by (auto simp: kv_abs_def mem_content_def lookup_file_Cons split: option.splits node.splits)
  qed
  moreover have "wf_dir es" using wf_dir_lookup [OF mem_invD(1) [OF s(1)] s(2)] by simp
  ultimately show thesis using that s(1,2) wf_dir_distinct ensureDir_existing [OF s(1,2)] by blast
qed

lemma flatI:
  assumes "mem_inv s" "lookup_node (mfs_dir s) (path_parts d) = Some (Dir es)"
    and "\<And>k n. map_of es k = Some n \<Longrightarrow> \<exists>v. n = File v"
  shows "flat d s"
proof -
  have "wf_dir es" using wf_dir_lookup [OF mem_invD(1) [OF assms(1)] assms(2)] by simp
  then have "distinct (map fst es)" by (rule wf_dir_distinct)
  then have "\<forall>n \<in> snd ` set es. \<exists>v. n = File v" using assms(3) map_of_is_SomeI by fastforce
  with assms(1,2) show ?thesis by (auto simp: flat_def)
qed

lemma path_below_parts:
  assumes "good_path d" and "plain_seg k"
  shows "path_Dir (path_below d [k]) = d" "path_Base (path_below d [k]) = k" "mem_key (path_below d [k]) = path_parts d @ [k]"
    "good_path (path_below d [k])"
proof -
  from assms(1) obtain r cs c where c: "normal r cs" "plain_seg c" and d: "d = render r (cs @ [c])" by (rule good_pathE)
  from c have n: "normal r (cs @ [c])" by (rule normal_snoc)
  then have p: "path_below d [k] = render r ((cs @ [c]) @ [k])" by (simp add: path_below_def d)
  show "path_Dir (path_below d [k]) = d" unfolding p using path_Dir_render [OF n assms(2)] by (simp add: d)
  show "path_Base (path_below d [k]) = k" unfolding p using path_Base_render [OF n assms(2)] by simp
  show "mem_key (path_below d [k]) = path_parts d @ [k]" using mem_key_below [OF assms(1), of "[k]"] assms(2) by simp
  show "good_path (path_below d [k])" unfolding p using n assms(2) by (rule good_path_render)
qed

text \<open>The two assignments through the directory.\<close>

lemma kv_abs_assign:
  assumes "flat d s" and "good_path d" and "plain_seg k" and "version v \<noteq> 0"
  shows "flat d (assign_entry (path_below d [k]) v s) \<and>
    kv_abs d (assign_entry (path_below d [k]) v s) = (kv_abs d s)\<lparr>kv_files := (kv_files (kv_abs d s))(k \<mapsto> v)\<rparr>"
proof -
  let ?p = "path_below d [k]"
  note p = path_below_parts [OF assms(2,3)]
  from assms(1) obtain es where es: "mem_inv s" "lookup_node (mfs_dir s) (path_parts d) = Some (Dir es)"
    "\<forall>k. map_of es k = map_option File (kv_files (kv_abs d s) k)" "distinct (map fst es)" "ensureDir d s = (s, Inr es)"
    by (elim flatE)
  have l: "lookup_node (mfs_dir s) (path_parts (path_Dir ?p)) = Some (Dir es)" "\<nexists>t. map_of es (path_Base ?p) = Some (Dir t)"
    using es(2,3) by (auto simp: p)
  have "lookup_node (mfs_dir (assign_entry ?p v s)) (path_parts d) = Some (Dir (AList.update k (File v) es))"
    using modify_at_lookup [OF es(2)] by (simp add: assign_entry_def p)
  then have "flat d (assign_entry ?p v s)"
    using assign_entry_inv [OF es(1) l p(4) assms(4)] es(3) by (intro flatI) (auto simp: update_conv' split: if_splits)
  moreover have "kv_abs d (assign_entry ?p v s) = (kv_abs d s)\<lparr>kv_files := (kv_files (kv_abs d s))(k \<mapsto> v)\<rparr>"
    unfolding kv_abs_def assign_entry_content [OF l] by (auto simp: p assign_entry_def)
  ultimately show ?thesis ..
qed

lemma kv_abs_remove:
  assumes "flat d s" and "good_path d" and "plain_seg k" and "kv_files (kv_abs d s) k \<noteq> None"
  shows "flat d (delete_entry (path_below d [k]) s) \<and>
    kv_abs d (delete_entry (path_below d [k]) s) = (kv_abs d s)\<lparr>kv_files := (kv_files (kv_abs d s))(k := None)\<rparr>"
proof -
  let ?p = "path_below d [k]"
  note p = path_below_parts [OF assms(2,3)]
  from assms(1) obtain es where es: "mem_inv s" "lookup_node (mfs_dir s) (path_parts d) = Some (Dir es)"
    "\<forall>k. map_of es k = map_option File (kv_files (kv_abs d s) k)" "distinct (map fst es)" "ensureDir d s = (s, Inr es)" by (elim flatE)
  from assms(4) obtain v where v: "mem_content s (mem_key ?p) = Some v" by (auto simp: kv_abs_def p)
  have "MemoryFS_Remove ?p s = (delete_entry ?p s, None)"
    using assms(4) es(3,5) by (auto simp: MemoryFS_Remove_def p)
  with MemoryFS_Remove_present [OF es(1) v] have r: "mem_inv (delete_entry ?p s)" "mfs_rev (delete_entry ?p s) = mfs_rev s"
    "mem_content (delete_entry ?p s) = (mem_content s)(mem_key ?p := None)" by auto
  have "lookup_node (mfs_dir (delete_entry ?p s)) (path_parts d) = Some (Dir (AList.delete k es))"
    using modify_at_lookup [OF es(2)] by (simp add: delete_entry_def p)
  then have "flat d (delete_entry ?p s)"
    using r(1) es(3) by (intro flatI) (auto simp: delete_conv' split: if_splits)
  then show ?thesis by (auto simp: kv_abs_def r p)
qed

lemma kv_abs_rev: "flat d (s\<lparr>mfs_rev := r\<rparr>) = flat d s" "kv_abs d (s\<lparr>mfs_rev := r\<rparr>) = (kv_abs d s)\<lparr>kv_rev := r\<rparr>"
  by (auto simp: flat_def kv_abs_def mem_inv_def mem_content_def)

text \<open>One step.\<close>

lemma flat_readBuffer:
  assumes "flat d s" and "good_path d" and "plain_seg k"
  shows "readBuffer (path_below d [k]) s = (s, case kv_files (kv_abs d s) k of None \<Rightarrow> Inl ErrNotExist | Some v \<Rightarrow> Inr v)"
  using assms(1) by (elim flatE) (auto simp: readBuffer_def path_below_parts [OF assms(2,3)] split: option.splits)

lemma flat_Write_commit:
  assumes "flat d s" and "good_path d" and "plain_seg k"
  shows "Write_commit (path_below d [k]) obj buf s =
    (case setResourceVersion obj (mfs_rev s + 1) of
       Inl e \<Rightarrow> (s\<lparr>mfs_rev := mfs_rev s + 1\<rparr>, obj, Some e)
     | Inr obj' \<Rightarrow> (assign_entry (path_below d [k]) \<lparr>version = mfs_rev s + 1, data = buf\<rparr> (s\<lparr>mfs_rev := mfs_rev s + 1\<rparr>), obj', None))"
  using assms(1)
  by (elim flatE) (auto simp: Write_commit_def path_below_parts [OF assms(2,3)] incrementRev_def Let_def split: sum.splits)

lemma kv_version_abs:
  assumes "flat d s"
  shows "kv_version (kv_abs d s) k = (case kv_files (kv_abs d s) k of None \<Rightarrow> 0 | Some v \<Rightarrow> version v)"
    and "kv_files (kv_abs d s) k = Some v \<Longrightarrow> version v \<noteq> 0"
  using assms mem_invD(2) [of s] by (auto simp: kv_version_def kv_abs_def flat_def)

lemma mem_step_refines:
  assumes "flat d s" and "good_path d" and "plain_seg (op_key x)" and "mem_step enc dec new d x s = (s', r)"
  shows "flat d s' \<and> kv_step enc dec new x (kv_abs d s) = (kv_abs d s', r)"
proof (cases x)
  case (OpExists k)
  with assms(1,4) show ?thesis
    by (elim flatE) (use assms OpExists path_below_parts [OF assms(2), of k] in \<open>auto simp: MemoryFS_Exists_def\<close>)
next
  case (OpRead k)
  with assms flat_readBuffer [OF assms(1,2), of k] show ?thesis by (auto simp: MemoryFS_Read_def split: option.splits)
next
  case (OpRemove k)
  with assms have k: "plain_seg k" by simp
  show ?thesis
  proof (cases "kv_files (kv_abs d s) k = None")
    case True
    from assms(1) have "MemoryFS_Remove (path_below d [k]) s = (s, Some ErrNotExist)"
      by (elim flatE) (use True in \<open>auto simp: MemoryFS_Remove_def path_below_parts [OF assms(2) k]\<close>)
    with True OpRemove assms(1,4) show ?thesis by auto
  next
    case False
    from assms(1) have "MemoryFS_Remove (path_below d [k]) s = (delete_entry (path_below d [k]) s, None)"
      by (elim flatE) (use False in \<open>auto simp: MemoryFS_Remove_def path_below_parts [OF assms(2) k]\<close>)
    with False OpRemove assms(4) kv_abs_remove [OF assms(1,2) k False] show ?thesis by auto
  qed
next
  case (OpWrite k obj sv)
  with assms have k: "plain_seg k" by simp
  note b = flat_readBuffer [OF assms(1,2) k] and w = flat_Write_commit [OF assms(1,2) k, of obj]
  have a: "flat d (assign_entry (path_below d [k]) \<lparr>version = v, data = buf\<rparr> (s\<lparr>mfs_rev := v\<rparr>)) \<and>
      kv_abs d (assign_entry (path_below d [k]) \<lparr>version = v, data = buf\<rparr> (s\<lparr>mfs_rev := v\<rparr>)) =
        \<lparr>kv_files = (kv_files (kv_abs d s))(k \<mapsto> \<lparr>version = v, data = buf\<rparr>), kv_rev = v\<rparr>" if "v \<noteq> 0" for v buf
    using kv_abs_assign [of d "s\<lparr>mfs_rev := v\<rparr>" k "\<lparr>version = v, data = buf\<rparr>"] that assms(1,2) k by (simp add: kv_abs_rev)
  have c: "flat d t \<and> kv_swap k obj sv buf (kv_abs d s) = (kv_abs d t, ResWrite obj' e)"
    if "Write_commit (path_below d [k]) obj buf s = (t, obj', e)" "kv_version (kv_abs d s) k = sv"
      "map_option data (kv_files (kv_abs d s) k) \<noteq> Some buf" for buf t obj' e
    using that a [of "mfs_rev s + 1" buf] assms(1) setResourceVersion_Inr_iff [of obj "mfs_rev s + 1"]
    by (auto simp: w kv_swap_def Let_def kv_abs_rev split: sum.splits) (auto simp: kv_abs_def)
  have d: "flat d s' \<and> kv_swap k obj sv buf (kv_abs d s) = (kv_abs d s', r)" if "clearResourceVersion obj = Inr obj0" "enc obj0 = Inr buf" for obj0 buf
    using assms(1,4) that OpWrite c [of buf] kv_version_abs [OF assms(1), of k]
    by (auto simp: MemoryFS_Write_def b Let_def kv_swap_def split: option.splits if_splits prod.splits)
  show ?thesis using assms(1,4) OpWrite d by (auto simp: MemoryFS_Write_def split: sum.splits)
qed

lemma run_refines:
  "flat d s \<Longrightarrow> good_path d \<Longrightarrow> \<forall>x \<in> set ops. plain_seg (op_key x) \<Longrightarrow> run (mem_step enc dec new d) ops s = (s', rs) \<Longrightarrow>
     flat d s' \<and> run (kv_step enc dec new) ops (kv_abs d s) = (kv_abs d s', rs)"
proof (induction ops arbitrary: s rs)
  case (Cons x ops)
  from Cons.prems(4) obtain s1 r rs' where x: "mem_step enc dec new d x s = (s1, r)"
    and ops: "run (mem_step enc dec new d) ops s1 = (s', rs')" and rs: "rs = r # rs'" by (auto split: prod.splits)
  from Cons.prems(1-3) have "flat d s1 \<and> kv_step enc dec new x (kv_abs d s) = (kv_abs d s1, r)"
    using mem_step_refines [OF _ _ _ x] by simp
  with Cons.IH [OF _ Cons.prems(2) _ ops] Cons.prems(3) rs show ?case by simp
qed simp

text \<open>The directory of a storage, right after \<open>NewFilepathREST\<close> has made it.\<close>

lemma flat_new: "flat d (fst (MemoryFS_EnsureDir d NewMemoryFS))" "kv_abs d (fst (MemoryFS_EnsureDir d NewMemoryFS)) = kv_new"
proof -
  let ?s = "fst (ensureDir d NewMemoryFS)"
  have e: "fst (MemoryFS_EnsureDir d NewMemoryFS) = ?s" by (simp add: MemoryFS_EnsureDir_def case_prod_beta)
  have "\<nexists>e. snd (ensure_parts (path_parts d) ([] :: versionedData dir)) = Inl e" by (simp add: ensure_parts_conflict)
  then obtain t where t: "snd (ensure_parts (path_parts d) ([] :: versionedData dir)) = Inr t" by (metis old.sum.exhaust)
  from ensure_parts_result [OF t] have "t = []" by (cases "path_parts d") auto
  with ensure_parts_dir [OF t] have "lookup_node (mfs_dir ?s) (path_parts d) = Some (Dir [])"
    by (simp add: ensureDir_simps NewMemoryFS_def)
  then show "flat d (fst (MemoryFS_EnsureDir d NewMemoryFS))" unfolding e by (intro flatI) auto
  show "kv_abs d (fst (MemoryFS_EnsureDir d NewMemoryFS)) = kv_new"
    unfolding e by (simp add: kv_abs_def kv_new_def) (simp add: NewMemoryFS_def mem_content_def)
qed

section \<open>Property\<close>

text \<open>C10. A directory of \<open>MemoryFS\<close> refines the key-value specification: from every state in which
  it holds files only, any sequence of operations on its files returns the results of the
  specification and leads to a state whose abstraction is the final state of the specification,
  where every write is a compare-and-swap on the version.\<close>

theorem MemoryFS_refines_kv:
  assumes "flat d s" and "good_path d" and "\<forall>x \<in> set ops. plain_seg (op_key x)"
  shows "flat d (fst (run (mem_step enc dec new d) ops s)) \<and>
    run (kv_step enc dec new) ops (kv_abs d s) =
      (kv_abs d (fst (run (mem_step enc dec new d) ops s)), snd (run (mem_step enc dec new d) ops s))"
  using run_refines [OF assms, of enc dec new "fst (run (mem_step enc dec new d) ops s)" "snd (run (mem_step enc dec new d) ops s)"]
  by simp

definition kv_demo_ops :: "ManifestBody fs_op list" where
  "kv_demo_ops =
     [OpWrite ''a.json'' (manifest_of ''a'' [] ''u1'' [] ''x'' [] False []) 0,
      OpWrite ''a.json'' (manifest_of ''a'' [] ''u1'' [] ''y'' [] False []) 1,
      OpWrite ''a.json'' (manifest_of ''a'' [] ''u1'' [] ''z'' [] False []) 2, OpRemove ''a.json'', OpExists ''a.json'']"

theorem MemoryFS_refines_kv_witness:
  "snd (run (mem_step manifest_enc manifest_dec Manifest_New ''data'') kv_demo_ops (fst (MemoryFS_EnsureDir ''data'' NewMemoryFS))) =
     [ResWrite (manifest_of ''a'' [] ''u1'' ''2'' ''x'' [] False []) None,
      ResWrite (manifest_of ''a'' [] ''u1'' [] ''y'' [] False []) (Some VersionError),
      ResWrite (manifest_of ''a'' [] ''u1'' ''3'' ''z'' [] False []) None, ResRemove None, ResExists False]"
proof -
  have g: "good_path ''data''" "\<forall>x \<in> set kv_demo_ops. plain_seg (op_key x)" by code_simp+
  have "snd (run (kv_step manifest_enc manifest_dec Manifest_New) kv_demo_ops kv_new) =
     [ResWrite (manifest_of ''a'' [] ''u1'' ''2'' ''x'' [] False []) None,
      ResWrite (manifest_of ''a'' [] ''u1'' [] ''y'' [] False []) (Some VersionError),
      ResWrite (manifest_of ''a'' [] ''u1'' ''3'' ''z'' [] False []) None, ResRemove None, ResExists False]"
    by code_simp
  then show ?thesis
    using MemoryFS_refines_kv [OF flat_new(1) g, of manifest_enc manifest_dec Manifest_New] unfolding flat_new(2) by simp
qed

end
