(* ===== verification/Concurrent_Update.thy ===== *)
theory Concurrent_Update
  imports Kv_Refinement
begin

text \<open>
  Concurrent updates. \<open>guaranteedUpdate\<close> of \<open>pkg/storage/filepath/jsonfile_rest.go\<close> reads
  the object, computes its successor and writes it, each in a separate critical section of the file
  system, so other requests may run in between. Here the loop is cut into its steps, one call of the
  file system each, and any number of clients and other operations interleave. The small steps of
  one client alone are the sequential loop; in the presence of others, a successful update is still
  the sequential one, executed at the moment of its write.
\<close>

section \<open>The loop in small steps\<close>

text \<open>Where a client is: before attempt \<open>i\<close> with \<open>n\<close> attempts left; after the read, with
  \<open>storageObj\<close> and \<open>storageVersion\<close>; before the write of \<open>out\<close>; returned.\<close>

datatype 'b gu_pc =
    GU_Start nat nat
  | GU_Got nat nat "'b Object option" uint64
  | GU_Write nat nat "'b Object option" uint64 "'b Object" "bool \<times> bool"
  | GU_Done "go_error + 'b Object \<times> bool \<times> bool"

fun gu_step ::
  "('fs, 'b) filepathREST \<Rightarrow> request_ctx \<Rightarrow> string \<Rightarrow> ('fs, 'b) updateFunc \<Rightarrow> 'b gu_pc \<Rightarrow> 'fs \<Rightarrow> ('b gu_pc \<times> 'fs) option" where
  "gu_step f ctx name upd (GU_Start 0 i) s =
     Some (GU_Done (Inl (InternalError (OtherError ''failed to persist to storage''))), s)"
| "gu_step f ctx name upd (GU_Start (Suc n) i) s =
     (case ctx_Err ctx i of
        Some e \<Rightarrow> Some (GU_Done (Inl e), s)
      | None \<Rightarrow>
          do {
            (s1, got) \<leftarrow> rest_Get f ctx name s;
            (case (case got of
                     Inr obj \<Rightarrow> Inr (Some obj)
                   | Inl e \<Rightarrow> if apierrors_IsNotFound e then Inr None else Inl e) of
               Inl e \<Rightarrow> Some (GU_Done (Inl e), s1)
             | Inr storageObj \<Rightarrow>
                 (case getResourceVersion storageObj of
                    Inl e \<Rightarrow> Some (GU_Done (Inl e), s1)
                  | Inr storageVersion \<Rightarrow> Some (GU_Got n i storageObj storageVersion, s1)))
          })"
| "gu_step f ctx name upd (GU_Got n i storageObj storageVersion) s =
     do {
       (s2, r) \<leftarrow> upd storageObj s;
       (case r of
          Inl e \<Rightarrow> Some (GU_Done (Inl e), s2)
        | Inr (out, flags) \<Rightarrow> Some (GU_Write n i storageObj storageVersion out flags, s2))
     }"
| "gu_step f ctx name upd (GU_Write n i storageObj storageVersion out flags) s =
     do {
       (s3, out', w) \<leftarrow> fs_Write (rest_fs f) (rest_enc f) (objectFileName f ctx name) out storageVersion s;
       (case w of
          None \<Rightarrow> Some (GU_Done (Inr (out', flags)), s3)
        | Some e \<Rightarrow>
            if is_VersionError e then Some (GU_Start n (Suc i), s3) else Some (GU_Done (Inl e), s3))
     }"
| "gu_step f ctx name upd (GU_Done r) s = Some (GU_Done r, s)"

fun gu_iter ::
  "('fs, 'b) filepathREST \<Rightarrow> request_ctx \<Rightarrow> string \<Rightarrow> ('fs, 'b) updateFunc \<Rightarrow> nat \<Rightarrow> 'b gu_pc \<Rightarrow> 'fs \<Rightarrow> ('b gu_pc \<times> 'fs) option" where
  "gu_iter f ctx name upd 0 pc s = Some (pc, s)"
| "gu_iter f ctx name upd (Suc k) pc s =
     do { (pc', s') \<leftarrow> gu_step f ctx name upd pc s; gu_iter f ctx name upd k pc' s' }"

lemma gu_iter_Done [simp]: "gu_iter f ctx name upd k (GU_Done r) s = Some (GU_Done r, s)"
  by (induction k) auto

text \<open>The small steps of a client that runs alone are the loop of \<open>guaranteedUpdate\<close>: after three
  steps per attempt and one more, it has returned what the loop returns, in the state in which the
  loop leaves the file system, and it hangs exactly when the loop does.\<close>

theorem Small_steps_are_the_loop:
  "gu_iter f ctx name upd (Suc (3 * n)) (GU_Start n i) s =
     map_option (\<lambda>(s', r). (GU_Done r, s')) (guaranteedUpdate_loop f ctx name upd n i s)"
proof (induction n arbitrary: i s)
  case (Suc n)
  have "Suc (3 * Suc n) = Suc (Suc (Suc (Suc (3 * n))))" by simp
  then show ?case
    using Suc.IH
    by (auto split: option.splits sum.splits prod.splits simp del: mult_Suc_right simp: Let_def split: Option.bind_splits)
qed simp

section \<open>Clients\<close>

text \<open>A call of \<open>guaranteedUpdate\<close> on the files of the directory \<open>d\<close>. Its update function
  may look at the object only; it leaves a file system in which the directory exists alone.\<close>

record 'b client =
  cl_rest :: "(memory_fs, 'b) filepathREST"
  cl_ctx :: request_ctx
  cl_name :: string
  cl_upd :: "(memory_fs, 'b) updateFunc"

definition cl_key :: "'b client \<Rightarrow> string" where
  "cl_key cl = cl_name cl @ ''.json''"

definition client_ok :: "string \<Rightarrow> 'b client \<Rightarrow> bool" where
  "client_ok d cl \<longleftrightarrow>
     (\<exists>ord. rest_fs (cl_rest cl) = MemoryFS ord) \<and> plain_seg (cl_key cl) \<and>
     objectFileName (cl_rest cl) (cl_ctx cl) (cl_name cl) = path_below d [cl_key cl] \<and>
     (\<forall>so. \<exists>r. \<forall>s. flat d s \<longrightarrow> cl_upd cl so s = Some (s, r))"

abbreviation client_step :: "'b client \<Rightarrow> 'b gu_pc \<Rightarrow> memory_fs \<Rightarrow> ('b gu_pc \<times> memory_fs) option" where
  "client_step cl \<equiv> gu_step (cl_rest cl) (cl_ctx cl) (cl_name cl) (cl_upd cl)"

record 'b csys =
  cs_fs :: memory_fs
  cs_pcs :: "'b gu_pc list"

text \<open>A step of one client, or any other operation on a file of the directory. The revision counter
  of the file system has not reached its last value: a run has fewer than \<open>2 ^ 64\<close> writes.\<close>

inductive concurrent_step :: "string \<Rightarrow> 'b client list \<Rightarrow> 'b csys \<Rightarrow> 'b csys \<Rightarrow> bool" for d cls where
  step_client:
    "c < length cls \<Longrightarrow> mfs_rev (cs_fs s) \<noteq> - 1 \<Longrightarrow> client_step (cls ! c) (cs_pcs s ! c) (cs_fs s) = Some (pc, fs) \<Longrightarrow>
       concurrent_step d cls s \<lparr>cs_fs = fs, cs_pcs = (cs_pcs s)[c := pc]\<rparr>"
| step_other:
    "plain_seg (op_key x) \<Longrightarrow> mfs_rev (cs_fs s) \<noteq> - 1 \<Longrightarrow> mem_step (enc :: 'b encoder) dec new d x (cs_fs s) = (fs, r) \<Longrightarrow>
       concurrent_step d cls s (s\<lparr>cs_fs := fs\<rparr>)"

text \<open>Versions in use are not 0 and not above the revision.\<close>

definition kv_ok :: "kv \<Rightarrow> bool" where
  "kv_ok s \<longleftrightarrow> (\<forall>k v. kv_files s k = Some v \<longrightarrow> version v \<noteq> 0 \<and> version v \<le> kv_rev s)"

inductive concurrent_reach :: "string \<Rightarrow> 'b client list \<Rightarrow> 'b csys \<Rightarrow> bool" for d cls where
  reach_init:
    "flat d fs \<Longrightarrow> kv_ok (kv_abs d fs) \<Longrightarrow>
       concurrent_reach d cls \<lparr>cs_fs = fs, cs_pcs = replicate (length cls) (GU_Start maxAttempts 0)\<rparr>"
| reach_concurrent: "concurrent_reach d cls s \<Longrightarrow> concurrent_step d cls s s' \<Longrightarrow> concurrent_reach d cls s'"

section \<open>Lemmas\<close>

lemma uint64_above: "r \<noteq> - 1 \<Longrightarrow> v \<le> r \<Longrightarrow> v < r + 1" for v r :: uint64
  using uint64_inc_pos(1) [of r] by (blast intro: le_less_trans)

text \<open>What a step of the specification can do to the files.\<close>

lemma kv_step_effect:
  assumes "kv_step enc dec new x s = (s', r)" and "kv_rev s \<noteq> - 1"
  obtains "s' = s" | "s' = s\<lparr>kv_rev := kv_rev s + 1\<rparr>"
  | buf where "s' = \<lparr>kv_files = (kv_files s)(op_key x \<mapsto> \<lparr>version = kv_rev s + 1, data = buf\<rparr>), kv_rev = kv_rev s + 1\<rparr>"
  | "s' = s\<lparr>kv_files := (kv_files s)(op_key x := None)\<rparr>"
  using assms(1)
  by (cases x) (auto simp: kv_swap_def Let_def split: sum.splits if_splits)

text \<open>What a client remembers of its read: if the file still has the version that it saw, then it
  still has the content that it saw.\<close>

definition remembers :: "'b client \<Rightarrow> kv \<Rightarrow> 'b Object option \<Rightarrow> uint64 \<Rightarrow> bool" where
  "remembers cl s so sv \<longleftrightarrow> sv \<le> kv_rev s \<and> (sv = 0 \<longrightarrow> so = None) \<and> getResourceVersion so = Inr sv \<and>
     (kv_version s (cl_key cl) = sv \<longrightarrow>
        (case kv_files s (cl_key cl) of None \<Rightarrow> so = None
         | Some v \<Rightarrow> \<exists>obj. so = Some obj \<and> decodeBuffer (rest_dec (cl_rest cl)) v (newFunc (cl_rest cl)) = Inr obj))"

lemma remembers_step:
  assumes "kv_step enc dec new x s = (s', r)" and "kv_rev s \<noteq> - 1" and "kv_ok s"
  shows "kv_ok s'" and "remembers cl s so sv \<Longrightarrow> remembers cl s' so sv"
proof -
  note up = uint64_above [OF assms(2)] and pos = uint64_inc_pos(2) [OF assms(2)]
  have le: "v \<le> kv_rev s + 1" if "v \<le> kv_rev s" for v using up [OF that] by simp
  show "kv_ok s'" using assms(1,2)
  proof (cases rule: kv_step_effect)
    case (3 buf)
    with assms(3) le pos show ?thesis by (auto simp: kv_ok_def)
  qed (use assms(3) le in \<open>auto simp: kv_ok_def\<close>)
  assume m: "remembers cl s so sv"
  show "remembers cl s' so sv" using assms(1,2)
  proof (cases rule: kv_step_effect)
    case (3 buf)
    have "sv \<noteq> kv_rev s + 1" using m up by (auto simp: remembers_def)
    with m 3 le show ?thesis by (auto simp: remembers_def kv_version_def)
  qed (use m le in \<open>auto simp: remembers_def kv_version_def split: option.splits\<close>)
qed

lemma gu_write_cases:
  assumes "gu_step f ctx name upd (GU_Write n i so sv out flags) s = Some (pc, s')"
  obtains out' w where "fs_Write (rest_fs f) (rest_enc f) (objectFileName f ctx name) out sv s = Some (s', out', w)"
    and "pc = (case w of None \<Rightarrow> GU_Done (Inr (out', flags))
      | Some e \<Rightarrow> if is_VersionError e then GU_Start n (Suc i) else GU_Done (Inl e))"
proof (cases "fs_Write (rest_fs f) (rest_enc f) (objectFileName f ctx name) out sv s")
  case None
  with assms show thesis by simp
next
  case (Some x)
  obtain s3 out' w where x: "x = (s3, out', w)" by (cases x)
  with assms Some have "s3 = s'" "pc = (case w of None \<Rightarrow> GU_Done (Inr (out', flags))
      | Some e \<Rightarrow> if is_VersionError e then GU_Start n (Suc i) else GU_Done (Inl e))"
    by (cases w; auto split: if_splits)+
  with that Some x show thesis by simp
qed

text \<open>The two calls of the file system that a client makes, on the abstraction.\<close>

lemma client_Get:
  assumes "client_ok d cl" and "good_path d" and "flat d s"
  shows "rest_Get (cl_rest cl) (cl_ctx cl) (cl_name cl) s =
    Some (s, case kv_files (kv_abs d s) (cl_key cl) of
        None \<Rightarrow> Inl (NotFound (groupResource (cl_rest cl)) (cl_name cl))
      | Some v \<Rightarrow>
          (case decodeBuffer (rest_dec (cl_rest cl)) v (newFunc (cl_rest cl)) of
             Inl e \<Rightarrow> Inl (if os_IsNotExist e then NotFound (groupResource (cl_rest cl)) (cl_name cl) else e)
           | Inr obj \<Rightarrow> Inr obj))"
proof -
  from assms(1) obtain ord where o: "rest_fs (cl_rest cl) = MemoryFS ord" "plain_seg (cl_key cl)"
    "objectFileName (cl_rest cl) (cl_ctx cl) (cl_name cl) = path_below d [cl_key cl]" by (auto simp: client_ok_def)
  from flat_readBuffer [OF assms(3,2) o(2)] show ?thesis
    by (simp add: rest_Get_def o(1,3) MemoryFS_ops MemoryFS_Read_def split: option.splits sum.splits)
qed

lemma client_Write:
  assumes "client_ok d cl" and "good_path d" and "flat d s"
    and "fs_Write (rest_fs (cl_rest cl)) enc (objectFileName (cl_rest cl) (cl_ctx cl) (cl_name cl)) out sv s = Some (s', out', w)"
  shows "flat d s' \<and> kv_step enc dec new (OpWrite (cl_key cl) out sv) (kv_abs d s) = (kv_abs d s', ResWrite out' w)"
proof (rule mem_step_refines [OF assms(3,2)])
  show "plain_seg (op_key (OpWrite (cl_key cl) out sv))" using assms(1) by (simp add: client_ok_def)
  show "mem_step enc dec new d (OpWrite (cl_key cl) out sv) s = (s', ResWrite out' w)"
    using assms(1,4) by (auto simp: client_ok_def MemoryFS_ops)
qed

definition pc_ok :: "string \<Rightarrow> 'b client \<Rightarrow> kv \<Rightarrow> 'b gu_pc \<Rightarrow> bool" where
  "pc_ok d cl s pc \<longleftrightarrow>
     (case pc of
        GU_Got n i so sv \<Rightarrow> ctx_Err (cl_ctx cl) i = None \<and> remembers cl s so sv
      | GU_Write n i so sv out flags \<Rightarrow>
          ctx_Err (cl_ctx cl) i = None \<and> remembers cl s so sv \<and> (\<forall>fs. flat d fs \<longrightarrow> cl_upd cl so fs = Some (fs, Inr (out, flags)))
      | _ \<Rightarrow> True)"

lemma pc_ok_step:
  assumes "kv_step enc dec new x s = (s', r)" and "kv_rev s \<noteq> - 1" and "kv_ok s" and "pc_ok d cl s pc"
  shows "pc_ok d cl s' pc"
  using assms(4) remembers_step(2) [OF assms(1-3)] by (auto simp: pc_ok_def split: gu_pc.splits)

lemma remembers_read:
  assumes "kv_ok s" and "kv_files s (cl_key cl) = Some v"
    and "decodeBuffer (rest_dec (cl_rest cl)) v (newFunc (cl_rest cl)) = Inr obj"
  shows "remembers cl s (Some obj) (version v) \<and> getResourceVersion (Some obj) = Inr (version v)"
proof -
  have "getResourceVersion (Some obj) = Inr (version v)"
    using assms(3) by (auto simp: decodeBuffer_def setResourceVersion_Inr_iff getResourceVersion_with_rv split: sum.splits)
  with assms show ?thesis by (auto simp: remembers_def kv_ok_def kv_version_def)
qed

lemma getResourceVersion_None [simp]: "getResourceVersion None = Inr 0"
  by (simp add: getResourceVersion_def)

lemma remembers_nothing: "kv_ok s \<Longrightarrow> remembers cl s None 0"
  by (auto simp: remembers_def kv_ok_def kv_version_def getResourceVersion_def split: option.splits)

lemma client_step_ok:
  fixes cl :: "'b client"
  assumes cl: "client_ok d cl" and d: "good_path d" and fl: "flat d s" and ok: "kv_ok (kv_abs d s)"
    and rev: "mfs_rev s \<noteq> - 1" and pc: "pc_ok d cl (kv_abs d s) pc" and st: "client_step cl pc s = Some (pc', s')"
  shows "flat d s' \<and> pc_ok d cl (kv_abs d s') pc' \<and>
    (s' = s \<or> (\<exists>(enc :: 'b encoder) dec new x r. kv_step enc dec new x (kv_abs d s) = (kv_abs d s', r)))"
proof (cases pc)
  case (GU_Start n i)
  show ?thesis
  proof (cases n)
    case 0
    with GU_Start st fl show ?thesis by (auto simp: pc_ok_def)
  next
    case (Suc m)
    from st Suc GU_Start fl remembers_nothing [OF ok, of cl] remembers_read [OF ok, of cl]
    show ?thesis
      by (auto simp: client_Get [OF cl d fl] pc_ok_def split: option.splits sum.splits if_splits)
  qed
next
  case (GU_Got n i so sv)
  from cl obtain r where r: "\<forall>fs. flat d fs \<longrightarrow> cl_upd cl so fs = Some (fs, r)" unfolding client_ok_def by metis
  with st GU_Got pc fl show ?thesis by (auto simp: pc_ok_def split: sum.splits prod.splits)
next
  case (GU_Write n i so sv out flags)
  from st [unfolded GU_Write] obtain out' w where w: "fs_Write (rest_fs (cl_rest cl)) (rest_enc (cl_rest cl))
      (objectFileName (cl_rest cl) (cl_ctx cl) (cl_name cl)) out sv s = Some (s', out', w)"
    and pc': "pc' = (case w of None \<Rightarrow> GU_Done (Inr (out', flags))
      | Some e \<Rightarrow> if is_VersionError e then GU_Start n (Suc i) else GU_Done (Inl e))"
    by (rule gu_write_cases)
  have "pc_ok d cl kv pc'" for kv unfolding pc' by (simp add: pc_ok_def split: option.split)
  with client_Write [OF cl d fl w] show ?thesis by blast
next
  case (GU_Done r)
  with st fl show ?thesis by (auto simp: pc_ok_def)
qed

text \<open>The invariant of the system.\<close>

definition csys_ok :: "string \<Rightarrow> 'b client list \<Rightarrow> 'b csys \<Rightarrow> bool" where
  "csys_ok d cls s \<longleftrightarrow> flat d (cs_fs s) \<and> kv_ok (kv_abs d (cs_fs s)) \<and> length (cs_pcs s) = length cls \<and>
     (\<forall>c < length cls. pc_ok d (cls ! c) (kv_abs d (cs_fs s)) (cs_pcs s ! c))"

lemma csys_ok_step:
  assumes "concurrent_step d cls s s'" and "csys_ok d cls s" and "good_path d" and "\<forall>cl \<in> set cls. client_ok d cl"
  shows "csys_ok d cls s'"
  using assms(1)
proof cases
  case (step_client c pc fs)
  from step_client(2) assms(4) have cl: "client_ok d (cls ! c)" by simp
  from assms(2) step_client(2) have i: "flat d (cs_fs s)" "kv_ok (kv_abs d (cs_fs s))" "length (cs_pcs s) = length cls"
    "pc_ok d (cls ! c) (kv_abs d (cs_fs s)) (cs_pcs s ! c)" "\<And>j. j < length cls \<Longrightarrow> pc_ok d (cls ! j) (kv_abs d (cs_fs s)) (cs_pcs s ! j)"
    by (auto simp: csys_ok_def)
  have rev: "kv_rev (kv_abs d (cs_fs s)) \<noteq> - 1" using step_client(3) by (simp add: kv_abs_def)
  note k = client_step_ok [OF cl assms(3) i(1,2) step_client(3) i(4) step_client(4)]
  then have "kv_ok (kv_abs d fs) \<and> (\<forall>j < length cls. pc_ok d (cls ! j) (kv_abs d fs) (cs_pcs s ! j))"
    using i remembers_step(1) [OF _ rev i(2)] pc_ok_step [OF _ rev i(2)] by metis
  with k i(3) step_client(1,2) show ?thesis by (auto simp: csys_ok_def nth_list_update)
next
  case (step_other x enc dec new fs r)
  from assms(2) have i: "flat d (cs_fs s)" "kv_ok (kv_abs d (cs_fs s))" by (simp_all add: csys_ok_def)
  have rev: "kv_rev (kv_abs d (cs_fs s)) \<noteq> - 1" using step_other(3) by (simp add: kv_abs_def)
  from mem_step_refines [OF i(1) assms(3) step_other(2,4)] have k: "flat d fs" "kv_step enc dec new x (kv_abs d (cs_fs s)) = (kv_abs d fs, r)" by auto
  with remembers_step(1) [OF k(2) rev i(2)] pc_ok_step [OF k(2) rev i(2)] assms(2) step_other(1) show ?thesis
    by (auto simp: csys_ok_def)
qed

lemma concurrent_reach_ok:
  assumes "good_path d" and "\<forall>cl \<in> set cls. client_ok d cl"
  shows "concurrent_reach d cls s \<Longrightarrow> csys_ok d cls s"
proof (induction rule: concurrent_reach.induct)
  case (reach_concurrent s s')
  then show ?case using csys_ok_step assms by blast
qed (auto simp: csys_ok_def pc_ok_def)

text \<open>The clients that \<open>Update\<close> makes.\<close>

definition update_client ::
  "meta_validators \<Rightarrow> (memory_fs, 'b) filepathREST \<Rightarrow> request_ctx \<Rightarrow> string \<Rightarrow> ('b Object option \<Rightarrow> go_error + 'b Object) \<Rightarrow>
     'b validate_object \<Rightarrow> 'b validate_update \<Rightarrow> bool \<Rightarrow> 'b client" where
  "update_client V f ctx name updatedObject cv uv force =
     \<lparr>cl_rest = f, cl_ctx = ctx, cl_name = name, cl_upd = tryUpdate V f ctx name updatedObject cv uv force\<rparr>"

lemma flat_has_dir: "flat d s \<Longrightarrow> MemoryFS_EnsureDir d s = (s, None)"
  by (elim flatE) (simp add: MemoryFS_EnsureDir_def)

lemma update_client_ok:
  assumes "rest_fs f = MemoryFS ord" and "wf_rest f" and "wf_ctx ctx" and "slash \<notin> set name" and "hooks_return (rest_strategy f) ctx"
  shows "client_ok (objectDirName f ctx) (update_client V f ctx name updatedObject cv uv force)"
proof -
  have "\<exists>r. \<forall>s. flat (objectDirName f ctx) s \<longrightarrow> tryUpdate V f ctx name updatedObject cv uv force so s = Some (s, r)" for so
  proof -
    define r where "r = (if NamespaceScoped f \<and> ctx_namespace ctx = None then Some ErrNamespaceNotExists else None)"
    have e: "ensure_namespace_dir f ctx s = Some (s, r)" if "flat (objectDirName f ctx) s" for s
      using flat_has_dir [OF that]
      by (auto simp: ensure_namespace_dir_def r_def objectDirName_def ns_or_empty_def assms(1) MemoryFS_ops split: option.splits if_splits)
    show ?thesis
    proof (cases "getResourceVersion so")
      case (Inl x)
      then show ?thesis by (auto simp: tryUpdate_def)
    next
      case (Inr v)
      obtain res where "tryUpdate_checks V f ctx name updatedObject cv uv so v = Some res"
        using tryUpdate_checks_returns [OF assms(5)] by blast
      with Inr e show ?thesis by (cases r) (auto simp: tryUpdate_def)
    qed
  qed
  then show ?thesis
    using assms(1) plain_seg_json [OF assms(4)] objectFileName_in_dir [OF assms(2,3,4)]
    by (auto simp: client_ok_def update_client_def cl_key_def)
qed

section \<open>Property\<close>

text \<open>C11. Concurrent updates are linearizable: whatever other clients and other requests do on the same
  directory in between, when the write of an update succeeds, its whole effect and result are those
  of the sequential loop run at that moment; when an update ends with an error or has to retry, this
  last step changed no file. So no update is lost.\<close>

theorem Concurrent_update_linearizable:
  assumes "good_path d" and "\<forall>cl \<in> set cls. client_ok d cl" and "concurrent_reach d cls s"
    and "c < length cls" and "cs_pcs s ! c = GU_Write n i so sv out flags" and "mfs_rev (cs_fs s) \<noteq> - 1"
    and "client_step (cls ! c) (cs_pcs s ! c) (cs_fs s) = Some (pc, fs)"
  shows "case pc of
      GU_Done (Inr r) \<Rightarrow> guaranteedUpdate_loop (cl_rest (cls ! c)) (cl_ctx (cls ! c)) (cl_name (cls ! c)) (cl_upd (cls ! c))
        (Suc n) i (cs_fs s) = Some (fs, Inr r)
    | _ \<Rightarrow> kv_files (kv_abs d fs) = kv_files (kv_abs d (cs_fs s))"
proof -
  let ?cl = "cls ! c" and ?kv = "kv_abs d (cs_fs s)"
  from assms(2,4) have cl: "client_ok d ?cl" by simp
  from concurrent_reach_ok [OF assms(1,2,3)] assms(4,5) have fl: "flat d (cs_fs s)" and ok: "kv_ok ?kv"
    and pc: "ctx_Err (cl_ctx ?cl) i = None" "remembers ?cl ?kv so sv" "cl_upd ?cl so (cs_fs s) = Some (cs_fs s, Inr (out, flags))"
    by (force simp: csys_ok_def pc_ok_def)+
  from assms(7) [unfolded assms(5)] obtain out' w where w: "fs_Write (rest_fs (cl_rest ?cl)) (rest_enc (cl_rest ?cl))
      (objectFileName (cl_rest ?cl) (cl_ctx ?cl) (cl_name ?cl)) out sv (cs_fs s) = Some (fs, out', w)"
    and pc': "pc = (case w of None \<Rightarrow> GU_Done (Inr (out', flags))
      | Some e \<Rightarrow> if is_VersionError e then GU_Start n (Suc i) else GU_Done (Inl e))"
    by (rule gu_write_cases)
  from client_Write [OF cl assms(1) fl w] have k: "kv_step (rest_enc (cl_rest ?cl)) undefined undefined (OpWrite (cl_key ?cl) out sv) ?kv
    = (kv_abs d fs, ResWrite out' w)" by blast
  show ?thesis
  proof (cases w)
    case None
    with k have "kv_version ?kv (cl_key ?cl) = sv" by (auto simp: kv_swap_def split: sum.splits if_splits)
    with pc(2) have g: "(case kv_files ?kv (cl_key ?cl) of None \<Rightarrow> so = None
        | Some v \<Rightarrow> \<exists>obj. so = Some obj \<and> decodeBuffer (rest_dec (cl_rest ?cl)) v (newFunc (cl_rest ?cl)) = Inr obj)"
      "getResourceVersion so = Inr sv" by (auto simp: remembers_def)
    with None w pc pc' show ?thesis
      by (auto simp: client_Get [OF cl assms(1) fl] split: option.splits)
  next
    case (Some e)
    with k have "kv_files (kv_abs d fs) = kv_files ?kv"
      by (auto simp: kv_swap_def Let_def split: sum.splits if_splits) (metis kv.select_convs(1) kv.surjective kv.update_convs(2))+
    with Some pc' show ?thesis by (simp split: gu_pc.split)
  qed
qed

text \<open>Two clients that edit the same manifest and have both read it.\<close>

definition two_clients :: "ManifestBody client list" where
  "two_clients =
     [update_client no_checks manifest_rest cluster_ctx ''a'' (edit ''new'' [] ''2'') None None False,
      update_client no_checks manifest_rest cluster_ctx ''a'' (edit ''other'' [] ''2'') None None False]"

abbreviation "edited msg \<equiv> manifest_of ''a'' [] ''u1'' ''2'' msg [] False []"

definition both_read :: "ManifestBody csys" where
  "both_read =
     \<lparr>cs_fs = st_fs store_a,
      cs_pcs = [GU_Write 99 0 (Some (edited ''hi'')) 2 (edited ''new'') (False, False),
                GU_Write 99 0 (Some (edited ''hi'')) 2 (edited ''other'') (False, False)]\<rparr>"

lemma two_clients_steps:
  "client_step (two_clients ! 0) (GU_Start maxAttempts 0) (st_fs store_a) = Some (GU_Got 99 0 (Some (edited ''hi'')) 2, st_fs store_a)"
  "client_step (two_clients ! 1) (GU_Start maxAttempts 0) (st_fs store_a) = Some (GU_Got 99 0 (Some (edited ''hi'')) 2, st_fs store_a)"
  "client_step (two_clients ! 0) (GU_Got 99 0 (Some (edited ''hi'')) 2) (st_fs store_a) =
     Some (GU_Write 99 0 (Some (edited ''hi'')) 2 (edited ''new'') (False, False), st_fs store_a)"
  "client_step (two_clients ! 1) (GU_Got 99 0 (Some (edited ''hi'')) 2) (st_fs store_a) =
     Some (GU_Write 99 0 (Some (edited ''hi'')) 2 (edited ''other'') (False, False), st_fs store_a)"
  by (code_simp; fail)+

lemma store_a_flat: "flat (objectDirName manifest_rest cluster_ctx) (st_fs store_a)"
  "kv_ok (kv_abs (objectDirName manifest_rest cluster_ctx) (st_fs store_a))"
proof -
  let ?d = "objectDirName manifest_rest cluster_ctx" and ?s = "st_fs store_a"
  have i: "mem_inv ?s" using store_a_ready by (simp add: mem_ready_def)
  define es where "es = (case lookup_node (mfs_dir ?s) (path_parts ?d) of Some (Dir es) \<Rightarrow> es | _ \<Rightarrow> [])"
  have es: "lookup_node (mfs_dir ?s) (path_parts ?d) = Some (Dir es)"
    and f: "list_all (\<lambda>(k, n). case n of File v \<Rightarrow> version v \<le> mfs_rev ?s | Dir _ \<Rightarrow> False) es"
    unfolding es_def by (code_simp; fail)+
  have n: "\<exists>v. n = File v \<and> version v \<le> mfs_rev ?s" if "map_of es k = Some n" for k n
    using map_of_SomeD [OF that] f by (auto simp: list_all_iff split: node.splits)
  then show fl: "flat ?d ?s" using i es by (intro flatI) blast+
  show "kv_ok (kv_abs ?d ?s)"
    unfolding kv_ok_def
  proof (intro allI impI)
    fix k v assume v: "kv_files (kv_abs ?d ?s) k = Some v"
    from fl obtain es' where "lookup_node (mfs_dir ?s) (path_parts ?d) = Some (Dir es')"
      "\<forall>k. map_of es' k = map_option File (kv_files (kv_abs ?d ?s) k)" by (rule flatE)
    with v es have "map_of es k = Some (File v)" by simp
    with n [OF this] kv_version_abs(2) [OF fl v] show "version v \<noteq> 0 \<and> version v \<le> kv_rev (kv_abs ?d ?s)" by (simp add: kv_abs_def)
  qed
qed

lemma done_cases:
  assumes "case x of Some (GU_Done (Inr r), fs) \<Rightarrow> True | _ \<Rightarrow> False"
  obtains r fs where "x = Some (GU_Done (Inr r), fs)"
proof (cases x)
  case (Some y)
  with assms that show ?thesis by (cases "fst y"; cases y; auto split: sum.splits)
qed (use assms in simp)

lemma both_read_reach: "concurrent_reach (objectDirName manifest_rest cluster_ctx) two_clients both_read"
proof -
  let ?fs = "st_fs store_a" and ?got = "GU_Got 99 0 (Some (edited ''hi'')) 2"
  have rev: "mfs_rev ?fs \<noteq> - 1" by code_simp
  have l: "length two_clients = 2" by (simp add: two_clients_def)
  let ?s0 = "\<lparr>cs_fs = ?fs, cs_pcs = [GU_Start maxAttempts 0, GU_Start maxAttempts 0]\<rparr> :: ManifestBody csys"
  let ?R = "concurrent_reach (objectDirName manifest_rest cluster_ctx) two_clients"
  have "?R ?s0" using reach_init [OF store_a_flat, of two_clients] by (simp add: l numeral_2_eq_2)
  from reach_concurrent [OF this step_client [of 0 _ ?s0]] have 1: "?R \<lparr>cs_fs = ?fs, cs_pcs = [?got, GU_Start maxAttempts 0]\<rparr>"
    using two_clients_steps(1) rev l by simp
  from reach_concurrent [OF 1 step_client [of 1]] have 2: "?R \<lparr>cs_fs = ?fs, cs_pcs = [?got, ?got]\<rparr>"
    using two_clients_steps(2) rev l by simp
  from reach_concurrent [OF 2 step_client [of 0]] have 3:
    "?R \<lparr>cs_fs = ?fs, cs_pcs = [GU_Write 99 0 (Some (edited ''hi'')) 2 (edited ''new'') (False, False), ?got]\<rparr>"
    using two_clients_steps(3) rev l by simp
  from reach_concurrent [OF 3 step_client [of 1]] show ?thesis
    using two_clients_steps(4) rev l by (simp add: both_read_def)
qed

theorem Concurrent_update_linearizable_witness:
  "\<exists>fs r. client_step (two_clients ! 0) (cs_pcs both_read ! 0) (st_fs store_a) = Some (GU_Done (Inr r), fs) \<and>
     guaranteedUpdate_loop manifest_rest cluster_ctx ''a''
       (tryUpdate no_checks manifest_rest cluster_ctx ''a'' (edit ''new'' [] ''2'') None None False) 100 0 (st_fs store_a) = Some (fs, Inr r)"
proof -
  have fs: "cs_fs both_read = st_fs store_a" by (simp add: both_read_def)
  have "case client_step (two_clients ! 0) (cs_pcs both_read ! 0) (st_fs store_a) of
      Some (GU_Done (Inr r), fs) \<Rightarrow> True | _ \<Rightarrow> False" by code_simp
  then obtain r fs where st0: "client_step (two_clients ! 0) (cs_pcs both_read ! 0) (st_fs store_a) = Some (GU_Done (Inr r), fs)"
    by (rule done_cases)
  then have st: "client_step (two_clients ! 0) (cs_pcs both_read ! 0) (cs_fs both_read) = Some (GU_Done (Inr r), fs)"
    by (simp only: fs)
  have ok: "\<forall>cl \<in> set two_clients. client_ok (objectDirName manifest_rest cluster_ctx) cl"
  proof -
    have "rest_fs manifest_rest = MemoryFS insertion_order" by (simp add: manifest_rest_def)
    from update_client_ok [OF this] have "client_ok (objectDirName manifest_rest cluster_ctx)
        (update_client V manifest_rest cluster_ctx ''a'' u None None False)" for V u by simp
    then show ?thesis by (simp add: two_clients_def)
  qed
  have g: "good_path (objectDirName manifest_rest cluster_ctx)" by (simp add: objectDirName_below(2))
  have pc: "cs_pcs both_read ! 0 = GU_Write 99 0 (Some (edited ''hi'')) 2 (edited ''new'') (False, False)" by (simp add: both_read_def)
  have rev: "mfs_rev (cs_fs both_read) \<noteq> - 1" by code_simp
  have l: "0 < length two_clients" by (simp add: two_clients_def)
  from Concurrent_update_linearizable [OF g ok both_read_reach l pc rev st]
  have "guaranteedUpdate_loop manifest_rest cluster_ctx ''a''
       (tryUpdate no_checks manifest_rest cluster_ctx ''a'' (edit ''new'' [] ''2'') None None False) (Suc 99) 0 (st_fs store_a) = Some (fs, Inr r)"
    by (simp add: two_clients_def update_client_def both_read_def del: guaranteedUpdate_loop.simps)
  then have "guaranteedUpdate_loop manifest_rest cluster_ctx ''a''
       (tryUpdate no_checks manifest_rest cluster_ctx ''a'' (edit ''new'' [] ''2'') None None False) 100 0 (st_fs store_a) = Some (fs, Inr r)"
    by (simp only: Suc_numeral semiring_norm)
  with st0 show ?thesis by blast
qed

end
