(* ===== verification/Scheme.thy ===== *)
theory Scheme
  imports Go_Lib "HOL-Library.Char_ord" "HOL-Library.List_Lexorder"
begin

text \<open>
  The registry of API types: the part of \<open>runtime.Scheme\<close> (vendored
  \<open>apimachinery/pkg/runtime\<close>) that the server fills, the scheme builder, and the registration
  functions of the repository: \<open>apiserver.NewScheme\<close>, \<open>resource.AddToScheme\<close> of
  \<open>pkg/server/builder/resource/types.go\<close> and \<open>AddToScheme\<close> of
  \<open>pkg/apis/core/v1alpha1/register.go\<close>.

  A Go type is its package path and its name. A registration that panics is \<open>None\<close>; one that
  may fail returns the scheme with an error. The pointer-to-struct checks of the registry are left
  out: the Go types of the model are structs, passed by pointer. So are the conversions and
  defaulting functions that \<open>metav1.AddToGroupVersion\<close> registers for the query parameters of the
  metadata types, which no storage handler uses.
\<close>

section \<open>Definitions\<close>

subsection \<open>Names\<close>

datatype gotype = GoType (PkgPath: string) (TypeName: string)

record GroupVersion =
  gv_Group :: string
  gv_Version :: string

record GroupVersionKind =
  gvk_GroupVersion :: GroupVersion
  gvk_Kind :: string

record GroupVersionResource =
  gvr_Group :: string
  gvr_Version :: string
  gvr_Resource :: string

definition GVR_GroupVersion :: "GroupVersionResource \<Rightarrow> GroupVersion" where
  "GVR_GroupVersion r = \<lparr>gv_Group = gvr_Group r, gv_Version = gvr_Version r\<rparr>"

definition GVR_GroupResource :: "GroupVersionResource \<Rightarrow> GroupResource" where
  "GVR_GroupResource r = \<lparr>gr_Group = gvr_Group r, gr_Resource = gvr_Resource r\<rparr>"

definition WithKind :: "GroupVersion \<Rightarrow> string \<Rightarrow> GroupVersionKind" where
  "WithKind gv k = \<lparr>gvk_GroupVersion = gv, gvk_Kind = k\<rparr>"

definition APIVersionInternal :: string where
  "APIVersionInternal = ''__internal''"

subsection \<open>The registry\<close>

text \<open>A conversion function between two objects returns the new content of its source and of its
  target, an error, or panics.\<close>

type_synonym 'o conversion = "'o \<Rightarrow> 'o \<Rightarrow> (go_error + 'o \<times> 'o) option"

record 'o Scheme =
  gvkToType :: "(GroupVersionKind \<times> gotype) list"
  typeToGVK :: "(gotype \<times> GroupVersionKind list) list"
  unversionedTypes :: "(gotype \<times> GroupVersionKind) list"
  unversionedKinds :: "(string \<times> gotype) list"
  conversionFuncs :: "((gotype \<times> gotype) \<times> 'o conversion) list"
  defaulterFuncs :: "(gotype \<times> ('o \<Rightarrow> 'o)) list"
  versionPriority :: "(string \<times> string list) list"
  observedVersions :: "GroupVersion list"

definition empty_Scheme :: "'o Scheme" where
  "empty_Scheme = \<lparr>gvkToType = [], typeToGVK = [], unversionedTypes = [], unversionedKinds = [],
     conversionFuncs = [], defaulterFuncs = [], versionPriority = [], observedVersions = []\<rparr>"

definition addObservedVersion :: "GroupVersion \<Rightarrow> 'o Scheme \<Rightarrow> 'o Scheme" where
  "addObservedVersion gv s =
     (if gv_Version gv = [] \<or> gv_Version gv = APIVersionInternal then s
      else if gv \<in> set (observedVersions s) then s
      else s\<lparr>observedVersions := observedVersions s @ [gv]\<rparr>)"

definition kinds_of :: "'o Scheme \<Rightarrow> gotype \<Rightarrow> GroupVersionKind list" where
  "kinds_of s t = (case map_of (typeToGVK s) t of None \<Rightarrow> [] | Some ks \<Rightarrow> ks)"

definition AddKnownTypeWithName :: "GroupVersionKind \<Rightarrow> gotype \<Rightarrow> 'o Scheme \<Rightarrow> 'o Scheme option" where
  "AddKnownTypeWithName gvk t s0 =
     (let s = addObservedVersion (gvk_GroupVersion gvk) s0
      in if gv_Version (gvk_GroupVersion gvk) = [] then None
         else if \<exists>old \<in> set_option (map_of (gvkToType s) gvk). old \<noteq> t then None
         else
           let s1 = s\<lparr>gvkToType := AList.update gvk t (gvkToType s)\<rparr>
           in Some (if gvk \<in> set (kinds_of s1 t) then s1
                    else s1\<lparr>typeToGVK := AList.update t (kinds_of s1 t @ [gvk]) (typeToGVK s1)\<rparr>))"

fun add_types :: "GroupVersion \<Rightarrow> gotype list \<Rightarrow> 'o Scheme \<Rightarrow> 'o Scheme option" where
  "add_types gv [] s = Some s"
| "add_types gv (t # ts) s =
     (case AddKnownTypeWithName (WithKind gv (TypeName t)) t s of None \<Rightarrow> None | Some s' \<Rightarrow> add_types gv ts s')"

definition AddKnownTypes :: "GroupVersion \<Rightarrow> gotype list \<Rightarrow> 'o Scheme \<Rightarrow> 'o Scheme option" where
  "AddKnownTypes gv ts s = add_types gv ts (addObservedVersion gv s)"

fun mark_unversioned :: "GroupVersion \<Rightarrow> gotype list \<Rightarrow> 'o Scheme \<Rightarrow> 'o Scheme option" where
  "mark_unversioned gv [] s = Some s"
| "mark_unversioned gv (t # ts) s =
     (let s1 = s\<lparr>unversionedTypes := AList.update t (WithKind gv (TypeName t)) (unversionedTypes s)\<rparr>
      in if \<exists>old \<in> set_option (map_of (unversionedKinds s1) (TypeName t)). t \<noteq> old then None
         else mark_unversioned gv ts (s1\<lparr>unversionedKinds := AList.update (TypeName t) t (unversionedKinds s1)\<rparr>))"

definition AddUnversionedTypes :: "GroupVersion \<Rightarrow> gotype list \<Rightarrow> 'o Scheme \<Rightarrow> 'o Scheme option" where
  "AddUnversionedTypes gv ts s =
     (case AddKnownTypes gv ts (addObservedVersion gv s) of None \<Rightarrow> None | Some s' \<Rightarrow> mark_unversioned gv ts s')"

definition AddConversionFunc :: "gotype \<Rightarrow> gotype \<Rightarrow> 'o conversion \<Rightarrow> 'o Scheme \<Rightarrow> 'o Scheme" where
  "AddConversionFunc a b fn s = s\<lparr>conversionFuncs := AList.update (a, b) fn (conversionFuncs s)\<rparr>"

definition AddTypeDefaultingFunc :: "gotype \<Rightarrow> ('o \<Rightarrow> 'o) \<Rightarrow> 'o Scheme \<Rightarrow> 'o Scheme" where
  "AddTypeDefaultingFunc t fn s = s\<lparr>defaulterFuncs := AList.update t fn (defaulterFuncs s)\<rparr>"

definition SetVersionPriority :: "GroupVersion list \<Rightarrow> 'o Scheme \<Rightarrow> 'o Scheme \<times> go_error option" where
  "SetVersionPriority gvs s =
     (if \<exists>v \<in> set gvs. gv_Version v = [] \<or> gv_Version v = APIVersionInternal
      then (s, Some (OtherError ''internal versions cannot be prioritized''))
      else case remdups (map gv_Group gvs) of
          [g] \<Rightarrow> (s\<lparr>versionPriority := AList.update g (map gv_Version gvs) (versionPriority s)\<rparr>, None)
        | _ \<Rightarrow> (s, Some (OtherError ''must register versions for exactly one group'')))"

definition PrioritizedVersionsForGroup :: "'o Scheme \<Rightarrow> string \<Rightarrow> GroupVersion list" where
  "PrioritizedVersionsForGroup s g =
     foldl (\<lambda>ret ov. if gv_Group ov \<noteq> g \<or> ov \<in> set ret then ret else ret @ [ov])
       (map (\<lambda>v. \<lparr>gv_Group = g, gv_Version = v\<rparr>)
          (case map_of (versionPriority s) g of None \<Rightarrow> [] | Some vs \<Rightarrow> vs))
       (observedVersions s)"

definition Recognizes :: "'o Scheme \<Rightarrow> GroupVersionKind \<Rightarrow> bool" where
  "Recognizes s gvk \<longleftrightarrow> map_of (gvkToType s) gvk \<noteq> None"

subsection \<open>The common types of \<open>metav1\<close>\<close>

abbreviation meta :: "string \<Rightarrow> gotype" where
  "meta n \<equiv> GoType ''k8s.io/apimachinery/pkg/apis/meta/v1'' n"

definition optionsTypes :: "gotype list" where
  "optionsTypes = map meta
     [''ListOptions'', ''GetOptions'', ''DeleteOptions'', ''CreateOptions'', ''UpdateOptions'', ''PatchOptions'']"

definition Unversioned :: GroupVersion where
  "Unversioned = \<lparr>gv_Group = [], gv_Version = ''v1''\<rparr>"

definition AddToGroupVersion :: "GroupVersion \<Rightarrow> 'o Scheme \<Rightarrow> 'o Scheme option" where
  "AddToGroupVersion gv s =
     do {
       s1 \<leftarrow> AddKnownTypeWithName (WithKind gv ''WatchEvent'') (meta ''WatchEvent'') s;
       s2 \<leftarrow> AddKnownTypeWithName (WithKind (gv\<lparr>gv_Version := APIVersionInternal\<rparr>) ''WatchEvent'') (meta ''InternalEvent'') s1;
       s3 \<leftarrow> AddKnownTypes gv optionsTypes s2;
       AddUnversionedTypes Unversioned
         (map meta [''Status'', ''APIVersions'', ''APIGroupList'', ''APIGroup'', ''APIResourceList'']) s3
     }"

subsection \<open>\<open>apiserver.NewScheme\<close>\<close>

definition NewScheme :: "'o Scheme option" where
  "NewScheme =
     do {
       s \<leftarrow> AddToGroupVersion \<lparr>gv_Group = [], gv_Version = ''v1''\<rparr> empty_Scheme;
       AddUnversionedTypes \<lparr>gv_Group = [], gv_Version = ''v1''\<rparr>
         (map meta [''Status'', ''WatchEvent'', ''APIVersions'', ''APIGroupList'', ''APIGroup'', ''APIResourceList'']) s
     }"

subsection \<open>Scheme builders\<close>

type_synonym 'o scheme_func = "'o Scheme \<Rightarrow> ('o Scheme \<times> go_error option) option"
type_synonym 'o SchemeBuilder = "'o scheme_func list"

definition Register :: "'o scheme_func \<Rightarrow> 'o SchemeBuilder \<Rightarrow> 'o SchemeBuilder" where
  "Register f sb = sb @ [f]"

fun SchemeBuilder_AddToScheme :: "'o SchemeBuilder \<Rightarrow> 'o scheme_func" where
  "SchemeBuilder_AddToScheme [] s = Some (s, None)"
| "SchemeBuilder_AddToScheme (f # fs) s =
     (case f s of
        None \<Rightarrow> None
      | Some (s', Some e) \<Rightarrow> Some (s', Some e)
      | Some (s', None) \<Rightarrow> SchemeBuilder_AddToScheme fs s')"

subsection \<open>Resource types\<close>

text \<open>The interfaces of \<open>resource/types.go\<close>. \<open>MultiVersionObject\<close> holds the methods of a
  type, each taking the receiver first: \<open>ConvertToStorageVersion\<close> returns the overwritten
  target, \<open>ConvertFromStorageVersion\<close> the overwritten receiver. A type assertion is a lookup in
  the methods that a Go type has.\<close>

record 'o MultiVersionObject =
  NewStorageVersionObject :: gotype
  ConvertToStorageVersion :: "'o \<Rightarrow> 'o \<Rightarrow> go_error + 'o"
  ConvertFromStorageVersion :: "'o \<Rightarrow> 'o \<Rightarrow> go_error + 'o"

record 'o resource_Object =
  ro_New :: gotype
  ro_NewList :: gotype
  ro_GetGroupVersionResource :: GroupVersionResource
  ro_IsStorageVersion :: bool
  ro_MultiVersion :: "'o MultiVersionObject option"
  ro_Default :: "('o \<Rightarrow> 'o) option"

text \<open>The two functions that are registered for a version that is not stored. Both call a method of
  the source of the conversion.\<close>

definition convert_to_storage :: "('o \<Rightarrow> 'o MultiVersionObject option) \<Rightarrow> 'o conversion" where
  "convert_to_storage mvo src target =
     (case mvo src of
        None \<Rightarrow> None
      | Some m \<Rightarrow>
          Some (case ConvertToStorageVersion m src target of Inl e \<Rightarrow> Inl e | Inr target' \<Rightarrow> Inr (src, target')))"

definition convert_from_storage :: "('o \<Rightarrow> 'o MultiVersionObject option) \<Rightarrow> 'o conversion" where
  "convert_from_storage mvo src target =
     (case mvo src of
        None \<Rightarrow> None
      | Some m \<Rightarrow>
          Some (case ConvertFromStorageVersion m src target of Inl e \<Rightarrow> Inl e | Inr src' \<Rightarrow> Inr (src', target)))"

definition register_versions ::
  "('o \<Rightarrow> 'o MultiVersionObject option) \<Rightarrow> 'o resource_Object \<Rightarrow> 'o scheme_func" where
  "register_versions mvo obj s =
     (if ro_IsStorageVersion obj
      then
        (case AddKnownTypes \<lparr>gv_Group = gvr_Group (ro_GetGroupVersionResource obj), gv_Version = APIVersionInternal\<rparr>
                [ro_New obj, ro_NewList obj] s of
           None \<Rightarrow> None
         | Some s' \<Rightarrow> Some (s', None))
      else
        (case ro_MultiVersion obj of
           None \<Rightarrow> Some (s, Some (OtherError ''resource should implement MultiVersionObject''))
         | Some m \<Rightarrow>
             Some (AddConversionFunc (NewStorageVersionObject m) (ro_New obj) (convert_from_storage mvo)
                     (AddConversionFunc (ro_New obj) (NewStorageVersionObject m) (convert_to_storage mvo) s), None)))"

fun AddToScheme ::
  "('o \<Rightarrow> 'o MultiVersionObject option) \<Rightarrow> 'o resource_Object list \<Rightarrow> 'o scheme_func" where
  "AddToScheme mvo [] s = Some (s, None)"
| "AddToScheme mvo (obj # objs) s =
     (case AddKnownTypes (GVR_GroupVersion (ro_GetGroupVersionResource obj)) [ro_New obj, ro_NewList obj] s of
        None \<Rightarrow> None
      | Some s1 \<Rightarrow>
          (case register_versions mvo obj s1 of
             None \<Rightarrow> None
           | Some (s2, Some e) \<Rightarrow> Some (s2, Some e)
           | Some (s2, None) \<Rightarrow>
               AddToScheme mvo objs
                 (case ro_Default obj of None \<Rightarrow> s2 | Some d \<Rightarrow> AddTypeDefaultingFunc (ro_New obj) d s2)))"

subsection \<open>\<open>v1alpha1.AddToScheme\<close>\<close>

definition GroupName :: string where
  "GroupName = ''core.tilt.dev''"

definition Version :: string where
  "Version = ''v1alpha1''"

definition SchemeGroupVersion :: GroupVersion where
  "SchemeGroupVersion = \<lparr>gv_Group = GroupName, gv_Version = Version\<rparr>"

abbreviation v1alpha1 :: "string \<Rightarrow> gotype" where
  "v1alpha1 n \<equiv> GoType ''github.com/tilt-dev/tilt-apiserver/pkg/apis/core/v1alpha1'' n"

definition v1alpha1_AddToScheme :: "'o scheme_func" where
  "v1alpha1_AddToScheme s =
     do {
       s1 \<leftarrow> AddToGroupVersion SchemeGroupVersion s;
       s2 \<leftarrow> AddKnownTypes SchemeGroupVersion [v1alpha1 ''Manifest'', v1alpha1 ''ManifestList''] s1;
       Some (s2, None)
     }"

definition Resource :: "string \<Rightarrow> GroupResource" where
  "Resource resource = \<lparr>gr_Group = gv_Group SchemeGroupVersion, gr_Resource = resource\<rparr>"

section \<open>The registry stays consistent\<close>

text \<open>The two maps of a scheme are inverse to each other, every registered kind has a version, and
  every version other than the internal one has been observed.\<close>

definition scheme_ok :: "'o Scheme \<Rightarrow> bool" where
  "scheme_ok s \<longleftrightarrow>
     (\<forall>k t. map_of (gvkToType s) k = Some t \<longleftrightarrow> k \<in> set (kinds_of s t)) \<and>
     (\<forall>k t. map_of (gvkToType s) k = Some t \<longrightarrow> gv_Version (gvk_GroupVersion k) \<noteq> [] \<and>
        (gv_Version (gvk_GroupVersion k) = APIVersionInternal \<or> gvk_GroupVersion k \<in> set (observedVersions s)))"

text \<open>One scheme extends another: nothing that was registered is lost or changed.\<close>

definition extends :: "'o Scheme \<Rightarrow> 'o Scheme \<Rightarrow> bool" where
  "extends s s' \<longleftrightarrow> map_of (gvkToType s) \<subseteq>\<^sub>m map_of (gvkToType s') \<and> set (observedVersions s) \<subseteq> set (observedVersions s')"

lemma extends_refl [simp]: "extends s s"
  by (simp add: extends_def)

lemma extends_trans: "extends a b \<Longrightarrow> extends b c \<Longrightarrow> extends a c"
  by (auto simp: extends_def intro: map_le_trans)

lemma extends_lookup: "extends s s' \<Longrightarrow> map_of (gvkToType s) k = Some t \<Longrightarrow> map_of (gvkToType s') k = Some t"
  by (auto simp: extends_def map_le_def dom_def)

lemma scheme_ok_empty [simp]: "scheme_ok empty_Scheme"
  by (simp add: scheme_ok_def empty_Scheme_def kinds_of_def)

lemma kinds_of_update [simp]:
  "kinds_of (s\<lparr>typeToGVK := AList.update t ks (typeToGVK s')\<rparr>) t' =
     (if t' = t then ks else kinds_of (s\<lparr>typeToGVK := typeToGVK s'\<rparr>) t')"
  by (simp add: kinds_of_def)

lemma kinds_of_simps [simp]:
  "kinds_of (s\<lparr>gvkToType := a\<rparr>) = kinds_of s" "kinds_of (s\<lparr>observedVersions := b\<rparr>) = kinds_of s"
  "kinds_of (s\<lparr>typeToGVK := typeToGVK s\<rparr>) = kinds_of s"
  by (simp_all add: kinds_of_def fun_eq_iff)

lemma addObservedVersion_ok:
  "scheme_ok s \<Longrightarrow> scheme_ok (addObservedVersion gv s) \<and> extends s (addObservedVersion gv s) \<and>
     (gv_Version gv \<noteq> [] \<longrightarrow> gv_Version gv = APIVersionInternal \<or> gv \<in> set (observedVersions (addObservedVersion gv s)))"
  by (auto simp: addObservedVersion_def scheme_ok_def extends_def)

text \<open>What a registration does, in terms that chain.\<close>

definition registered :: "GroupVersionKind \<Rightarrow> gotype \<Rightarrow> 'o Scheme \<Rightarrow> bool" where
  "registered k t s \<longleftrightarrow> map_of (gvkToType s) k = Some t \<and> k \<in> set (kinds_of s t)"

lemma registered_iff: "scheme_ok s \<Longrightarrow> registered k t s \<longleftrightarrow> map_of (gvkToType s) k = Some t"
  by (auto simp: registered_def scheme_ok_def)

lemma registered_extends:
  "registered k t s \<Longrightarrow> extends s s' \<Longrightarrow> scheme_ok s \<Longrightarrow> scheme_ok s' \<Longrightarrow> registered k t s'"
  by (auto simp: registered_iff dest: extends_lookup)

lemma AddKnownTypeWithName_ok:
  assumes "AddKnownTypeWithName k t s = Some s'" and "scheme_ok s"
  shows "scheme_ok s' \<and> extends s s' \<and> registered k t s'"
proof -
  let ?s = "addObservedVersion (gvk_GroupVersion k) s"
  note o = addObservedVersion_ok [OF assms(2), of "gvk_GroupVersion k"]
  from assms(1) have v: "gv_Version (gvk_GroupVersion k) \<noteq> []" and
    old: "\<forall>old. map_of (gvkToType ?s) k = Some old \<longrightarrow> old = t"
    by (auto simp: AddKnownTypeWithName_def Let_def split: if_splits)
  have g: "map_of (gvkToType s') = (map_of (gvkToType ?s))(k \<mapsto> t)"
    and ob: "observedVersions s' = observedVersions ?s"
    and ks: "kinds_of s' t' = (if t' = t \<and> k \<notin> set (kinds_of ?s t) then kinds_of ?s t @ [k] else kinds_of ?s t')" for t'
    using assms(1) by (auto simp: AddKnownTypeWithName_def Let_def split: if_splits)
  have le: "map_of (gvkToType ?s) \<subseteq>\<^sub>m map_of (gvkToType s')" using old by (auto simp: g map_le_def)
  have "scheme_ok s'" using o old v unfolding scheme_ok_def g ob ks by auto
  moreover have "extends s s'"
    using o le by (auto simp: extends_def ob intro: map_le_trans)
  moreover have "registered k t s'" by (simp add: registered_def g ks)
  ultimately show ?thesis by blast
qed

lemma add_types_ok:
  "add_types gv ts s = Some s' \<Longrightarrow> scheme_ok s \<Longrightarrow>
     scheme_ok s' \<and> extends s s' \<and> (\<forall>t \<in> set ts. registered (WithKind gv (TypeName t)) t s')"
proof (induction ts arbitrary: s)
  case (Cons t ts)
  then obtain s1 where a: "AddKnownTypeWithName (WithKind gv (TypeName t)) t s = Some s1" and r: "add_types gv ts s1 = Some s'"
    by (auto split: option.splits)
  note k = AddKnownTypeWithName_ok [OF a Cons.prems(2)]
  then have i: "scheme_ok s' \<and> extends s1 s' \<and> (\<forall>t \<in> set ts. registered (WithKind gv (TypeName t)) t s')"
    using Cons.IH [OF r] by blast
  then have "registered (WithKind gv (TypeName t)) t s'" using k by (blast intro: registered_extends)
  with i k show ?case by (auto intro: extends_trans)
qed simp

lemma AddKnownTypes_ok:
  assumes "AddKnownTypes gv ts s = Some s'" and "scheme_ok s"
  shows "scheme_ok s' \<and> extends s s' \<and> (\<forall>t \<in> set ts. registered (WithKind gv (TypeName t)) t s')"
  using add_types_ok [OF assms(1) [unfolded AddKnownTypes_def]] addObservedVersion_ok [OF assms(2), of gv]
  by (auto intro: extends_trans)

text \<open>Parts of a scheme that the invariant does not look at.\<close>

lemma scheme_ok_other [simp]:
  "scheme_ok (AddConversionFunc a b fn s) = scheme_ok s" "scheme_ok (AddTypeDefaultingFunc t d s) = scheme_ok s"
  "extends s0 (AddConversionFunc a b fn s) = extends s0 s" "extends s0 (AddTypeDefaultingFunc t d s) = extends s0 s"
  "extends (AddTypeDefaultingFunc t d s) s0 = extends s s0"
  "registered k t' (AddConversionFunc a b fn s) = registered k t' s"
  "registered k t' (AddTypeDefaultingFunc t d s) = registered k t' s"
  by (simp_all add: scheme_ok_def extends_def registered_def AddConversionFunc_def AddTypeDefaultingFunc_def kinds_of_def)

lemma mark_unversioned_frame:
  "mark_unversioned gv ts s = Some s' \<Longrightarrow>
     gvkToType s' = gvkToType s \<and> typeToGVK s' = typeToGVK s \<and> observedVersions s' = observedVersions s"
  by (induction ts arbitrary: s) (auto simp: Let_def split: if_splits)

lemma scheme_frame:
  assumes "gvkToType s' = gvkToType s" "typeToGVK s' = typeToGVK s" "observedVersions s' = observedVersions s"
  shows "scheme_ok s' = scheme_ok s" "extends s0 s' = extends s0 s" "registered k t s' = registered k t s"
  using assms by (simp_all add: scheme_ok_def extends_def registered_def kinds_of_def)

lemma AddUnversionedTypes_ok:
  assumes "AddUnversionedTypes gv ts s = Some s'" and "scheme_ok s"
  shows "scheme_ok s' \<and> extends s s' \<and> (\<forall>t \<in> set ts. registered (WithKind gv (TypeName t)) t s')"
proof -
  from assms(1) obtain s1 where a: "AddKnownTypes gv ts (addObservedVersion gv s) = Some s1"
    and m: "mark_unversioned gv ts s1 = Some s'" by (auto simp: AddUnversionedTypes_def split: option.splits)
  note o = addObservedVersion_ok [OF assms(2), of gv]
  have k: "scheme_ok s1 \<and> extends (addObservedVersion gv s) s1 \<and> (\<forall>t \<in> set ts. registered (WithKind gv (TypeName t)) t s1)"
    using AddKnownTypes_ok [OF a] o by blast
  note f = scheme_frame [OF mark_unversioned_frame [OF m, THEN conjunct1]
      mark_unversioned_frame [OF m, THEN conjunct2, THEN conjunct1] mark_unversioned_frame [OF m, THEN conjunct2, THEN conjunct2]]
  from k o show ?thesis unfolding f by (blast intro: extends_trans)
qed

lemma AddToGroupVersion_ok:
  assumes "AddToGroupVersion gv s = Some s'" and "scheme_ok s"
  shows "scheme_ok s' \<and> extends s s' \<and> registered (WithKind gv ''WatchEvent'') (meta ''WatchEvent'') s'"
proof -
  from assms(1) obtain s1 s2 s3 where
    a: "AddKnownTypeWithName (WithKind gv ''WatchEvent'') (meta ''WatchEvent'') s = Some s1"
    and b: "AddKnownTypeWithName (WithKind (gv\<lparr>gv_Version := APIVersionInternal\<rparr>) ''WatchEvent'') (meta ''InternalEvent'') s1 = Some s2"
    and c: "AddKnownTypes gv optionsTypes s2 = Some s3"
    and d: "AddUnversionedTypes Unversioned (map meta [''Status'', ''APIVersions'', ''APIGroupList'', ''APIGroup'', ''APIResourceList'']) s3 = Some s'"
    by (auto simp: AddToGroupVersion_def bind_eq_Some_conv)
  note ka = AddKnownTypeWithName_ok [OF a assms(2)]
  note kb = AddKnownTypeWithName_ok [OF b ka [THEN conjunct1]]
  note kc = AddKnownTypes_ok [OF c kb [THEN conjunct1]]
  note kd = AddUnversionedTypes_ok [OF d kc [THEN conjunct1]]
  have e: "extends s1 s'" using kb kc kd by (blast intro: extends_trans)
  with ka kd have "registered (WithKind gv ''WatchEvent'') (meta ''WatchEvent'') s'"
    by (blast intro: registered_extends)
  with ka kd e show ?thesis by (blast intro: extends_trans)
qed

end
