(* ===== verification/Net_Lib.thy ===== *)
theory Net_Lib
  imports Real_Fs
begin

text \<open>
  The parts of Go's library that the serving code computes with: IP addresses and their text form,
  \<open>net.JoinHostPort\<close>, \<open>strconv.Itoa\<close>, \<open>strings.TrimSpace\<close>, and the machine the
  server runs on as far as it matters: a disk, the open network listeners and a clock.

  What the operating system answers to \<open>Listen\<close> and what the clock shows are fields of
  \<open>sys\<close>, and so are the decoders of certificates (\<open>encoding/pem\<close>, \<open>crypto/x509\<close>,
  \<open>crypto/tls\<close>) and the generator of self-signed certificates.
\<close>

section \<open>Text\<close>

definition Itoa :: "int \<Rightarrow> string" where
  "Itoa i = (if i < 0 then CHR ''-'' # dec_digits (nat (- i)) else dec_digits (nat i))"

definition is_space :: "char \<Rightarrow> bool" where
  "is_space c \<longleftrightarrow> (of_char c :: nat) \<in> {9, 10, 11, 12, 13, 32}"

definition TrimSpace :: "string \<Rightarrow> string" where
  "TrimSpace s = rev (dropWhile is_space (rev (dropWhile is_space s)))"

definition hex_char :: "nat \<Rightarrow> char" where
  "hex_char d = char_of (if d < 10 then 48 + d else 87 + d)"

fun hex_digits :: "nat \<Rightarrow> string" where
  "hex_digits n = (if n < 16 then [hex_char n] else hex_digits (n div 16) @ [hex_char (n mod 16)])"

declare hex_digits.simps [simp del]

section \<open>IP addresses\<close>

text \<open>\<open>net.IP\<close>: a byte slice, empty for \<open>nil\<close>, of 4 or of 16 bytes otherwise. An IPv4
  address of 16 bytes has a fixed prefix.\<close>

type_synonym ip = "8 word list"

definition v4InV6Prefix :: ip where
  "v4InV6Prefix = replicate 10 0 @ [255, 255]"

definition IPv4 :: "8 word \<Rightarrow> 8 word \<Rightarrow> 8 word \<Rightarrow> 8 word \<Rightarrow> ip" where
  "IPv4 a b c d = v4InV6Prefix @ [a, b, c, d]"

definition IPv6unspecified :: ip where
  "IPv6unspecified = replicate 16 0"

definition To4 :: "ip \<Rightarrow> ip" where
  "To4 ip =
     (if length ip = 4 then ip
      else if length ip = 16 \<and> take 12 ip = v4InV6Prefix then drop 12 ip
      else [])"

definition IP_Equal :: "ip \<Rightarrow> ip \<Rightarrow> bool" where
  "IP_Equal ip x =
     (if length ip = length x then ip = x
      else if length ip = 4 \<and> length x = 16 then take 12 x = v4InV6Prefix \<and> ip = drop 12 x
      else if length ip = 16 \<and> length x = 4 then take 12 ip = v4InV6Prefix \<and> drop 12 ip = x
      else False)"

definition IsUnspecified :: "ip \<Rightarrow> bool" where
  "IsUnspecified ip \<longleftrightarrow> IP_Equal ip (IPv4 0 0 0 0) \<or> IP_Equal ip IPv6unspecified"

subsection \<open>Text form\<close>

definition v4_String :: "ip \<Rightarrow> string" where
  "v4_String ip = join_with ''.'' (map (\<lambda>b. dec_digits (unat b)) ip)"

text \<open>The eight 16-bit fields; the longest run of at least two zero fields, the first of them
  if there are several, is written as a double colon.\<close>

fun v6_fields :: "ip \<Rightarrow> nat list" where
  "v6_fields (a # b # r) = (unat a * 256 + unat b) # v6_fields r"
| "v6_fields _ = []"

definition zero_run_at :: "nat list \<Rightarrow> nat \<Rightarrow> nat" where
  "zero_run_at fs i = length (takeWhile (\<lambda>n. n = 0) (drop i fs))"

definition zero_run :: "nat list \<Rightarrow> nat \<times> nat" where
  "zero_run fs =
     foldl (\<lambda>(a, l) i. let r = zero_run_at fs i in if 2 \<le> r \<and> l < r then (i, r) else (a, l)) (0, 0) [0..<length fs]"

definition v6_String :: "ip \<Rightarrow> string" where
  "v6_String ip =
     (let fs = v6_fields ip; (a, l) = zero_run fs; text = (\<lambda>ns. join_with '':'' (map hex_digits ns))
      in if l = 0 then text fs else text (take a fs) @ ''::'' @ text (drop (a + l) fs))"

definition IP_String :: "ip \<Rightarrow> string" where
  "IP_String ip =
     (if ip = [] then ''<nil>''
      else if length ip \<noteq> 4 \<and> length ip \<noteq> 16
      then ''?'' @ concat (map (\<lambda>b. [hex_char (unat b div 16), hex_char (unat b mod 16)]) ip)
      else if length (To4 ip) = 4 then v4_String (To4 ip)
      else v6_String ip)"

text \<open>\<open>net.JoinHostPort\<close> puts a host with a colon into brackets; \<open>host_port\<close> is what
  the format \<open>%s:%d\<close> makes of an address and a port.\<close>

definition JoinHostPort :: "string \<Rightarrow> string \<Rightarrow> string" where
  "JoinHostPort host port =
     (if CHR '':'' \<in> set host then ''['' @ host @ '']:'' @ port else host @ '':'' @ port)"

definition host_port :: "ip \<Rightarrow> int \<Rightarrow> string" where
  "host_port ip port = IP_String ip @ '':'' @ Itoa port"

section \<open>The machine\<close>

datatype net_addr =
    TCPAddr ip int string
  | OtherAddr string

fun Addr_String :: "net_addr \<Rightarrow> string" where
  "Addr_String (TCPAddr ip port zone) =
     JoinHostPort ((if ip = [] then [] else IP_String ip) @ (if zone = [] then [] else ''%'' @ zone)) (Itoa port)"
| "Addr_String (OtherAddr s) = s"

record listener =
  ln_id :: nat
  ln_Addr :: net_addr

text \<open>Certificates as far as they are looked at: the times between which they are valid, in
  nanoseconds.\<close>

record certificate =
  NotBefore :: int
  NotAfter :: int

record host =
  hs_disk :: disk
  hs_open :: "nat list"
  hs_next :: nat
  hs_reads :: nat

record sys =
  sys_cwd :: "string list"
  sys_listen :: "nat \<Rightarrow> string \<Rightarrow> string \<Rightarrow> go_error + net_addr"
  sys_clock :: "nat \<Rightarrow> int"
  pem_Decode :: "bytes \<Rightarrow> bytes option"
  x509_ParseCertificate :: "bytes \<Rightarrow> go_error + certificate"
  tls_X509KeyPair :: "bytes \<Rightarrow> bytes \<Rightarrow> go_error option"
  GenerateSelfSignedCertKeyWithFixtures ::
    "string \<Rightarrow> ip list \<Rightarrow> string list \<Rightarrow> string \<Rightarrow> host \<Rightarrow> host \<times> (go_error + bytes \<times> bytes)"
  ResolveBindAddress :: "ip \<Rightarrow> go_error + ip"
  ciphers :: "(string \<times> 16 word) list"
  insecureCiphers :: "(string \<times> 16 word) list"

definition ListenConfig_Listen :: "sys \<Rightarrow> string \<Rightarrow> string \<Rightarrow> host \<Rightarrow> host \<times> (go_error + listener)" where
  "ListenConfig_Listen sys network addr h =
     (case sys_listen sys (hs_next h) network addr of
        Inl e \<Rightarrow> (h\<lparr>hs_next := Suc (hs_next h)\<rparr>, Inl e)
      | Inr a \<Rightarrow>
          (h\<lparr>hs_next := Suc (hs_next h), hs_open := hs_next h # hs_open h\<rparr>,
           Inr \<lparr>ln_id = hs_next h, ln_Addr = a\<rparr>))"

definition listener_Close :: "listener \<Rightarrow> host \<Rightarrow> host" where
  "listener_Close ln h = h\<lparr>hs_open := removeAll (ln_id ln) (hs_open h)\<rparr>"

definition time_Now :: "sys \<Rightarrow> host \<Rightarrow> host \<times> int" where
  "time_Now sys h = (h\<lparr>hs_reads := Suc (hs_reads h)\<rparr>, sys_clock sys (hs_reads h))"

text \<open>Files by their path: \<open>os.ReadFile\<close>, and the helpers \<open>canReadFile\<close>,
  \<open>CanReadCertAndKey\<close>, \<open>WriteCert\<close> and \<open>WriteKey\<close> of
  \<open>client-go/util/cert\<close> and \<open>keyutil\<close>. \<open>os.Open\<close> opens directories too.\<close>

definition ReadFile :: "sys \<Rightarrow> string \<Rightarrow> host \<Rightarrow> go_error + bytes" where
  "ReadFile sys p h = (if p = [] then Inl ErrNotExist else os_ReadFile (hs_disk h) (resolve (sys_cwd sys) p))"

definition canReadFile :: "sys \<Rightarrow> string \<Rightarrow> host \<Rightarrow> bool" where
  "canReadFile sys p h \<longleftrightarrow> p \<noteq> [] \<and> os_Stat (hs_disk h) (resolve (sys_cwd sys) p) = None"

definition WriteCert :: "sys \<Rightarrow> string \<Rightarrow> bytes \<Rightarrow> host \<Rightarrow> host \<times> go_error option" where
  "WriteCert sys p data h =
     (let (d1, r1) = os_MkdirAll (resolve (sys_cwd sys) (path_Dir p)) (hs_disk h)
      in case r1 of
           Some e \<Rightarrow> (h\<lparr>hs_disk := d1\<rparr>, Some e)
         | None \<Rightarrow>
             (let (d2, r2) = os_WriteFile (resolve (sys_cwd sys) p) data d1
              in (h\<lparr>hs_disk := d2\<rparr>, r2)))"

section \<open>Lemmas\<close>

lemma Listen_fresh:
  assumes "ListenConfig_Listen sys network addr h = (h', r)" and "\<forall>i \<in> set (hs_open h). i < hs_next h"
  shows "case r of
      Inl e \<Rightarrow> hs_open h' = hs_open h
    | Inr ln \<Rightarrow> hs_open h' = ln_id ln # hs_open h \<and> ln_id ln \<notin> set (hs_open h)"
  using assms by (auto simp: ListenConfig_Listen_def split: sum.splits)

lemma Listen_frame:
  assumes "ListenConfig_Listen sys network addr h = (h', r)"
  shows "hs_disk h' = hs_disk h" "hs_reads h' = hs_reads h" "hs_next h' = Suc (hs_next h)"
  using assms by (auto simp: ListenConfig_Listen_def split: sum.splits)

lemma Close_newest:
  "ln_id ln \<notin> set ids \<Longrightarrow> hs_open h = ln_id ln # ids \<Longrightarrow> hs_open (listener_Close ln h) = ids"
  by (simp add: listener_Close_def)

lemma Close_frame [simp]:
  "hs_disk (listener_Close ln h) = hs_disk h" "hs_reads (listener_Close ln h) = hs_reads h"
  "hs_next (listener_Close ln h) = hs_next h"
  by (simp_all add: listener_Close_def)

text \<open>The text of an IPv4 address has no colon, that of any other address of 16 bytes has one.\<close>

lemma digit_char_not_colon: "d < 10 \<Longrightarrow> digit_char d \<noteq> CHR '':''"
proof
  assume "d < 10" and "digit_char d = CHR '':''"
  then have "(of_char (char_of (48 + d) :: char) :: nat) = of_char CHR '':''"
    by (simp add: digit_char_def)
  with \<open>d < 10\<close> show False by simp
qed

lemma dec_digits_no_colon: "CHR '':'' \<notin> set (dec_digits n)"
proof (induction n rule: dec_digits.induct)
  case (1 n)
  show ?case
  proof (cases "n < 10")
    case True
    then show ?thesis using digit_char_not_colon [OF True] by (subst dec_digits.simps) auto
  next
    case False
    moreover have "digit_char (n mod 10) \<noteq> CHR '':''" by (rule digit_char_not_colon) simp
    ultimately show ?thesis using 1 [OF False] by (subst dec_digits.simps) auto
  qed
qed

lemma set_join_with: "set (join_with sep xs) \<subseteq> set sep \<union> \<Union> (set (map set xs))"
  by (induction sep xs rule: join_with.induct) auto

lemma v4_String_no_colon: "CHR '':'' \<notin> set (v4_String ip)"
  using set_join_with [of "''.''" "map (\<lambda>b. dec_digits (unat b)) ip"] dec_digits_no_colon
  by (auto simp: v4_String_def)

lemma join_with_two_colon: "2 \<le> length xs \<Longrightarrow> CHR '':'' \<in> set (join_with '':'' xs)"
  by (cases xs; cases "tl xs") auto

lemma v6_String_colon:
  assumes "2 \<le> length (v6_fields ip)"
  shows "CHR '':'' \<in> set (v6_String ip)"
  using assms join_with_two_colon [of "map hex_digits (v6_fields ip)"]
  by (cases "zero_run (v6_fields ip)") (auto simp: v6_String_def Let_def)

lemma length_v6_fields: "length (v6_fields ip) = length ip div 2"
  by (induction ip rule: v6_fields.induct) auto

lemma IP_String_colon:
  "CHR '':'' \<in> set (IP_String ip) \<longleftrightarrow> length ip = 16 \<and> take 12 ip \<noteq> v4InV6Prefix" if "length ip \<in> {0, 4, 16}"
proof -
  have v6: "length ip = 16 \<Longrightarrow> CHR '':'' \<in> set (v6_String ip)"
    by (rule v6_String_colon) (simp add: length_v6_fields)
  show ?thesis using that v4_String_no_colon v6 by (auto simp: IP_String_def To4_def)
qed

lemma JoinHostPort_plain:
  "JoinHostPort (IP_String ip) (Itoa port) = host_port ip port \<longleftrightarrow> CHR '':'' \<notin> set (IP_String ip)"
proof
  assume "JoinHostPort (IP_String ip) (Itoa port) = host_port ip port"
  moreover have "length (''['' @ IP_String ip @ '']:'' @ Itoa port) \<noteq> length (IP_String ip @ '':'' @ Itoa port)" by simp
  ultimately show "CHR '':'' \<notin> set (IP_String ip)"
    unfolding JoinHostPort_def host_port_def by (metis (full_types))
qed (simp add: JoinHostPort_def host_port_def)

end
