(* ===== verification/Auth.thy ===== *)
theory Auth
  imports Net_Lib Rest_Strategy
begin

text \<open>
  Authentication and authorization of requests, from the vendored \<open>k8s.io/apiserver\<close>: the
  authorizers and authenticators that \<open>TiltServerOptions.Config\<close> composes, the token that
  \<open>AuthorizeClientBearerToken\<close> adds, and the three filters of the handler chain that decide
  who a request acts as and whether it is let in: authentication, impersonation and authorization.

  An authenticator returns the user of a request, or none, and possibly an error; audiences are not
  used by this server and are left out, and so are the warnings sent to clients. Of a user the name
  and the groups are kept: no authorizer of this server looks at the UID or the extra fields. The
  authorizers look at nothing but the user, so that of the attributes of a request only the user is
  an argument. The server leaves the feature gate \<open>ConstrainedImpersonation\<close> at its default,
  off, so that the chain holds \<open>WithImpersonation\<close>. The filters of the chain that do not
  look at the user (deadlines, the limit of requests in flight, CORS, audit, logs and traces) are
  left out.
\<close>

section \<open>Definitions\<close>

record user_info =
  u_Name :: string
  u_Groups :: "string list"

text \<open>The header of a request is a map from canonical names to values, one entry for each name.\<close>

type_synonym http_header = "(string \<times> string list) list"

record http_request =
  Header :: http_header
  url_Path :: string

definition Header_values :: "http_header \<Rightarrow> string \<Rightarrow> string list" where
  "Header_values h name = (case map_of h name of None \<Rightarrow> [] | Some vs \<Rightarrow> vs)"

definition Header_Get :: "http_header \<Rightarrow> string \<Rightarrow> string" where
  "Header_Get h name = (case Header_values h name of [] \<Rightarrow> [] | v # _ \<Rightarrow> v)"

definition Header_Del :: "string \<Rightarrow> http_header \<Rightarrow> http_header" where
  "Header_Del name h = filter (\<lambda>(n, _). n \<noteq> name) h"

type_synonym authenticator = "http_request \<Rightarrow> user_info option \<times> go_error option"

datatype decision = DecisionAllow | DecisionDeny | DecisionNoOpinion

type_synonym authorizer = "user_info option \<Rightarrow> decision \<times> string \<times> go_error option"

subsection \<open>Authorizers\<close>

definition NewPrivilegedGroups :: "string list \<Rightarrow> authorizer" where
  "NewPrivilegedGroups groups u =
     (case u of
        None \<Rightarrow> (DecisionNoOpinion, ''Error'', Some (OtherError ''no user on request.''))
      | Some i \<Rightarrow>
          (if \<exists>g \<in> set (u_Groups i). g \<in> set groups then (DecisionAllow, [], None)
           else (DecisionNoOpinion, [], None)))"

definition NewAlwaysDenyAuthorizer :: authorizer where
  "NewAlwaysDenyAuthorizer u = (DecisionNoOpinion, ''Everything is forbidden.'', None)"

definition aggregate :: "go_error list \<Rightarrow> go_error option" where
  "aggregate es = (if es = [] then None else Some (OtherError ''aggregate''))"

fun union_authorize ::
  "authorizer list \<Rightarrow> go_error list \<Rightarrow> string list \<Rightarrow> authorizer" where
  "union_authorize [] errlist reasonlist u =
     (DecisionNoOpinion, join_with [char_of (10 :: nat)] reasonlist, aggregate errlist)"
| "union_authorize (a # as) errlist reasonlist u =
     (case a u of
        (d, reason, err) \<Rightarrow>
          (if d = DecisionNoOpinion
           then union_authorize as (errlist @ (case err of None \<Rightarrow> [] | Some e \<Rightarrow> [e]))
                  (if reason = [] then reasonlist else reasonlist @ [reason]) u
           else (d, reason, err)))"

definition union_authorizer :: "authorizer list \<Rightarrow> authorizer" where
  "union_authorizer as = union_authorize as [] []"

subsection \<open>Authenticators\<close>

definition anonymous_authenticator :: "string list \<Rightarrow> authenticator" where
  "anonymous_authenticator allowedPaths req =
     (if allowedPaths \<noteq> [] \<and> url_Path req \<notin> set allowedPaths then (None, None)
      else (Some \<lparr>u_Name = ''system:anonymous'', u_Groups = [''system:unauthenticated'']\<rparr>, None))"

definition to_lower :: "char \<Rightarrow> char" where
  "to_lower c = (let n = (of_char c :: nat) in if 65 \<le> n \<and> n \<le> 90 then char_of (n + 32) else c)"

text \<open>The bearer token of a request: its header is \<open>Bearer\<close>, in any case, a space, and the
  token.\<close>

definition bearer_token :: "http_request \<Rightarrow> string option" where
  "bearer_token req =
     (case split_on (CHR '' '') (TrimSpace (Header_Get (Header req) ''Authorization'')) of
        p0 # p1 # _ \<Rightarrow> (if map to_lower p0 = ''bearer'' \<and> p1 \<noteq> [] then Some p1 else None)
      | _ \<Rightarrow> None)"

definition bearer_authenticator :: "(string \<Rightarrow> user_info option) \<Rightarrow> authenticator" where
  "bearer_authenticator tokens req =
     (case bearer_token req of
        None \<Rightarrow> (None, None)
      | Some token \<Rightarrow>
          (case tokens token of
             Some u \<Rightarrow> (Some u, None)
           | None \<Rightarrow> (None, Some (OtherError ''invalid bearer token''))))"

fun union_authenticate :: "authenticator list \<Rightarrow> go_error list \<Rightarrow> authenticator" where
  "union_authenticate [] errlist req = (None, aggregate errlist)"
| "union_authenticate (a # as) errlist req =
     (case a req of
        (_, Some e) \<Rightarrow> union_authenticate as (errlist @ [e]) req
      | (Some u, None) \<Rightarrow> (Some u, None)
      | (None, None) \<Rightarrow> union_authenticate as errlist req)"

subsection \<open>The loopback token\<close>

definition AuthorizeClientBearerToken ::
  "string option \<Rightarrow> authenticator option \<Rightarrow> authorizer option \<Rightarrow> authenticator option" where
  "AuthorizeClientBearerToken token authn authz =
     (case (token, authn, authz) of
        (Some t, Some an, Some _) \<Rightarrow>
          (if t = [] then authn
           else Some (union_authenticate
             [bearer_authenticator [t \<mapsto> \<lparr>u_Name = ''system:apiserver'', u_Groups = [''system:authenticated'', ''system:masters'']\<rparr>], an] []))
      | _ \<Rightarrow> authn)"

subsection \<open>Names of service accounts\<close>

definition HasPrefix :: "string \<Rightarrow> string \<Rightarrow> bool" where
  "HasPrefix s p \<longleftrightarrow> take (length p) s = p"

text \<open>The pattern of a subdomain: labels, separated by dots.\<close>

definition IsDNS1123Subdomain :: "string \<Rightarrow> string list" where
  "IsDNS1123Subdomain v =
     (if length v > 253 then [''must be no more than 253 characters''] else []) @
     (if list_all dns1123Label_match (split_on (CHR ''.'') v) then [] else [''a lowercase RFC 1123 subdomain''])"

definition ValidateServiceAccountName :: "string \<Rightarrow> bool \<Rightarrow> string list" where
  "ValidateServiceAccountName name pre = IsDNS1123Subdomain (if pre then maskTrailingDash name else name)"

definition ServiceAccountUsernamePrefix :: string where
  "ServiceAccountUsernamePrefix = ''system:serviceaccount:''"

definition MakeUsername :: "string \<Rightarrow> string \<Rightarrow> string" where
  "MakeUsername ns name = ServiceAccountUsernamePrefix @ ns @ '':'' @ name"

definition SplitUsername :: "string \<Rightarrow> (string \<times> string) option" where
  "SplitUsername username =
     (if \<not> HasPrefix username ServiceAccountUsernamePrefix then None
      else case split_on (CHR '':'') (drop (length ServiceAccountUsernamePrefix) username) of
             [ns, name] \<Rightarrow>
               (if ValidateNamespaceName ns False \<noteq> [] then None
                else if ValidateServiceAccountName name False \<noteq> [] then None
                else Some (ns, name))
           | _ \<Rightarrow> None)"

definition MakeGroupNames :: "string \<Rightarrow> string list" where
  "MakeGroupNames ns = [''system:serviceaccounts'', ''system:serviceaccounts:'' @ ns]"

subsection \<open>Impersonation\<close>

text \<open>The object references that stand for what a request wants to impersonate, by their kind.\<close>

datatype impersonation_request =
    ServiceAccount string string
  | User string
  | Group string
  | UserExtra string string
  | UID_ref string

definition hex_digit :: "char \<Rightarrow> nat option" where
  "hex_digit c =
     (let n = (of_char c :: nat)
      in if 48 \<le> n \<and> n \<le> 57 then Some (n - 48)
         else if 97 \<le> n \<and> n \<le> 102 then Some (n - 87)
         else if 65 \<le> n \<and> n \<le> 70 then Some (n - 55)
         else None)"

fun PathUnescape :: "string \<Rightarrow> string option" where
  "PathUnescape [] = Some []"
| "PathUnescape (c # cs) =
     (if c = CHR ''%''
      then case cs of
             a # b # rest \<Rightarrow>
               (case (hex_digit a, hex_digit b) of
                  (Some x, Some y) \<Rightarrow> map_option ((#) (char_of (16 * x + y))) (PathUnescape rest)
                | _ \<Rightarrow> None)
           | _ \<Rightarrow> None
      else map_option ((#) c) (PathUnescape cs))"

definition unescapeExtraKey :: "string \<Rightarrow> string" where
  "unescapeExtraKey encodedKey = (case PathUnescape encodedKey of None \<Rightarrow> encodedKey | Some key \<Rightarrow> key)"

definition extra_headers :: "http_header \<Rightarrow> http_header" where
  "extra_headers h = filter (\<lambda>(n, _). HasPrefix n ''Impersonate-Extra-'') h"

definition buildImpersonationRequests :: "http_header \<Rightarrow> go_error + impersonation_request list" where
  "buildImpersonationRequests h =
     (let requestedUser = Header_Get h ''Impersonate-User'';
          hasUser = requestedUser \<noteq> [];
          users = (if hasUser
                   then case SplitUsername requestedUser of
                          Some (ns, name) \<Rightarrow> [ServiceAccount ns name]
                        | None \<Rightarrow> [User requestedUser]
                   else []);
          groups = map Group (Header_values h ''Impersonate-Group'');
          extras = concat (map (\<lambda>(n, vs).
            map (UserExtra (unescapeExtraKey (map to_lower (drop (length ''Impersonate-Extra-'') n)))) vs) (extra_headers h));
          requestedUID = Header_Get h ''Impersonate-Uid'';
          hasUID = requestedUID \<noteq> []
      in if (groups \<noteq> [] \<or> extra_headers h \<noteq> [] \<or> hasUID) \<and> \<not> hasUser
         then Inl (BadRequest ''requested without impersonating a user'')
         else Inr (users @ groups @ extras @ (if hasUID then [UID_ref requestedUID] else [])))"

text \<open>One round of the loop that collects the new user; the requestor must be allowed each of
  them.\<close>

definition acting_as :: "bool \<Rightarrow> impersonation_request \<Rightarrow> string \<times> string list \<Rightarrow> string \<times> string list" where
  "acting_as groupsSpecified ir acc =
     (case acc of
        (username, groups) \<Rightarrow>
          (case ir of
             ServiceAccount ns name \<Rightarrow>
               (MakeUsername ns name, if groupsSpecified then groups else MakeGroupNames ns)
           | User name \<Rightarrow> (name, groups)
           | Group g \<Rightarrow> (username, groups @ [g])
           | UserExtra key v \<Rightarrow> (username, groups)
           | UID_ref uid \<Rightarrow> (username, groups)))"

fun impersonate_loop ::
  "authorizer \<Rightarrow> user_info \<Rightarrow> bool \<Rightarrow> impersonation_request list \<Rightarrow> string \<times> string list \<Rightarrow> (string \<times> string list) option" where
  "impersonate_loop a requestor groupsSpecified [] acc = Some acc"
| "impersonate_loop a requestor groupsSpecified (ir # irs) acc =
     (case a (Some requestor) of
        (decision, reason, err) \<Rightarrow>
          (if err \<noteq> None \<or> decision \<noteq> DecisionAllow then None
           else impersonate_loop a requestor groupsSpecified irs (acting_as groupsSpecified ir acc)))"

definition with_auth_group :: "string \<Rightarrow> string list \<Rightarrow> string list" where
  "with_auth_group username groups =
     (if username \<noteq> ''system:anonymous''
      then if \<exists>g \<in> set groups. g = ''system:authenticated'' \<or> g = ''system:unauthenticated''
           then groups else groups @ [''system:authenticated'']
      else if \<exists>g \<in> set groups. g = ''system:unauthenticated''
           then groups else groups @ [''system:unauthenticated''])"

definition clear_impersonation :: "http_header \<Rightarrow> http_header" where
  "clear_impersonation h =
     filter (\<lambda>(n, _). \<not> HasPrefix n ''Impersonate-Extra-'')
       (Header_Del ''Impersonate-Uid'' (Header_Del ''Impersonate-Group'' (Header_Del ''Impersonate-User'' h)))"

subsection \<open>The filters\<close>

text \<open>How a request ends: in one of the error responses (\<open>Forbidden\<close> names the user that
  was refused), or in the handlers of the API, as a user.\<close>

datatype verdict =
    Unauthorized
  | BadImpersonation
  | ServerError
  | Forbidden "user_info option"
  | Served "user_info option"

text \<open>A handler sees the user in the context of the request, if there is one, and the request.\<close>

type_synonym http_handler = "user_info option \<Rightarrow> http_request \<Rightarrow> verdict"

definition WithAuthorization :: "http_handler \<Rightarrow> authorizer option \<Rightarrow> http_handler" where
  "WithAuthorization handler a u req =
     (case a of
        None \<Rightarrow> handler u req
      | Some auth \<Rightarrow>
          (case auth u of
             (authorized, reason, err) \<Rightarrow>
               (if authorized = DecisionAllow then handler u req
                else if err \<noteq> None then ServerError
                else Forbidden u)))"

definition WithImpersonation :: "http_handler \<Rightarrow> authorizer \<Rightarrow> http_handler" where
  "WithImpersonation handler a u req =
     (case buildImpersonationRequests (Header req) of
        Inl e \<Rightarrow> BadImpersonation
      | Inr irs \<Rightarrow>
          (if irs = [] then handler u req
           else case u of
                  None \<Rightarrow> ServerError
                | Some requestor \<Rightarrow>
                    (case impersonate_loop a requestor (Header_values (Header req) ''Impersonate-Group'' \<noteq> []) irs ([], []) of
                       None \<Rightarrow> Forbidden u
                     | Some (username, groups) \<Rightarrow>
                         handler (Some \<lparr>u_Name = username, u_Groups = with_auth_group username groups\<rparr>)
                           (req\<lparr>Header := clear_impersonation (Header req)\<rparr>))))"

definition hasPrefixIgnoreCase :: "string \<Rightarrow> string \<Rightarrow> bool" where
  "hasPrefixIgnoreCase s p \<longleftrightarrow> HasPrefix (map to_lower s) (map to_lower p)"

text \<open>The headers of the standard front proxy; the server has no configuration for another one.\<close>

definition ClearAuthenticationHeaders :: "http_header \<Rightarrow> http_header" where
  "ClearAuthenticationHeaders h =
     filter (\<lambda>(n, _). \<not> hasPrefixIgnoreCase n ''X-Remote-Extra-'')
       (Header_Del ''X-Remote-Group'' (Header_Del ''X-Remote-Uid'' (Header_Del ''X-Remote-User'' h)))"

definition WithAuthentication :: "http_handler \<Rightarrow> authenticator option \<Rightarrow> http_handler" where
  "WithAuthentication handler a u req =
     (case a of
        None \<Rightarrow> handler u req
      | Some auth \<Rightarrow>
          (case auth req of
             (Some i, None) \<Rightarrow>
               handler (Some i) (req\<lparr>Header := ClearAuthenticationHeaders (Header_Del ''Authorization'' (Header req))\<rparr>)
           | _ \<Rightarrow> Unauthorized))"

text \<open>The handler chain, from the outside in, around the handlers of the API.\<close>

definition filter_request :: "authenticator \<Rightarrow> authorizer \<Rightarrow> http_request \<Rightarrow> verdict" where
  "filter_request authn authz =
     WithAuthentication (WithImpersonation (WithAuthorization (\<lambda>u req. Served u) (Some authz)) authz) (Some authn) None"

subsection \<open>What the headers ask for\<close>

text \<open>A request that names groups, extra fields or a UID without a user is malformed.\<close>

definition bad_impersonation :: "http_header \<Rightarrow> bool" where
  "bad_impersonation h \<longleftrightarrow> Header_Get h ''Impersonate-User'' = [] \<and>
     (Header_values h ''Impersonate-Group'' \<noteq> [] \<or> (\<exists>(n, vs) \<in> set h. HasPrefix n ''Impersonate-Extra-'') \<or>
      Header_Get h ''Impersonate-Uid'' \<noteq> [])"

text \<open>The user that a request impersonates.\<close>

definition impersonated :: "http_header \<Rightarrow> user_info" where
  "impersonated h =
     (let name = Header_Get h ''Impersonate-User''; gs = Header_values h ''Impersonate-Group''
      in \<lparr>u_Name = name,
          u_Groups = with_auth_group name
            (if gs \<noteq> [] then gs
             else case SplitUsername name of None \<Rightarrow> [] | Some (ns, _) \<Rightarrow> MakeGroupNames ns)\<rparr>)"

section \<open>Lemmas\<close>

lemma masters_authorize:
  "union_authorizer [NewPrivilegedGroups groups, NewAlwaysDenyAuthorizer] (Some u) =
     (if \<exists>g \<in> set (u_Groups u). g \<in> set groups then (DecisionAllow, [], None)
      else (DecisionNoOpinion, ''Everything is forbidden.'', None))"
  by (auto simp: union_authorizer_def NewPrivilegedGroups_def NewAlwaysDenyAuthorizer_def aggregate_def)

lemma loopback_authenticate:
  assumes "AuthorizeClientBearerToken (Some t) (Some (anonymous_authenticator [])) (Some authz) = Some authn"
  shows "authn req =
    (if bearer_token req = Some t \<and> t \<noteq> []
     then (Some \<lparr>u_Name = ''system:apiserver'', u_Groups = [''system:authenticated'', ''system:masters'']\<rparr>, None)
     else (Some \<lparr>u_Name = ''system:anonymous'', u_Groups = [''system:unauthenticated'']\<rparr>, None))"
  using assms
  by (auto simp: AuthorizeClientBearerToken_def bearer_authenticator_def anonymous_authenticator_def
      split: if_splits option.splits)

subsection \<open>Impersonation\<close>

lemma join_split: "join_with [c] (split_on c s) = s"
proof (induction s)
  case (Cons x xs)
  obtain y ys where "split_on c xs = y # ys" by (cases "split_on c xs") simp_all
  with Cons show ?case by (cases ys) auto
qed simp

text \<open>Splitting a name recognises exactly what \<open>MakeUsername\<close> wrote: an impersonated service
  account keeps the name of the header.\<close>

lemma SplitUsername_Some:
  assumes "SplitUsername u = Some (ns, name)"
  shows "MakeUsername ns name = u"
proof -
  let ?p = ServiceAccountUsernamePrefix
  from assms have p: "take (length ?p) u = ?p" and d: "split_on (CHR '':'') (drop (length ?p) u) = [ns, name]"
    by (auto simp: SplitUsername_def HasPrefix_def split: if_splits list.splits)
  from join_split [of "CHR '':''" "drop (length ?p) u"] have "drop (length ?p) u = ns @ '':'' @ name" by (simp add: d)
  with p append_take_drop_id [of "length ?p" u] show ?thesis by (simp add: MakeUsername_def)
qed

lemma no_impersonation:
  assumes "Header_Get h ''Impersonate-User'' = []"
  shows "buildImpersonationRequests h = (if bad_impersonation h then Inl (BadRequest ''requested without impersonating a user'') else Inr [])"
  using assms by (auto simp: buildImpersonationRequests_def bad_impersonation_def extra_headers_def filter_empty_conv)

lemma fold_groups: "fold (acting_as b) (map Group gs) (n, acc) = (n, acc @ gs)"
  by (induction gs arbitrary: acc) (simp_all add: acting_as_def)

lemma fold_others:
  "list_all (\<lambda>ir. case ir of UserExtra k v \<Rightarrow> True | UID_ref u \<Rightarrow> True | _ \<Rightarrow> False) irs \<Longrightarrow> fold (acting_as b) irs acc = acc"
  by (induction irs) (auto simp: acting_as_def split: impersonation_request.splits)

lemma impersonation:
  assumes "Header_Get h ''Impersonate-User'' \<noteq> []"
  obtains ir irs where "buildImpersonationRequests h = Inr (ir # irs)"
    and "\<lparr>u_Name = u_Name (impersonated h), u_Groups = u_Groups (impersonated h)\<rparr> =
      (case fold (acting_as (Header_values h ''Impersonate-Group'' \<noteq> [])) (ir # irs) ([], []) of
         (n, gs) \<Rightarrow> \<lparr>u_Name = n, u_Groups = with_auth_group n gs\<rparr>)"
proof -
  let ?u = "Header_Get h ''Impersonate-User''" and ?gs = "Header_values h ''Impersonate-Group''"
  let ?ir = "case SplitUsername ?u of Some (ns, name) \<Rightarrow> ServiceAccount ns name | None \<Rightarrow> User ?u"
  define others where "others = concat (map (\<lambda>(n, vs).
      map (UserExtra (unescapeExtraKey (map to_lower (drop (length ''Impersonate-Extra-'') n)))) vs) (extra_headers h)) @
      (if Header_Get h ''Impersonate-Uid'' \<noteq> [] then [UID_ref (Header_Get h ''Impersonate-Uid'')] else [])"
  have o: "fold (acting_as b) others acc = acc" for b acc
    by (rule fold_others) (auto simp: others_def list_all_iff)
  have b: "buildImpersonationRequests h = Inr (?ir # map Group ?gs @ others)"
    using assms by (auto simp: buildImpersonationRequests_def Let_def others_def split: option.splits)
  have "acting_as (?gs \<noteq> []) ?ir ([], []) =
      (?u, if ?gs \<noteq> [] then [] else case SplitUsername ?u of None \<Rightarrow> [] | Some (ns, _) \<Rightarrow> MakeGroupNames ns)"
    by (auto simp: acting_as_def SplitUsername_Some split: option.splits)
  then have "fold (acting_as (?gs \<noteq> [])) (?ir # map Group ?gs @ others) ([], []) =
      (?u, if ?gs \<noteq> [] then ?gs else case SplitUsername ?u of None \<Rightarrow> [] | Some (ns, _) \<Rightarrow> MakeGroupNames ns)"
    by (simp add: fold_groups o)
  with b that show thesis by (simp add: impersonated_def Let_def)
qed

lemma masters_impersonated:
  "''system:masters'' \<in> set (u_Groups (impersonated h)) \<longleftrightarrow> ''system:masters'' \<in> set (Header_values h ''Impersonate-Group'')"
  by (auto simp: impersonated_def Let_def with_auth_group_def MakeGroupNames_def split: option.splits)

lemma impersonate_loop_allowed:
  "a (Some u) = (DecisionAllow, r, None) \<Longrightarrow> impersonate_loop a u b irs acc = Some (fold (acting_as b) irs acc)"
  by (induction irs arbitrary: acc) simp_all

subsection \<open>The headers that the filters remove\<close>

lemma Header_values_filter:
  assumes "\<And>vs. P (name, vs)"
  shows "Header_values (filter P h) name = Header_values h name"
proof -
  have "map_of (filter P h) name = map_of h name" using assms by (induction h) auto
  then show ?thesis by (simp add: Header_values_def)
qed

definition authenticated_header :: "http_header \<Rightarrow> http_header" where
  "authenticated_header h = ClearAuthenticationHeaders (Header_Del ''Authorization'' h)"

lemma authenticated_header_values:
  assumes "name \<in> {''Impersonate-User'', ''Impersonate-Group'', ''Impersonate-Uid''}"
  shows "Header_values (authenticated_header h) name = Header_values h name"
  using assms unfolding authenticated_header_def ClearAuthenticationHeaders_def Header_Del_def filter_filter
  by (intro Header_values_filter) (auto simp: hasPrefixIgnoreCase_def HasPrefix_def to_lower_def)

lemma authenticated_header_extra: "extra_headers (authenticated_header h) = extra_headers h"
proof -
  have "\<not> hasPrefixIgnoreCase n ''X-Remote-Extra-'' \<and> n \<notin> {''Authorization'', ''X-Remote-Group'', ''X-Remote-Uid'', ''X-Remote-User''}"
    if "HasPrefix n ''Impersonate-Extra-''" for n
    using that by (cases n) (auto simp: HasPrefix_def hasPrefixIgnoreCase_def to_lower_def)
  then show ?thesis
    unfolding extra_headers_def authenticated_header_def ClearAuthenticationHeaders_def Header_Del_def filter_filter
    by (intro filter_cong) auto
qed

lemma authenticated_header_same:
  "buildImpersonationRequests (authenticated_header h) = buildImpersonationRequests h"
  "Header_values (authenticated_header h) ''Impersonate-Group'' = Header_values h ''Impersonate-Group''"
  by (simp_all add: buildImpersonationRequests_def Header_Get_def authenticated_header_values authenticated_header_extra)

subsection \<open>The chain\<close>

text \<open>Who is let in by the filters of this server: the holder of the token, who acts as the API
  server itself or, on request, as another user; and then only if that user is one of the masters.
  Everybody else is the anonymous user and is refused.\<close>

lemma filter_request_iff:
  assumes "AuthorizeClientBearerToken (Some t) (Some (anonymous_authenticator [])) (Some authz) = Some authn"
    and "authz = union_authorizer [NewPrivilegedGroups [''system:masters''], NewAlwaysDenyAuthorizer]"
  shows "filter_request authn authz req =
    (if bad_impersonation (Header req) then BadImpersonation
     else if bearer_token req = Some t \<and> t \<noteq> []
     then if Header_Get (Header req) ''Impersonate-User'' = []
          then Served (Some \<lparr>u_Name = ''system:apiserver'', u_Groups = [''system:authenticated'', ''system:masters'']\<rparr>)
          else if ''system:masters'' \<in> set (Header_values (Header req) ''Impersonate-Group'')
          then Served (Some (impersonated (Header req)))
          else Forbidden (Some (impersonated (Header req)))
     else Forbidden (Some \<lparr>u_Name = ''system:anonymous'', u_Groups = [''system:unauthenticated'']\<rparr>))"
proof -
  let ?h = "Header req" and ?H = "WithAuthorization (\<lambda>u req. Served u) (Some authz)"
  note au = loopback_authenticate [OF assms(1), of req]
  have z: "authz (Some u) = (if ''system:masters'' \<in> set (u_Groups u) then (DecisionAllow, [], None)
      else (DecisionNoOpinion, ''Everything is forbidden.'', None))" for u
    by (auto simp: assms(2) masters_authorize)
  have H: "?H (Some u) r = (if ''system:masters'' \<in> set (u_Groups u) then Served (Some u) else Forbidden (Some u))" for u r
    by (simp add: WithAuthorization_def z)
  have f: "filter_request authn authz req = WithImpersonation ?H authz (fst (authn req)) (req\<lparr>Header := authenticated_header ?h\<rparr>)"
    using au by (auto simp: filter_request_def WithAuthentication_def authenticated_header_def split: if_splits)
  show ?thesis
  proof (cases "Header_Get ?h ''Impersonate-User'' = []")
    case True
    with f au H show ?thesis by (auto simp: WithImpersonation_def authenticated_header_same no_impersonation)
  next
    case False
    then obtain ir irs where b: "buildImpersonationRequests ?h = Inr (ir # irs)"
      and u: "\<lparr>u_Name = u_Name (impersonated ?h), u_Groups = u_Groups (impersonated ?h)\<rparr> =
        (case fold (acting_as (Header_values ?h ''Impersonate-Group'' \<noteq> [])) (ir # irs) ([], []) of
           (n, gs) \<Rightarrow> \<lparr>u_Name = n, u_Groups = with_auth_group n gs\<rparr>)" by (rule impersonation)
    obtain n gs where ngs: "fold (acting_as (Header_values ?h ''Impersonate-Group'' \<noteq> [])) (ir # irs) ([], []) = (n, gs)"
      by (rule prod.exhaust)
    have n: "\<lparr>u_Name = n, u_Groups = with_auth_group n gs\<rparr> = impersonated ?h" using u unfolding ngs by simp
    show ?thesis
    proof (cases "bearer_token req = Some t \<and> t \<noteq> []")
      case True
      with au z have "authz (fst (authn req)) = (DecisionAllow, [], None)" by simp
      moreover have "''system:masters'' \<in> set (with_auth_group n gs) \<longleftrightarrow> ''system:masters'' \<in> set (Header_values ?h ''Impersonate-Group'')"
        using n masters_impersonated [of ?h] by (metis user_info.select_convs(2))
      ultimately show ?thesis using False True f au b H ngs
        by (simp add: WithImpersonation_def authenticated_header_same impersonate_loop_allowed bad_impersonation_def n)
    next
      case no: False
      with au z have "authz (fst (authn req)) = (DecisionNoOpinion, ''Everything is forbidden.'', None)" by simp
      with no False f au b show ?thesis
        by (auto simp: WithImpersonation_def authenticated_header_same bad_impersonation_def)
    qed
  qed
qed

end
