(* ===== verification/Serving.thy ===== *)
theory Serving
  imports Net_Lib
begin

text \<open>
  The serving options of \<open>pkg/server/options/serving.go\<close>: what they are by default, how they
  are checked and set from flags, how a missing certificate is made, and how they become the
  \<open>SecureServingInfo\<close> of the server. The certificate providers
  (\<open>dynamiccertificates\<close>) and the tables of \<open>component-base/cli/flag\<close> are modelled
  from the vendored sources.

  A method with a pointer receiver takes \<open>None\<close> for the nil pointer. Methods that act on the
  machine take and return a \<open>host\<close>. The help texts of the flags are left out.
\<close>

section \<open>Definitions\<close>

subsection \<open>Errors\<close>

datatype serving_error =
    PortOutOfRange bool int
  | CertAndGenerated
  | PairNameRequired
  | SelfSignedFailed go_error
  | ListenFailed string go_error
  | InvalidListenAddress string
  | CreateListenerFailed serving_error
  | NotAPair string
  | MissingFilename
  | MissingContent
  | UnknownCipher string
  | UnknownTLSVersion string
  | SNIFailed serving_error
  | InsecureCipher string
  | PopulationFailed string serving_error
  | PlainError go_error

subsection \<open>Certificate providers\<close>

text \<open>A static provider holds its content; a dynamic one reads it from two files.\<close>

datatype cert_provider =
    StaticCert string bytes bytes
  | DynamicCert string string string bytes bytes

fun CurrentCertKeyContent :: "cert_provider \<Rightarrow> bytes \<times> bytes" where
  "CurrentCertKeyContent (StaticCert n c k) = (c, k)"
| "CurrentCertKeyContent (DynamicCert n cf kf c k) = (c, k)"

record sni_provider =
  sni_cert :: cert_provider
  sni_names :: "string list"

text \<open>Providers of a bundle of client CAs, static or read from a file.\<close>

datatype ca_provider =
    StaticCA string bytes
  | DynamicCA string string bytes

definition loadCertKeyPair :: "sys \<Rightarrow> string \<Rightarrow> string \<Rightarrow> host \<Rightarrow> serving_error + bytes \<times> bytes" where
  "loadCertKeyPair sys certFile keyFile h =
     (case ReadFile sys certFile h of
        Inl e \<Rightarrow> Inl (PlainError e)
      | Inr cert \<Rightarrow>
          (case ReadFile sys keyFile h of
             Inl e \<Rightarrow> Inl (PlainError e)
           | Inr key \<Rightarrow>
               (if cert = [] \<or> key = [] then Inl MissingContent
                else case tls_X509KeyPair sys cert key of
                  Some e \<Rightarrow> Inl (PlainError e)
                | None \<Rightarrow> Inr (cert, key))))"

definition NewDynamicServingContentFromFiles ::
  "sys \<Rightarrow> string \<Rightarrow> string \<Rightarrow> string \<Rightarrow> host \<Rightarrow> serving_error + cert_provider" where
  "NewDynamicServingContentFromFiles sys purpose certFile keyFile h =
     (if certFile = [] \<or> keyFile = [] then Inl MissingFilename
      else case loadCertKeyPair sys certFile keyFile h of
        Inl e \<Rightarrow> Inl e
      | Inr (cert, key) \<Rightarrow> Inr (DynamicCert (purpose @ ''::'' @ certFile @ ''::'' @ keyFile) certFile keyFile cert key))"

text \<open>The second load of the same files finds the same content and stores nothing.\<close>

definition NewDynamicSNIContentFromFiles ::
  "sys \<Rightarrow> string \<Rightarrow> string \<Rightarrow> string \<Rightarrow> string list \<Rightarrow> host \<Rightarrow> serving_error + sni_provider" where
  "NewDynamicSNIContentFromFiles sys purpose certFile keyFile names h =
     (case NewDynamicServingContentFromFiles sys purpose certFile keyFile h of
        Inl e \<Rightarrow> Inl e
      | Inr c \<Rightarrow>
          (case loadCertKeyPair sys certFile keyFile h of
             Inl e \<Rightarrow> Inl e
           | Inr _ \<Rightarrow> Inr \<lparr>sni_cert = c, sni_names = names\<rparr>))"

definition NewStaticCertKeyContent :: "sys \<Rightarrow> string \<Rightarrow> bytes \<Rightarrow> bytes \<Rightarrow> go_error + cert_provider" where
  "NewStaticCertKeyContent sys name cert key =
     (case tls_X509KeyPair sys cert key of Some e \<Rightarrow> Inl e | None \<Rightarrow> Inr (StaticCert name cert key))"

definition CanReadCertAndKey :: "sys \<Rightarrow> string \<Rightarrow> string \<Rightarrow> host \<Rightarrow> serving_error + bool" where
  "CanReadCertAndKey sys certPath keyPath h =
     (let certReadable = canReadFile sys certPath h; keyReadable = canReadFile sys keyPath h
      in if \<not> certReadable \<and> \<not> keyReadable then Inr False
         else if \<not> certReadable then Inl (NotAPair certPath)
         else if \<not> keyReadable then Inl (NotAPair keyPath)
         else Inr True)"

subsection \<open>TLS tables\<close>

definition VersionTLS10 :: "16 word" where "VersionTLS10 = 0x0301"
definition VersionTLS12 :: "16 word" where "VersionTLS12 = 0x0303"

definition versions :: "(string \<times> 16 word) list" where
  "versions =
     [(''VersionTLS10'', 0x0301), (''VersionTLS11'', 0x0302), (''VersionTLS12'', 0x0303), (''VersionTLS13'', 0x0304)]"

definition TLSVersion :: "string \<Rightarrow> serving_error + 16 word" where
  "TLSVersion versionName =
     (if versionName = [] then Inr VersionTLS12
      else case map_of versions versionName of
        Some v \<Rightarrow> Inr v
      | None \<Rightarrow> Inl (UnknownTLSVersion versionName))"

definition allCiphers :: "sys \<Rightarrow> string \<Rightarrow> 16 word option" where
  "allCiphers sys n = (case map_of (insecureCiphers sys) n of Some v \<Rightarrow> Some v | None \<Rightarrow> map_of (ciphers sys) n)"

fun TLSCipherSuites :: "sys \<Rightarrow> string list \<Rightarrow> serving_error + 16 word list" where
  "TLSCipherSuites sys [] = Inr []"
| "TLSCipherSuites sys (c # cs) =
     (case allCiphers sys c of
        None \<Rightarrow> Inl (UnknownCipher c)
      | Some v \<Rightarrow>
          (case TLSCipherSuites sys cs of Inl e \<Rightarrow> Inl e | Inr vs \<Rightarrow> Inr (v # vs)))"

subsection \<open>Options\<close>

record CertKey =
  CertFile :: string
  KeyFile :: string

record GeneratableKeyCert =
  gkc_CertKey :: CertKey
  CertDirectory :: string
  PairName :: string
  GeneratedCert :: "cert_provider option"
  PregeneratedCert :: bool
  FixtureDirectory :: string

record NamedCertKey =
  nck_Names :: "string list"
  nck_CertFile :: string
  nck_KeyFile :: string

record SecureServingOptions =
  BindAddress :: ip
  BindPort :: int
  BindNetwork :: string
  Required :: bool
  ExternalAddress :: ip
  Listener :: "listener option"
  ServerCert :: GeneratableKeyCert
  SNICertKeys :: "NamedCertKey list"
  CipherSuites :: "string list"
  MinTLSVersion :: string
  HTTP2MaxStreamsPerConnection :: int
  PermitPortSharing :: bool
  BearerToken :: string

record SecureServingInfo =
  ssi_Listener :: "listener option"
  ssi_Cert :: "cert_provider option"
  ssi_SNICerts :: "sni_provider list"
  ssi_ClientCA :: "ca_provider option"
  ssi_MinTLSVersion :: "16 word"
  ssi_CipherSuites :: "16 word list"
  ssi_HTTP2MaxStreams :: int
  ssi_DisableHTTP2 :: bool

definition NewSecureServingOptions :: SecureServingOptions where
  "NewSecureServingOptions =
     \<lparr>BindAddress = IPv4 0 0 0 0, BindPort = 443, BindNetwork = [], Required = False, ExternalAddress = [],
      Listener = None,
      ServerCert = \<lparr>gkc_CertKey = \<lparr>CertFile = [], KeyFile = []\<rparr>,
        CertDirectory = ''tilt-apiserver.local.config/certificates'', PairName = ''tilt-apiserver'',
        GeneratedCert = None, PregeneratedCert = False, FixtureDirectory = []\<rparr>,
      SNICertKeys = [], CipherSuites = [], MinTLSVersion = [], HTTP2MaxStreamsPerConnection = 0,
      PermitPortSharing = False, BearerToken = []\<rparr>"

definition DefaultExternalAddress :: "sys \<Rightarrow> SecureServingOptions \<Rightarrow> go_error + ip" where
  "DefaultExternalAddress sys s =
     (if ExternalAddress s \<noteq> [] \<and> \<not> IsUnspecified (ExternalAddress s) then Inr (ExternalAddress s)
      else ResolveBindAddress sys (BindAddress s))"

fun SecureServingOptions_Validate :: "SecureServingOptions option \<Rightarrow> serving_error list" where
  "SecureServingOptions_Validate None = []"
| "SecureServingOptions_Validate (Some s) =
     (if Required s \<and> BindPort s < 1 \<or> 65535 < BindPort s then [PortOutOfRange True (BindPort s)]
      else if BindPort s < 0 \<or> 65535 < BindPort s then [PortOutOfRange False (BindPort s)]
      else []) @
     (if (CertFile (gkc_CertKey (ServerCert s)) \<noteq> [] \<or> KeyFile (gkc_CertKey (ServerCert s)) \<noteq> []) \<and>
         GeneratedCert (ServerCert s) \<noteq> None
      then [CertAndGenerated] else [])"

subsection \<open>Listener\<close>

definition CreateListener :: "sys \<Rightarrow> string \<Rightarrow> string \<Rightarrow> host \<Rightarrow> host \<times> (serving_error + listener \<times> int)" where
  "CreateListener sys network addr h =
     (let (h1, r) = ListenConfig_Listen sys (if network = [] then ''tcp'' else network) addr h
      in case r of
           Inl e \<Rightarrow> (h1, Inl (ListenFailed addr e))
         | Inr ln \<Rightarrow>
             (case ln_Addr ln of
                TCPAddr _ port _ \<Rightarrow> (h1, Inr (ln, port))
              | OtherAddr a \<Rightarrow> (listener_Close ln h1, Inl (InvalidListenAddress a))))"

subsection \<open>Certificates\<close>

definition month :: int where
  "month = 24 * 30 * 3600 * 10 ^ 9"

definition checkCertAndKeyReadableAndValid ::
  "sys \<Rightarrow> string \<Rightarrow> string \<Rightarrow> host \<Rightarrow> host \<times> (serving_error + bool)" where
  "checkCertAndKeyReadableAndValid sys certFile keyFile h =
     (case CanReadCertAndKey sys certFile keyFile h of
        Inl e \<Rightarrow> (h, Inl e)
      | Inr False \<Rightarrow> (h, Inr False)
      | Inr True \<Rightarrow>
          (case ReadFile sys certFile h of
             Inl e \<Rightarrow> (h, Inr False)
           | Inr data \<Rightarrow>
               (case pem_Decode sys data of
                  None \<Rightarrow> (h, Inr False)
                | Some block \<Rightarrow>
                    (case x509_ParseCertificate sys block of
                       Inl e \<Rightarrow> (h, Inr False)
                     | Inr cert \<Rightarrow>
                         (let (h1, now1) = time_Now sys h
                          in if now1 < NotBefore cert then (h1, Inr False)
                             else
                               let (h2, now2) = time_Now sys h1
                               in (h2, Inr (\<not> NotAfter cert < now2 + month)))))))"

definition set_certkey :: "string \<Rightarrow> string \<Rightarrow> SecureServingOptions \<Rightarrow> SecureServingOptions" where
  "set_certkey c k s = s\<lparr>ServerCert := (ServerCert s)\<lparr>gkc_CertKey := \<lparr>CertFile = c, KeyFile = k\<rparr>\<rparr>\<rparr>"

definition set_generated :: "cert_provider option \<Rightarrow> SecureServingOptions \<Rightarrow> SecureServingOptions" where
  "set_generated c s = s\<lparr>ServerCert := (ServerCert s)\<lparr>GeneratedCert := c\<rparr>\<rparr>"

text \<open>The last part of \<open>MaybeDefaultWithSelfSignedCerts\<close>: generate a pair, and write it to
  the files or keep it in memory.\<close>

definition generate_certs ::
  "sys \<Rightarrow> string \<Rightarrow> string list \<Rightarrow> ip list \<Rightarrow> host \<Rightarrow> SecureServingOptions \<Rightarrow>
     host \<times> SecureServingOptions \<times> serving_error option" where
  "generate_certs sys publicAddress alternateDNS alternateIPs h s =
     (let dns = (if IsUnspecified (BindAddress s) then alternateDNS @ [''localhost''] else alternateDNS);
          ips = (if IsUnspecified (BindAddress s) then alternateIPs else alternateIPs @ [BindAddress s]);
          ck = gkc_CertKey (ServerCert s);
          (h1, r) = GenerateSelfSignedCertKeyWithFixtures sys publicAddress ips dns (FixtureDirectory (ServerCert s)) h
      in case r of
           Inl e \<Rightarrow> (h1, s, Some (SelfSignedFailed e))
         | Inr (cert, key) \<Rightarrow>
             (if CertFile ck \<noteq> [] \<and> KeyFile ck \<noteq> []
              then
                (case WriteCert sys (CertFile ck) cert h1 of
                   (h2, Some e) \<Rightarrow> (h2, s, Some (PlainError e))
                 | (h2, None) \<Rightarrow>
                     (case WriteCert sys (KeyFile ck) key h2 of
                        (h3, Some e) \<Rightarrow> (h3, s, Some (PlainError e))
                      | (h3, None) \<Rightarrow> (h3, s, None)))
              else
                (case NewStaticCertKeyContent sys ''Generated self signed cert'' cert key of
                   Inl e \<Rightarrow> (h1, set_generated None s, Some (PlainError e))
                 | Inr c \<Rightarrow> (h1, set_generated (Some c) s, None))))"

definition default_certs ::
  "sys \<Rightarrow> string \<Rightarrow> string list \<Rightarrow> ip list \<Rightarrow> host \<Rightarrow> SecureServingOptions \<Rightarrow>
     host \<times> SecureServingOptions \<times> serving_error option" where
  "default_certs sys publicAddress alternateDNS alternateIPs h s =
     (if BindPort s = 0 \<and> Listener s = None then (h, s, None)
      else if PregeneratedCert (ServerCert s) then (h, s, None)
      else if CertFile (gkc_CertKey (ServerCert s)) \<noteq> [] \<or> KeyFile (gkc_CertKey (ServerCert s)) \<noteq> [] then (h, s, None)
      else if CertDirectory (ServerCert s) \<noteq> []
      then
        (if PairName (ServerCert s) = [] then (h, s, Some PairNameRequired)
         else
           let cf = Join [CertDirectory (ServerCert s), PairName (ServerCert s) @ ''.crt''];
               kf = Join [CertDirectory (ServerCert s), PairName (ServerCert s) @ ''.key''];
               s1 = set_certkey cf kf s
           in case checkCertAndKeyReadableAndValid sys cf kf h of
                (h1, Inl e) \<Rightarrow> (h1, s1, Some e)
              | (h1, Inr True) \<Rightarrow> (h1, s1, None)
              | (h1, Inr False) \<Rightarrow> generate_certs sys publicAddress alternateDNS alternateIPs h1 s1)
      else generate_certs sys publicAddress alternateDNS alternateIPs h s)"

fun MaybeDefaultWithSelfSignedCerts ::
  "sys \<Rightarrow> string \<Rightarrow> string list \<Rightarrow> ip list \<Rightarrow> host \<Rightarrow> SecureServingOptions option \<Rightarrow>
     host \<times> SecureServingOptions option \<times> serving_error option" where
  "MaybeDefaultWithSelfSignedCerts sys publicAddress dns ips h None = (h, None, None)"
| "MaybeDefaultWithSelfSignedCerts sys publicAddress dns ips h (Some s) =
     (let (h', s', r) = default_certs sys publicAddress dns ips h s in (h', Some s', r))"

subsection \<open>Configuration\<close>

fun load_sni :: "sys \<Rightarrow> NamedCertKey list \<Rightarrow> host \<Rightarrow> serving_error + sni_provider list" where
  "load_sni sys [] h = Inr []"
| "load_sni sys (nck # ncks) h =
     (case NewDynamicSNIContentFromFiles sys ''sni-serving-cert'' (nck_CertFile nck) (nck_KeyFile nck) (nck_Names nck) h of
        Inl e \<Rightarrow> Inl (SNIFailed e)
      | Inr c \<Rightarrow> (case load_sni sys ncks h of Inl e \<Rightarrow> Inl e | Inr cs \<Rightarrow> Inr (c # cs)))"

definition main_cert :: "sys \<Rightarrow> GeneratableKeyCert \<Rightarrow> host \<Rightarrow> serving_error + cert_provider option" where
  "main_cert sys g h =
     (if CertFile (gkc_CertKey g) \<noteq> [] \<or> KeyFile (gkc_CertKey g) \<noteq> []
      then (case NewDynamicServingContentFromFiles sys ''serving-cert'' (CertFile (gkc_CertKey g)) (KeyFile (gkc_CertKey g)) h of
              Inl e \<Rightarrow> Inl e
            | Inr c \<Rightarrow> Inr (Some c))
      else Inr (GeneratedCert g))"

text \<open>The part of \<open>ApplyTo\<close> that fills in the configuration. Like the code it returns the
  configuration as far as it got when it fails.\<close>

definition fill_config :: "sys \<Rightarrow> SecureServingOptions \<Rightarrow> host \<Rightarrow> SecureServingInfo \<times> serving_error option" where
  "fill_config sys s h =
     (let c0 = \<lparr>ssi_Listener = Listener s, ssi_Cert = None, ssi_SNICerts = [], ssi_ClientCA = None,
                ssi_MinTLSVersion = 0, ssi_CipherSuites = [],
                ssi_HTTP2MaxStreams = HTTP2MaxStreamsPerConnection s, ssi_DisableHTTP2 = False\<rparr>
      in case main_cert sys (ServerCert s) h of
           Inl e \<Rightarrow> (c0, Some e)
         | Inr cert \<Rightarrow>
             (let c1 = c0\<lparr>ssi_Cert := cert\<rparr>
              in case TLSCipherSuites sys (CipherSuites s) of
                   Inl e \<Rightarrow> (c1, Some e)
                 | Inr suites \<Rightarrow>
                     (let c2 = c1\<lparr>ssi_CipherSuites := suites\<rparr>
                      in case TLSVersion (MinTLSVersion s) of
                           Inl e \<Rightarrow> (c2, Some e)
                         | Inr v \<Rightarrow>
                             (let c3 = c2\<lparr>ssi_MinTLSVersion := v\<rparr>
                              in case load_sni sys (SNICertKeys s) h of
                                   Inl e \<Rightarrow> (c3, Some e)
                                 | Inr sni \<Rightarrow> (c3\<lparr>ssi_SNICerts := sni\<rparr>, None)))))"

definition apply_options ::
  "sys \<Rightarrow> SecureServingOptions \<Rightarrow> SecureServingInfo option \<Rightarrow> host \<Rightarrow>
     host \<times> SecureServingOptions \<times> SecureServingInfo option \<times> serving_error option" where
  "apply_options sys s config h =
     (if BindPort s \<le> 0 \<and> Listener s = None then (h, s, config, None)
      else case Listener s of
        Some _ \<Rightarrow> (let (c, r) = fill_config sys s h in (h, s, Some c, r))
      | None \<Rightarrow>
          (case CreateListener sys (BindNetwork s) (JoinHostPort (IP_String (BindAddress s)) (Itoa (BindPort s))) h of
             (h1, Inl e) \<Rightarrow> (h1, s\<lparr>Listener := None, BindPort := 0\<rparr>, config, Some (CreateListenerFailed e))
           | (h1, Inr (ln, port)) \<Rightarrow>
               (let s1 = s\<lparr>Listener := Some ln, BindPort := port\<rparr>; (c, r) = fill_config sys s1 h1
                in (h1, s1, Some c, r))))"

fun ApplyTo ::
  "sys \<Rightarrow> SecureServingOptions option \<Rightarrow> SecureServingInfo option \<Rightarrow> host \<Rightarrow>
     host \<times> SecureServingOptions option \<times> SecureServingInfo option \<times> serving_error option" where
  "ApplyTo sys None config h = (h, None, config, None)"
| "ApplyTo sys (Some s) config h = (let (h', s', c, r) = apply_options sys s config h in (h', Some s', c, r))"

end
