(* ===== verification/Serving_Props.thy ===== *)
theory Serving_Props
  imports Serving
begin

text \<open>
  What the serving options promise: which options pass the validation, that a listener that cannot
  be used is closed again, that a started server has a certificate, and that a certificate which was
  generated once is found again by the next start.
\<close>

section \<open>Listener\<close>

text \<open>Every open listener has an identity that was given out.\<close>

definition host_ok :: "host \<Rightarrow> bool" where
  "host_ok h \<longleftrightarrow> (\<forall>i \<in> set (hs_open h). i < hs_next h) \<and> wf_dir (hs_disk h)"

lemma CreateListener_frame:
  assumes "CreateListener sys network addr h = (h', r)"
  shows "hs_disk h' = hs_disk h" "hs_reads h' = hs_reads h"
  using assms Listen_frame [of sys "if network = [] then ''tcp'' else network" addr h]
  by (auto simp: CreateListener_def split: prod.splits sum.splits net_addr.splits)

text \<open>C33. \<open>CreateListener\<close> never leaves a listener behind: on an error exactly the listeners
  that were open before are open, and on success there is exactly one more, which is the one that is
  returned, with the port of its address.\<close>

theorem CreateListener_no_leak:
  assumes "host_ok h"
  shows "case CreateListener sys network addr h of
      (h', Inl e) \<Rightarrow> hs_open h' = hs_open h
    | (h', Inr (ln, port)) \<Rightarrow> hs_open h' = ln_id ln # hs_open h \<and> ln_id ln \<notin> set (hs_open h) \<and>
        (\<exists>ip zone. ln_Addr ln = TCPAddr ip port zone)"
proof -
  obtain h1 r where l: "ListenConfig_Listen sys (if network = [] then ''tcp'' else network) addr h = (h1, r)"
    by (rule prod.exhaust)
  from assms have "\<forall>i \<in> set (hs_open h). i < hs_next h" by (simp add: host_ok_def)
  from Listen_fresh [OF l this] show ?thesis
    by (auto simp: CreateListener_def l Close_newest split: sum.splits net_addr.splits)
qed

text \<open>A machine with an empty disk, whose clock stands still, on which listening gives a fixed
  address, and where a certificate is any text, valid for a year.\<close>

definition demo_sys :: sys where
  "demo_sys = \<lparr>sys_cwd = [''srv''],
     sys_listen = (\<lambda>n network addr. if addr = ''127.0.0.1:0'' then Inr (TCPAddr (IPv4 127 0 0 1) 4711 [])
       else if network = ''unix'' then Inr (OtherAddr addr) else Inl (OtherError ''address already in use'')),
     sys_clock = (\<lambda>_. 0), pem_Decode = Some,
     x509_ParseCertificate = (\<lambda>_. Inr \<lparr>NotBefore = 0, NotAfter = 12 * month\<rparr>), tls_X509KeyPair = (\<lambda>_ _. None),
     GenerateSelfSignedCertKeyWithFixtures = (\<lambda>pub ips dns fixtures h. (h, Inr (''cert'', ''key''))),
     ResolveBindAddress = Inr, ciphers = [(''TLS_AES_128_GCM_SHA256'', 0x1301)],
     insecureCiphers = [(''TLS_RSA_WITH_RC4_128_SHA'', 0x0005)]\<rparr>"

definition demo_host :: host where
  "demo_host = \<lparr>hs_disk = [(''srv'', Dir [])], hs_open = [], hs_next = 0, hs_reads = 0\<rparr>"

lemma demo_host_ok: "host_ok demo_host"
  by (simp add: host_ok_def demo_host_def wf_dir_iff)

theorem CreateListener_no_leak_witness:
  "hs_open (fst (CreateListener demo_sys ''unix'' ''/tmp/s'' demo_host)) = [] \<and>
   hs_open (fst (CreateListener demo_sys [] ''127.0.0.1:0'' demo_host)) = [0]"
proof
  have "snd (CreateListener demo_sys ''unix'' ''/tmp/s'' demo_host) = Inl (InvalidListenAddress ''/tmp/s'')" by code_simp
  with CreateListener_no_leak [OF demo_host_ok, of demo_sys "''unix''" "''/tmp/s''"]
  show "hs_open (fst (CreateListener demo_sys ''unix'' ''/tmp/s'' demo_host)) = []"
    by (auto simp: demo_host_def split: prod.splits)
  have "snd (CreateListener demo_sys [] ''127.0.0.1:0'' demo_host) =
    Inr (\<lparr>ln_id = 0, ln_Addr = TCPAddr (IPv4 127 0 0 1) 4711 []\<rparr>, 4711)" by code_simp
  with CreateListener_no_leak [OF demo_host_ok, of demo_sys "[]" "''127.0.0.1:0''"]
  show "hs_open (fst (CreateListener demo_sys [] ''127.0.0.1:0'' demo_host)) = [0]"
    by (auto simp: demo_host_def split: prod.splits)
qed

section \<open>Validation\<close>

text \<open>The options are accepted exactly when the port is a 16-bit number, not 0 if the port is
  required, and the certificate does not come from two places.\<close>

theorem Validate_iff:
  "SecureServingOptions_Validate (Some s) = [] \<longleftrightarrow>
     (if Required s then 1 else 0) \<le> BindPort s \<and> BindPort s < 2 ^ 16 \<and>
     (GeneratedCert (ServerCert s) = None \<or>
      CertFile (gkc_CertKey (ServerCert s)) = [] \<and> KeyFile (gkc_CertKey (ServerCert s)) = [])"
  by auto

section \<open>Files\<close>

lemma WriteCert_ok:
  assumes "WriteCert sys p data h = (h', None)" and "wf_dir (hs_disk h)" and "resolve (sys_cwd sys) p = ks @ [c]"
  shows "wf_dir (hs_disk h') \<and> lookup_file (hs_disk h') = (lookup_file (hs_disk h))(ks @ [c] \<mapsto> data)"
proof -
  let ?d = "fst (ensure_parts (resolve (sys_cwd sys) (path_Dir p)) (hs_disk h))"
  from assms(1,3) have w: "os_WriteFile (ks @ [c]) data ?d = (hs_disk h', None)"
    by (auto simp: WriteCert_def os_MkdirAll_def case_prod_beta Let_def prod_eq_iff split: sum.splits option.splits)
  have wf: "wf_dir ?d" by (rule wf_ensure_parts [OF assms(2)])
  have "\<nexists>t. lookup_node ?d (ks @ [c]) = Some (Dir t)"
    using w by (auto simp: os_WriteFile_def)
  from os_WriteFile_cases [OF wf this, of data] w
  have "wf_dir (hs_disk h')" "lookup_file (hs_disk h') = (lookup_file ?d)(ks @ [c] \<mapsto> data)" by auto
  then show ?thesis by (simp add: ensure_parts_file fun_eq_iff)
qed

lemma WriteCert_frame:
  "WriteCert sys p data h = (h', r) \<Longrightarrow> hs_open h' = hs_open h \<and> hs_next h' = hs_next h \<and> hs_reads h' = hs_reads h"
  by (auto simp: WriteCert_def Let_def split: prod.splits option.splits)

lemma ReadFile_ok:
  "p \<noteq> [] \<Longrightarrow> lookup_file (hs_disk h) (resolve (sys_cwd sys) p) = Some c \<Longrightarrow> ReadFile sys p h = Inr c"
  by (auto simp: ReadFile_def os_ReadFile_def dest: lookup_file_SomeD)

lemma canReadFile_ok:
  "p \<noteq> [] \<Longrightarrow> lookup_file (hs_disk h) (resolve (sys_cwd sys) p) = Some c \<Longrightarrow> canReadFile sys p h"
  by (auto simp: canReadFile_def os_Stat_def dest: lookup_file_SomeD)

text \<open>The two files of a pair.\<close>

definition cert_path :: "SecureServingOptions \<Rightarrow> string" where
  "cert_path s = Join [CertDirectory (ServerCert s), PairName (ServerCert s) @ ''.crt'']"

definition key_path :: "SecureServingOptions \<Rightarrow> string" where
  "key_path s = Join [CertDirectory (ServerCert s), PairName (ServerCert s) @ ''.key'']"

lemma pair_paths:
  assumes "slash \<notin> set (PairName (ServerCert s))" and "PairName (ServerCert s) \<noteq> []"
  obtains ks where "resolve cwd (cert_path s) = ks @ [PairName (ServerCert s) @ ''.crt'']"
    and "resolve cwd (key_path s) = ks @ [PairName (ServerCert s) @ ''.key'']"
    and "cert_path s \<noteq> []" and "key_path s \<noteq> []"
proof -
  let ?d = "CertDirectory (ServerCert s)" and ?n = "PairName (ServerCert s)"
  let ?ks = "foldl (clean_step True) (if rooted ?d then [] else cwd) (path_elems ?d)"
  have p: "plain_seg (?n @ ''.crt'')" "plain_seg (?n @ ''.key'')" using assms by (auto simp: plain_seg_def)
  have j: "resolve cwd (Join [?d, c]) = ?ks @ [c] \<and> Join [?d, c] \<noteq> []" if "plain_seg c" for c
  proof -
    have "normal (rooted ?d) (path_elems ?d @ [c])" using that by (simp add: normal_snoc)
    from resolve_render [OF this, of cwd] that have "resolve cwd (Join [?d, c]) = ?ks @ [c]" by (simp add: Join_plain)
    moreover have "render (rooted ?d) (path_elems ?d @ [c]) \<noteq> []"
      using that by (cases "path_elems ?d") (auto simp: render_def plain_seg_def join_with_Cons split: list.splits)
    ultimately show ?thesis using that by (simp add: Join_plain)
  qed
  show thesis using that [of ?ks] j [OF p(1)] j [OF p(2)] by (simp add: cert_path_def key_path_def)
qed

section \<open>Certificates\<close>

text \<open>Options with which a server keeps its generated certificate in a directory.\<close>

definition uses_directory :: "SecureServingOptions \<Rightarrow> bool" where
  "uses_directory s \<longleftrightarrow> (BindPort s \<noteq> 0 \<or> Listener s \<noteq> None) \<and> \<not> PregeneratedCert (ServerCert s) \<and>
     gkc_CertKey (ServerCert s) = \<lparr>CertFile = [], KeyFile = []\<rparr> \<and>
     CertDirectory (ServerCert s) \<noteq> [] \<and> PairName (ServerCert s) \<noteq> [] \<and> slash \<notin> set (PairName (ServerCert s))"

text \<open>A certificate that is valid at the next two readings of the clock, and for a month more.\<close>

definition valid_now :: "sys \<Rightarrow> bytes \<Rightarrow> host \<Rightarrow> bool" where
  "valid_now sys cert h \<longleftrightarrow>
     (case pem_Decode sys cert of
        None \<Rightarrow> False
      | Some block \<Rightarrow>
          (case x509_ParseCertificate sys block of
             Inl _ \<Rightarrow> False
           | Inr c \<Rightarrow> NotBefore c \<le> sys_clock sys (hs_reads h) \<and> sys_clock sys (Suc (hs_reads h)) + month \<le> NotAfter c))"

lemma check_reads_disk_only:
  "checkCertAndKeyReadableAndValid sys cf kf h = (h', r) \<Longrightarrow>
     hs_disk h' = hs_disk h \<and> hs_open h' = hs_open h \<and> hs_next h' = hs_next h"
  by (auto simp: checkCertAndKeyReadableAndValid_def time_Now_def split: sum.splits bool.splits option.splits if_splits)

lemma check_valid:
  assumes "valid_now sys cert h" and "ReadFile sys cf h = Inr cert" and "canReadFile sys cf h" and "canReadFile sys kf h"
  shows "snd (checkCertAndKeyReadableAndValid sys cf kf h) = Inr True"
  using assms
  by (auto simp: checkCertAndKeyReadableAndValid_def CanReadCertAndKey_def time_Now_def valid_now_def
      split: option.splits sum.splits)

lemma check_unreadable:
  assumes "\<not> canReadFile sys cf h" and "\<not> canReadFile sys kf h"
  shows "checkCertAndKeyReadableAndValid sys cf kf h = (h, Inr False)"
  using assms by (simp add: checkCertAndKeyReadableAndValid_def CanReadCertAndKey_def)

lemma default_certs_directory:
  assumes "uses_directory s"
  shows "default_certs sys pub dns ips h s =
    (let s1 = set_certkey (cert_path s) (key_path s) s
     in case checkCertAndKeyReadableAndValid sys (cert_path s) (key_path s) h of
          (h1, Inl e) \<Rightarrow> (h1, s1, Some e)
        | (h1, Inr True) \<Rightarrow> (h1, s1, None)
        | (h1, Inr False) \<Rightarrow> generate_certs sys pub dns ips h1 s1)"
  using assms by (auto simp: default_certs_def uses_directory_def cert_path_def key_path_def Let_def)

text \<open>A generator whose pairs fit together and that keeps the disk a tree without duplicate names.\<close>

definition generator_ok :: "sys \<Rightarrow> bool" where
  "generator_ok sys \<longleftrightarrow>
     (\<forall>pub ips dns fixtures h h' cert key.
        GenerateSelfSignedCertKeyWithFixtures sys pub ips dns fixtures h = (h', Inr (cert, key)) \<longrightarrow>
        (wf_dir (hs_disk h) \<longrightarrow> wf_dir (hs_disk h')) \<and> cert \<noteq> [] \<and> key \<noteq> [] \<and> tls_X509KeyPair sys cert key = None)"

lemma generate_certs_files:
  assumes "generate_certs sys pub dns ips h s = (h', s', None)" and "generator_ok sys" and "wf_dir (hs_disk h)"
    and "gkc_CertKey (ServerCert s) = \<lparr>CertFile = cf, KeyFile = kf\<rparr>" and "cf \<noteq> []" and "kf \<noteq> []"
    and "resolve (sys_cwd sys) cf = ks @ [a]" and "resolve (sys_cwd sys) kf = ks @ [b]" and "a \<noteq> b"
  shows "\<exists>cert key. s' = s \<and> wf_dir (hs_disk h') \<and> lookup_file (hs_disk h') (ks @ [a]) = Some cert \<and>
    lookup_file (hs_disk h') (ks @ [b]) = Some key \<and> cert \<noteq> [] \<and> key \<noteq> [] \<and> tls_X509KeyPair sys cert key = None"
proof -
  let ?dns = "if IsUnspecified (BindAddress s) then dns @ [''localhost''] else dns"
  let ?ips = "if IsUnspecified (BindAddress s) then ips else ips @ [BindAddress s]"
  obtain h1 r where g: "GenerateSelfSignedCertKeyWithFixtures sys pub ?ips ?dns (FixtureDirectory (ServerCert s)) h = (h1, r)"
    by (rule prod.exhaust)
  with assms(1,4-6) obtain cert key h2 where r: "r = Inr (cert, key)" and w1: "WriteCert sys cf cert h1 = (h2, None)"
    and w2: "WriteCert sys kf key h2 = (h', None)" and s': "s' = s"
    by (auto simp: generate_certs_def Let_def split: sum.splits prod.splits option.splits)
  from assms(2,3) g r have k: "wf_dir (hs_disk h1)" "cert \<noteq> []" "key \<noteq> []" "tls_X509KeyPair sys cert key = None"
    unfolding generator_ok_def by blast+
  from WriteCert_ok [OF w1 k(1) assms(7)] have f: "wf_dir (hs_disk h2)"
    "lookup_file (hs_disk h2) = (lookup_file (hs_disk h1))(ks @ [a] \<mapsto> cert)" by blast+
  from WriteCert_ok [OF w2 f(1) assms(8)] f(2) assms(9) k s' show ?thesis by auto
qed

text \<open>C36. A restart finds the certificate of the first start: if a server with a certificate
  directory has generated its pair there and the certificate is still good for a month, the next
  start with the same options writes nothing, takes the same files and serves the pair that the
  first start wrote.\<close>

theorem Restart_reuses_certificate:
  assumes "uses_directory s" and "generator_ok sys" and "host_ok h"
    and "\<not> canReadFile sys (cert_path s) h" and "\<not> canReadFile sys (key_path s) h"
    and "default_certs sys pub dns ips h s = (h1, s1, None)"
    and "hs_disk h' = hs_disk h1"
    and "\<forall>cert. ReadFile sys (cert_path s) h' = Inr cert \<longrightarrow> valid_now sys cert h'"
  shows "\<exists>cert key h2. default_certs sys pub dns ips h' s = (h2, s1, None) \<and> hs_disk h2 = hs_disk h1 \<and>
    ReadFile sys (cert_path s) h1 = Inr cert \<and> ReadFile sys (key_path s) h1 = Inr key \<and>
    (\<exists>n. main_cert sys (ServerCert s1) h2 = Inr (Some (DynamicCert n (cert_path s) (key_path s) cert key)))"
proof -
  let ?s1 = "set_certkey (cert_path s) (key_path s) s"
  from assms(1) have n: "slash \<notin> set (PairName (ServerCert s))" "PairName (ServerCert s) \<noteq> []"
    by (auto simp: uses_directory_def)
  obtain ks where ks: "resolve (sys_cwd sys) (cert_path s) = ks @ [PairName (ServerCert s) @ ''.crt'']"
    "resolve (sys_cwd sys) (key_path s) = ks @ [PairName (ServerCert s) @ ''.key'']"
    and ne: "cert_path s \<noteq> []" "key_path s \<noteq> []" by (rule pair_paths [OF n])
  have g: "generate_certs sys pub dns ips h ?s1 = (h1, s1, None)"
    using assms(6) by (simp add: default_certs_directory [OF assms(1)] check_unreadable [OF assms(4,5)])
  have ck: "gkc_CertKey (ServerCert ?s1) = \<lparr>CertFile = cert_path s, KeyFile = key_path s\<rparr>" by (simp add: set_certkey_def)
  from assms(3) have wf: "wf_dir (hs_disk h)" by (simp add: host_ok_def)
  have ab: "PairName (ServerCert s) @ ''.crt'' \<noteq> PairName (ServerCert s) @ ''.key''" by simp
  from generate_certs_files [OF g assms(2) wf ck ne ks ab] obtain cert key where
    f: "s1 = ?s1" "lookup_file (hs_disk h1) (resolve (sys_cwd sys) (cert_path s)) = Some cert"
    "lookup_file (hs_disk h1) (resolve (sys_cwd sys) (key_path s)) = Some key"
    "cert \<noteq> []" "key \<noteq> []" "tls_X509KeyPair sys cert key = None"
    unfolding ks by blast
  have rd: "ReadFile sys (cert_path s) x = Inr cert" "ReadFile sys (key_path s) x = Inr key"
    "canReadFile sys (cert_path s) x" "canReadFile sys (key_path s) x" if "hs_disk x = hs_disk h1" for x
    using f(2,3) ne that by (auto intro: ReadFile_ok canReadFile_ok)
  obtain h2 v where c: "checkCertAndKeyReadableAndValid sys (cert_path s) (key_path s) h' = (h2, v)" by (rule prod.exhaust)
  have "v = Inr True" using check_valid [OF _ rd(1,3,4) [OF assms(7)]] assms(8) rd(1) [OF assms(7)] c by simp
  with c have d: "default_certs sys pub dns ips h' s = (h2, s1, None)" by (simp add: default_certs_directory [OF assms(1)] f(1))
  have h2: "hs_disk h2 = hs_disk h1" using check_reads_disk_only [OF c] assms(7) by simp
  have "main_cert sys (ServerCert s1) h2 = Inr (Some (DynamicCert
    (''serving-cert'' @ ''::'' @ cert_path s @ ''::'' @ key_path s) (cert_path s) (key_path s) cert key))"
    using f(4-6) ne rd(1,2) [OF h2]
    by (simp add: main_cert_def f(1) ck NewDynamicServingContentFromFiles_def loadCertKeyPair_def)
  with d h2 rd(1,2) [of h1] show ?thesis by blast
qed

theorem Restart_reuses_certificate_witness:
  "\<exists>h1 s1 h2. default_certs demo_sys ''localhost'' [] [] demo_host NewSecureServingOptions = (h1, s1, None) \<and>
     hs_disk h1 \<noteq> hs_disk demo_host \<and>
     default_certs demo_sys ''localhost'' [] [] h1 NewSecureServingOptions = (h2, s1, None) \<and> hs_disk h2 = hs_disk h1"
proof -
  let ?s = NewSecureServingOptions
  have u: "uses_directory ?s" by code_simp
  have g: "generator_ok demo_sys" by (simp add: generator_ok_def demo_sys_def)
  have c: "\<not> canReadFile demo_sys (cert_path ?s) demo_host" "\<not> canReadFile demo_sys (key_path ?s) demo_host" by code_simp+
  have v: "valid_now demo_sys cert h" for cert h by (simp add: valid_now_def demo_sys_def month_def)
  obtain h1 s1 r where d: "default_certs demo_sys ''localhost'' [] [] demo_host ?s = (h1, s1, r)" by (metis prod.exhaust)
  have "snd (snd (default_certs demo_sys ''localhost'' [] [] demo_host ?s)) = None" by code_simp
  with d have r: "r = None" by simp
  have "hs_disk (fst (default_certs demo_sys ''localhost'' [] [] demo_host ?s)) \<noteq> hs_disk demo_host" by code_simp
  with d have n: "hs_disk h1 \<noteq> hs_disk demo_host" by simp
  from Restart_reuses_certificate [OF u g demo_host_ok c, of "''localhost''" "[]" "[]" h1 s1 h1] d r v
  obtain h2 where "default_certs demo_sys ''localhost'' [] [] h1 ?s = (h2, s1, None)" "hs_disk h2 = hs_disk h1" by blast
  with d r n show ?thesis by blast
qed

end
