(* ===== verification/Tls_Config.thy ===== *)
theory Tls_Config
  imports Serving_Props
begin

text \<open>
  \<open>pkg/server/start/tls_config.go\<close>: the \<open>tls.Config\<close> that the server uses. All
  certificates are loaded once, before the configuration is returned.

  The calls that the function makes on the certificate providers and on the controller are kept in
  a trace, in their order. Reading a pair of files again may give a provider new content. The file
  of a client CA and the controller itself (\<open>dynamiccertificates\<close>) are parameters.
\<close>

section \<open>Definitions\<close>

text \<open>\<open>Warn\<close> and \<open>WarnFunc\<close>: a function as the implementation of an interface with one
  method.\<close>

record 'a Warn =
  Warnf :: "string \<Rightarrow> string list \<Rightarrow> 'a"

definition WarnFunc :: "(string \<Rightarrow> string list \<Rightarrow> 'a) \<Rightarrow> 'a Warn" where
  "WarnFunc f = \<lparr>Warnf = (\<lambda>tpl args. f tpl args)\<rparr>"

datatype tls_call =
    AddListenerCA ca_provider
  | AddListener cert_provider
  | RunOnceCA ca_provider
  | RunOnce cert_provider
  | ControllerRunOnce

record cert_controller =
  cc_ClientCA :: "ca_provider option"
  cc_Cert :: "cert_provider option"
  cc_SNICerts :: "sni_provider list"

record tls_Config =
  MinVersion :: "16 word"
  NextProtos :: "string list"
  tc_CipherSuites :: "16 word list"
  RequestClientCert :: bool
  GetConfigForClient :: "cert_controller option"

record tls_lib =
  ca_load :: "string \<Rightarrow> host \<Rightarrow> serving_error + bytes"
  controller_RunOnce :: "tls_Config \<Rightarrow> cert_controller \<Rightarrow> host \<Rightarrow> serving_error option"

text \<open>\<open>RunOnce\<close> of a provider that is a controller; the static ones are not.\<close>

fun ca_RunOnce :: "tls_lib \<Rightarrow> host \<Rightarrow> ca_provider \<Rightarrow> tls_call list \<times> (serving_error + ca_provider)" where
  "ca_RunOnce lib h (StaticCA n b) = ([], Inr (StaticCA n b))"
| "ca_RunOnce lib h (DynamicCA n f b) =
     ([RunOnceCA (DynamicCA n f b)],
      case ca_load lib f h of Inl e \<Rightarrow> Inl (PopulationFailed ''client CA'' e) | Inr b' \<Rightarrow> Inr (DynamicCA n f b'))"

fun cert_RunOnce :: "sys \<Rightarrow> string \<Rightarrow> host \<Rightarrow> cert_provider \<Rightarrow> tls_call list \<times> (serving_error + cert_provider)" where
  "cert_RunOnce sys what h (StaticCert n c k) = ([], Inr (StaticCert n c k))"
| "cert_RunOnce sys what h (DynamicCert n cf kf c k) =
     ([RunOnce (DynamicCert n cf kf c k)],
      case loadCertKeyPair sys cf kf h of
        Inl e \<Rightarrow> Inl (PopulationFailed what e)
      | Inr (c', k') \<Rightarrow> Inr (DynamicCert n cf kf c' k'))"

text \<open>The first insecure cipher suite of the list. Go iterates the table of insecure suites in an
  arbitrary order: here it is the order of the list.\<close>

fun insecure_suite :: "sys \<Rightarrow> 16 word list \<Rightarrow> string option" where
  "insecure_suite sys [] = None"
| "insecure_suite sys (v # vs) =
     (case find (\<lambda>(n, id). v = id) (insecureCiphers sys) of
        Some (n, _) \<Rightarrow> Some n
      | None \<Rightarrow> insecure_suite sys vs)"

fun prime_sni :: "sys \<Rightarrow> host \<Rightarrow> sni_provider list \<Rightarrow> tls_call list \<times> (serving_error + sni_provider list)" where
  "prime_sni sys h [] = ([], Inr [])"
| "prime_sni sys h (c # cs) =
     (let (t1, r) = cert_RunOnce sys ''SNI serving certificate'' h (sni_cert c)
      in case r of
           Inl e \<Rightarrow> (AddListener (sni_cert c) # t1, Inl e)
         | Inr c' \<Rightarrow>
             (let (t2, rs) = prime_sni sys h cs
              in (AddListener (sni_cert c) # t1 @ t2,
                  case rs of Inl e \<Rightarrow> Inl e | Inr cs' \<Rightarrow> Inr (c\<lparr>sni_cert := c'\<rparr> # cs'))))"

definition opt_RunOnce ::
  "('p \<Rightarrow> tls_call list \<times> (serving_error + 'p)) \<Rightarrow> 'p option \<Rightarrow> tls_call list \<times> (serving_error + 'p option)" where
  "opt_RunOnce run p =
     (case p of
        None \<Rightarrow> ([], Inr None)
      | Some q \<Rightarrow> (let (t, r) = run q in (t, case r of Inl e \<Rightarrow> Inl e | Inr q' \<Rightarrow> Inr (Some q'))))"

text \<open>The block that runs when there is a provider: the controller is registered with the providers,
  the providers are primed, then the controller.\<close>

definition prime_certs ::
  "sys \<Rightarrow> tls_lib \<Rightarrow> host \<Rightarrow> tls_Config \<Rightarrow> SecureServingInfo \<Rightarrow> tls_call list \<times> (serving_error + cert_controller)" where
  "prime_certs sys lib h cfg s =
     (let t0 = (case ssi_ClientCA s of Some ca \<Rightarrow> [AddListenerCA ca] | None \<Rightarrow> []) @
               (case ssi_Cert s of Some c \<Rightarrow> [AddListener c] | None \<Rightarrow> []);
          (t1, r1) = opt_RunOnce (ca_RunOnce lib h) (ssi_ClientCA s)
      in case r1 of
           Inl e \<Rightarrow> (t0 @ t1, Inl e)
         | Inr ca \<Rightarrow>
             (let (t2, r2) = opt_RunOnce (cert_RunOnce sys ''default serving certificate'' h) (ssi_Cert s)
              in case r2 of
                   Inl e \<Rightarrow> (t0 @ t1 @ t2, Inl e)
                 | Inr cert \<Rightarrow>
                     (let (t3, r3) = prime_sni sys h (ssi_SNICerts s)
                      in case r3 of
                           Inl e \<Rightarrow> (t0 @ t1 @ t2 @ t3, Inl e)
                         | Inr sni \<Rightarrow>
                             (let ctl = \<lparr>cc_ClientCA = ca, cc_Cert = cert, cc_SNICerts = sni\<rparr>
                              in (t0 @ t1 @ t2 @ t3 @ [ControllerRunOnce],
                                  case controller_RunOnce lib cfg ctl h of
                                    Some e \<Rightarrow> Inl (PopulationFailed ''dynamic certificates'' e)
                                  | None \<Rightarrow> Inr ctl)))))"

definition TLSConfig ::
  "sys \<Rightarrow> tls_lib \<Rightarrow> SecureServingInfo \<Rightarrow> host \<Rightarrow> tls_call list \<times> (serving_error + tls_Config)" where
  "TLSConfig sys lib s h =
     (let c0 = \<lparr>MinVersion = VersionTLS12, NextProtos = [''h2'', ''http/1.1''], tc_CipherSuites = [],
                RequestClientCert = False, GetConfigForClient = None\<rparr>;
          c1 = (if ssi_DisableHTTP2 s then c0\<lparr>NextProtos := [''http/1.1'']\<rparr> else c0);
          c2 = (if 0 < ssi_MinTLSVersion s then c1\<lparr>MinVersion := ssi_MinTLSVersion s\<rparr> else c1);
          c3 = (if ssi_CipherSuites s \<noteq> [] then c2\<lparr>tc_CipherSuites := ssi_CipherSuites s\<rparr> else c2)
      in case insecure_suite sys (ssi_CipherSuites s) of
           Some n \<Rightarrow> ([], Inl (InsecureCipher n))
         | None \<Rightarrow>
             (let c4 = (if ssi_ClientCA s \<noteq> None then c3\<lparr>RequestClientCert := True\<rparr> else c3)
              in if ssi_ClientCA s \<noteq> None \<or> ssi_Cert s \<noteq> None \<or> ssi_SNICerts s \<noteq> []
                 then
                   (case prime_certs sys lib h c4 s of
                      (t, Inl e) \<Rightarrow> (t, Inl e)
                    | (t, Inr ctl) \<Rightarrow> (t, Inr (c4\<lparr>GetConfigForClient := Some ctl\<rparr>)))
                 else ([], Inr c4)))"

section \<open>Lemmas\<close>

lemma insecure_suite_None:
  "insecure_suite sys vs = None \<longleftrightarrow> (\<forall>v \<in> set vs. v \<notin> snd ` set (insecureCiphers sys))"
proof (induction vs)
  case (Cons v vs)
  have "find (\<lambda>(n, id). v = id) (insecureCiphers sys) = None \<longleftrightarrow> v \<notin> snd ` set (insecureCiphers sys)"
    by (force simp: find_None_iff)
  with Cons show ?case by (auto split: option.splits)
qed simp

lemma TLSCipherSuites_lookup:
  "TLSCipherSuites sys ns = Inr vs \<Longrightarrow> n \<in> set ns \<Longrightarrow> \<exists>v \<in> set vs. allCiphers sys n = Some v"
  by (induction sys ns arbitrary: vs rule: TLSCipherSuites.induct) (auto split: option.splits sum.splits)

lemma allCiphers_insecure:
  assumes "n \<in> fst ` set (insecureCiphers sys)" and "allCiphers sys n = Some v"
  shows "v \<in> snd ` set (insecureCiphers sys)"
proof -
  from assms(1) have "map_of (insecureCiphers sys) n \<noteq> None" by (simp add: map_of_eq_None_iff)
  with assms(2) have "map_of (insecureCiphers sys) n = Some v" by (auto simp: allCiphers_def)
  then show ?thesis by (force dest: map_of_SomeD)
qed

lemma TLSVersion_pos: "TLSVersion n = Inr v \<Longrightarrow> 0 < v"
  by (auto simp: TLSVersion_def versions_def VersionTLS12_def split: if_splits)

lemma fill_config_ok:
  assumes "fill_config sys s h = (c, None)"
  shows "ssi_Listener c = Listener s \<and> main_cert sys (ServerCert s) h = Inr (ssi_Cert c) \<and>
    TLSCipherSuites sys (CipherSuites s) = Inr (ssi_CipherSuites c) \<and>
    TLSVersion (MinTLSVersion s) = Inr (ssi_MinTLSVersion c) \<and> load_sni sys (SNICertKeys s) h = Inr (ssi_SNICerts c) \<and>
    ssi_ClientCA c = None \<and> \<not> ssi_DisableHTTP2 c"
  using assms by (auto simp: fill_config_def Let_def split: sum.splits)

lemma TLSConfig_ok:
  assumes "TLSConfig sys lib s h = (t, Inr c)"
  shows "insecure_suite sys (ssi_CipherSuites s) = None"
    and "MinVersion c = (if 0 < ssi_MinTLSVersion s then ssi_MinTLSVersion s else VersionTLS12)"
    and "tc_CipherSuites c = ssi_CipherSuites s"
    and "ssi_Cert s \<noteq> None \<Longrightarrow> \<exists>cfg ctl. prime_certs sys lib h cfg s = (t, Inr ctl) \<and> GetConfigForClient c = Some ctl"
  using assms by (auto simp: TLSConfig_def Let_def split: option.splits prod.splits sum.splits if_splits)

lemma cert_RunOnce_ok:
  "cert_RunOnce sys what h p = (t, Inr p') \<Longrightarrow>
     (case p of StaticCert n c k \<Rightarrow> p' = p \<and> t = []
      | DynamicCert n cf kf c k \<Rightarrow> t = [RunOnce p] \<and>
          (\<exists>c' k'. p' = DynamicCert n cf kf c' k' \<and> loadCertKeyPair sys cf kf h = Inr (c', k')))"
  by (cases p) (auto split: sum.splits)

lemma prime_certs_ok:
  assumes "prime_certs sys lib h cfg s = (t, Inr ctl)"
  shows "last t = ControllerRunOnce" and "controller_RunOnce lib cfg ctl h = None"
    and "ssi_Cert s = Some p \<Longrightarrow> \<exists>p' t'. cert_RunOnce sys ''default serving certificate'' h p = (t', Inr p') \<and>
      cc_Cert ctl = Some p' \<and> set t' \<subseteq> set (butlast t)"
  using assms
  by (auto simp: prime_certs_def opt_RunOnce_def Let_def butlast_append split: prod.splits sum.splits option.splits)

lemma TLS_config_policy:
  assumes "fill_config sys s h = (info, None)" and "TLSConfig sys lib info h = (trace, Inr c)"
    and "ssi_Cert info = Some p"
  shows "(\<forall>n \<in> set (CipherSuites s). n \<notin> fst ` set (insecureCiphers sys)) \<and>
    TLSVersion (MinTLSVersion s) = Inr (MinVersion c) \<and> (MinTLSVersion s = [] \<longrightarrow> MinVersion c = VersionTLS12) \<and>
    (\<exists>ctl p'. GetConfigForClient c = Some ctl \<and> cc_Cert ctl = Some p' \<and> last trace = ControllerRunOnce \<and>
      (case p of StaticCert n ct k \<Rightarrow> p' = p
       | DynamicCert n cf kf ct k \<Rightarrow> RunOnce p \<in> set (butlast trace) \<and>
           loadCertKeyPair sys cf kf h = Inr (CurrentCertKeyContent p')))"
proof -
  note f = fill_config_ok [OF assms(1)] and t = TLSConfig_ok [OF assms(2)]
  have "n \<notin> fst ` set (insecureCiphers sys)" if "n \<in> set (CipherSuites s)" for n
    using TLSCipherSuites_lookup [of sys "CipherSuites s" "ssi_CipherSuites info" n] that f
      allCiphers_insecure [of n sys] t(1) by (auto simp: insecure_suite_None)
  moreover have v: "TLSVersion (MinTLSVersion s) = Inr (MinVersion c)"
    using f t(2) TLSVersion_pos [of "MinTLSVersion s"] by simp
  moreover have "MinTLSVersion s = [] \<longrightarrow> MinVersion c = VersionTLS12" using v by (auto simp: TLSVersion_def)
  moreover obtain cfg ctl where p: "prime_certs sys lib h cfg info = (trace, Inr ctl)" "GetConfigForClient c = Some ctl"
    using t(4) assms(3) by blast
  moreover obtain p' t' where "cert_RunOnce sys ''default serving certificate'' h p = (t', Inr p')"
    and c: "cc_Cert ctl = Some p'" "set t' \<subseteq> set (butlast trace)" using prime_certs_ok(3) [OF p(1) assms(3)] by blast
  from cert_RunOnce_ok [OF this(1)] c(2) have "case p of StaticCert n ct k \<Rightarrow> p' = p
     | DynamicCert n cf kf ct k \<Rightarrow> RunOnce p \<in> set (butlast trace) \<and>
         loadCertKeyPair sys cf kf h = Inr (CurrentCertKeyContent p')"
    by (auto split: cert_provider.splits)
  ultimately show ?thesis using prime_certs_ok(1) [OF p(1)] c(1) by blast
qed

section \<open>Properties\<close>

text \<open>The TLS policy of a server that starts: no cipher suite of its options is on the list of
  insecure ones, the minimum version is the one that the options name, TLS 1.2 if they name none,
  and the certificates have been read before the configuration is used: the pair that clients are
  served with is the content of the files at that moment, or the generated one.\<close>

theorem TLS_policy:
  assumes "fill_config sys s h = (info, None)" and "TLSConfig sys lib info h = (trace, Inr c)"
    and "ssi_Cert info = Some p"
  shows "(\<forall>n \<in> set (CipherSuites s). n \<notin> fst ` set (insecureCiphers sys)) \<and>
    TLSVersion (MinTLSVersion s) = Inr (MinVersion c) \<and> (MinTLSVersion s = [] \<longrightarrow> MinVersion c = VersionTLS12) \<and>
    (\<exists>ctl p'. GetConfigForClient c = Some ctl \<and> cc_Cert ctl = Some p' \<and> last trace = ControllerRunOnce \<and>
      (case p of StaticCert n ct k \<Rightarrow> p' = p
       | DynamicCert n cf kf ct k \<Rightarrow> RunOnce p \<in> set (butlast trace) \<and>
           loadCertKeyPair sys cf kf h = Inr (CurrentCertKeyContent p')))"
  by (rule TLS_config_policy [OF assms])

definition demo_tls :: tls_lib where
  "demo_tls = \<lparr>ca_load = (\<lambda>f h. Inr ''ca''), controller_RunOnce = (\<lambda>cfg ctl h. None)\<rparr>"

text \<open>The default options after a first start on the machine of the examples.\<close>

definition demo_started :: "host \<times> SecureServingOptions" where
  "demo_started = (case default_certs demo_sys ''localhost'' [] [] demo_host
     (NewSecureServingOptions\<lparr>CipherSuites := [''TLS_AES_128_GCM_SHA256'']\<rparr>) of (h, s, _) \<Rightarrow> (h, s))"

theorem TLS_policy_witness:
  "\<exists>info trace c. fill_config demo_sys (snd demo_started) (fst demo_started) = (info, None) \<and>
     TLSConfig demo_sys demo_tls info (fst demo_started) = (trace, Inr c) \<and> MinVersion c = VersionTLS12"
proof -
  let ?h = "fst demo_started" and ?s = "snd demo_started"
  obtain info r where f: "fill_config demo_sys ?s ?h = (info, r)" by (rule prod.exhaust)
  have "snd (fill_config demo_sys ?s ?h) = None" by code_simp
  with f have f': "fill_config demo_sys ?s ?h = (info, None)" by simp
  have "ssi_Cert (fst (fill_config demo_sys ?s ?h)) \<noteq> None" by code_simp
  with f obtain p where p: "ssi_Cert info = Some p" by auto
  have "\<not> isl (snd (TLSConfig demo_sys demo_tls (fst (fill_config demo_sys ?s ?h)) ?h))" by code_simp
  with f obtain trace c where t: "TLSConfig demo_sys demo_tls info ?h = (trace, Inr c)"
    by (cases "TLSConfig demo_sys demo_tls info ?h"; cases "snd (TLSConfig demo_sys demo_tls info ?h)") auto
  have "MinTLSVersion ?s = []" by code_simp
  with TLS_policy [OF f' t p] f' t show ?thesis by blast
qed

text \<open>A server with an insecure cipher suite among its options does not start: either the options
  are refused, or the TLS configuration is, before any certificate provider is touched.\<close>

theorem Insecure_cipher_refused:
  assumes "n \<in> set (CipherSuites s)" and "n \<in> fst ` set (insecureCiphers sys)"
  shows "case fill_config sys s h of
      (info, Some e) \<Rightarrow> True
    | (info, None) \<Rightarrow> (\<exists>m. TLSConfig sys lib info h = ([], Inl (InsecureCipher m)) \<and> m \<in> fst ` set (insecureCiphers sys))"
proof -
  obtain info r where f: "fill_config sys s h = (info, r)" by (rule prod.exhaust)
  have "\<exists>m. TLSConfig sys lib info h = ([], Inl (InsecureCipher m)) \<and> m \<in> fst ` set (insecureCiphers sys)" if "r = None"
  proof -
    from that f have "TLSCipherSuites sys (CipherSuites s) = Inr (ssi_CipherSuites info)" using fill_config_ok by blast
    from TLSCipherSuites_lookup [OF this assms(1)] obtain v where
      "v \<in> set (ssi_CipherSuites info)" "allCiphers sys n = Some v" by blast
    with allCiphers_insecure [OF assms(2)] obtain m where m: "insecure_suite sys (ssi_CipherSuites info) = Some m"
      by (cases "insecure_suite sys (ssi_CipherSuites info)") (auto simp: insecure_suite_None)
    have "insecure_suite sys vs = Some m \<Longrightarrow> m \<in> fst ` set (insecureCiphers sys)" for vs
      by (induction vs) (auto simp: find_Some_iff split: option.splits dest!: nth_mem intro: rev_image_eqI)
    with m show ?thesis by (auto simp: TLSConfig_def)
  qed
  with f show ?thesis by (cases r) auto
qed

theorem Insecure_cipher_refused_witness:
  "\<exists>info m. fill_config demo_sys ((snd demo_started)\<lparr>CipherSuites := [''TLS_RSA_WITH_RC4_128_SHA'']\<rparr>) (fst demo_started) = (info, None) \<and>
     TLSConfig demo_sys demo_tls info (fst demo_started) = ([], Inl (InsecureCipher m))"
proof -
  let ?h = "fst demo_started" and ?s = "(snd demo_started)\<lparr>CipherSuites := [''TLS_RSA_WITH_RC4_128_SHA'']\<rparr>"
  have "''TLS_RSA_WITH_RC4_128_SHA'' \<in> fst ` set (insecureCiphers demo_sys)" by (simp add: demo_sys_def)
  moreover have "''TLS_RSA_WITH_RC4_128_SHA'' \<in> set (CipherSuites ?s)" by simp
  moreover have "snd (fill_config demo_sys ?s ?h) = None" by code_simp
  ultimately show ?thesis using Insecure_cipher_refused [of "''TLS_RSA_WITH_RC4_128_SHA''" ?s demo_sys demo_tls ?h]
    by (cases "fill_config demo_sys ?s ?h") auto
qed

end
