(* ===== verification/Api_Server.thy ===== *)
theory Api_Server
  imports Scheme Auth Tls_Config
begin

text \<open>
  \<open>pkg/server/apiserver\<close>: connection providers (\<open>conn.go\<close>), the configuration of the
  server and its construction (\<open>apiserver.go\<close>), and the API groups that are built from the
  registered storage providers (\<open>ext.go\<close>).

  A storage provider is run on the state of the storages (\<open>'w\<close>), which it may change; it may
  fail, and it may panic. The API map is an association list, in the order in which Go's \<open>range\<close>
  happens to visit it. Of the generic server only the calls that this code makes are modelled:
  creating it and installing a group are parameters. The options getter is never nil: the options of
  \<open>start.go\<close> always set it.
\<close>

section \<open>Connections\<close>

record 'c ConnProvider =
  cp_Dial :: "string \<Rightarrow> string \<Rightarrow> host \<Rightarrow> host \<times> (go_error + 'c)"
  cp_DialContext :: "string \<Rightarrow> string \<Rightarrow> host \<Rightarrow> host \<times> (go_error + 'c)"
  cp_Listen :: "string \<Rightarrow> string \<Rightarrow> host \<Rightarrow> host \<times> (go_error + listener)"

definition NetworkConnProvider :: "'c ConnProvider \<Rightarrow> string \<Rightarrow> 'c ConnProvider" where
  "NetworkConnProvider p net =
     \<lparr>cp_Dial = (\<lambda>_ address. cp_Dial p net address),
      cp_DialContext = (\<lambda>_ address. cp_DialContext p net address),
      cp_Listen = (\<lambda>_ address. cp_Listen p net address)\<rparr>"

section \<open>Configuration\<close>

record 'c rest_Config =
  Host :: string
  QPS :: nat
  Burst :: nat
  CAData :: bytes
  rcfg_BearerToken :: string
  Dial :: "(string \<Rightarrow> string \<Rightarrow> host \<Rightarrow> host \<times> (go_error + 'c)) option"

record OpenAPIConfig =
  oa_Definitions :: "string list"
  oa_Title :: string
  oa_Version :: string

text \<open>The fields of \<open>genericapiserver.RecommendedConfig\<close> that the repository reads or writes.
  The options getter gives the codec of a resource.\<close>

record ('c, 'k) RecommendedConfig =
  rc_ExternalAddress :: string
  rc_Authorizer :: "authorizer option"
  rc_Authenticator :: "authenticator option"
  rc_LoopbackClientConfig :: "'c rest_Config option"
  rc_RESTOptionsGetter :: "(GroupResource \<Rightarrow> go_error + 'k) option"
  rc_OpenAPIConfig :: "OpenAPIConfig option"
  rc_OpenAPIV3Config :: "OpenAPIConfig option"
  rc_SharedInformerFactory :: bool
  rc_EffectiveVersion :: bool

type_synonym 'k getter = "GroupResource \<Rightarrow> go_error + 'k"

type_synonym ('w, 'o, 'k, 'st) StorageProvider =
  "'o Scheme \<Rightarrow> 'k getter \<Rightarrow> 'w \<Rightarrow> ('w \<times> (go_error + 'st)) option"

type_synonym ('w, 'o, 'k, 'st) api_map = "(GroupVersionResource \<times> ('w, 'o, 'k, 'st) StorageProvider) list"

record ('w, 'o, 'k, 'st) ExtraConfig =
  ec_Scheme :: "'o Scheme"
  ec_APIs :: "('w, 'o, 'k, 'st) api_map"
  ec_ServingInfo :: "SecureServingInfo option"

record ('w, 'o, 'k, 'st, 'c) Config =
  GenericConfig :: "('c, 'k) RecommendedConfig"
  cfg_ExtraConfig :: "('w, 'o, 'k, 'st) ExtraConfig"

text \<open>\<open>Complete\<close> of the generic configuration adds the loopback token to the authenticator; the
  other fields that it fills in are not used here.\<close>

definition RecommendedConfig_Complete :: "('c, 'k) RecommendedConfig \<Rightarrow> ('c, 'k) RecommendedConfig" where
  "RecommendedConfig_Complete c =
     c\<lparr>rc_Authenticator :=
         AuthorizeClientBearerToken (map_option rcfg_BearerToken (rc_LoopbackClientConfig c))
           (rc_Authenticator c) (rc_Authorizer c)\<rparr>"

definition Config_Complete :: "('w, 'o, 'k, 'st, 'c) Config \<Rightarrow> ('w, 'o, 'k, 'st, 'c) Config" where
  "Config_Complete cfg =
     cfg\<lparr>GenericConfig := RecommendedConfig_Complete ((GenericConfig cfg)\<lparr>rc_EffectiveVersion := True\<rparr>)\<rparr>"

section \<open>API groups\<close>

record 'st APIGroupInfo =
  agi_Group :: string
  PrioritizedVersions :: "GroupVersion list"
  VersionedResourcesStorageMap :: "(string \<times> (string \<times> 'st) list) list"

text \<open>The registration of a defaulting function for a storage that is itself a defaulting object:
  \<open>defaulter\<close> says whether it is, with its type and method.\<close>

definition register_default :: "('st \<Rightarrow> (gotype \<times> ('o \<Rightarrow> 'o)) option) \<Rightarrow> 'st \<Rightarrow> 'o Scheme \<Rightarrow> 'o Scheme" where
  "register_default defaulter storage sch =
     (case defaulter storage of None \<Rightarrow> sch | Some (t, d) \<Rightarrow> AddTypeDefaultingFunc t d sch)"

fun build_group ::
  "('st \<Rightarrow> (gotype \<times> ('o \<Rightarrow> 'o)) option) \<Rightarrow> 'k getter \<Rightarrow> string \<Rightarrow> ('w, 'o, 'k, 'st) api_map \<Rightarrow>
     'o Scheme \<Rightarrow> 'w \<Rightarrow> (string \<times> (string \<times> 'st) list) list \<Rightarrow>
     ('o Scheme \<times> 'w \<times> (go_error + (string \<times> (string \<times> 'st) list) list)) option" where
  "build_group defaulter g grp [] sch w apis = Some (sch, w, Inr apis)"
| "build_group defaulter g grp ((gvr, provider) # m) sch w apis =
     (if gvr_Group gvr \<noteq> grp then build_group defaulter g grp m sch w apis
      else
        let resources = (case map_of apis (gvr_Version gvr) of None \<Rightarrow> [] | Some rs \<Rightarrow> rs)
        in case provider sch g w of
             None \<Rightarrow> None
           | Some (w', Inl e) \<Rightarrow> Some (sch, w', Inl e)
           | Some (w', Inr storage) \<Rightarrow>
               build_group defaulter g grp m (register_default defaulter storage sch) w'
                 (AList.update (gvr_Version gvr) (AList.update (gvr_Resource gvr) storage resources) apis))"

fun build_groups ::
  "('st \<Rightarrow> (gotype \<times> ('o \<Rightarrow> 'o)) option) \<Rightarrow> 'k getter \<Rightarrow> ('w, 'o, 'k, 'st) api_map \<Rightarrow> string list \<Rightarrow>
     'o Scheme \<Rightarrow> 'w \<Rightarrow> ('o Scheme \<times> 'w \<times> (go_error + 'st APIGroupInfo list)) option" where
  "build_groups defaulter g m [] sch w = Some (sch, w, Inr [])"
| "build_groups defaulter g m (grp # grps) sch w =
     (case build_group defaulter g grp m sch w [] of
        None \<Rightarrow> None
      | Some (sch1, w1, Inl e) \<Rightarrow> Some (sch1, w1, Inl e)
      | Some (sch1, w1, Inr apis) \<Rightarrow>
          (let info = \<lparr>agi_Group = grp, PrioritizedVersions = PrioritizedVersionsForGroup sch1 grp,
                       VersionedResourcesStorageMap = apis\<rparr>
           in case build_groups defaulter g m grps sch1 w1 of
                None \<Rightarrow> None
              | Some (sch2, w2, Inl e) \<Rightarrow> Some (sch2, w2, Inl e)
              | Some (sch2, w2, Inr infos) \<Rightarrow> Some (sch2, w2, Inr (info # infos))))"

definition buildAPIGroupInfos ::
  "('st \<Rightarrow> (gotype \<times> ('o \<Rightarrow> 'o)) option) \<Rightarrow> 'o Scheme \<Rightarrow> ('w, 'o, 'k, 'st) api_map \<Rightarrow> 'k getter \<Rightarrow> 'w \<Rightarrow>
     ('o Scheme \<times> 'w \<times> (go_error + 'st APIGroupInfo list)) option" where
  "buildAPIGroupInfos defaulter sch m g w =
     build_groups defaulter g m (sort (remdups (map (\<lambda>a. gvr_Group (fst a)) m))) sch w"

section \<open>The server\<close>

text \<open>The server as far as this code sees it: the groups that are installed and the hooks.\<close>

record 'st GenericAPIServer =
  installed :: "'st APIGroupInfo list"
  postStartHooks :: "string list"

text \<open>The checks of \<open>InstallAPIGroup\<close> that come first; what it does with a group beyond them is
  the parameter \<open>install\<close>.\<close>

definition InstallAPIGroup ::
  "('st APIGroupInfo \<Rightarrow> go_error option) \<Rightarrow> 'st APIGroupInfo \<Rightarrow> 'st GenericAPIServer \<Rightarrow> 'st GenericAPIServer \<times> go_error option" where
  "InstallAPIGroup install info srv =
     (case PrioritizedVersions info of
        [] \<Rightarrow> (srv, Some (OtherError ''no version priority set''))
      | gv # _ \<Rightarrow>
          (if gv_Group gv = [] then (srv, Some (OtherError ''cannot register handler with an empty group''))
           else if gv_Version gv = [] then (srv, Some (OtherError ''cannot register handler with an empty version''))
           else case install info of
               Some e \<Rightarrow> (srv, Some e)
             | None \<Rightarrow> (srv\<lparr>installed := installed srv @ [info]\<rparr>, None)))"

fun install_groups ::
  "('st APIGroupInfo \<Rightarrow> go_error option) \<Rightarrow> 'st APIGroupInfo list \<Rightarrow> 'st GenericAPIServer \<Rightarrow>
     'st GenericAPIServer \<times> go_error option" where
  "install_groups install [] srv = (srv, None)"
| "install_groups install (info # infos) srv =
     (case InstallAPIGroup install info srv of
        (srv', Some e) \<Rightarrow> (srv', Some e)
      | (srv', None) \<Rightarrow> install_groups install infos srv')"

record ('c, 'k, 'st) server_lib =
  lib_New :: "('c, 'k) RecommendedConfig \<Rightarrow> go_error option"
  lib_install :: "'st APIGroupInfo \<Rightarrow> go_error option"

definition Config_New ::
  "('c, 'k, 'st) server_lib \<Rightarrow> ('st \<Rightarrow> (gotype \<times> ('o \<Rightarrow> 'o)) option) \<Rightarrow> ('w, 'o, 'k, 'st, 'c) Config \<Rightarrow> 'w \<Rightarrow>
     ('w \<times> (go_error + 'st GenericAPIServer)) option" where
  "Config_New lib defaulter c w =
     (case lib_New lib (GenericConfig c) of
        Some e \<Rightarrow> Some (w, Inl e)
      | None \<Rightarrow>
          (case rc_RESTOptionsGetter (GenericConfig c) of
             None \<Rightarrow> None
           | Some g \<Rightarrow>
               (case buildAPIGroupInfos defaulter (ec_Scheme (cfg_ExtraConfig c)) (ec_APIs (cfg_ExtraConfig c)) g w of
                  None \<Rightarrow> None
                | Some (_, w', Inl e) \<Rightarrow> Some (w', Inl e)
                | Some (_, w', Inr infos) \<Rightarrow>
                    (case install_groups (lib_install lib) infos \<lparr>installed = [], postStartHooks = []\<rparr> of
                       (_, Some e) \<Rightarrow> Some (w', Inl e)
                     | (srv, None) \<Rightarrow> Some (w', Inr srv)))))"

end
