(* ===== verification/Api_Server_Props.thy ===== *)
theory Api_Server_Props
  imports Api_Server
begin

text \<open>
  The API groups that the server installs are exactly those of the registered storage providers.
\<close>

section \<open>Lemmas\<close>

definition served :: "(string \<times> (string \<times> 'st) list) list \<Rightarrow> string \<Rightarrow> string \<Rightarrow> 'st option" where
  "served apis v r = (case map_of apis v of None \<Rightarrow> None | Some rs \<Rightarrow> map_of rs r)"

abbreviation gvr_of :: "string \<Rightarrow> string \<Rightarrow> string \<Rightarrow> GroupVersionResource" where
  "gvr_of grp v r \<equiv> \<lparr>gvr_Group = grp, gvr_Version = v, gvr_Resource = r\<rparr>"

text \<open>A storage that a provider may return.\<close>

definition provides :: "'k getter \<Rightarrow> ('w, 'o, 'k, 'st) StorageProvider \<Rightarrow> 'st \<Rightarrow> bool" where
  "provides g p st \<longleftrightarrow> (\<exists>sch w w'. p sch g w = Some (w', Inr st))"

lemma served_update:
  "served (AList.update v (AList.update r st (case map_of apis v of None \<Rightarrow> [] | Some rs \<Rightarrow> rs)) apis) v' r' =
     (if v' = v \<and> r' = r then Some st else served apis v' r')"
  by (auto simp: served_def split: option.splits)

lemma build_group_served:
  "build_group d g grp m sch w apis = Some (sch', w', Inr apis') \<Longrightarrow>
     (served apis' v r \<noteq> None \<longleftrightarrow> served apis v r \<noteq> None \<or> gvr_of grp v r \<in> fst ` set m) \<and>
     (\<forall>st. served apis' v r = Some st \<longrightarrow> served apis v r = Some st \<or> (\<exists>p. (gvr_of grp v r, p) \<in> set m \<and> provides g p st))"
proof (induction d g grp m sch w apis rule: build_group.induct)
  case (2 d g grp gvr provider m sch w apis)
  show ?case
  proof (cases "gvr_Group gvr = grp")
    case False
    with 2 have "gvr_of grp v r \<noteq> gvr" by auto
    with False 2 show ?thesis by auto
  next
    case True
    let ?res = "case map_of apis (gvr_Version gvr) of None \<Rightarrow> [] | Some rs \<Rightarrow> rs"
    from True 2(3) obtain w1 st0 where p: "provider sch g w = Some (w1, Inr st0)"
      by (auto simp: Let_def split: option.splits sum.splits)
    let ?apis = "AList.update (gvr_Version gvr) (AList.update (gvr_Resource gvr) st0 ?res) apis"
    from True 2(3) p have r: "build_group d g grp m (register_default d st0 sch) w1 ?apis = Some (sch', w', Inr apis')"
      by (simp add: Let_def)
    note ih = 2(2) [OF _ refl p refl refl r]
    have k: "gvr_of grp v r = gvr \<longleftrightarrow> v = gvr_Version gvr \<and> r = gvr_Resource gvr"
      using True by (cases gvr) auto
    have pr: "provides g provider st0" using p by (auto simp: provides_def)
    show ?thesis using True ih pr by (auto simp: served_update k)
  qed
qed auto

lemma build_groups_infos:
  "build_groups d g m grps sch w = Some (sch', w', Inr infos) \<Longrightarrow>
     map agi_Group infos = grps \<and>
     (\<forall>info \<in> set infos. \<exists>sch0 w0 sch1 w1.
        build_group d g (agi_Group info) m sch0 w0 [] = Some (sch1, w1, Inr (VersionedResourcesStorageMap info)) \<and>
        PrioritizedVersions info = PrioritizedVersionsForGroup sch1 (agi_Group info))"
proof (induction d g m grps sch w arbitrary: infos rule: build_groups.induct)
  case (2 d g m grp grps sch w)
  then obtain sch1 w1 apis infos' where b: "build_group d g grp m sch w [] = Some (sch1, w1, Inr apis)"
    and r: "build_groups d g m grps sch1 w1 = Some (sch', w', Inr infos')"
    and i: "infos = \<lparr>agi_Group = grp, PrioritizedVersions = PrioritizedVersionsForGroup sch1 grp,
      VersionedResourcesStorageMap = apis\<rparr> # infos'"
    by (auto simp: Let_def split: option.splits sum.splits)
  have "map agi_Group infos' = grps \<and> (\<forall>info \<in> set infos'. \<exists>sch0 w0 sch1 w1.
      build_group d g (agi_Group info) m sch0 w0 [] = Some (sch1, w1, Inr (VersionedResourcesStorageMap info)) \<and>
      PrioritizedVersions info = PrioritizedVersionsForGroup sch1 (agi_Group info))"
    using "2.IH" [OF b refl refl refl _ r] by simp
  with b show ?case by (auto simp: i)
qed simp

section \<open>Properties\<close>

text \<open>C35. The groups that are installed are exactly the groups of the registered resources, each once,
  in alphabetical order; within a group, a version and resource is served if and only if it was
  registered, and by a storage that its own provider made, whatever the order in which the map of
  providers is visited.\<close>

theorem API_groups_exact:
  assumes "buildAPIGroupInfos d sch m g w = Some (sch', w', Inr infos)"
  shows "sorted (map agi_Group infos) \<and> distinct (map agi_Group infos) \<and>
    set (map agi_Group infos) = gvr_Group ` fst ` set m \<and>
    (\<forall>info \<in> set infos. \<forall>v r.
       (served (VersionedResourcesStorageMap info) v r \<noteq> None \<longleftrightarrow> gvr_of (agi_Group info) v r \<in> fst ` set m) \<and>
       (\<forall>st. served (VersionedResourcesStorageMap info) v r = Some st \<longrightarrow>
          (\<exists>p. (gvr_of (agi_Group info) v r, p) \<in> set m \<and> provides g p st)))"
proof -
  let ?grps = "sort (remdups (map (\<lambda>a. gvr_Group (fst a)) m))"
  note i = build_groups_infos [OF assms [unfolded buildAPIGroupInfos_def]]
  have e: "served [] v r = (None :: 'a option)" for v r by (simp add: served_def)
  have "set ?grps = gvr_Group ` fst ` set m" by auto
  moreover have "(served (VersionedResourcesStorageMap info) v r \<noteq> None \<longleftrightarrow> gvr_of (agi_Group info) v r \<in> fst ` set m) \<and>
      (\<forall>st. served (VersionedResourcesStorageMap info) v r = Some st \<longrightarrow>
         (\<exists>p. (gvr_of (agi_Group info) v r, p) \<in> set m \<and> provides g p st))" if "info \<in> set infos" for info v r
  proof -
    from i that obtain sch0 w0 sch1 w1 where
      "build_group d g (agi_Group info) m sch0 w0 [] = Some (sch1, w1, Inr (VersionedResourcesStorageMap info))" by blast
    from build_group_served [OF this, of v r] show ?thesis by (auto simp: served_def)
  qed
  ultimately show ?thesis using i by simp
qed

definition demo_apis :: "(nat, unit, unit, nat) api_map" where
  "demo_apis =
     [(gvr_of ''b'' ''v1'' ''xs'', \<lambda>sch g w. Some (Suc w, Inr w)), (gvr_of ''a'' ''v1'' ''ys'', \<lambda>sch g w. Some (Suc w, Inr w)),
      (gvr_of ''b'' ''v1'' ''xs/status'', \<lambda>sch g w. Some (Suc w, Inr w))]"

theorem API_groups_exact_witness:
  "\<exists>sch' w' infos. buildAPIGroupInfos (\<lambda>_. None) empty_Scheme demo_apis (\<lambda>_. Inr ()) 0 = Some (sch', w', Inr infos) \<and>
     set (map agi_Group infos) = {''a'', ''b''}"
proof -
  let ?b = "buildAPIGroupInfos (\<lambda>_. None) empty_Scheme demo_apis (\<lambda>_. Inr ()) 0"
  have "map_option (\<lambda>(_, _, r). isl r) ?b = Some False" by code_simp
  then obtain sch' w' infos where b: "?b = Some (sch', w', Inr infos)"
    by (cases ?b; cases "snd (snd (the ?b))") auto
  from API_groups_exact [OF b] have "set (map agi_Group infos) = gvr_Group ` fst ` set demo_apis" by blast
  also have "\<dots> = {''a'', ''b''}" by (auto simp: demo_apis_def)
  finally show ?thesis using b by blast
qed

end
