(* ===== verification/Serving_Flags.thy ===== *)
theory Serving_Flags
  imports Serving_Props
begin

text \<open>
  The flags of the serving options: \<open>AddFlags\<close> of \<open>pkg/server/options/serving.go\<close>
  registers one flag per option, and setting a flag writes the option. The parsers of the values are
  those of \<open>pflag\<close> and are parameters; the value of \<open>--tls-sni-cert-key\<close>
  (\<open>NamedCertKey\<close> of \<open>component-base/cli/flag\<close>) is parsed as its source does. The help
  texts are left out.
\<close>

section \<open>Definitions\<close>

record pflag_lib =
  pf_IP :: "string \<Rightarrow> go_error + ip"
  pf_Int :: "string \<Rightarrow> go_error + int"
  pf_Bool :: "string \<Rightarrow> go_error + bool"
  pf_StringSlice :: "string \<Rightarrow> go_error + string list"

text \<open>A flag has a name and a way to set its value. Flags whose value is a list replace the default
  when they are set for the first time and append afterwards: they know whether they have been set.\<close>

record flag =
  fl_Name :: string
  fl_Set :: "bool \<Rightarrow> string \<Rightarrow> SecureServingOptions \<Rightarrow> go_error + SecureServingOptions"

definition scalar_flag ::
  "string \<Rightarrow> (string \<Rightarrow> go_error + 'a) \<Rightarrow> ('a \<Rightarrow> SecureServingOptions \<Rightarrow> SecureServingOptions) \<Rightarrow> flag" where
  "scalar_flag name parse store =
     \<lparr>fl_Name = name, fl_Set = (\<lambda>_ v s. case parse v of Inl e \<Rightarrow> Inl e | Inr x \<Rightarrow> Inr (store x s))\<rparr>"

definition list_flag ::
  "string \<Rightarrow> (string \<Rightarrow> go_error + 'a list) \<Rightarrow> (SecureServingOptions \<Rightarrow> 'a list) \<Rightarrow>
     ('a list \<Rightarrow> SecureServingOptions \<Rightarrow> SecureServingOptions) \<Rightarrow> flag" where
  "list_flag name parse get store =
     \<lparr>fl_Name = name,
      fl_Set = (\<lambda>changed v s. case parse v of
          Inl e \<Rightarrow> Inl e
        | Inr xs \<Rightarrow> Inr (store (if changed then get s @ xs else xs) s))\<rparr>"

definition NamedCertKey_Set :: "string \<Rightarrow> go_error + NamedCertKey" where
  "NamedCertKey_Set value =
     (let colon = CHR '':'' \<in> set value;
          keycert = TrimSpace (takeWhile (\<lambda>c. c \<noteq> CHR '':'') value);
          names = TrimSpace (tl (dropWhile (\<lambda>c. c \<noteq> CHR '':'') value))
      in if colon \<and> names = [] then Inl (OtherError ''empty names list is not allowed'')
         else case split_on (CHR '','') keycert of
             [cert, key] \<Rightarrow>
               Inr \<lparr>nck_Names = (if colon then map TrimSpace (split_on (CHR '','') names) else []),
                    nck_CertFile = TrimSpace cert, nck_KeyFile = TrimSpace key\<rparr>
           | _ \<Rightarrow> Inl (OtherError ''expected comma separated certificate and key file paths''))"

definition set_ServerCert :: "(GeneratableKeyCert \<Rightarrow> GeneratableKeyCert) \<Rightarrow> SecureServingOptions \<Rightarrow> SecureServingOptions" where
  "set_ServerCert f s = s\<lparr>ServerCert := f (ServerCert s)\<rparr>"

definition set_CertKey :: "(CertKey \<Rightarrow> CertKey) \<Rightarrow> SecureServingOptions \<Rightarrow> SecureServingOptions" where
  "set_CertKey f = set_ServerCert (\<lambda>g. g\<lparr>gkc_CertKey := f (gkc_CertKey g)\<rparr>)"

definition serving_flags :: "pflag_lib \<Rightarrow> flag list" where
  "serving_flags lib =
     [scalar_flag ''bind-address'' (pf_IP lib) (\<lambda>x s. s\<lparr>BindAddress := x\<rparr>),
      scalar_flag ''secure-port'' (pf_Int lib) (\<lambda>x s. s\<lparr>BindPort := x\<rparr>),
      scalar_flag ''token'' Inr (\<lambda>x s. s\<lparr>BearerToken := x\<rparr>),
      scalar_flag ''cert-dir'' Inr (\<lambda>x. set_ServerCert (\<lambda>g. g\<lparr>CertDirectory := x\<rparr>)),
      scalar_flag ''tls-cert-file'' Inr (\<lambda>x. set_CertKey (\<lambda>c. c\<lparr>CertFile := x\<rparr>)),
      scalar_flag ''tls-private-key-file'' Inr (\<lambda>x. set_CertKey (\<lambda>c. c\<lparr>KeyFile := x\<rparr>)),
      list_flag ''tls-cipher-suites'' (pf_StringSlice lib) CipherSuites (\<lambda>x s. s\<lparr>CipherSuites := x\<rparr>),
      scalar_flag ''tls-min-version'' Inr (\<lambda>x s. s\<lparr>MinTLSVersion := x\<rparr>),
      list_flag ''tls-sni-cert-key'' (\<lambda>v. case NamedCertKey_Set v of Inl e \<Rightarrow> Inl e | Inr k \<Rightarrow> Inr [k])
        SNICertKeys (\<lambda>x s. s\<lparr>SNICertKeys := x\<rparr>),
      scalar_flag ''http2-max-streams-per-connection'' (pf_Int lib) (\<lambda>x s. s\<lparr>HTTP2MaxStreamsPerConnection := x\<rparr>),
      scalar_flag ''permit-port-sharing'' (pf_Bool lib) (\<lambda>x s. s\<lparr>PermitPortSharing := x\<rparr>)]"

text \<open>A flag set refuses a second flag of the same name with a panic, here \<open>None\<close>.\<close>

fun add_flags :: "flag list \<Rightarrow> flag list \<Rightarrow> flag list option" where
  "add_flags fs [] = Some fs"
| "add_flags fs (f # r) = (if fl_Name f \<in> set (map fl_Name fs) then None else add_flags (fs @ [f]) r)"

definition AddFlags :: "pflag_lib \<Rightarrow> SecureServingOptions option \<Rightarrow> flag list \<Rightarrow> flag list option" where
  "AddFlags lib s fs = (case s of None \<Rightarrow> Some fs | Some _ \<Rightarrow> add_flags fs (serving_flags lib))"

text \<open>The flags of a command line, set from left to right; an unknown flag or a value that does not
  parse ends the command.\<close>

fun set_flags ::
  "flag list \<Rightarrow> string list \<Rightarrow> (string \<times> string) list \<Rightarrow> SecureServingOptions \<Rightarrow> go_error + SecureServingOptions" where
  "set_flags fs changed [] s = Inr s"
| "set_flags fs changed ((name, v) # args) s =
     (case find (\<lambda>f. fl_Name f = name) fs of
        None \<Rightarrow> Inl (OtherError ''unknown flag'')
      | Some f \<Rightarrow>
          (case fl_Set f (name \<in> set changed) v s of
             Inl e \<Rightarrow> Inl e
           | Inr s' \<Rightarrow> set_flags fs (name # changed) args s'))"

text \<open>The values that a command line gives to a flag; a scalar option ends up with the last of them.\<close>

definition values_of :: "string \<Rightarrow> (string \<times> string) list \<Rightarrow> string list" where
  "values_of name args = map snd (filter (\<lambda>a. fst a = name) args)"

definition last_parsed :: "(string \<Rightarrow> go_error + 'a) \<Rightarrow> 'a \<Rightarrow> string list \<Rightarrow> 'a" where
  "last_parsed parse d vs = foldl (\<lambda>d v. case parse v of Inl _ \<Rightarrow> d | Inr x \<Rightarrow> x) d vs"

definition parsed_lists :: "(string \<Rightarrow> go_error + 'a list) \<Rightarrow> string list \<Rightarrow> 'a list" where
  "parsed_lists parse vs = concat (map (\<lambda>v. case parse v of Inl _ \<Rightarrow> [] | Inr xs \<Rightarrow> xs) vs)"

section \<open>Lemmas\<close>

lemmas flag_defs = serving_flags_def scalar_flag_def list_flag_def set_ServerCert_def set_CertKey_def

lemma values_of_simps [simp]:
  "values_of n [] = []" "values_of n ((m, v) # args) = (if m = n then v # values_of n args else values_of n args)"
  by (simp_all add: values_of_def)

lemma last_parsed_simps [simp]:
  "last_parsed parse d [] = d"
  "parse v = Inr x \<Longrightarrow> last_parsed parse d (v # vs) = last_parsed parse x vs"
  by (simp_all add: last_parsed_def)

lemma last_parsed_Inr: "last_parsed Inr d vs = last (d # vs)"
  by (induction vs arbitrary: d) (auto simp: last_parsed_def)

lemma parsed_lists_simps [simp]:
  "parsed_lists parse [] = []"
  "parse v = Inr xs \<Longrightarrow> parsed_lists parse (v # vs) = xs @ parsed_lists parse vs"
  by (simp_all add: parsed_lists_def)

lemma AddFlags_serving: "AddFlags lib (Some s) [] = Some (serving_flags lib)"
  by (simp add: AddFlags_def flag_defs)

lemma set_flags_Cons:
  assumes "set_flags fs changed ((name, v) # args) s = Inr s'"
  obtains f s1 where "f \<in> set fs" "fl_Name f = name" "fl_Set f (name \<in> set changed) v s = Inr s1"
    "set_flags fs (name # changed) args s1 = Inr s'"
proof -
  from assms obtain f s1 where "find (\<lambda>f. fl_Name f = name) fs = Some f"
    "fl_Set f (name \<in> set changed) v s = Inr s1" "set_flags fs (name # changed) args s1 = Inr s'"
    by (auto split: option.splits sum.splits)
  then show thesis using that by (auto simp: find_Some_iff dest!: nth_mem)
qed

text \<open>What a whole command line does to one part of the options follows from what each flag does
  to it: nothing, or the assignment of the parsed value by the flag of a given name.\<close>

definition keeps :: "flag list \<Rightarrow> (SecureServingOptions \<Rightarrow> 'a) \<Rightarrow> bool" where
  "keeps fs get \<longleftrightarrow> (\<forall>f \<in> set fs. \<forall>changed v s s1. fl_Set f changed v s = Inr s1 \<longrightarrow> get s1 = get s)"

definition assigns :: "flag list \<Rightarrow> string \<Rightarrow> (string \<Rightarrow> go_error + 'a) \<Rightarrow> (SecureServingOptions \<Rightarrow> 'a) \<Rightarrow> bool" where
  "assigns fs name parse get \<longleftrightarrow>
     (\<forall>f \<in> set fs. \<forall>changed v s s1. fl_Set f changed v s = Inr s1 \<longrightarrow>
        (if fl_Name f = name then parse v = Inr (get s1) else get s1 = get s))"

lemma set_flags_keeps:
  assumes "keeps fs get" and "set_flags fs changed args s = Inr s'"
  shows "get s' = get s"
  using assms(2)
proof (induction args arbitrary: changed s)
  case (Cons a args)
  obtain name v where a: "a = (name, v)" by (rule prod.exhaust)
  from Cons.prems [unfolded a] obtain f s1 where "f \<in> set fs" "fl_Set f (name \<in> set changed) v s = Inr s1"
    and r: "set_flags fs (name # changed) args s1 = Inr s'" by (rule set_flags_Cons)
  then have "get s1 = get s" using assms(1) by (auto simp: keeps_def)
  with Cons.IH [OF r] show ?case by simp
qed simp

lemma set_flags_assigns:
  assumes "assigns fs name parse get" and "set_flags fs changed args s = Inr s'"
  shows "get s' = last_parsed parse (get s) (values_of name args)"
  using assms(2)
proof (induction args arbitrary: changed s)
  case (Cons a args)
  obtain n v where a: "a = (n, v)" by (rule prod.exhaust)
  from Cons.prems [unfolded a] obtain f s1 where "f \<in> set fs" "fl_Name f = n" "fl_Set f (n \<in> set changed) v s = Inr s1"
    and r: "set_flags fs (n # changed) args s1 = Inr s'" by (rule set_flags_Cons)
  then have "if n = name then parse v = Inr (get s1) else get s1 = get s" using assms(1) by (auto simp: assigns_def)
  with Cons.IH [OF r] show ?case by (auto simp: a)
qed simp

lemma serving_flag_assigns:
  "assigns (serving_flags lib) ''bind-address'' (pf_IP lib) BindAddress"
  "assigns (serving_flags lib) ''secure-port'' (pf_Int lib) BindPort"
  "assigns (serving_flags lib) ''token'' Inr BearerToken"
  "assigns (serving_flags lib) ''cert-dir'' Inr (\<lambda>s. CertDirectory (ServerCert s))"
  "assigns (serving_flags lib) ''tls-cert-file'' Inr (\<lambda>s. CertFile (gkc_CertKey (ServerCert s)))"
  "assigns (serving_flags lib) ''tls-private-key-file'' Inr (\<lambda>s. KeyFile (gkc_CertKey (ServerCert s)))"
  "assigns (serving_flags lib) ''tls-min-version'' Inr MinTLSVersion"
  "assigns (serving_flags lib) ''http2-max-streams-per-connection'' (pf_Int lib) HTTP2MaxStreamsPerConnection"
  "assigns (serving_flags lib) ''permit-port-sharing'' (pf_Bool lib) PermitPortSharing"
  by (auto simp: assigns_def flag_defs split: sum.splits)

lemma serving_flags_keep:
  "keeps (serving_flags lib) Listener" "keeps (serving_flags lib) BindNetwork" "keeps (serving_flags lib) Required"
  "keeps (serving_flags lib) ExternalAddress" "keeps (serving_flags lib) (\<lambda>s. PairName (ServerCert s))"
  "keeps (serving_flags lib) (\<lambda>s. GeneratedCert (ServerCert s))"
  "keeps (serving_flags lib) (\<lambda>s. PregeneratedCert (ServerCert s))"
  by (auto simp: keeps_def flag_defs split: sum.splits)

lemma set_flags_ciphers:
  "set_flags (serving_flags lib) changed args s = Inr s' \<Longrightarrow>
     CipherSuites s' = (if ''tls-cipher-suites'' \<in> set changed \<or> values_of ''tls-cipher-suites'' args = []
        then CipherSuites s @ parsed_lists (pf_StringSlice lib) (values_of ''tls-cipher-suites'' args)
        else parsed_lists (pf_StringSlice lib) (values_of ''tls-cipher-suites'' args))"
proof (induction args arbitrary: changed s)
  case (Cons a args)
  obtain n v where a: "a = (n, v)" by (rule prod.exhaust)
  from Cons.prems [unfolded a] obtain f s1 where f: "f \<in> set (serving_flags lib)" "fl_Name f = n"
    "fl_Set f (n \<in> set changed) v s = Inr s1" and r: "set_flags (serving_flags lib) (n # changed) args s1 = Inr s'"
    by (rule set_flags_Cons)
  have "if n = ''tls-cipher-suites'' then \<exists>xs. pf_StringSlice lib v = Inr xs \<and>
      CipherSuites s1 = (if n \<in> set changed then CipherSuites s @ xs else xs)
    else CipherSuites s1 = CipherSuites s"
    using f by (auto simp: flag_defs split: sum.splits)
  with Cons.IH [OF r] show ?case by (auto simp: a split: if_splits)
qed simp

section \<open>Properties\<close>

text \<open>The flags register without a clash, and a command line that is accepted has the effect its
  user expects: each scalar option has the last value given to its flag, or its default if there is
  none; the cipher suites are the default or all those that are given; the token is the last one
  given; and no flag touches the listener, the network, or whether the port is required.\<close>

theorem Flags_set_options:
  assumes "set_flags (serving_flags lib) [] args s = Inr s'"
  shows "AddFlags lib (Some s) [] = Some (serving_flags lib) \<and>
    BindAddress s' = last_parsed (pf_IP lib) (BindAddress s) (values_of ''bind-address'' args) \<and>
    BindPort s' = last_parsed (pf_Int lib) (BindPort s) (values_of ''secure-port'' args) \<and>
    BearerToken s' = last (BearerToken s # values_of ''token'' args) \<and>
    CertDirectory (ServerCert s') = last (CertDirectory (ServerCert s) # values_of ''cert-dir'' args) \<and>
    CipherSuites s' = (if values_of ''tls-cipher-suites'' args = [] then CipherSuites s
      else parsed_lists (pf_StringSlice lib) (values_of ''tls-cipher-suites'' args)) \<and>
    Listener s' = Listener s \<and> BindNetwork s' = BindNetwork s \<and> Required s' = Required s \<and>
    PairName (ServerCert s') = PairName (ServerCert s) \<and> GeneratedCert (ServerCert s') = GeneratedCert (ServerCert s)"
  using serving_flag_assigns [THEN set_flags_assigns, OF assms] serving_flags_keep [THEN set_flags_keeps, OF assms]
    set_flags_ciphers [OF assms]
  by (simp add: AddFlags_serving last_parsed_Inr)

definition demo_pflag :: pflag_lib where
  "demo_pflag = \<lparr>pf_IP = (\<lambda>v. if v = ''127.0.0.1'' then Inr (IPv4 127 0 0 1) else Inl (OtherError ''failed to parse IP'')),
     pf_Int = ParseInt, pf_Bool = (\<lambda>v. if v = ''true'' then Inr True else Inl (OtherError ''invalid syntax'')),
     pf_StringSlice = (\<lambda>v. Inr (split_on (CHR '','') v))\<rparr>"

theorem Flags_set_options_witness:
  "\<exists>s'. set_flags (serving_flags demo_pflag) [] [(''secure-port'', ''8443''), (''token'', ''a''), (''token'', ''b''), (''secure-port'', ''9443'')]
     NewSecureServingOptions = Inr s' \<and> BearerToken s' = ''b''"
proof -
  let ?args = "[(''secure-port'', ''8443''), (''token'', ''a''), (''token'', ''b''), (''secure-port'', ''9443'')]"
  have "\<not> isl (set_flags (serving_flags demo_pflag) [] ?args NewSecureServingOptions)" by code_simp
  then obtain s' where s: "set_flags (serving_flags demo_pflag) [] ?args NewSecureServingOptions = Inr s'"
    by (cases "set_flags (serving_flags demo_pflag) [] ?args NewSecureServingOptions") auto
  from Flags_set_options [OF s] s show ?thesis by simp
qed

end
