(* ===== verification/Start.thy ===== *)
theory Start
  imports Api_Server_Props Serving_Flags
begin

text \<open>
  \<open>pkg/server/start/start.go\<close> and \<open>ext.go\<close>: the options of the server, how they become
  a configuration, and how the server is run.

  A panic is \<open>None\<close>. The effects of running the server that matter for their order are kept as a
  list of events. The feature gate, the generic configuration and the generic server are
  parameters, in the record \<open>start_lib\<close>. The writers for standard output are left out, since
  nothing is written to them.
\<close>

section \<open>Definitions\<close>

datatype start_error =
    FeatureGateFailed go_error
  | ConnListenFailed go_error
  | SelfSignedCertsFailed serving_error
  | ServingFailed serving_error
  | NoServeConfig
  | NoCertificates
  | Aggregate "serving_error list" bool
  | ServerFailed go_error
  | TLSFailed serving_error
  | FlagFailed go_error

type_synonym ('c, 'k) RecommendedConfigFn = "('c, 'k) RecommendedConfig \<Rightarrow> ('c, 'k) RecommendedConfig"

record ('w, 'o, 'k, 'st, 'c) TiltServerOptions =
  tso_scheme :: "'o Scheme"
  tso_codec :: 'k
  recommendedConfigFns :: "('c, 'k) RecommendedConfigFn list"
  tso_apis :: "('w, 'o, 'k, 'st) api_map"
  ServingOptions :: SecureServingOptions
  tso_ConnProvider :: "'c ConnProvider option"

definition NewTiltServerOptions ::
  "'o Scheme \<Rightarrow> 'k \<Rightarrow> ('c, 'k) RecommendedConfigFn list \<Rightarrow> ('w, 'o, 'k, 'st) api_map \<Rightarrow>
     SecureServingOptions \<Rightarrow> 'c ConnProvider option \<Rightarrow> ('w, 'o, 'k, 'st, 'c) TiltServerOptions" where
  "NewTiltServerOptions sch codec fns apis serving connProvider =
     \<lparr>tso_scheme = sch, tso_codec = codec, recommendedConfigFns = fns, tso_apis = apis,
      ServingOptions = serving, tso_ConnProvider = connProvider\<rparr>"

text \<open>\<open>ext.go\<close>.\<close>

definition ApplyRecommendedConfigFns ::
  "('w, 'o, 'k, 'st, 'c) TiltServerOptions \<Rightarrow> ('c, 'k) RecommendedConfig \<Rightarrow> ('c, 'k) RecommendedConfig" where
  "ApplyRecommendedConfigFns opts c = foldl (\<lambda>c fn. fn c) c (recommendedConfigFns opts)"

definition SetOpenAPIDefinitionFn :: "string \<Rightarrow> string \<Rightarrow> string list \<Rightarrow> ('c, 'k) RecommendedConfigFn" where
  "SetOpenAPIDefinitionFn name version defs c =
     c\<lparr>rc_OpenAPIV3Config := Some \<lparr>oa_Definitions = defs, oa_Title = name, oa_Version = version\<rparr>,
       rc_OpenAPIConfig := Some \<lparr>oa_Definitions = defs, oa_Title = name, oa_Version = version\<rparr>\<rparr>"

definition TiltServerOptions_Validate :: "('w, 'o, 'k, 'st, 'c) TiltServerOptions \<Rightarrow> start_error option" where
  "TiltServerOptions_Validate opts =
     (let errs = SecureServingOptions_Validate (Some (ServingOptions opts)); noPort = BindPort (ServingOptions opts) = 0
      in if errs = [] \<and> \<not> noPort then None else Some (Aggregate errs noPort))"

definition TiltServerOptions_Complete :: "('w, 'o, 'k, 'st, 'c) TiltServerOptions \<Rightarrow> start_error option" where
  "TiltServerOptions_Complete opts = None"

definition GetRESTOptions :: "('w, 'o, 'k, 'st, 'c) TiltServerOptions \<Rightarrow> GroupResource \<Rightarrow> go_error + 'k" where
  "GetRESTOptions opts gr = Inr (tso_codec opts)"

definition loopbackClientConfig ::
  "('w, 'o, 'k, 'st, 'c) TiltServerOptions \<Rightarrow> cert_provider \<Rightarrow> 'c rest_Config option" where
  "loopbackClientConfig opts cert =
     (if BindPort (ServingOptions opts) = 0 then None
      else
        Some \<lparr>Host = ''https://'' @ host_port (BindAddress (ServingOptions opts)) (BindPort (ServingOptions opts)),
              QPS = 50, Burst = 100, CAData = fst (CurrentCertKeyContent cert),
              rcfg_BearerToken = BearerToken (ServingOptions opts),
              Dial = map_option cp_DialContext (tso_ConnProvider opts)\<rparr>)"

record ('c, 'k, 'st) start_lib =
  sl_featureGate :: "string \<Rightarrow> go_error option"
  sl_NewRecommendedConfig :: "('c, 'k) RecommendedConfig"
  sl_server :: "('c, 'k, 'st) server_lib"
  sl_tls :: tls_lib
  sl_flags :: pflag_lib

text \<open>The first part of \<open>Config\<close>: a connection provider makes the listener, on a fake port if
  there is none.\<close>

definition listen_conn ::
  "('w, 'o, 'k, 'st, 'c) TiltServerOptions \<Rightarrow> host \<Rightarrow> host \<times> SecureServingOptions \<times> start_error option" where
  "listen_conn opts h =
     (let s = ServingOptions opts
      in case tso_ConnProvider opts of
           None \<Rightarrow> (h, s, None)
         | Some cp \<Rightarrow>
             (let s1 = (if BindPort s = 0 then s\<lparr>BindPort := 443\<rparr> else s)
              in case cp_Listen cp ''tcp'' (host_port (BindAddress s1) (BindPort s1)) h of
                   (h1, Inl e) \<Rightarrow> (h1, s1, Some (ConnListenFailed e))
                 | (h1, Inr l) \<Rightarrow> (h1, s1\<lparr>Listener := Some l\<rparr>, None)))"

text \<open>The authorizer and the authenticator of the server.\<close>

definition masters_only :: authorizer where
  "masters_only = union_authorizer [NewPrivilegedGroups [''system:masters''], NewAlwaysDenyAuthorizer]"

definition server_config ::
  "('w, 'o, 'k, 'st, 'c) TiltServerOptions \<Rightarrow> ('c, 'k) RecommendedConfig \<Rightarrow> listener \<Rightarrow> 'c rest_Config \<Rightarrow> ('c, 'k) RecommendedConfig" where
  "server_config opts base ln loopback =
     (ApplyRecommendedConfigFns opts base)\<lparr>rc_ExternalAddress := Addr_String (ln_Addr ln),
        rc_Authorizer := Some masters_only, rc_Authenticator := Some (anonymous_authenticator []),
        rc_LoopbackClientConfig := Some loopback, rc_RESTOptionsGetter := Some (GetRESTOptions opts)\<rparr>"

definition apply_serving ::
  "sys \<Rightarrow> ('c, 'k, 'st) start_lib \<Rightarrow> ('w, 'o, 'k, 'st, 'c) TiltServerOptions \<Rightarrow> host \<Rightarrow>
     (host \<times> ('w, 'o, 'k, 'st, 'c) TiltServerOptions \<times> (start_error + ('w, 'o, 'k, 'st, 'c) Config)) option" where
  "apply_serving sys lib opts h =
     (case apply_options sys (ServingOptions opts) None h of
        (h1, s1, info, Some e) \<Rightarrow> Some (h1, opts\<lparr>ServingOptions := s1\<rparr>, Inl (ServingFailed e))
      | (h1, s1, info, None) \<Rightarrow>
          (let opts1 = opts\<lparr>ServingOptions := s1\<rparr>
           in case info of
                None \<Rightarrow> Some (h1, opts1, Inl NoServeConfig)
              | Some i \<Rightarrow>
                  (case ssi_Listener i of
                     None \<Rightarrow> Some (h1, opts1, Inl NoServeConfig)
                   | Some ln \<Rightarrow>
                       (case ssi_Cert i of
                          None \<Rightarrow> Some (h1, opts1, Inl NoCertificates)
                        | Some cert \<Rightarrow>
                            (case loopbackClientConfig opts1 cert of
                               None \<Rightarrow> None
                             | Some loopback \<Rightarrow>
                                 Some (h1, opts1,
                                   Inr \<lparr>GenericConfig = server_config opts1 (sl_NewRecommendedConfig lib) ln loopback,
                                        cfg_ExtraConfig = \<lparr>ec_Scheme = tso_scheme opts1, ec_APIs = tso_apis opts1,
                                          ec_ServingInfo = Some i\<rparr>\<rparr>))))))"

definition TiltServerOptions_Config ::
  "sys \<Rightarrow> ('c, 'k, 'st) start_lib \<Rightarrow> ('w, 'o, 'k, 'st, 'c) TiltServerOptions \<Rightarrow> host \<Rightarrow>
     (host \<times> ('w, 'o, 'k, 'st, 'c) TiltServerOptions \<times> (start_error + ('w, 'o, 'k, 'st, 'c) Config)) option" where
  "TiltServerOptions_Config sys lib opts h =
     (case sl_featureGate lib ''WatchList=false'' of
        Some e \<Rightarrow> Some (h, opts, Inl (FeatureGateFailed e))
      | None \<Rightarrow>
          (case listen_conn opts h of
             (h1, s1, Some e) \<Rightarrow> Some (h1, opts\<lparr>ServingOptions := s1\<rparr>, Inl e)
           | (h1, s1, None) \<Rightarrow>
               (case default_certs sys ''localhost'' [] [IPv4 127 0 0 1] h1 s1 of
                  (h2, s2, Some e) \<Rightarrow> Some (h2, opts\<lparr>ServingOptions := s2\<rparr>, Inl (SelfSignedCertsFailed e))
                | (h2, s2, None) \<Rightarrow> apply_serving sys lib (opts\<lparr>ServingOptions := s2\<rparr>) h2)))"

subsection \<open>Running\<close>

datatype server_event =
    HookAdded string
  | Prepared
  | ServeStarted listener tls_Config
  | HooksRun

definition RunTiltServerFromConfig ::
  "sys \<Rightarrow> ('c, 'k, 'st) start_lib \<Rightarrow> ('st \<Rightarrow> (gotype \<times> ('o \<Rightarrow> 'o)) option) \<Rightarrow> ('w, 'o, 'k, 'st, 'c) Config \<Rightarrow>
     host \<Rightarrow> 'w \<Rightarrow> ('w \<times> server_event list \<times> start_error option) option" where
  "RunTiltServerFromConfig sys lib defaulter config h w =
     (case Config_New (sl_server lib) defaulter config w of
        None \<Rightarrow> None
      | Some (w', Inl e) \<Rightarrow> Some (w', [], Some (ServerFailed e))
      | Some (w', Inr srv) \<Rightarrow>
          (let t0 = [HookAdded ''start-tilt-server-informers'', Prepared]
           in case ec_ServingInfo (cfg_ExtraConfig config) of
                None \<Rightarrow> None
              | Some serving \<Rightarrow>
                  (case snd (TLSConfig sys (sl_tls lib) serving h) of
                     Inl e \<Rightarrow> Some (w', t0, Some (TLSFailed e))
                   | Inr tls \<Rightarrow>
                       (case ssi_Listener serving of
                          None \<Rightarrow> None
                        | Some ln \<Rightarrow> Some (w', t0 @ [ServeStarted ln tls, HooksRun], None)))))"

definition RunTiltServer ::
  "sys \<Rightarrow> ('c, 'k, 'st) start_lib \<Rightarrow> ('st \<Rightarrow> (gotype \<times> ('o \<Rightarrow> 'o)) option) \<Rightarrow>
     ('w, 'o, 'k, 'st, 'c) TiltServerOptions \<Rightarrow> host \<Rightarrow> 'w \<Rightarrow> (host \<times> 'w \<times> server_event list \<times> start_error option) option" where
  "RunTiltServer sys lib defaulter opts h w =
     (case TiltServerOptions_Config sys lib opts h of
        None \<Rightarrow> None
      | Some (h1, opts1, Inl e) \<Rightarrow> Some (h1, w, [], Some e)
      | Some (h1, opts1, Inr config) \<Rightarrow>
          (case RunTiltServerFromConfig sys lib defaulter (Config_Complete config) h1 w of
             None \<Rightarrow> None
           | Some (w', t, r) \<Rightarrow> Some (h1, w', t, r)))"

text \<open>The command: its flags are those of the serving options, and it runs after they are set. The
  message that follows a start, and the wait for the end of the server, are left out.\<close>

definition NewCommandStartTiltServer ::
  "sys \<Rightarrow> ('c, 'k, 'st) start_lib \<Rightarrow> ('st \<Rightarrow> (gotype \<times> ('o \<Rightarrow> 'o)) option) \<Rightarrow>
     ('w, 'o, 'k, 'st, 'c) TiltServerOptions \<Rightarrow> (string \<times> string) list \<Rightarrow> host \<Rightarrow> 'w \<Rightarrow>
     (host \<times> 'w \<times> server_event list \<times> start_error option) option" where
  "NewCommandStartTiltServer sys lib defaulter opts args h w =
     (case AddFlags (sl_flags lib) (Some (ServingOptions opts)) [] of
        None \<Rightarrow> None
      | Some fs \<Rightarrow>
          (case set_flags fs [] args (ServingOptions opts) of
             Inl e \<Rightarrow> Some (h, w, [], Some (FlagFailed e))
           | Inr s \<Rightarrow>
               (let opts1 = opts\<lparr>ServingOptions := s\<rparr>
                in case TiltServerOptions_Complete opts1 of
                     Some e \<Rightarrow> Some (h, w, [], Some e)
                   | None \<Rightarrow>
                       (case TiltServerOptions_Validate opts1 of
                          Some e \<Rightarrow> Some (h, w, [], Some e)
                        | None \<Rightarrow> RunTiltServer sys lib defaulter opts1 h w))))"

end
