(* ===== verification/Builder.thy ===== *)
theory Builder
  imports Start Memory_Fs
begin

text \<open>
  \<open>pkg/server/builder\<close>: the builder of a server (\<open>builder.go\<close>,
  \<open>builder_resource.go\<close>, \<open>builder_misc.go\<close>), the providers of storage
  (\<open>storage_provider.go\<close>, \<open>pkg/storage/filepath/jsonfile.go\<close>). The program that
  uses it is in \<open>Main_Program\<close>.

  What the builder allocates, the in-memory file system, the real ones and the watch sets, lives in
  a \<open>world\<close>; storages refer to their watch set and file system by number. A provider runs when
  the server starts, on the world of that moment.
\<close>

section \<open>Definitions\<close>

subsection \<open>Storages\<close>

record 'b world =
  w_mem :: memory_fs
  w_disk :: disk
  w_real :: "(uint64 \<times> bool) list"
  w_ws :: "'b WatchSet list"

text \<open>A storage of the API server: handlers on the in-memory or on a real file system, with the
  number of their watch set; the restriction of a storage to \<open>Get\<close> and \<open>Update\<close>; and
  storages of other code, of which only the methods matter.\<close>

datatype 'b storage =
    MemStorage nat "(memory_fs, 'b) filepathREST"
  | DiskStorage nat nat "(real_fs, 'b) filepathREST"
  | StatusStorage "'b storage"
  | OtherStorage nat bool bool

type_synonym 'b codec = "'b encoder \<times> 'b decoder"
type_synonym 'b provider = "('b world, 'b Object, 'b codec, 'b storage) StorageProvider"

text \<open>Everything that the builder asks of a resource: the Go type of the object that was handed to
  it, and its methods.\<close>

record 'b GenericSubResource =
  gsr_Name :: string
  gsr_GetStorageProvider :: "string \<Rightarrow> 'b provider \<Rightarrow> 'b provider"

record 'b resource =
  res_type :: gotype
  res_object :: "'b Object resource_Object"
  res_methods :: "'b type_methods"
  res_New :: "'b Object"
  res_NewList :: "'b ListObject"
  GenericSubResources :: "'b GenericSubResource list option"

abbreviation res_gvr :: "'b resource \<Rightarrow> GroupVersionResource" where
  "res_gvr obj \<equiv> ro_GetGroupVersionResource (res_object obj)"

definition NewJSONFilepathStorageProvider ::
  "'b resource \<Rightarrow> string \<Rightarrow> ('fs, 'b) FS \<Rightarrow> ('b Object Scheme \<Rightarrow> 'b Strategy) \<Rightarrow>
     'b Object Scheme \<Rightarrow> 'b codec getter \<Rightarrow> 'fs \<Rightarrow> ('fs \<times> (go_error + ('fs, 'b) filepathREST)) option" where
  "NewJSONFilepathStorageProvider obj rootPath fs strategy sch g s =
     (let gr = GVR_GroupResource (res_gvr obj)
      in case g gr of
           Inl e \<Rightarrow> Some (s, Inl e)
         | Inr (enc, dec) \<Rightarrow>
             (case NewFilepathREST fs (strategy sch) gr enc dec rootPath (res_New obj) (res_NewList obj) s of
                None \<Rightarrow> None
              | Some (s', f) \<Rightarrow> Some (s', Inr f)))"

text \<open>The provider on the in-memory file system, and on the real file system number \<open>i\<close>.\<close>

definition mem_provider ::
  "versionedData node map_order \<Rightarrow> 'b resource \<Rightarrow> string \<Rightarrow> nat \<Rightarrow> ('b Object Scheme \<Rightarrow> 'b Strategy) \<Rightarrow> 'b provider" where
  "mem_provider ord obj path ws strategy sch g w =
     (case NewJSONFilepathStorageProvider obj path (MemoryFS ord) strategy sch g (w_mem w) of
        None \<Rightarrow> None
      | Some (s', Inl e) \<Rightarrow> Some (w\<lparr>w_mem := s'\<rparr>, Inl e)
      | Some (s', Inr f) \<Rightarrow> Some (w\<lparr>w_mem := s'\<rparr>, Inr (MemStorage ws f)))"

definition disk_provider ::
  "string list \<Rightarrow> 'b resource \<Rightarrow> string \<Rightarrow> nat \<Rightarrow> nat \<Rightarrow> ('b Object Scheme \<Rightarrow> 'b Strategy) \<Rightarrow> 'b provider" where
  "disk_provider cwd obj path i ws strategy sch g w =
     (let s = \<lparr>rfs_disk = w_disk w, rfs_rev = fst (w_real w ! i), rfs_locked = snd (w_real w ! i)\<rparr>;
          put = (\<lambda>s'. w\<lparr>w_disk := rfs_disk s', w_real := (w_real w)[i := (rfs_rev s', rfs_locked s')]\<rparr>)
      in case NewJSONFilepathStorageProvider obj path (RealFS cwd) strategy sch g s of
           None \<Rightarrow> None
         | Some (s', Inl e) \<Rightarrow> Some (put s', Inl e)
         | Some (s', Inr f) \<Rightarrow> Some (put s', Inr (DiskStorage i ws f)))"

subsection \<open>Wrappers of providers\<close>

text \<open>\<open>statusProvider\<close>: which methods a storage has; all but foreign ones have both.\<close>

fun is_Updater :: "'b storage \<Rightarrow> bool" where
  "is_Updater (OtherStorage _ u _) = u"
| "is_Updater _ = True"

fun is_Getter :: "'b storage \<Rightarrow> bool" where
  "is_Getter (OtherStorage _ _ g) = g"
| "is_Getter _ = True"

definition statusProvider_Get :: "'b provider \<Rightarrow> 'b provider" where
  "statusProvider_Get provider sch g w =
     (case provider sch g w of
        None \<Rightarrow> None
      | Some (w', Inl e) \<Rightarrow> Some (w', Inl e)
      | Some (w', Inr st) \<Rightarrow>
          Some (w',
            if \<not> is_Updater st then Inl (OtherError ''status storage does not support update'')
            else if \<not> is_Getter st then Inl (OtherError ''status storage does not support get'')
            else Inr (StatusStorage st)))"

text \<open>\<open>singletonProvider\<close>: the first call runs the provider and keeps its result.\<close>

record 'b singletonProvider =
  sgl_Provider :: "'b provider"
  sgl_result :: "(go_error + 'b storage) option"

definition singletonProvider_Get ::
  "'b singletonProvider \<Rightarrow> 'b Object Scheme \<Rightarrow> 'b codec getter \<Rightarrow> 'b world \<Rightarrow>
     ('b singletonProvider \<times> 'b world \<times> (go_error + 'b storage)) option" where
  "singletonProvider_Get s sch g w =
     (case sgl_result s of
        Some r \<Rightarrow> Some (s, w, r)
      | None \<Rightarrow>
          (case sgl_Provider s sch g w of
             None \<Rightarrow> None
           | Some (w', r) \<Rightarrow> Some (s\<lparr>sgl_result := Some r\<rparr>, w', r)))"

definition errs_Error :: "(go_error \<Rightarrow> string) \<Rightarrow> go_error list \<Rightarrow> string" where
  "errs_Error msg es =
     join_with [char_of (10 :: nat)] ((Itoa (int (length es)) @ '' errors: '') # map msg es)"

subsection \<open>The builder\<close>

record ('b, 'c) Server =
  apiScheme :: "'b Object Scheme"
  openapiScheme :: "'b Object Scheme"
  apiSchemeBuilder :: "'b Object SchemeBuilder"
  openapiSchemeBuilder :: "'b Object SchemeBuilder"
  srv_recommendedConfigFns :: "('c, 'b codec) RecommendedConfigFn list"
  srv_apis :: "('b world, 'b Object, 'b codec, 'b storage) api_map"
  memoryFS :: bool
  srv_errs :: "go_error list"
  srv_storage :: "(GroupResource \<times> 'b singletonProvider) list"
  groupVersions :: "GroupVersion list"
  orderedGroupVersions :: "GroupVersion list"
  serving :: SecureServingOptions
  connProvider :: "'c ConnProvider option"
  srv_world :: "'b world"

definition NewServerBuilder :: "disk \<Rightarrow> ('b, 'c) Server option" where
  "NewServerBuilder d =
     (case (NewScheme, NewScheme) of
        (Some s1, Some s2) \<Rightarrow>
          Some \<lparr>apiScheme = s1, openapiScheme = s2, apiSchemeBuilder = [], openapiSchemeBuilder = [],
                srv_recommendedConfigFns = [], srv_apis = [], memoryFS = False, srv_errs = [], srv_storage = [],
                groupVersions = [], orderedGroupVersions = [],
                serving = \<lparr>BindAddress = IPv4 127 0 0 1, BindPort = 0, BindNetwork = [], Required = False,
                  ExternalAddress = [], Listener = None,
                  ServerCert = \<lparr>gkc_CertKey = \<lparr>CertFile = [], KeyFile = []\<rparr>, CertDirectory = [], PairName = [],
                    GeneratedCert = None, PregeneratedCert = False, FixtureDirectory = []\<rparr>,
                  SNICertKeys = [], CipherSuites = [], MinTLSVersion = [], HTTP2MaxStreamsPerConnection = 0,
                  PermitPortSharing = False, BearerToken = []\<rparr>,
                connProvider = None, srv_world = \<lparr>w_mem = NewMemoryFS, w_disk = d, w_real = [], w_ws = []\<rparr>\<rparr>
      | _ \<Rightarrow> None)"

fun withGroupVersions :: "GroupVersion list \<Rightarrow> ('b, 'c) Server \<Rightarrow> ('b, 'c) Server" where
  "withGroupVersions [] a = a"
| "withGroupVersions (gv # gvs) a =
     withGroupVersions gvs
       (if gv \<in> set (groupVersions a) then a
        else a\<lparr>groupVersions := gv # groupVersions a, orderedGroupVersions := orderedGroupVersions a @ [gv]\<rparr>)"

definition forGroupVersionResource :: "GroupVersionResource \<Rightarrow> 'b provider \<Rightarrow> ('b, 'c) Server \<Rightarrow> ('b, 'c) Server" where
  "forGroupVersionResource gvr sp a0 =
     (let a = withGroupVersions [GVR_GroupVersion gvr] a0;
          a1 = (if map_of (srv_storage a) (GVR_GroupResource gvr) = None
                then a\<lparr>srv_storage := AList.update (GVR_GroupResource gvr) \<lparr>sgl_Provider = sp, sgl_result = None\<rparr> (srv_storage a)\<rparr>
                else a)
      in a1\<lparr>srv_apis := AList.update gvr sp (srv_apis a1)\<rparr>)"

text \<open>The registration of a type with the scheme for the OpenAPI documents.\<close>

definition openapi_registration :: "GroupVersion \<Rightarrow> gotype list \<Rightarrow> 'o scheme_func" where
  "openapi_registration gv ts s = (case AddKnownTypes gv ts s of None \<Rightarrow> None | Some s' \<Rightarrow> Some (s', None))"

definition WithResourceAndHandler ::
  "('b Object \<Rightarrow> 'b Object MultiVersionObject option) \<Rightarrow> 'b resource \<Rightarrow> 'b provider \<Rightarrow> ('b, 'c) Server \<Rightarrow> ('b, 'c) Server" where
  "WithResourceAndHandler mvo obj sp a =
     forGroupVersionResource (res_gvr obj) sp
       (a\<lparr>apiSchemeBuilder := Register (AddToScheme mvo [res_object obj]) (apiSchemeBuilder a),
          openapiSchemeBuilder := Register
            (openapi_registration (GVR_GroupVersion (res_gvr obj)) [ro_New (res_object obj), ro_NewList (res_object obj)])
            (openapiSchemeBuilder a)\<rparr>)"

definition WithResource ::
  "('b Object \<Rightarrow> 'b Object MultiVersionObject option) \<Rightarrow> 'b resource \<Rightarrow> ('b, 'c) Server \<Rightarrow> ('b, 'c) Server" where
  "WithResource mvo obj a =
     withGroupVersions [GVR_GroupVersion (res_gvr obj)]
       (a\<lparr>apiSchemeBuilder := Register (AddToScheme mvo [res_object obj]) (apiSchemeBuilder a),
          openapiSchemeBuilder := Register
            (openapi_registration (GVR_GroupVersion (res_gvr obj)) [res_type obj]) (openapiSchemeBuilder a)\<rparr>)"

definition WithSubResourceAndHandler :: "'b resource \<Rightarrow> string \<Rightarrow> 'b provider \<Rightarrow> ('b, 'c) Server \<Rightarrow> ('b, 'c) Server" where
  "WithSubResourceAndHandler parent subResourcePath sp a =
     forGroupVersionResource ((res_gvr parent)\<lparr>gvr_Resource := gvr_Resource (res_gvr parent) @ ''/'' @ subResourcePath\<rparr>) sp a"

text \<open>The subresources of a resource; \<open>mk\<close> makes a provider like the one of the parent, with
  another strategy.\<close>

definition withSubresources ::
  "'b resource \<Rightarrow> (('b Object Scheme \<Rightarrow> 'b Strategy) \<Rightarrow> 'b provider) \<Rightarrow> ('b Object Scheme \<Rightarrow> 'b Strategy) \<Rightarrow> 'b provider \<Rightarrow>
     ('b, 'c) Server \<Rightarrow> ('b, 'c) Server" where
  "withSubresources obj mk strategy parentSP a =
     (let a1 = (case tm_StatusCopyTo (res_methods obj) of
                  None \<Rightarrow> a
                | Some _ \<Rightarrow>
                    WithSubResourceAndHandler obj ''status''
                      (statusProvider_Get (mk (\<lambda>sch. status_strategy (\<lambda>_. res_methods obj) (strategy sch)))) a)
      in case GenericSubResources obj of
           None \<Rightarrow> a1
         | Some subs \<Rightarrow>
             foldl (\<lambda>a sub. WithSubResourceAndHandler obj (gsr_Name sub) (gsr_GetStorageProvider sub (gsr_Name sub) parentSP) a) a1 subs)"

text \<open>The strategy of a resource. Its object typer is \<open>apiScheme\<close>, which is the scheme that the
  providers are called with.\<close>

definition Scheme_ObjectKinds :: "'o Scheme \<Rightarrow> gotype \<Rightarrow> go_error + string" where
  "Scheme_ObjectKinds sch t =
     (case map_of (typeToGVK sch) t of
        Some (k # _) \<Rightarrow> Inr (gvk_Kind k)
      | _ \<Rightarrow> Inl (OtherError ''no kind is registered for the type''))"

definition builder_strategy :: "(nat \<Rightarrow> string) \<Rightarrow> 'b resource \<Rightarrow> 'b Object Scheme \<Rightarrow> 'b Strategy" where
  "builder_strategy rand obj sch =
     default_strategy rand (\<lambda>_. res_methods obj)
       \<lparr>ds_Object = Some (res_methods obj), ds_ObjectTyper = (\<lambda>_. Scheme_ObjectKinds sch (ro_New (res_object obj)))\<rparr>"

definition WithResourceFileStorage ::
  "('b Object \<Rightarrow> 'b Object MultiVersionObject option) \<Rightarrow> (nat \<Rightarrow> string) \<Rightarrow> string list \<Rightarrow> 'b resource \<Rightarrow> string \<Rightarrow>
     ('b, 'c) Server \<Rightarrow> ('b, 'c) Server" where
  "WithResourceFileStorage mvo rand cwd obj path a =
     (let w = srv_world a; i = length (w_real w); ws = length (w_ws w);
          a1 = a\<lparr>srv_world := w\<lparr>w_real := w_real w @ [(1, False)], w_ws := w_ws w @ [NewWatchSet]\<rparr>\<rparr>;
          strategy = builder_strategy rand obj; mk = disk_provider cwd obj path i ws; sp = mk strategy
      in withSubresources obj mk strategy sp (WithResourceAndHandler mvo obj sp a1))"

definition WithResourceMemoryStorage ::
  "('b Object \<Rightarrow> 'b Object MultiVersionObject option) \<Rightarrow> (nat \<Rightarrow> string) \<Rightarrow> versionedData node map_order \<Rightarrow> 'b resource \<Rightarrow>
     string \<Rightarrow> ('b, 'c) Server \<Rightarrow> ('b, 'c) Server" where
  "WithResourceMemoryStorage mvo rand ord obj path a =
     (let w0 = srv_world a; w = (if memoryFS a then w0 else w0\<lparr>w_mem := NewMemoryFS\<rparr>); ws = length (w_ws w);
          a1 = a\<lparr>memoryFS := True, srv_world := w\<lparr>w_ws := w_ws w @ [NewWatchSet]\<rparr>\<rparr>;
          strategy = builder_strategy rand obj; mk = mem_provider ord obj path ws; sp = mk strategy
      in withSubresources obj mk strategy sp (WithResourceAndHandler mvo obj sp a1))"

subsection \<open>Options of the builder\<close>

definition WithBindPort :: "int \<Rightarrow> ('b, 'c) Server \<Rightarrow> ('b, 'c) Server" where
  "WithBindPort port a = a\<lparr>serving := (serving a)\<lparr>BindPort := port\<rparr>\<rparr>"

definition WithConnProvider :: "'c ConnProvider option \<Rightarrow> ('b, 'c) Server \<Rightarrow> ('b, 'c) Server" where
  "WithConnProvider cp a = a\<lparr>connProvider := cp\<rparr>"

definition WithOpenAPIDefinitions :: "string \<Rightarrow> string \<Rightarrow> string list \<Rightarrow> ('b, 'c) Server \<Rightarrow> ('b, 'c) Server" where
  "WithOpenAPIDefinitions name ver openAPI a =
     a\<lparr>srv_recommendedConfigFns := srv_recommendedConfigFns a @ [SetOpenAPIDefinitionFn name ver openAPI]\<rparr>"

definition WithBearerToken :: "string \<Rightarrow> ('b, 'c) Server \<Rightarrow> ('b, 'c) Server" where
  "WithBearerToken token a = a\<lparr>serving := (serving a)\<lparr>BearerToken := token\<rparr>\<rparr>"

definition WithCertKey :: "GeneratableKeyCert \<Rightarrow> ('b, 'c) Server \<Rightarrow> ('b, 'c) Server" where
  "WithCertKey certKey a = a\<lparr>serving := (serving a)\<lparr>ServerCert := certKey\<rparr>\<rparr>"

subsection \<open>Building\<close>

text \<open>The closure \<open>registerGroupVersions\<close> of \<open>buildCodec\<close>: the versions of each group in
  alphabetical order as its priorities, then the common types in every version. The groups come in
  the order in which the map is visited.\<close>

definition versions_of_group :: "GroupVersionResource list \<Rightarrow> string \<Rightarrow> string list" where
  "versions_of_group gvrs grp = sort (remdups (map gvr_Version (filter (\<lambda>r. gvr_Group r = grp) gvrs)))"

fun set_priorities :: "GroupVersionResource list \<Rightarrow> string list \<Rightarrow> 'o Scheme \<Rightarrow> 'o Scheme \<times> go_error option" where
  "set_priorities gvrs [] s = (s, None)"
| "set_priorities gvrs (grp # grps) s =
     (case SetVersionPriority (map (\<lambda>v. \<lparr>gv_Group = grp, gv_Version = v\<rparr>) (versions_of_group gvrs grp)) s of
        (s', Some e) \<Rightarrow> (s', Some e)
      | (s', None) \<Rightarrow> set_priorities gvrs grps s')"

fun add_group_versions :: "GroupVersion list \<Rightarrow> 'o Scheme \<Rightarrow> 'o Scheme option" where
  "add_group_versions [] s = Some s"
| "add_group_versions (gv # gvs) s =
     (case AddToGroupVersion gv s of None \<Rightarrow> None | Some s' \<Rightarrow> add_group_versions gvs s')"

definition registerGroupVersions :: "GroupVersionResource list \<Rightarrow> GroupVersion list \<Rightarrow> 'o scheme_func" where
  "registerGroupVersions gvrs ordered s =
     (case set_priorities gvrs (remdups (map gvr_Group gvrs)) s of
        (s', Some e) \<Rightarrow> Some (s', Some e)
      | (s', None) \<Rightarrow> (case add_group_versions ordered s' of None \<Rightarrow> None | Some s'' \<Rightarrow> Some (s'', None)))"

definition buildCodec :: "(GroupVersion list \<Rightarrow> 'k) \<Rightarrow> ('b, 'c) Server \<Rightarrow> (('b, 'c) Server \<times> (go_error list + 'k)) option" where
  "buildCodec legacyCodec a =
     (let reg = registerGroupVersions (map fst (srv_apis a)) (orderedGroupVersions a);
          a1 = a\<lparr>apiSchemeBuilder := Register reg (apiSchemeBuilder a)\<rparr>
      in case SchemeBuilder_AddToScheme (apiSchemeBuilder a1) (apiScheme a1) of
           None \<Rightarrow> None
         | Some (s, Some e) \<Rightarrow> Some (a1\<lparr>apiScheme := s\<rparr>, Inl [e])
         | Some (s, None) \<Rightarrow>
             (let a2 = a1\<lparr>apiScheme := s, openapiSchemeBuilder := Register reg (openapiSchemeBuilder a1)\<rparr>
              in case SchemeBuilder_AddToScheme (openapiSchemeBuilder a2) (openapiScheme a2) of
                   None \<Rightarrow> None
                 | Some (o', Some e) \<Rightarrow> Some (a2\<lparr>openapiScheme := o'\<rparr>, Inl [e])
                 | Some (o', None) \<Rightarrow>
                     (let a3 = a2\<lparr>openapiScheme := o'\<rparr>
                      in Some (a3, if srv_errs a3 \<noteq> [] then Inl (srv_errs a3) else Inr (legacyCodec (orderedGroupVersions a3))))))"

type_synonym ('b, 'c) server_options = "('b world, 'b Object, 'b codec, 'b storage, 'c) TiltServerOptions"

definition ToServerOptions ::
  "(GroupVersion list \<Rightarrow> 'b codec) \<Rightarrow> ('b, 'c) Server \<Rightarrow> (('b, 'c) Server \<times> (go_error list + ('b, 'c) server_options)) option" where
  "ToServerOptions legacyCodec a =
     (case buildCodec legacyCodec a of
        None \<Rightarrow> None
      | Some (a', Inl es) \<Rightarrow> Some (a', Inl es)
      | Some (a', Inr codec) \<Rightarrow>
          Some (a', Inr (NewTiltServerOptions (apiScheme a') codec (srv_recommendedConfigFns a') (srv_apis a')
                           (serving a') (connProvider a'))))"

text \<open>\<open>ExecuteCommand\<close> builds the command (\<open>ToServerCommand\<close>) and executes it with the
  arguments of the process.\<close>

definition ExecuteCommand ::
  "sys \<Rightarrow> ('c, 'b codec, 'b storage) start_lib \<Rightarrow> ('b storage \<Rightarrow> (gotype \<times> ('b Object \<Rightarrow> 'b Object)) option) \<Rightarrow>
     (GroupVersion list \<Rightarrow> 'b codec) \<Rightarrow> (string \<times> string) list \<Rightarrow> ('b, 'c) Server \<Rightarrow> host \<Rightarrow>
     (host \<times> server_event list \<times> (go_error list + start_error option)) option" where
  "ExecuteCommand sys lib defaulter legacyCodec args a h =
     (case ToServerOptions legacyCodec a of
        None \<Rightarrow> None
      | Some (a', Inl es) \<Rightarrow> Some (h, [], Inl es)
      | Some (a', Inr opts) \<Rightarrow>
          (case NewCommandStartTiltServer sys lib defaulter opts args h (srv_world a') of
             None \<Rightarrow> None
           | Some (h', w', events, r) \<Rightarrow> Some (h', events, Inr r)))"

end
