(* ===== verification/Scheme_Props.thy ===== *)
theory Scheme_Props
  imports Scheme
begin

text \<open>
  What registering resources with a scheme guarantees, and what the conversion functions do that
  are registered for a version that is not the stored one.
\<close>

section \<open>Lemmas\<close>

lemma register_versions_ok:
  assumes "register_versions mvo obj s = Some (s', None)" and "scheme_ok s"
  shows "scheme_ok s' \<and> extends s s' \<and>
    (ro_IsStorageVersion obj \<longrightarrow> (\<forall>t \<in> {ro_New obj, ro_NewList obj}. registered
       (WithKind \<lparr>gv_Group = gvr_Group (ro_GetGroupVersionResource obj), gv_Version = APIVersionInternal\<rparr> (TypeName t)) t s'))"
proof (cases "ro_IsStorageVersion obj")
  case True
  with assms(1) have "AddKnownTypes \<lparr>gv_Group = gvr_Group (ro_GetGroupVersionResource obj), gv_Version = APIVersionInternal\<rparr>
    [ro_New obj, ro_NewList obj] s = Some s'" by (auto simp: register_versions_def split: option.splits)
  from AddKnownTypes_ok [OF this assms(2)] show ?thesis by auto
next
  case False
  with assms show ?thesis by (auto simp: register_versions_def split: option.splits)
qed

lemma AddToScheme_ok:
  "AddToScheme mvo objs s = Some (s', None) \<Longrightarrow> scheme_ok s \<Longrightarrow>
     scheme_ok s' \<and> extends s s' \<and>
     (\<forall>obj \<in> set objs. \<forall>t \<in> {ro_New obj, ro_NewList obj}.
        registered (WithKind (GVR_GroupVersion (ro_GetGroupVersionResource obj)) (TypeName t)) t s' \<and>
        (ro_IsStorageVersion obj \<longrightarrow> registered
          (WithKind \<lparr>gv_Group = gvr_Group (ro_GetGroupVersionResource obj), gv_Version = APIVersionInternal\<rparr> (TypeName t)) t s'))"
proof (induction objs arbitrary: s)
  case (Cons obj objs)
  from Cons.prems(1) obtain s1 s2 s3 where
    a: "AddKnownTypes (GVR_GroupVersion (ro_GetGroupVersionResource obj)) [ro_New obj, ro_NewList obj] s = Some s1"
    and b: "register_versions mvo obj s1 = Some (s2, None)" and c: "AddToScheme mvo objs s3 = Some (s', None)"
    and s3: "s3 = (case ro_Default obj of None \<Rightarrow> s2 | Some d \<Rightarrow> AddTypeDefaultingFunc (ro_New obj) d s2)"
    by (auto split: option.splits)
  note ka = AddKnownTypes_ok [OF a Cons.prems(2)]
  note kb = register_versions_ok [OF b ka [THEN conjunct1]]
  have k3: "scheme_ok s3" "extends s2 s3" "\<And>k t. registered k t s3 = registered k t s2"
    using kb by (auto simp: s3 split: option.splits)
  note kc = Cons.IH [OF c k3(1)]
  have e: "extends s1 s'" "extends s3 s'" using kb k3(2) kc by (blast intro: extends_trans)+
  have "registered (WithKind (GVR_GroupVersion (ro_GetGroupVersionResource obj)) (TypeName t)) t s'"
    if "t \<in> {ro_New obj, ro_NewList obj}" for t
    using that ka kc e(1) by (auto intro: registered_extends)
  moreover have "registered
      (WithKind \<lparr>gv_Group = gvr_Group (ro_GetGroupVersionResource obj), gv_Version = APIVersionInternal\<rparr> (TypeName t)) t s'"
    if "t \<in> {ro_New obj, ro_NewList obj}" and "ro_IsStorageVersion obj" for t
    using that kb k3 kc e(2) by (auto intro: registered_extends)
  ultimately show ?case using ka kc e(1) by (auto intro: extends_trans)
qed simp

section \<open>Properties\<close>

text \<open>Registering resources keeps the registry consistent: its two maps stay inverse to each
  other, no earlier registration is lost or changed, and afterwards every object and its list are
  known in their own version, those of a storage version in the internal version as well.\<close>

theorem AddToScheme_registers:
  assumes "scheme_ok s" and "AddToScheme mvo objs s = Some (s', None)"
  shows "scheme_ok s' \<and> (\<forall>k t. map_of (gvkToType s) k = Some t \<longrightarrow> map_of (gvkToType s') k = Some t) \<and>
    (\<forall>obj \<in> set objs. \<forall>t \<in> {ro_New obj, ro_NewList obj}.
       Recognizes s' (WithKind (GVR_GroupVersion (ro_GetGroupVersionResource obj)) (TypeName t)) \<and>
       (ro_IsStorageVersion obj \<longrightarrow> Recognizes s'
          (WithKind \<lparr>gv_Group = gvr_Group (ro_GetGroupVersionResource obj), gv_Version = APIVersionInternal\<rparr> (TypeName t))))"
  using AddToScheme_ok [OF assms(2,1)] by (auto simp: Recognizes_def registered_def dest: extends_lookup)

definition manifest_resource :: "'o resource_Object" where
  "manifest_resource =
     \<lparr>ro_New = v1alpha1 ''Manifest'', ro_NewList = v1alpha1 ''ManifestList'',
      ro_GetGroupVersionResource = \<lparr>gvr_Group = ''core.tilt.dev'', gvr_Version = ''v1alpha1'', gvr_Resource = ''manifests''\<rparr>,
      ro_IsStorageVersion = True, ro_MultiVersion = None, ro_Default = None\<rparr>"

theorem AddToScheme_registers_witness:
  "\<exists>s'. AddToScheme (\<lambda>_. None) [manifest_resource] (empty_Scheme :: unit Scheme) = Some (s', None) \<and>
     Recognizes s' (WithKind SchemeGroupVersion ''Manifest'')"
proof -
  let ?r = "AddToScheme (\<lambda>_. None) [manifest_resource] (empty_Scheme :: unit Scheme)"
  have "map_option snd ?r = Some None" by code_simp
  then obtain s' where r: "?r = Some (s', None)" by auto
  have "GVR_GroupVersion (ro_GetGroupVersionResource (manifest_resource :: unit resource_Object)) = SchemeGroupVersion"
    "TypeName (ro_New (manifest_resource :: unit resource_Object)) = ''Manifest''" by code_simp+
  with AddToScheme_registers [OF scheme_ok_empty r] r show ?thesis by auto
qed

text \<open>The conversion from the stored version to another one that \<open>AddToScheme\<close> registers
  never writes its target: it calls the method on the stored object, with the target as an
  argument. If the stored type has no conversion methods, which is the documented setting, it
  panics on every object.\<close>

theorem From_storage_never_converts:
  assumes "\<not> ro_IsStorageVersion obj" and "ro_MultiVersion obj = Some m" and "ro_New obj \<noteq> NewStorageVersionObject m"
    and "AddToScheme mvo [obj] s = Some (s', None)"
  shows "\<exists>fn. map_of (conversionFuncs s') (NewStorageVersionObject m, ro_New obj) = Some fn \<and>
    (\<forall>src target src' target'. fn src target = Some (Inr (src', target')) \<longrightarrow> target' = target) \<and>
    (\<forall>src target. mvo src = None \<longrightarrow> fn src target = None)"
proof -
  from assms(4) obtain s1 where "s' = (case ro_Default obj of None \<Rightarrow> s1 | Some d \<Rightarrow> AddTypeDefaultingFunc (ro_New obj) d s1)"
    and "\<exists>s0. s1 = AddConversionFunc (NewStorageVersionObject m) (ro_New obj) (convert_from_storage mvo) s0"
    using assms(1,2) by (auto simp: register_versions_def split: option.splits)
  then have "map_of (conversionFuncs s') (NewStorageVersionObject m, ro_New obj) = Some (convert_from_storage mvo)"
    by (auto simp: AddTypeDefaultingFunc_def AddConversionFunc_def split: option.splits)
  then show ?thesis by (auto simp: convert_from_storage_def split: option.splits sum.splits)
qed

text \<open>Two versions of a type whose objects are a version and a number: the old one converts.\<close>

definition old_version :: "(string \<times> nat) MultiVersionObject" where
  "old_version = \<lparr>NewStorageVersionObject = GoType ''new'' ''T'',
     ConvertToStorageVersion = (\<lambda>self storage. Inr (fst storage, snd self)),
     ConvertFromStorageVersion = (\<lambda>self storage. Inr (fst self, snd storage))\<rparr>"

definition old_resource :: "(string \<times> nat) resource_Object" where
  "old_resource =
     \<lparr>ro_New = GoType ''old'' ''T'', ro_NewList = GoType ''old'' ''TList'',
      ro_GetGroupVersionResource = \<lparr>gvr_Group = ''g'', gvr_Version = ''v1'', gvr_Resource = ''ts''\<rparr>,
      ro_IsStorageVersion = False, ro_MultiVersion = Some old_version, ro_Default = None\<rparr>"

definition old_only :: "string \<times> nat \<Rightarrow> (string \<times> nat) MultiVersionObject option" where
  "old_only x = (if fst x = ''old'' then Some old_version else None)"

theorem From_storage_never_converts_witness:
  "\<exists>s' fn. AddToScheme old_only [old_resource] empty_Scheme = Some (s', None) \<and>
     map_of (conversionFuncs s') (GoType ''new'' ''T'', GoType ''old'' ''T'') = Some fn \<and> fn (''new'', 7) (''old'', 0) = None"
proof -
  have "map_option snd (AddToScheme old_only [old_resource] empty_Scheme) = Some None" by code_simp
  then obtain s' where r: "AddToScheme old_only [old_resource] empty_Scheme = Some (s', None)" by auto
  moreover have "\<not> ro_IsStorageVersion old_resource" "ro_MultiVersion old_resource = Some old_version"
    "ro_New old_resource \<noteq> NewStorageVersionObject old_version" by (simp_all add: old_resource_def old_version_def)
  ultimately show ?thesis using From_storage_never_converts [of old_resource old_version old_only empty_Scheme s']
    by (auto simp: old_resource_def old_version_def old_only_def)
qed

end
