(* ===== verification/Builder_Props.thy ===== *)
theory Builder_Props
  imports Builder Scheme_Props
begin

text \<open>
  What a builder guarantees: an invariant of every builder that its methods can produce, the versions
  and types that building registers, and the fate of a resource with several versions.
\<close>

section \<open>Reachable builders\<close>

text \<open>What the calls of a program register, in order: a resource or subresource with its provider,
  or a type without storage, of which only the group version counts.\<close>

type_synonym 'b registration = "GroupVersionResource \<times> 'b provider option"

definition sub_gvr :: "'b resource \<Rightarrow> string \<Rightarrow> GroupVersionResource" where
  "sub_gvr obj sub = (res_gvr obj)\<lparr>gvr_Resource := gvr_Resource (res_gvr obj) @ ''/'' @ sub\<rparr>"

text \<open>A resource with file storage comes with its status, if its type has one, and with the
  subresources that it names.\<close>

definition resource_registrations ::
  "'b resource \<Rightarrow> (('b Object Scheme \<Rightarrow> 'b Strategy) \<Rightarrow> 'b provider) \<Rightarrow> ('b Object Scheme \<Rightarrow> 'b Strategy) \<Rightarrow> 'b registration list" where
  "resource_registrations obj mk strategy =
     (res_gvr obj, Some (mk strategy)) #
     (if tm_StatusCopyTo (res_methods obj) = None then []
      else [(sub_gvr obj ''status'', Some (statusProvider_Get (mk (\<lambda>sch. status_strategy (\<lambda>_. res_methods obj) (strategy sch)))))]) @
     (case GenericSubResources obj of
        None \<Rightarrow> []
      | Some subs \<Rightarrow> map (\<lambda>sub. (sub_gvr obj (gsr_Name sub), Some (gsr_GetStorageProvider sub (gsr_Name sub) (mk strategy)))) subs)"

text \<open>The builders that a program can make, by any sequence of the builder's methods, with the
  registrations that it made.\<close>

inductive built :: "'b registration list \<Rightarrow> ('b, 'c) Server \<Rightarrow> bool" where
  built_New: "NewServerBuilder d = Some a \<Longrightarrow> built [] a"
| built_File: "built R a \<Longrightarrow>
    built (R @ resource_registrations obj (disk_provider cwd obj path (length (w_real (srv_world a))) (length (w_ws (srv_world a))))
              (builder_strategy rand obj))
      (WithResourceFileStorage mvo rand cwd obj path a)"
| built_Memory: "built R a \<Longrightarrow>
    built (R @ resource_registrations obj (mem_provider ord obj path (length (w_ws (srv_world a)))) (builder_strategy rand obj))
      (WithResourceMemoryStorage mvo rand ord obj path a)"
| built_Handler: "built R a \<Longrightarrow> built (R @ [(res_gvr obj, Some sp)]) (WithResourceAndHandler mvo obj sp a)"
| built_Resource: "built R a \<Longrightarrow> built (R @ [(res_gvr obj, None)]) (WithResource mvo obj a)"
| built_SubResource: "built R a \<Longrightarrow> built (R @ [(sub_gvr obj sub, Some sp)]) (WithSubResourceAndHandler obj sub sp a)"
| built_BindPort: "built R a \<Longrightarrow> built R (WithBindPort port a)"
| built_ConnProvider: "built R a \<Longrightarrow> built R (WithConnProvider cp a)"
| built_OpenAPI: "built R a \<Longrightarrow> built R (WithOpenAPIDefinitions name ver defs a)"
| built_BearerToken: "built R a \<Longrightarrow> built R (WithBearerToken token a)"
| built_CertKey: "built R a \<Longrightarrow> built R (WithCertKey certKey a)"

text \<open>What the builder should hold after registrations: the group versions in the order of their
  first registration, for each API the provider of its last registration, and for each resource the
  provider of its first.\<close>

definition first_occurrences :: "'a list \<Rightarrow> 'a list" where
  "first_occurrences xs = rev (remdups (rev xs))"

definition provided :: "'b registration list \<Rightarrow> (GroupVersionResource \<times> 'b provider) list" where
  "provided R = concat (map (\<lambda>(gvr, p). case p of None \<Rightarrow> [] | Some sp \<Rightarrow> [(gvr, sp)]) R)"

definition holds_registrations :: "'b registration list \<Rightarrow> ('b, 'c) Server \<Rightarrow> bool" where
  "holds_registrations R a \<longleftrightarrow>
     orderedGroupVersions a = first_occurrences (map (GVR_GroupVersion \<circ> fst) R) \<and>
     set (groupVersions a) = set (orderedGroupVersions a) \<and>
     (\<forall>gvr. map_of (srv_apis a) gvr = map_of (rev (provided R)) gvr) \<and>
     (\<forall>gr. map_option sgl_Provider (map_of (srv_storage a) gr) =
        map_of (map (\<lambda>(gvr, sp). (GVR_GroupResource gvr, sp)) (provided R)) gr)"

text \<open>What the two registration helpers change.\<close>

lemma withGroupVersions_frame [simp]:
  "srv_apis (withGroupVersions gvs a) = srv_apis a" "srv_storage (withGroupVersions gvs a) = srv_storage a"
  "apiScheme (withGroupVersions gvs a) = apiScheme a" "openapiScheme (withGroupVersions gvs a) = openapiScheme a"
  "apiSchemeBuilder (withGroupVersions gvs a) = apiSchemeBuilder a" "openapiSchemeBuilder (withGroupVersions gvs a) = openapiSchemeBuilder a"
  "srv_errs (withGroupVersions gvs a) = srv_errs a" "srv_world (withGroupVersions gvs a) = srv_world a"
  by (induction gvs a rule: withGroupVersions.induct) auto

lemma forGroupVersionResource_frame [simp]:
  "srv_apis (forGroupVersionResource gvr sp a) = AList.update gvr sp (srv_apis a)"
  "apiScheme (forGroupVersionResource gvr sp a) = apiScheme a" "openapiScheme (forGroupVersionResource gvr sp a) = openapiScheme a"
  "apiSchemeBuilder (forGroupVersionResource gvr sp a) = apiSchemeBuilder a"
  "openapiSchemeBuilder (forGroupVersionResource gvr sp a) = openapiSchemeBuilder a"
  "srv_errs (forGroupVersionResource gvr sp a) = srv_errs a" "srv_world (forGroupVersionResource gvr sp a) = srv_world a"
  "groupVersions (forGroupVersionResource gvr sp a) = (if GVR_GroupVersion gvr \<in> set (groupVersions a) then groupVersions a else GVR_GroupVersion gvr # groupVersions a)"
  "orderedGroupVersions (forGroupVersionResource gvr sp a) =
     (if GVR_GroupVersion gvr \<in> set (groupVersions a) then orderedGroupVersions a else orderedGroupVersions a @ [GVR_GroupVersion gvr])"
  by (simp_all add: forGroupVersionResource_def Let_def)

lemma holds_registrations_updates [simp]:
  "holds_registrations R (a\<lparr>srv_world := w\<rparr>) = holds_registrations R a"
  "holds_registrations R (a\<lparr>memoryFS := m\<rparr>) = holds_registrations R a"
  "holds_registrations R (a\<lparr>apiSchemeBuilder := x\<rparr>) = holds_registrations R a"
  "holds_registrations R (a\<lparr>openapiSchemeBuilder := y\<rparr>) = holds_registrations R a"
  "holds_registrations R (a\<lparr>serving := s\<rparr>) = holds_registrations R a"
  "holds_registrations R (a\<lparr>connProvider := c\<rparr>) = holds_registrations R a"
  "holds_registrations R (a\<lparr>srv_recommendedConfigFns := f\<rparr>) = holds_registrations R a"
  by (simp_all add: holds_registrations_def)

lemma first_occurrences_simps [simp]:
  "first_occurrences [] = []" "set (first_occurrences xs) = set xs" "distinct (first_occurrences xs)"
  "first_occurrences (xs @ [x]) = (if x \<in> set xs then first_occurrences xs else first_occurrences xs @ [x])"
  by (simp_all add: first_occurrences_def)

lemma provided_simps [simp]:
  "provided [] = []" "provided (R @ [(gvr, None)]) = provided R" "provided (R @ [(gvr, Some sp)]) = provided R @ [(gvr, sp)]"
  by (simp_all add: provided_def)

lemma withGroupVersions_holds:
  "holds_registrations R a \<Longrightarrow> holds_registrations (R @ [(gvr, None)]) (withGroupVersions [GVR_GroupVersion gvr] a)"
  by (auto simp: holds_registrations_def)

lemma forGroupVersionResource_storage:
  "srv_storage (forGroupVersionResource gvr sp a) =
     (if map_of (srv_storage a) (GVR_GroupResource gvr) = None
      then AList.update (GVR_GroupResource gvr) \<lparr>sgl_Provider = sp, sgl_result = None\<rparr> (srv_storage a) else srv_storage a)"
  by (auto simp: forGroupVersionResource_def Let_def)

lemma forGroupVersionResource_holds:
  assumes "holds_registrations R a"
  shows "holds_registrations (R @ [(gvr, Some sp)]) (forGroupVersionResource gvr sp a)"
proof -
  let ?P = "map (\<lambda>(gvr, sp). (GVR_GroupResource gvr, sp)) (provided R)"
  have st: "map_option sgl_Provider (map_of (srv_storage a) gr) = map_of ?P gr" for gr
    using assms by (simp add: holds_registrations_def)
  have "map_option sgl_Provider (map_of (srv_storage (forGroupVersionResource gvr sp a)) gr) =
      map_of (?P @ [(GVR_GroupResource gvr, sp)]) gr" for gr
    using st [of gr, symmetric] unfolding forGroupVersionResource_storage map_of_append map_add_def
    by (cases "map_of (srv_storage a) gr") (auto simp: update_conv)
  with assms show ?thesis by (auto simp: holds_registrations_def update_conv)
qed

lemma WithSubResourceAndHandler_holds:
  "holds_registrations R a \<Longrightarrow> holds_registrations (R @ [(sub_gvr obj sub, Some sp)]) (WithSubResourceAndHandler obj sub sp a)"
  by (simp add: WithSubResourceAndHandler_def sub_gvr_def forGroupVersionResource_holds)

lemma WithResourceAndHandler_holds:
  "holds_registrations R a \<Longrightarrow> holds_registrations (R @ [(res_gvr obj, Some sp)]) (WithResourceAndHandler mvo obj sp a)"
  by (simp add: WithResourceAndHandler_def forGroupVersionResource_holds)

lemma subresources_hold:
  "holds_registrations R a \<Longrightarrow>
     holds_registrations (R @ map (\<lambda>sub. (sub_gvr obj (gsr_Name sub), Some (P sub))) subs)
       (foldl (\<lambda>a sub. WithSubResourceAndHandler obj (gsr_Name sub) (P sub) a) a subs)"
proof (induction subs arbitrary: R a)
  case (Cons sub subs)
  from Cons.IH [OF WithSubResourceAndHandler_holds [OF Cons.prems]] show ?case by simp
qed simp

lemma resource_holds:
  assumes "holds_registrations R a"
  shows "holds_registrations (R @ resource_registrations obj mk strategy)
    (withSubresources obj mk strategy (mk strategy) (WithResourceAndHandler mvo obj (mk strategy) a))"
proof -
  let ?sp = "statusProvider_Get (mk (\<lambda>sch. status_strategy (\<lambda>_. res_methods obj) (strategy sch)))"
  let ?P = "\<lambda>sub. gsr_GetStorageProvider sub (gsr_Name sub) (mk strategy)"
  note main = WithResourceAndHandler_holds [OF assms, of obj "mk strategy" mvo]
  note status = WithSubResourceAndHandler_holds [OF main, of obj "''status''" ?sp]
  show ?thesis
    using main status subresources_hold [OF main, of obj ?P] subresources_hold [OF status, of obj ?P]
    by (cases "tm_StatusCopyTo (res_methods obj)"; cases "GenericSubResources obj")
      (simp_all add: withSubresources_def resource_registrations_def)
qed

lemmas builder_methods = WithResourceFileStorage_def WithResourceMemoryStorage_def WithResource_def WithBindPort_def
  WithConnProvider_def WithOpenAPIDefinitions_def WithBearerToken_def WithCertKey_def

section \<open>Building\<close>

lemma SetVersionPriority_ok:
  assumes "SetVersionPriority gvs s = (s', None)" and "\<forall>gv \<in> set gvs. gv_Group gv = g"
  shows "map_of (versionPriority s') = (map_of (versionPriority s))(g \<mapsto> map gv_Version gvs)"
    and "gvkToType s' = gvkToType s" "typeToGVK s' = typeToGVK s" "observedVersions s' = observedVersions s"
proof -
  from assms(1) obtain g' where r: "remdups (map gv_Group gvs) = [g']"
    and s': "s' = s\<lparr>versionPriority := AList.update g' (map gv_Version gvs) (versionPriority s)\<rparr>"
    by (auto simp: SetVersionPriority_def split: if_splits list.splits)
  from r have "set (map gv_Group gvs) = {g'}" using set_remdups [of "map gv_Group gvs"] by simp
  then have "g' \<in> gv_Group ` set gvs" by simp
  then obtain gv where "gv \<in> set gvs" "gv_Group gv = g'" by blast
  with assms(2) have "g' = g" by blast
  with s' show "map_of (versionPriority s') = (map_of (versionPriority s))(g \<mapsto> map gv_Version gvs)"
    "gvkToType s' = gvkToType s" "typeToGVK s' = typeToGVK s" "observedVersions s' = observedVersions s" by simp_all
qed

lemma set_priorities_ok:
  "set_priorities gvrs grps s = (s', None) \<Longrightarrow>
     (\<forall>g. map_of (versionPriority s') g =
        (if g \<in> set grps then Some (versions_of_group gvrs g) else map_of (versionPriority s) g)) \<and>
     gvkToType s' = gvkToType s \<and> typeToGVK s' = typeToGVK s \<and> observedVersions s' = observedVersions s"
proof (induction gvrs grps s rule: set_priorities.induct)
  case (2 gvrs grp grps s)
  let ?gvs = "map (\<lambda>v. \<lparr>gv_Group = grp, gv_Version = v\<rparr>) (versions_of_group gvrs grp)"
  from "2.prems" obtain s1 where a: "SetVersionPriority ?gvs s = (s1, None)" and r: "set_priorities gvrs grps s1 = (s', None)"
    by (auto split: prod.splits option.splits)
  have g: "\<forall>gv \<in> set ?gvs. gv_Group gv = grp" by auto
  have "map gv_Version ?gvs = versions_of_group gvrs grp" by (simp add: comp_def)
  with SetVersionPriority_ok [OF a g] "2.IH" [OF a [symmetric] refl r] show ?case by auto
qed simp

text \<open>The registrations of types leave the priorities of versions alone.\<close>

lemma versionPriority_frame:
  "versionPriority (addObservedVersion gv s) = versionPriority s"
  "AddKnownTypeWithName k t s = Some s' \<Longrightarrow> versionPriority s' = versionPriority s"
  "mark_unversioned gv ts s = Some s' \<Longrightarrow> versionPriority s' = versionPriority s"
proof -
  show o: "versionPriority (addObservedVersion gv s) = versionPriority s" for gv and s :: "'a Scheme"
    by (simp add: addObservedVersion_def)
  show "AddKnownTypeWithName k t s = Some s' \<Longrightarrow> versionPriority s' = versionPriority s"
    by (auto simp: AddKnownTypeWithName_def Let_def o split: if_splits)
  show "mark_unversioned gv ts s = Some s' \<Longrightarrow> versionPriority s' = versionPriority s"
    by (induction ts arbitrary: s) (auto simp: Let_def split: if_splits)
qed

lemma AddKnownTypes_priority: "AddKnownTypes gv ts s = Some s' \<Longrightarrow> versionPriority s' = versionPriority s"
proof -
  have "add_types gv ts s = Some s' \<Longrightarrow> versionPriority s' = versionPriority s" for s
    by (induction ts arbitrary: s) (auto split: option.splits dest: versionPriority_frame(2))
  then show "AddKnownTypes gv ts s = Some s' \<Longrightarrow> versionPriority s' = versionPriority s"
    by (fastforce simp: AddKnownTypes_def versionPriority_frame(1))
qed

lemma AddUnversionedTypes_priority:
  assumes "AddUnversionedTypes gv ts s = Some s'"
  shows "versionPriority s' = versionPriority s"
proof -
  from assms obtain s1 where "AddKnownTypes gv ts (addObservedVersion gv s) = Some s1" "mark_unversioned gv ts s1 = Some s'"
    by (auto simp: AddUnversionedTypes_def split: option.splits)
  then show ?thesis using AddKnownTypes_priority versionPriority_frame(1,3) by metis
qed

lemma AddToGroupVersion_priority:
  assumes "AddToGroupVersion gv s = Some s'"
  shows "versionPriority s' = versionPriority s"
  using assms unfolding AddToGroupVersion_def bind_eq_Some_conv
  by (elim exE conjE) (simp only: versionPriority_frame(2) AddKnownTypes_priority AddUnversionedTypes_priority)

lemma add_group_versions_ok:
  "add_group_versions gvs s = Some s' \<Longrightarrow> scheme_ok s \<Longrightarrow>
     scheme_ok s' \<and> extends s s' \<and> versionPriority s' = versionPriority s \<and>
     (\<forall>gv \<in> set gvs. registered (WithKind gv ''WatchEvent'') (meta ''WatchEvent'') s')"
proof (induction gvs s rule: add_group_versions.induct)
  case (2 gv gvs s)
  then obtain s1 where a: "AddToGroupVersion gv s = Some s1" and r: "add_group_versions gvs s1 = Some s'"
    by (auto split: option.splits)
  note k = AddToGroupVersion_ok [OF a "2.prems"(2)]
  then have i: "scheme_ok s' \<and> extends s1 s' \<and> versionPriority s' = versionPriority s1 \<and>
      (\<forall>gv \<in> set gvs. registered (WithKind gv ''WatchEvent'') (meta ''WatchEvent'') s')" using "2.IH" [OF a r] by blast
  then have "registered (WithKind gv ''WatchEvent'') (meta ''WatchEvent'') s'" using k by (blast intro: registered_extends)
  with i k AddToGroupVersion_priority [OF a] show ?case by (auto intro: extends_trans)
qed simp

lemma SchemeBuilder_snoc:
  assumes "SchemeBuilder_AddToScheme (fs @ [f]) s = Some (s', None)"
  obtains s1 where "SchemeBuilder_AddToScheme fs s = Some (s1, None)" "f s1 = Some (s', None)"
proof -
  from assms have "\<exists>s1. SchemeBuilder_AddToScheme fs s = Some (s1, None) \<and> f s1 = Some (s', None)"
    by (induction fs arbitrary: s) (auto split: option.splits prod.splits)
  then show thesis using that by blast
qed

lemma registerGroupVersions_ok:
  assumes "registerGroupVersions gvrs ordered s = Some (s', None)" and "scheme_ok s"
  shows "scheme_ok s' \<and> extends s s' \<and>
    (\<forall>gvr \<in> set gvrs. map_of (versionPriority s') (gvr_Group gvr) = Some (versions_of_group gvrs (gvr_Group gvr))) \<and>
    (\<forall>gv \<in> set ordered. registered (WithKind gv ''WatchEvent'') (meta ''WatchEvent'') s')"
proof -
  from assms(1) obtain s1 where p: "set_priorities gvrs (remdups (map gvr_Group gvrs)) s = (s1, None)"
    and g: "add_group_versions ordered s1 = Some s'"
    by (auto simp: registerGroupVersions_def split: prod.splits option.splits)
  note k = set_priorities_ok [OF p]
  have "scheme_ok s1" "extends s s1" using k assms(2) scheme_frame [of s1 s] by (auto simp: extends_def)
  with add_group_versions_ok [OF g] k show ?thesis by (auto intro: extends_trans)
qed

lemma buildCodec_ok:
  assumes "buildCodec legacyCodec a = Some (a', Inr k)"
  obtains s where "SchemeBuilder_AddToScheme (apiSchemeBuilder a) (apiScheme a) = Some (s, None)"
    and "registerGroupVersions (map fst (srv_apis a)) (orderedGroupVersions a) s = Some (apiScheme a', None)"
    and "srv_apis a' = srv_apis a" and "srv_errs a = []" and "k = legacyCodec (orderedGroupVersions a)"
proof -
  let ?reg = "registerGroupVersions (map fst (srv_apis a)) (orderedGroupVersions a)"
  from assms have "SchemeBuilder_AddToScheme (apiSchemeBuilder a @ [?reg]) (apiScheme a) = Some (apiScheme a', None)"
    and r: "srv_apis a' = srv_apis a" "srv_errs a = []" "k = legacyCodec (orderedGroupVersions a)"
    by (auto simp: buildCodec_def Register_def Let_def split: option.splits prod.splits if_splits)
  from SchemeBuilder_snoc [OF this(1)] r that show thesis by metis
qed

lemma foldl_prefix:
  "\<exists>ys. foldl (\<lambda>ret ov. if P ret ov then ret else ret @ [f ov]) xs zs = xs @ ys"
  by (induction zs arbitrary: xs) (auto, metis append.assoc)

lemma PrioritizedVersions_prefix:
  assumes "map_of (versionPriority s) g = Some vs"
  shows "\<exists>rest. PrioritizedVersionsForGroup s g = map (\<lambda>v. \<lparr>gv_Group = g, gv_Version = v\<rparr>) vs @ rest"
  using foldl_prefix [of "\<lambda>ret ov. gv_Group ov \<noteq> g \<or> ov \<in> set ret" "\<lambda>ov. ov" _ "observedVersions s"] assms
  by (simp add: PrioritizedVersionsForGroup_def)

text \<open>Scheme functions that keep the registry consistent.\<close>

definition keeps_ok :: "'o scheme_func \<Rightarrow> bool" where
  "keeps_ok f \<longleftrightarrow> (\<forall>s s'. scheme_ok s \<longrightarrow> f s = Some (s', None) \<longrightarrow> scheme_ok s' \<and> extends s s')"

lemma keeps_ok_AddToScheme [simp]: "keeps_ok (AddToScheme mvo objs)"
  by (auto simp: keeps_ok_def dest: AddToScheme_ok)

lemma SchemeBuilder_keeps:
  "SchemeBuilder_AddToScheme fs s = Some (s', None) \<Longrightarrow> scheme_ok s \<Longrightarrow> \<forall>f \<in> set fs. keeps_ok f \<Longrightarrow>
     scheme_ok s' \<and> extends s s'"
proof (induction fs arbitrary: s)
  case (Cons f fs)
  from Cons.prems(1) obtain s1 where a: "f s = Some (s1, None)" and r: "SchemeBuilder_AddToScheme fs s1 = Some (s', None)"
    by (auto split: option.splits)
  from Cons.prems(3) have "keeps_ok f" by simp
  then have k: "scheme_ok s1 \<and> extends s s1" using a Cons.prems(2) unfolding keeps_ok_def by blast
  with Cons.IH [OF r] Cons.prems(3) have "scheme_ok s' \<and> extends s1 s'" by simp
  with k show ?case by (blast intro: extends_trans)
qed simp

lemma subresources_scheme:
  "apiScheme (foldl (\<lambda>a sub. WithSubResourceAndHandler obj (gsr_Name sub) (P sub) a) a subs) = apiScheme a"
  "apiSchemeBuilder (foldl (\<lambda>a sub. WithSubResourceAndHandler obj (gsr_Name sub) (P sub) a) a subs) = apiSchemeBuilder a"
  by (induction subs arbitrary: a) (auto simp: WithSubResourceAndHandler_def)

lemma withSubresources_scheme [simp]:
  "apiScheme (withSubresources obj mk strategy sp a) = apiScheme a"
  "apiSchemeBuilder (withSubresources obj mk strategy sp a) = apiSchemeBuilder a"
  unfolding withSubresources_def Let_def
  by (simp_all only: subresources_scheme split: option.splits) (simp_all add: WithSubResourceAndHandler_def)

section \<open>The invariant\<close>

text \<open>C27. A builder holds exactly what was registered with it, by any sequence of its methods: the
  ordered list of group versions is the list of those that were registered, each once, in the order
  of their first registration; the API of a resource or subresource is served by the provider of
  its last registration, and there is no other API; and the singleton that is kept for a group
  resource wraps the provider of its first registration. A resource with file storage registers its
  status and its own subresources with itself.\<close>

theorem Built_invariant:
  assumes "built R a"
  shows "orderedGroupVersions a = first_occurrences (map (GVR_GroupVersion \<circ> fst) R) \<and>
    set (groupVersions a) = set (orderedGroupVersions a) \<and> distinct (orderedGroupVersions a) \<and>
    (\<forall>gvr. map_of (srv_apis a) gvr = map_of (rev (provided R)) gvr) \<and>
    (\<forall>gr. map_option sgl_Provider (map_of (srv_storage a) gr) =
       map_of (map (\<lambda>(gvr, sp). (GVR_GroupResource gvr, sp)) (provided R)) gr)"
proof -
  from assms have "holds_registrations R a"
  proof induction
    case (built_New d a)
    then show ?case by (auto simp: NewServerBuilder_def holds_registrations_def split: option.splits)
  qed (auto simp: builder_methods Let_def withGroupVersions_holds resource_holds WithResourceAndHandler_holds
      WithSubResourceAndHandler_holds simp del: withGroupVersions.simps)
  then show ?thesis by (auto simp: holds_registrations_def)
qed

definition empty_builder :: "(unit, unit) Server" where
  "empty_builder = the (NewServerBuilder [])"

lemma empty_builder_New: "NewServerBuilder [] = Some empty_builder"
proof -
  have "(NewServerBuilder [] :: (unit, unit) Server option) \<noteq> None" by code_simp
  then show ?thesis by (auto simp: empty_builder_def)
qed

text \<open>A widget in two versions: the first in files, with its status, the second with a handler of its
  own and a scale subresource.\<close>

definition widget :: "string \<Rightarrow> string \<Rightarrow> GroupVersionResource" where
  "widget ver r = \<lparr>gvr_Group = ''demo.dev'', gvr_Version = ver, gvr_Resource = r\<rparr>"

definition widget_resource :: "string \<Rightarrow> unit resource" where
  "widget_resource ver =
     \<lparr>res_type = GoType ver ''Widget'',
      res_object = \<lparr>ro_New = GoType ver ''Widget'', ro_NewList = GoType ver ''WidgetList'',
        ro_GetGroupVersionResource = widget ver ''widgets'', ro_IsStorageVersion = True, ro_MultiVersion = None, ro_Default = None\<rparr>,
      res_methods = \<lparr>tm_GenerateName = None, tm_NamespaceScoped = None, tm_ShortNames = None, tm_GetSingularName = None,
        tm_PrepareForCreate = None, tm_PrepareForUpdate = None, tm_Validate = None, tm_ValidateUpdate = None, tm_Canonicalize = None,
        tm_AllowCreateOnUpdate = None, tm_AllowUnconditionalUpdate = None, tm_StatusCopyTo = Some (\<lambda>from to. to), tm_DeepCopyInto = None\<rparr>,
      res_New = \<lparr>TypeMeta = ([], []), Metadata = None, Body = ()\<rparr>,
      res_NewList = \<lparr>ListResourceVersion = Some [], Items = Inr []\<rparr>, GenericSubResources = None\<rparr>"

definition widget_provider :: "nat \<Rightarrow> unit provider" where
  "widget_provider n sch g w = Some (w, Inr (OtherStorage n True True))"

definition widget_files :: "(unit, unit) Server" where
  "widget_files = WithResourceFileStorage (\<lambda>_. None) (\<lambda>_. ''x'') [] (widget_resource ''v1'') ''data'' empty_builder"

definition widget_builder :: "(unit, unit) Server" where
  "widget_builder =
     WithSubResourceAndHandler (widget_resource ''v2'') ''scale'' (widget_provider 3)
       (WithResourceAndHandler (\<lambda>_. None) (widget_resource ''v2'') (widget_provider 2) widget_files)"

theorem Built_invariant_witness:
  "orderedGroupVersions widget_builder = map GVR_GroupVersion [widget ''v1'' [], widget ''v2'' []] \<and>
   map_of (srv_apis widget_builder) (widget ''v1'' ''widgets/status'') \<noteq> None \<and>
   map_of (srv_apis widget_builder) (widget ''v2'' ''widgets/status'') = None \<and>
   map_of (srv_apis widget_builder) (widget ''v2'' ''widgets'') = Some (widget_provider 2) \<and>
   map_of (srv_apis widget_builder) (widget ''v2'' ''widgets/scale'') = Some (widget_provider 3) \<and>
   map_option sgl_Provider (map_of (srv_storage widget_builder) (GVR_GroupResource (widget ''v2'' ''widgets''))) =
     map_of (srv_apis widget_builder) (widget ''v1'' ''widgets'')"
proof -
  let ?v1 = "resource_registrations (widget_resource ''v1'') (disk_provider [] (widget_resource ''v1'') ''data''
    (length (w_real (srv_world empty_builder))) (length (w_ws (srv_world empty_builder)))) (builder_strategy (\<lambda>_. ''x'') (widget_resource ''v1''))"
  have "built ((([] @ ?v1) @ [(res_gvr (widget_resource ''v2''), Some (widget_provider 2))]) @
      [(sub_gvr (widget_resource ''v2'') ''scale'', Some (widget_provider 3))]) widget_builder"
    unfolding widget_builder_def widget_files_def
    by (intro built_SubResource built_Handler built_File built_New [OF empty_builder_New])
  from Built_invariant [OF this] show ?thesis
    by (simp add: widget_resource_def widget_def sub_gvr_def provided_def first_occurrences_def resource_registrations_def
        GVR_GroupVersion_def GVR_GroupResource_def)
qed

section \<open>Versions of a resource\<close>

text \<open>Two versions of a resource do not share their storage: the API map holds the raw provider of
  each, so that each makes a storage of its own. The singleton that the builder keeps for the
  resource, which would hand its first result to every caller, is never asked.\<close>

theorem Versions_do_not_share_storage:
  assumes "gvr1 \<noteq> gvr2" and "GVR_GroupResource gvr1 = GVR_GroupResource gvr2"
    and "map_of (srv_storage a) (GVR_GroupResource gvr1) = None"
    and "a' = forGroupVersionResource gvr2 sp2 (forGroupVersionResource gvr1 sp1 a)"
  shows "map_of (srv_apis a') gvr1 = Some sp1 \<and> map_of (srv_apis a') gvr2 = Some sp2 \<and>
    (\<exists>sg. map_of (srv_storage a') (GVR_GroupResource gvr2) = Some sg \<and> sgl_Provider sg = sp1 \<and>
       (\<forall>sch g w sg' w' r. singletonProvider_Get sg sch g w = Some (sg', w', r) \<longrightarrow>
          (\<forall>sch' g' w''. singletonProvider_Get sg' sch' g' w'' = Some (sg', w'', r))))"
proof -
  have "map_of (srv_storage a') (GVR_GroupResource gvr2) = Some \<lparr>sgl_Provider = sp1, sgl_result = None\<rparr>"
    using assms(2,3) by (auto simp: assms(4) forGroupVersionResource_def Let_def)
  moreover have "singletonProvider_Get sg' sch' g' w'' = Some (sg', w'', r)"
    if "singletonProvider_Get \<lparr>sgl_Provider = sp1, sgl_result = None\<rparr> sch g w = Some (sg', w', r)" for sch g w sg' w' r sch' g' w''
    using that by (auto simp: singletonProvider_Get_def split: option.splits)
  ultimately show ?thesis using assms(1) by (auto simp: assms(4))
qed

theorem Versions_do_not_share_storage_witness:
  "\<exists>a' :: (unit, unit) Server. map_of (srv_apis a') \<lparr>gvr_Group = ''g'', gvr_Version = ''v1'', gvr_Resource = ''r''\<rparr> = Some (\<lambda>sch g w. Some (w, Inr (OtherStorage 1 True True))) \<and>
     map_of (srv_apis a') \<lparr>gvr_Group = ''g'', gvr_Version = ''v2'', gvr_Resource = ''r''\<rparr> = Some (\<lambda>sch g w. Some (w, Inr (OtherStorage 2 True True)))"
proof -
  let ?g1 = "\<lparr>gvr_Group = ''g'', gvr_Version = ''v1'', gvr_Resource = ''r''\<rparr>"
  let ?g2 = "\<lparr>gvr_Group = ''g'', gvr_Version = ''v2'', gvr_Resource = ''r''\<rparr>"
  have "?g1 \<noteq> ?g2" "GVR_GroupResource ?g1 = GVR_GroupResource ?g2" by (simp_all add: GVR_GroupResource_def)
  moreover have "map_of (srv_storage empty_builder) (GVR_GroupResource ?g1) = None"
  proof -
    have "srv_storage empty_builder = []" using arg_cong [OF empty_builder_New, of "map_option srv_storage"]
      by (auto simp: NewServerBuilder_def split: option.splits)
    then show ?thesis by simp
  qed
  ultimately show ?thesis using Versions_do_not_share_storage [of ?g1 ?g2 empty_builder _ "\<lambda>sch g w. Some (w, Inr (OtherStorage 2 True True))"
      "\<lambda>sch g w. Some (w, Inr (OtherStorage 1 True True))", OF _ _ _ refl] by blast
qed

end
