(* ===== verification/Start_Props.thy ===== *)
theory Start_Props
  imports Start
begin

text \<open>
  What starting the server guarantees: a configured server has a listener and a certificate, lets in
  exactly the holders of its token, and serves only after its TLS configuration was accepted.
\<close>

section \<open>Lemmas\<close>

text \<open>What the steps of \<open>Config\<close> leave of the options.\<close>

definition same_policy :: "SecureServingOptions \<Rightarrow> SecureServingOptions \<Rightarrow> bool" where
  "same_policy s s' \<longleftrightarrow> BearerToken s' = BearerToken s \<and> CipherSuites s' = CipherSuites s \<and>
     MinTLSVersion s' = MinTLSVersion s \<and> BindAddress s' = BindAddress s"

lemma same_policy_refl [simp]: "same_policy s s"
  by (simp add: same_policy_def)

lemma same_policy_trans: "same_policy a b \<Longrightarrow> same_policy b c \<Longrightarrow> same_policy a c"
  by (simp add: same_policy_def)

lemma same_policy_updates [simp]:
  "same_policy s (s'\<lparr>BindPort := p\<rparr>) = same_policy s s'" "same_policy s (s'\<lparr>Listener := l\<rparr>) = same_policy s s'"
  "same_policy s (set_certkey c k s') = same_policy s s'" "same_policy s (set_generated g s') = same_policy s s'"
  by (simp_all add: same_policy_def set_certkey_def set_generated_def)

lemma listen_conn_policy:
  "listen_conn opts h = (h', s', r) \<Longrightarrow> same_policy (ServingOptions opts) s' \<and> ServerCert s' = ServerCert (ServingOptions opts)"
  by (auto simp: listen_conn_def Let_def split: option.splits prod.splits sum.splits if_splits)

lemma Clean_nonempty: "Clean p \<noteq> []"
proof (cases "path_elems p")
  case (Cons c cs)
  then have "c \<noteq> []" using normal_elem_no_slash [OF normal_path_elems, of c p] by simp
  with Cons show ?thesis by (cases cs) (auto simp: Clean_def render_def)
qed (simp add: Clean_def render_def)

lemma Join_nonempty: "d \<noteq> [] \<Longrightarrow> Join (d # ds) \<noteq> []"
  by (simp add: Join_def Clean_nonempty)

text \<open>The options name a certificate: a file, or one in memory.\<close>

definition has_cert :: "SecureServingOptions \<Rightarrow> bool" where
  "has_cert s \<longleftrightarrow> CertFile (gkc_CertKey (ServerCert s)) \<noteq> [] \<or> KeyFile (gkc_CertKey (ServerCert s)) \<noteq> [] \<or>
     GeneratedCert (ServerCert s) \<noteq> None"

lemma generate_certs_result:
  assumes "generate_certs sys pub dns ips h s = (h', s', r)"
  shows "same_policy s s' \<and> Listener s' = Listener s \<and> BindPort s' = BindPort s \<and> (r = None \<longrightarrow> has_cert s')"
  using assms
  by (auto simp: generate_certs_def Let_def set_generated_def same_policy_def has_cert_def
      split: prod.splits sum.splits option.splits if_splits)

lemma default_certs_directory_result:
  assumes "default_certs sys pub dns ips h s = (h', s', r)" and "BindPort s \<noteq> 0 \<or> Listener s \<noteq> None"
    and "\<not> PregeneratedCert (ServerCert s)" and "gkc_CertKey (ServerCert s) = \<lparr>CertFile = [], KeyFile = []\<rparr>"
    and "CertDirectory (ServerCert s) \<noteq> []"
  shows "same_policy s s' \<and> Listener s' = Listener s \<and> BindPort s' = BindPort s \<and> (r = None \<longrightarrow> has_cert s')"
proof (cases "PairName (ServerCert s) = []")
  case True
  with assms show ?thesis by (auto simp: default_certs_def)
next
  case False
  let ?s1 = "set_certkey (cert_path s) (key_path s) s"
  have s1: "same_policy s ?s1 \<and> Listener ?s1 = Listener s \<and> BindPort ?s1 = BindPort s \<and> has_cert ?s1"
    using Join_nonempty [OF assms(5)] by (simp add: set_certkey_def has_cert_def same_policy_def cert_path_def)
  obtain h1 v where c: "checkCertAndKeyReadableAndValid sys (cert_path s) (key_path s) h = (h1, v)" by (rule prod.exhaust)
  with False assms have d: "(h', s', r) = (case v of Inl e \<Rightarrow> (h1, ?s1, Some e) | Inr True \<Rightarrow> (h1, ?s1, None)
      | Inr False \<Rightarrow> generate_certs sys pub dns ips h1 ?s1)"
    by (auto simp: default_certs_def cert_path_def key_path_def Let_def split: sum.splits bool.splits)
  show ?thesis
  proof (cases "v = Inr False")
    case True
    with d have "generate_certs sys pub dns ips h1 ?s1 = (h', s', r)" by simp
    note g = generate_certs_result [OF this]
    have "same_policy s s'" using g s1 by (blast intro: same_policy_trans)
    with g s1 show ?thesis by simp
  next
    case False
    with d s1 show ?thesis by (cases v) (auto split: if_splits)
  qed
qed

lemma default_certs_result:
  assumes "default_certs sys pub dns ips h s = (h', s', r)"
  shows "same_policy s s' \<and> Listener s' = Listener s \<and> BindPort s' = BindPort s \<and>
    (r = None \<longrightarrow> BindPort s \<noteq> 0 \<or> Listener s \<noteq> None \<longrightarrow>
     (PregeneratedCert (ServerCert s) \<longrightarrow> GeneratedCert (ServerCert s) \<noteq> None) \<longrightarrow> has_cert s')"
proof -
  let ?ck = "gkc_CertKey (ServerCert s)"
  have ck: "?ck = \<lparr>CertFile = [], KeyFile = []\<rparr>" if "CertFile ?ck = []" "KeyFile ?ck = []"
    using that by (cases ?ck) simp
  consider (early) "BindPort s = 0 \<and> Listener s = None \<or> PregeneratedCert (ServerCert s) \<or> CertFile ?ck \<noteq> [] \<or> KeyFile ?ck \<noteq> []"
    | (dir) "BindPort s \<noteq> 0 \<or> Listener s \<noteq> None" "\<not> PregeneratedCert (ServerCert s)"
      "?ck = \<lparr>CertFile = [], KeyFile = []\<rparr>" "CertDirectory (ServerCert s) \<noteq> []"
    | (mem) "\<not> (BindPort s = 0 \<and> Listener s = None)" "\<not> PregeneratedCert (ServerCert s)"
      "CertFile ?ck = []" "KeyFile ?ck = []" "CertDirectory (ServerCert s) = []"
    using ck by blast
  then show ?thesis
  proof cases
    case early
    then have "default_certs sys pub dns ips h s = (h, s, None)"
      by (elim disjE) (simp_all add: default_certs_def)
    with assms have "h' = h" "s' = s" "r = None" by simp_all
    with early show ?thesis by (auto simp: has_cert_def)
  next
    case dir
    from default_certs_directory_result [OF assms dir] show ?thesis by blast
  next
    case mem
    then have "default_certs sys pub dns ips h s = generate_certs sys pub dns ips h s"
      unfolding default_certs_def by (simp del: not_None_eq de_Morgan_conj)
    with assms generate_certs_result [of sys pub dns ips h s] show ?thesis by auto
  qed
qed

lemma apply_options_ok:
  assumes "apply_options sys s None h = (h', s', info, r)"
  shows "same_policy s s'" and "ServerCert s' = ServerCert s"
    and "r = None \<Longrightarrow> info = Some i \<Longrightarrow> fill_config sys s' h' = (i, None) \<and> Listener s' \<noteq> None"
  using assms by (auto simp: apply_options_def Let_def split: if_splits option.splits prod.splits sum.splits)

lemma main_cert_present:
  assumes "main_cert sys (ServerCert s) h = Inr c" and "has_cert s"
  shows "c \<noteq> None"
  using assms by (auto simp: main_cert_def has_cert_def split: if_splits sum.splits)

lemma loopback_Some:
  assumes "loopbackClientConfig opts cert = Some lb"
  shows "rcfg_BearerToken lb = BearerToken (ServingOptions opts) \<and> CAData lb = fst (CurrentCertKeyContent cert) \<and>
    Host lb = ''https://'' @ host_port (BindAddress (ServingOptions opts)) (BindPort (ServingOptions opts)) \<and>
    BindPort (ServingOptions opts) \<noteq> 0"
  using assms by (auto simp: loopbackClientConfig_def split: if_splits)

lemma apply_serving_ok:
  assumes "apply_serving sys lib opts h = Some (h', opts', Inr cfg)"
  shows "\<exists>info ln cert lb. fill_config sys (ServingOptions opts') h' = (info, None) \<and>
    ssi_Listener info = Some ln \<and> ssi_Cert info = Some cert \<and> loopbackClientConfig opts' cert = Some lb \<and>
    GenericConfig cfg = server_config opts' (sl_NewRecommendedConfig lib) ln lb \<and>
    ec_ServingInfo (cfg_ExtraConfig cfg) = Some info \<and> same_policy (ServingOptions opts) (ServingOptions opts')"
proof -
  obtain h1 s1 info r where a: "apply_options sys (ServingOptions opts) None h = (h1, s1, info, r)" by (metis prod.exhaust)
  with assms obtain i ln cert lb where "r = None" "info = Some i" "h' = h1" "opts' = opts\<lparr>ServingOptions := s1\<rparr>"
    "ssi_Listener i = Some ln" "ssi_Cert i = Some cert" "loopbackClientConfig opts' cert = Some lb"
    "GenericConfig cfg = server_config opts' (sl_NewRecommendedConfig lib) ln lb" "ec_ServingInfo (cfg_ExtraConfig cfg) = Some i"
    by (auto simp: apply_serving_def Let_def split: option.splits)
  with apply_options_ok [OF a] show ?thesis by fastforce
qed

lemma Config_ok:
  assumes "TiltServerOptions_Config sys lib opts h = Some (h', opts', Inr cfg)"
  shows "\<exists>info ln cert lb. fill_config sys (ServingOptions opts') h' = (info, None) \<and>
    ssi_Listener info = Some ln \<and> ssi_Cert info = Some cert \<and> loopbackClientConfig opts' cert = Some lb \<and>
    GenericConfig cfg = server_config opts' (sl_NewRecommendedConfig lib) ln lb \<and>
    ec_ServingInfo (cfg_ExtraConfig cfg) = Some info \<and> same_policy (ServingOptions opts) (ServingOptions opts')"
proof -
  obtain h1 s1 r1 where l: "listen_conn opts h = (h1, s1, r1)" by (metis prod.exhaust)
  obtain h2 s2 r2 where d: "default_certs sys ''localhost'' [] [IPv4 127 0 0 1] h1 s1 = (h2, s2, r2)" by (metis prod.exhaust)
  from assms l d have a: "apply_serving sys lib (opts\<lparr>ServingOptions := s2\<rparr>) h2 = Some (h', opts', Inr cfg)"
    by (auto simp: TiltServerOptions_Config_def split: option.splits)
  have "same_policy (ServingOptions opts) s2"
    using listen_conn_policy [OF l] default_certs_result [OF d] by (blast intro: same_policy_trans)
  with apply_serving_ok [OF a] show ?thesis by (auto intro: same_policy_trans)
qed

section \<open>An example\<close>

text \<open>A server without resources, on the machine of the earlier examples.\<close>

definition demo_lib :: "(unit, unit, unit) start_lib" where
  "demo_lib = \<lparr>sl_featureGate = (\<lambda>_. None),
     sl_NewRecommendedConfig = \<lparr>rc_ExternalAddress = [], rc_Authorizer = None, rc_Authenticator = None,
       rc_LoopbackClientConfig = None, rc_RESTOptionsGetter = None, rc_OpenAPIConfig = None, rc_OpenAPIV3Config = None,
       rc_SharedInformerFactory = False, rc_EffectiveVersion = False\<rparr>,
     sl_server = \<lparr>lib_New = (\<lambda>_. None), lib_install = (\<lambda>_. None)\<rparr>, sl_tls = demo_tls, sl_flags = demo_pflag\<rparr>"

definition demo_conn :: "unit ConnProvider" where
  "demo_conn = \<lparr>cp_Dial = (\<lambda>_ _ h. (h, Inr ())), cp_DialContext = (\<lambda>_ _ h. (h, Inr ())),
     cp_Listen = (\<lambda>n a h. (h, Inr \<lparr>ln_id = 99, ln_Addr = OtherAddr (n @ '':'' @ a)\<rparr>))\<rparr>"

definition demo_opts :: "(unit, unit, unit, unit, unit) TiltServerOptions" where
  "demo_opts = NewTiltServerOptions empty_Scheme () [SetOpenAPIDefinitionFn ''tilt'' ''0.1.0'' []] []
     (NewSecureServingOptions\<lparr>BearerToken := ''secret''\<rparr>) (Some (NetworkConnProvider demo_conn ''memu''))"

lemma demo_config:
  obtains h' opts' cfg where "TiltServerOptions_Config demo_sys demo_lib demo_opts demo_host = Some (h', opts', Inr cfg)"
proof -
  let ?c = "TiltServerOptions_Config demo_sys demo_lib demo_opts demo_host"
  have "map_option (\<lambda>(_, _, r). isl r) ?c = Some False" by code_simp
  then obtain h' opts' r where "?c = Some (h', opts', r)" "\<not> isl r" by auto
  then show thesis using that by (cases r) auto
qed

section \<open>Properties\<close>

text \<open>A server that was configured without an error has everything it needs: a listener, whose
  address it advertises; a certificate; and a client of its own that trusts exactly that
  certificate, carries the token of the options and is let in by the authorizer's group.\<close>

theorem Config_complete:
  assumes "TiltServerOptions_Config sys lib opts h = Some (h', opts', Inr cfg)"
  shows "\<exists>info ln cert lb. ec_ServingInfo (cfg_ExtraConfig cfg) = Some info \<and>
    ssi_Listener info = Some ln \<and> Listener (ServingOptions opts') = Some ln \<and> ssi_Cert info = Some cert \<and>
    rc_ExternalAddress (GenericConfig cfg) = Addr_String (ln_Addr ln) \<and>
    rc_LoopbackClientConfig (GenericConfig cfg) = Some lb \<and> CAData lb = fst (CurrentCertKeyContent cert) \<and>
    rcfg_BearerToken lb = BearerToken (ServingOptions opts) \<and>
    rc_RESTOptionsGetter (GenericConfig cfg) \<noteq> None \<and> ec_APIs (cfg_ExtraConfig cfg) = tso_apis opts'"
proof -
  from Config_ok [OF assms] obtain info ln cert lb where c: "fill_config sys (ServingOptions opts') h' = (info, None)"
    "ssi_Listener info = Some ln" "ssi_Cert info = Some cert" "loopbackClientConfig opts' cert = Some lb"
    "GenericConfig cfg = server_config opts' (sl_NewRecommendedConfig lib) ln lb"
    "ec_ServingInfo (cfg_ExtraConfig cfg) = Some info" "same_policy (ServingOptions opts) (ServingOptions opts')" by blast
  have "Listener (ServingOptions opts') = Some ln" using fill_config_ok [OF c(1)] c(2) by simp
  moreover have "ec_APIs (cfg_ExtraConfig cfg) = tso_apis opts'"
    using assms by (auto simp: TiltServerOptions_Config_def apply_serving_def Let_def split: option.splits prod.splits)
  ultimately show ?thesis using c loopback_Some [OF c(4)] by (simp add: server_config_def same_policy_def)
qed

theorem Config_complete_witness:
  "\<exists>h' opts' cfg lb. TiltServerOptions_Config demo_sys demo_lib demo_opts demo_host = Some (h', opts', Inr cfg) \<and>
     rc_LoopbackClientConfig (GenericConfig cfg) = Some lb \<and> rcfg_BearerToken lb = ''secret''"
proof -
  obtain h' opts' cfg where c: "TiltServerOptions_Config demo_sys demo_lib demo_opts demo_host = Some (h', opts', Inr cfg)"
    by (rule demo_config)
  have "BearerToken (ServingOptions demo_opts) = ''secret''" by (simp add: demo_opts_def NewTiltServerOptions_def)
  with Config_complete [OF c] c show ?thesis by auto
qed

text \<open>Configuring never stops for want of a certificate: unless the options claim a pregenerated
  certificate that they do not have, every server gets one, from files, from the certificate
  directory or generated in memory.\<close>

theorem Config_finds_certificate:
  assumes "PregeneratedCert (ServerCert (ServingOptions opts)) \<longrightarrow> GeneratedCert (ServerCert (ServingOptions opts)) \<noteq> None"
  shows "TiltServerOptions_Config sys lib opts h \<noteq> Some (h', opts', Inl NoCertificates)"
proof
  assume c: "TiltServerOptions_Config sys lib opts h = Some (h', opts', Inl NoCertificates)"
  obtain h1 s1 r1 where l: "listen_conn opts h = (h1, s1, r1)" by (metis prod.exhaust)
  obtain h2 s2 r2 where d: "default_certs sys ''localhost'' [] [IPv4 127 0 0 1] h1 s1 = (h2, s2, r2)" by (metis prod.exhaust)
  obtain h3 s3 info r3 where a: "apply_options sys s2 None h2 = (h3, s3, info, r3)" by (metis prod.exhaust)
  have le: "r1 \<noteq> Some NoCertificates"
    using l by (auto simp: listen_conn_def Let_def split: option.splits prod.splits sum.splits if_splits)
  from c l d a le obtain i where r: "r1 = None" "r2 = None" "r3 = None" "info = Some i" "ssi_Cert i = None"
    by (auto simp: TiltServerOptions_Config_def apply_serving_def Let_def split: option.splits)
  have p: "PregeneratedCert (ServerCert s1) \<longrightarrow> GeneratedCert (ServerCert s1) \<noteq> None"
    using listen_conn_policy [OF l] assms by simp
  have "BindPort s2 \<noteq> 0 \<or> Listener s2 \<noteq> None" using a r by (auto simp: apply_options_def split: if_splits)
  then have "has_cert s2" using default_certs_result [OF d] p r(2) by auto
  moreover have "main_cert sys (ServerCert s3) h3 = Inr None"
    using apply_options_ok(3) [OF a r(3,4)] fill_config_ok [of sys s3 h3 i] r(5) by simp
  ultimately show False using main_cert_present [of sys s3 h3 None] apply_options_ok(2) [OF a] by (simp add: has_cert_def)
qed

theorem Config_finds_certificate_witness:
  "\<forall>h' opts'. TiltServerOptions_Config demo_sys demo_lib demo_opts demo_host \<noteq> Some (h', opts', Inl NoCertificates)"
  by (intro allI, rule Config_finds_certificate) (simp add: demo_opts_def NewTiltServerOptions_def NewSecureServingOptions_def)

text \<open>C29. Who gets through the filters of the server. A request whose headers ask to impersonate
  groups, extra fields or a UID but no user is malformed and answered so. Of the others, only those
  that carry the bearer token of the options get further than the anonymous user, who is refused
  whatever it asks for; without a configured token nobody does. A request with the token acts as
  the API server's own user and is served, unless it names a user to impersonate: then it acts as
  that user, with the groups that it names (or those of the service account that it names), and is
  served exactly if it names the group of the masters.\<close>

theorem Request_needs_token:
  assumes "TiltServerOptions_Config sys lib opts h = Some (h', opts', Inr cfg)"
    and "GenericConfig (Config_Complete cfg) = gc"
  shows "\<exists>authn authz. rc_Authenticator gc = Some authn \<and> rc_Authorizer gc = Some authz \<and>
    filter_request authn authz req =
      (if bad_impersonation (Header req) then BadImpersonation
       else if bearer_token req = Some (BearerToken (ServingOptions opts)) \<and> BearerToken (ServingOptions opts) \<noteq> []
       then if Header_Get (Header req) ''Impersonate-User'' = []
            then Served (Some \<lparr>u_Name = ''system:apiserver'', u_Groups = [''system:authenticated'', ''system:masters'']\<rparr>)
            else if ''system:masters'' \<in> set (Header_values (Header req) ''Impersonate-Group'')
            then Served (Some (impersonated (Header req)))
            else Forbidden (Some (impersonated (Header req)))
       else Forbidden (Some \<lparr>u_Name = ''system:anonymous'', u_Groups = [''system:unauthenticated'']\<rparr>))"
proof -
  from Config_ok [OF assms(1)] obtain ln cert lb where c: "loopbackClientConfig opts' cert = Some lb"
    "GenericConfig cfg = server_config opts' (sl_NewRecommendedConfig lib) ln lb"
    "same_policy (ServingOptions opts) (ServingOptions opts')" by blast
  let ?an = "AuthorizeClientBearerToken (Some (rcfg_BearerToken lb)) (Some (anonymous_authenticator [])) (Some masters_only)"
  have g: "rc_Authenticator gc = ?an" "rc_Authorizer gc = Some masters_only"
    using assms(2) c(2) by (auto simp: Config_Complete_def RecommendedConfig_Complete_def server_config_def)
  have t: "rcfg_BearerToken lb = BearerToken (ServingOptions opts)" using loopback_Some [OF c(1)] c(3) by (simp add: same_policy_def)
  obtain authn where a: "?an = Some authn" by (cases "rcfg_BearerToken lb = []") (auto simp: AuthorizeClientBearerToken_def)
  from filter_request_iff [OF a, of req] g a t show ?thesis by (simp add: masters_only_def)
qed

definition demo_request :: "http_header \<Rightarrow> http_request" where
  "demo_request h = \<lparr>Header = (''Authorization'', [''BEARER secret'']) # h, url_Path = ''/apis''\<rparr>"

text \<open>A request with the token; one that impersonates a service account, which is refused; and one
  that impersonates a member of the masters.\<close>

theorem Request_needs_token_witness:
  "\<exists>h' opts' cfg authn authz. TiltServerOptions_Config demo_sys demo_lib demo_opts demo_host = Some (h', opts', Inr cfg) \<and>
     rc_Authenticator (GenericConfig (Config_Complete cfg)) = Some authn \<and>
     rc_Authorizer (GenericConfig (Config_Complete cfg)) = Some authz \<and>
     filter_request authn authz (demo_request []) =
       Served (Some \<lparr>u_Name = ''system:apiserver'', u_Groups = [''system:authenticated'', ''system:masters'']\<rparr>) \<and>
     filter_request authn authz (demo_request [(''Impersonate-User'', [''system:serviceaccount:ci:bot''])]) =
       Forbidden (Some \<lparr>u_Name = ''system:serviceaccount:ci:bot'',
         u_Groups = [''system:serviceaccounts'', ''system:serviceaccounts:ci'', ''system:authenticated'']\<rparr>) \<and>
     filter_request authn authz (demo_request [(''Impersonate-User'', [''bob'']), (''Impersonate-Group'', [''system:masters''])]) =
       Served (Some \<lparr>u_Name = ''bob'', u_Groups = [''system:masters'', ''system:authenticated'']\<rparr>) \<and>
     filter_request authn authz (demo_request [(''Impersonate-Group'', [''system:masters''])]) = BadImpersonation"
proof -
  obtain h' opts' cfg where c: "TiltServerOptions_Config demo_sys demo_lib demo_opts demo_host = Some (h', opts', Inr cfg)"
    by (rule demo_config)
  have t: "BearerToken (ServingOptions demo_opts) = ''secret''" by (simp add: demo_opts_def NewTiltServerOptions_def)
  have "bearer_token (demo_request []) = Some ''secret''" by code_simp
  then have b: "bearer_token (demo_request h) = Some ''secret''" for h
    by (simp add: bearer_token_def demo_request_def Header_Get_def Header_values_def)
  let ?sa = "[(''Impersonate-User'', [''system:serviceaccount:ci:bot''])]"
  let ?bob = "[(''Impersonate-User'', [''bob'']), (''Impersonate-Group'', [''system:masters''])]"
  let ?grp = "[(''Impersonate-Group'', [''system:masters''])]"
  have bad: "\<not> bad_impersonation (Header (demo_request []))" "\<not> bad_impersonation (Header (demo_request ?sa))"
    "\<not> bad_impersonation (Header (demo_request ?bob))" "bad_impersonation (Header (demo_request ?grp))" by code_simp+
  have users: "Header_Get (Header (demo_request [])) ''Impersonate-User'' = []"
    "Header_Get (Header (demo_request ?sa)) ''Impersonate-User'' \<noteq> []"
    "Header_Get (Header (demo_request ?bob)) ''Impersonate-User'' \<noteq> []" by code_simp+
  have groups: "''system:masters'' \<notin> set (Header_values (Header (demo_request ?sa)) ''Impersonate-Group'')"
    "''system:masters'' \<in> set (Header_values (Header (demo_request ?bob)) ''Impersonate-Group'')" by code_simp+
  have imp: "impersonated (Header (demo_request ?sa)) = \<lparr>u_Name = ''system:serviceaccount:ci:bot'',
         u_Groups = [''system:serviceaccounts'', ''system:serviceaccounts:ci'', ''system:authenticated'']\<rparr>"
    "impersonated (Header (demo_request ?bob)) = \<lparr>u_Name = ''bob'', u_Groups = [''system:masters'', ''system:authenticated'']\<rparr>"
    by code_simp+
  note r = Request_needs_token [OF c refl, unfolded t]
  obtain authn authz where a: "rc_Authenticator (GenericConfig (Config_Complete cfg)) = Some authn"
    "rc_Authorizer (GenericConfig (Config_Complete cfg)) = Some authz" using r by blast
  show ?thesis
    using c a r [of "demo_request []"] r [of "demo_request ?sa"] r [of "demo_request ?bob"] r [of "demo_request ?grp"]
    by (simp add: b bad users groups imp)
qed

text \<open>C30. The server starts to serve only after its TLS configuration was accepted: if a run starts
  serving, it does so once, with the TLS policy of its options and without an insecure cipher
  suite, and the hooks run after it; if a run reports an error, it has not started to serve.\<close>

theorem Serve_only_with_TLS:
  assumes "RunTiltServer sys lib defaulter opts h w = Some (h', w', events, r)"
  shows "if r = None
    then \<exists>ln tls. events = [HookAdded ''start-tilt-server-informers'', Prepared, ServeStarted ln tls, HooksRun] \<and>
      TLSVersion (MinTLSVersion (ServingOptions opts)) = Inr (MinVersion tls) \<and>
      (\<forall>n \<in> set (CipherSuites (ServingOptions opts)). n \<notin> fst ` set (insecureCiphers sys))
    else \<forall>ln tls. ServeStarted ln tls \<notin> set events"
proof (cases "\<exists>h1 opts1 cfg. TiltServerOptions_Config sys lib opts h = Some (h1, opts1, Inr cfg)")
  case False
  with assms show ?thesis by (auto simp: RunTiltServer_def split: option.splits sum.splits)
next
  case True
  then obtain h1 opts1 cfg where c: "TiltServerOptions_Config sys lib opts h = Some (h1, opts1, Inr cfg)" by blast
  from Config_ok [OF c] obtain info ln cert where i: "fill_config sys (ServingOptions opts1) h1 = (info, None)"
    "ssi_Listener info = Some ln" "ssi_Cert info = Some cert" "ec_ServingInfo (cfg_ExtraConfig cfg) = Some info"
    "same_policy (ServingOptions opts) (ServingOptions opts1)" by blast
  have e: "ec_ServingInfo (cfg_ExtraConfig (Config_Complete cfg)) = Some info" using i(4) by (simp add: Config_Complete_def)
  obtain tr v where t: "TLSConfig sys (sl_tls lib) info h1 = (tr, v)" by (rule prod.exhaust)
  show ?thesis
  proof (cases v)
    case (Inl er)
    with assms c e t show ?thesis
      by (auto simp: RunTiltServer_def RunTiltServerFromConfig_def Let_def split: option.splits sum.splits)
  next
    case (Inr tls)
    from TLS_config_policy [OF i(1) t [unfolded Inr] i(3)] i(5) have
      "TLSVersion (MinTLSVersion (ServingOptions opts)) = Inr (MinVersion tls)"
      "\<forall>n \<in> set (CipherSuites (ServingOptions opts)). n \<notin> fst ` set (insecureCiphers sys)"
      by (auto simp: same_policy_def)
    with assms c e t i(2) Inr show ?thesis
      by (auto simp: RunTiltServer_def RunTiltServerFromConfig_def Let_def split: option.splits sum.splits)
  qed
qed

theorem Serve_only_with_TLS_witness:
  "\<exists>h' w' ln tls. RunTiltServer demo_sys demo_lib (\<lambda>_. None) demo_opts demo_host () =
     Some (h', w', [HookAdded ''start-tilt-server-informers'', Prepared, ServeStarted ln tls, HooksRun], None) \<and>
     TLSVersion [] = Inr (MinVersion tls)"
proof -
  let ?r = "RunTiltServer demo_sys demo_lib (\<lambda>_. None) demo_opts demo_host ()"
  have "map_option (\<lambda>(_, _, _, r). r) ?r = Some None" by code_simp
  then obtain h' w' ev where r: "?r = Some (h', w', ev, None)" by auto
  have "MinTLSVersion (ServingOptions demo_opts) = []" by (simp add: demo_opts_def NewTiltServerOptions_def NewSecureServingOptions_def)
  with Serve_only_with_TLS [OF r] r show ?thesis by auto
qed

text \<open>C34. A server command runs only with a usable port: if it reports no error, its flags were all
  accepted and the port they leave is between 1 and 65535. With any other port it reports an error
  before anything is touched. That holds for port 0 as well, of which the help of the flag and the
  message of the check say that it turns the secure port off: no value of the flag does.\<close>

theorem Command_port_bounds:
  assumes "NewCommandStartTiltServer sys lib defaulter opts args h w = Some (h', w', events, r)"
    and "set_flags (serving_flags (sl_flags lib)) [] args (ServingOptions opts) = Inr s"
  shows "(r = None \<longrightarrow> 1 \<le> BindPort s \<and> BindPort s < 2 ^ 16) \<and>
    (\<not> (1 \<le> BindPort s \<and> BindPort s < 2 ^ 16) \<longrightarrow> r \<noteq> None \<and> h' = h \<and> w' = w \<and> events = [])"
proof (cases "TiltServerOptions_Validate (opts\<lparr>ServingOptions := s\<rparr>)")
  case None
  then show ?thesis by (auto simp: TiltServerOptions_Validate_def Let_def split: if_splits)
next
  case (Some e)
  with assms have "r = Some e" "h' = h" "w' = w" "events = []"
    by (auto simp: NewCommandStartTiltServer_def AddFlags_serving TiltServerOptions_Complete_def Let_def)
  then show ?thesis by simp
qed

theorem Command_port_bounds_witness:
  "\<exists>r. NewCommandStartTiltServer demo_sys demo_lib (\<lambda>_. None) demo_opts [(''secure-port'', ''0'')] demo_host () =
     Some (demo_host, (), [], Some r)"
proof -
  let ?args = "[(''secure-port'', ''0'')]"
  let ?c = "NewCommandStartTiltServer demo_sys demo_lib (\<lambda>_. None) demo_opts ?args demo_host ()"
  let ?f = "set_flags (serving_flags (sl_flags demo_lib)) [] ?args (ServingOptions demo_opts)"
  have "?c \<noteq> None" by code_simp
  then obtain h' w' ev r where c: "?c = Some (h', w', ev, r)" by (cases ?c) auto
  have "(case ?f of Inl _ \<Rightarrow> 1 | Inr s \<Rightarrow> BindPort s) = 0" by code_simp
  then obtain s where "?f = Inr s" "BindPort s = 0" by (cases ?f) auto
  with Command_port_bounds [OF c, of s] c show ?thesis by auto
qed

text \<open>A listener that is passed in without a port makes \<open>Config\<close> panic, although the port is
  documented to be ignored when a listener is set: the loopback client insists on it.\<close>

theorem Listener_without_port_panics:
  assumes "sl_featureGate lib ''WatchList=false'' = None" and "tso_ConnProvider opts = None"
    and "Listener (ServingOptions opts) = Some ln" and "BindPort (ServingOptions opts) = 0"
    and "default_certs sys ''localhost'' [] [IPv4 127 0 0 1] h (ServingOptions opts) = (h', s', None)"
    and "fill_config sys s' h' = (info, None)" and "ssi_Cert info = Some cert"
  shows "TiltServerOptions_Config sys lib opts h = None"
proof -
  have l: "listen_conn opts h = (h, ServingOptions opts, None)" using assms(2) by (simp add: listen_conn_def Let_def)
  have d: "Listener s' = Some ln" "BindPort s' = 0" using default_certs_result [OF assms(5)] assms(3,4) by simp_all
  then have "apply_options sys s' None h' = (h', s', Some info, None)" using assms(6) by (simp add: apply_options_def)
  moreover have "ssi_Listener info = Some ln" using fill_config_ok [OF assms(6)] d(1) by simp
  ultimately show ?thesis using assms(1,5,7) l d(2)
    by (simp add: TiltServerOptions_Config_def apply_serving_def loopbackClientConfig_def)
qed

definition demo_listener_opts :: "(unit, unit, unit, unit, unit) TiltServerOptions" where
  "demo_listener_opts = NewTiltServerOptions empty_Scheme () [] []
     (NewSecureServingOptions\<lparr>BindPort := 0, Listener := Some \<lparr>ln_id = 7, ln_Addr = TCPAddr (IPv4 127 0 0 1) 8443 []\<rparr>\<rparr>) None"

theorem Listener_without_port_panics_witness:
  "TiltServerOptions_Config demo_sys demo_lib demo_listener_opts demo_host = None"
proof -
  let ?s = "ServingOptions demo_listener_opts"
  let ?d = "default_certs demo_sys ''localhost'' [] [IPv4 127 0 0 1] demo_host ?s"
  obtain h' s' r where d: "?d = (h', s', r)" by (metis prod.exhaust)
  have "snd (snd ?d) = None" by code_simp
  with d have d': "?d = (h', s', None)" by simp
  obtain info r2 where f: "fill_config demo_sys s' h' = (info, r2)" by (rule prod.exhaust)
  have "(case ?d of (h', s', _) \<Rightarrow> case fill_config demo_sys s' h' of (info, r) \<Rightarrow> r = None \<and> ssi_Cert info \<noteq> None)" by code_simp
  with d f obtain cert where "fill_config demo_sys s' h' = (info, None)" "ssi_Cert info = Some cert" by auto
  then show ?thesis
    by (intro Listener_without_port_panics [OF _ _ _ _ d'])
      (simp_all add: demo_lib_def demo_listener_opts_def NewTiltServerOptions_def)
qed

text \<open>The address of the loopback client is the one that a listener is asked for exactly when the
  bind address is not an IPv6 address: an IPv6 address is put into the URL without brackets.\<close>

theorem Loopback_host_iff_not_IPv6:
  assumes "loopbackClientConfig opts cert = Some lb" and "BindAddress (ServingOptions opts) = ip" and "length ip \<in> {0, 4, 16}"
  shows "Host lb = ''https://'' @ JoinHostPort (IP_String ip) (Itoa (BindPort (ServingOptions opts))) \<longleftrightarrow>
    length ip \<noteq> 16 \<or> take 12 ip = v4InV6Prefix"
  using loopback_Some [OF assms(1)] JoinHostPort_plain [of ip "BindPort (ServingOptions opts)"]
    IP_String_colon [OF assms(3)] assms(2) by auto

theorem Loopback_host_iff_not_IPv6_witness:
  "\<exists>lb. loopbackClientConfig (demo_opts\<lparr>ServingOptions := NewSecureServingOptions\<lparr>BindAddress := replicate 15 0 @ [1]\<rparr>\<rparr>)
     (StaticCert [] [] []) = Some lb \<and>
     Host lb = ''https://::1:443'' \<and> Host lb \<noteq> ''https://'' @ JoinHostPort (IP_String (replicate 15 0 @ [1])) (Itoa 443)"
proof -
  let ?opts = "demo_opts\<lparr>ServingOptions := NewSecureServingOptions\<lparr>BindAddress := replicate 15 0 @ [1]\<rparr>\<rparr>"
  obtain lb where lb: "loopbackClientConfig ?opts (StaticCert [] [] []) = Some lb"
    by (simp add: loopbackClientConfig_def NewSecureServingOptions_def)
  have "map_option Host (loopbackClientConfig ?opts (StaticCert [] [] [])) = Some ''https://::1:443''" by code_simp
  with lb have h: "Host lb = ''https://::1:443''" by simp
  have "length (replicate 15 0 @ [1] :: ip) \<in> {0, 4, 16}" "take 12 (replicate 15 0 @ [1] :: ip) \<noteq> v4InV6Prefix" by code_simp+
  with Loopback_host_iff_not_IPv6 [OF lb, of "replicate 15 0 @ [1]"] lb h show ?thesis
    by (simp add: NewSecureServingOptions_def)
qed

end
