(* ===== verification/Main_Program.thy ===== *)
theory Main_Program
  imports Builder_Props Manifest Api_Server_Props Start_Props
begin

text \<open>
  The server of \<open>cmd/apiserver/main.go\<close>: manifests in memory under the path \<open>data\<close>. The
  theory instantiates the builder with the resource type of \<open>v1alpha1\<close> and follows it from the
  builder to the storages that the server installs.
\<close>

section \<open>Definitions\<close>

definition Manifest_resource :: "ManifestBody resource" where
  "Manifest_resource =
     \<lparr>res_type = v1alpha1 ''Manifest'', res_object = manifest_resource, res_methods = Manifest_methods, res_New = Manifest_New,
      res_NewList = Manifest_NewList, GenericSubResources = None\<rparr>"

text \<open>The builder of \<open>main\<close>; no type of this server has several versions.\<close>

definition main_builder ::
  "(nat \<Rightarrow> string) \<Rightarrow> versionedData node map_order \<Rightarrow> string list \<Rightarrow> disk \<Rightarrow> (ManifestBody, 'c) Server option" where
  "main_builder rand ord defs d =
     map_option (\<lambda>a. WithOpenAPIDefinitions ''tilt'' ''0.1.0'' defs
       (WithResourceMemoryStorage (\<lambda>_. None) rand ord Manifest_resource ''data'' a)) (NewServerBuilder d)"

definition apiserver_main ::
  "sys \<Rightarrow> ('c, ManifestBody codec, ManifestBody storage) start_lib \<Rightarrow> (GroupVersion list \<Rightarrow> ManifestBody codec) \<Rightarrow>
     (nat \<Rightarrow> string) \<Rightarrow> versionedData node map_order \<Rightarrow> string list \<Rightarrow> (string \<times> string) list \<Rightarrow> host \<Rightarrow>
     (host \<times> server_event list \<times> (go_error list + start_error option)) option" where
  "apiserver_main sys lib legacyCodec rand ord defs args h =
     (case main_builder rand ord defs (hs_disk h) of
        None \<Rightarrow> None
      | Some a \<Rightarrow> ExecuteCommand sys lib (\<lambda>_. None) legacyCodec args a h)"

section \<open>Lemmas\<close>

lemma main_built:
  assumes "main_builder rand ord defs d = Some a"
  obtains R where "built R a"
  using assms by (auto simp: main_builder_def intro: built_OpenAPI built_Memory built_New)

definition the_scheme :: "'o Scheme" where
  "the_scheme = the NewScheme"

lemma NewScheme_total: "(NewScheme :: 'o Scheme option) = Some the_scheme"
proof -
  have "(NewScheme :: 'o Scheme option) \<noteq> None" by code_simp
  then show ?thesis by (auto simp: the_scheme_def)
qed

abbreviation "man_gvr \<equiv> gvr_of ''core.tilt.dev'' ''v1alpha1'' ''manifests''"
abbreviation "status_gvr \<equiv> gvr_of ''core.tilt.dev'' ''v1alpha1'' ''manifests/status''"

definition main_provider where
  "main_provider rand ord = mem_provider ord Manifest_resource ''data'' 0 (builder_strategy rand Manifest_resource)"

definition main_status_provider where
  "main_status_provider rand ord = statusProvider_Get (mem_provider ord Manifest_resource ''data'' 0
     (\<lambda>sch. status_strategy (\<lambda>_. Manifest_methods) (builder_strategy rand Manifest_resource sch)))"

lemma Manifest_resource_simps:
  "ro_GetGroupVersionResource manifest_resource = man_gvr" "res_methods Manifest_resource = Manifest_methods" "GenericSubResources Manifest_resource = None"
  "res_object Manifest_resource = manifest_resource" "ro_New manifest_resource = v1alpha1 ''Manifest''" "ro_NewList manifest_resource = v1alpha1 ''ManifestList''"
  "tm_StatusCopyTo Manifest_methods = Some ManifestStatus_CopyTo"
  "GVR_GroupVersion man_gvr = SchemeGroupVersion" "GVR_GroupVersion status_gvr = SchemeGroupVersion"
  by (simp_all add: Manifest_resource_def manifest_resource_def Manifest_methods_def GVR_GroupVersion_def SchemeGroupVersion_def GroupName_def Version_def)

lemma main_builder_apis:
  assumes "main_builder rand ord defs d = Some a"
  shows "srv_apis a = [(man_gvr, main_provider rand ord), (status_gvr, main_status_provider rand ord)]"
    and "orderedGroupVersions a = [SchemeGroupVersion]" and "apiScheme a = the_scheme" and "openapiScheme a = the_scheme"
    and "apiSchemeBuilder a = [AddToScheme (\<lambda>_. None) [manifest_resource]]"
    and "openapiSchemeBuilder a = [openapi_registration SchemeGroupVersion [v1alpha1 ''Manifest'', v1alpha1 ''ManifestList'']]"
    and "srv_errs a = []" and "srv_world a = \<lparr>w_mem = NewMemoryFS, w_disk = d, w_real = [], w_ws = [NewWatchSet]\<rparr>"
  using assms
  by (auto simp: main_builder_def NewServerBuilder_def NewScheme_total WithOpenAPIDefinitions_def WithResourceMemoryStorage_def
      withSubresources_def WithResourceAndHandler_def WithSubResourceAndHandler_def Let_def
      Manifest_resource_simps Register_def main_provider_def main_status_provider_def)

lemma main_register:
  "map_option snd (SchemeBuilder_AddToScheme [AddToScheme (\<lambda>_. None) [manifest_resource],
     registerGroupVersions [man_gvr, status_gvr] [SchemeGroupVersion]] (the_scheme :: 'o Scheme)) = Some None"
  unfolding the_scheme_def by code_simp

lemma main_register_openapi:
  "map_option snd (SchemeBuilder_AddToScheme [openapi_registration SchemeGroupVersion [v1alpha1 ''Manifest'', v1alpha1 ''ManifestList''],
     registerGroupVersions [man_gvr, status_gvr] [SchemeGroupVersion]] (the_scheme :: 'o Scheme)) = Some None"
  unfolding the_scheme_def by code_simp

lemma ToServerOptions_main:
  assumes "main_builder rand ord defs d = Some a"
  shows "\<exists>a' opts. ToServerOptions legacyCodec a = Some (a', Inr opts) \<and> srv_world a' = srv_world a \<and>
    tso_apis opts = srv_apis a \<and> tso_codec opts = legacyCodec [SchemeGroupVersion]"
proof -
  have m: "\<exists>s'. x = Some (s', None)" if "map_option snd x = Some None" for x :: "('o Scheme \<times> go_error option) option"
    using that by (cases x) auto
  obtain s1 :: "ManifestBody Object Scheme" where s1: "SchemeBuilder_AddToScheme [AddToScheme (\<lambda>_. None) [manifest_resource],
     registerGroupVersions [man_gvr, status_gvr] [SchemeGroupVersion]] the_scheme = Some (s1, None)"
    using m [OF main_register] by blast
  obtain s2 :: "ManifestBody Object Scheme" where s2: "SchemeBuilder_AddToScheme
     [openapi_registration SchemeGroupVersion [v1alpha1 ''Manifest'', v1alpha1 ''ManifestList''],
      registerGroupVersions [man_gvr, status_gvr] [SchemeGroupVersion]] the_scheme = Some (s2, None)"
    using m [OF main_register_openapi] by blast
  note main_builder_apis [OF assms]
  with s1 s2 show ?thesis
    by (simp add: ToServerOptions_def buildCodec_def Register_def NewTiltServerOptions_def Let_def
        del: SchemeBuilder_AddToScheme.simps AddToScheme.simps)
qed

text \<open>Each provider of the server, on any world whose in-memory file system has no file in the way.\<close>

definition man_root :: string where
  "man_root = ''data/core.tilt.dev/manifests''"

lemma man_root_Join: "Join [''data'', ''core.tilt.dev'', ''manifests''] = man_root"
  by code_simp

lemma main_provider_eval:
  assumes "g Manifest_GroupResource = Inr (enc, dec)" and "snd (MemoryFS_EnsureDir man_root (w_mem w)) = None"
  shows "mem_provider ord Manifest_resource ''data'' ws strategy sch g w =
    Some (w\<lparr>w_mem := fst (MemoryFS_EnsureDir man_root (w_mem w))\<rparr>,
      Inr (MemStorage ws \<lparr>rest_enc = enc, rest_dec = dec, objRootPath = man_root, newFunc = Manifest_New,
        newListFunc = Manifest_NewList, rest_strategy = strategy sch, groupResource = Manifest_GroupResource,
        rest_fs = MemoryFS ord\<rparr>))"
proof -
  have gr: "GVR_GroupResource (ro_GetGroupVersionResource manifest_resource) = Manifest_GroupResource"
    by (simp add: Manifest_resource_simps GVR_GroupResource_def Manifest_GroupResource_def)
  have j: "Join [''data'', gr_Group Manifest_GroupResource, gr_Resource Manifest_GroupResource] = man_root"
    by (simp add: Manifest_GroupResource_def man_root_Join)
  obtain s' where e: "MemoryFS_EnsureDir man_root (w_mem w) = (s', None)" using assms(2) by (cases "MemoryFS_EnsureDir man_root (w_mem w)") auto
  show ?thesis using assms(1) e j
    by (simp add: mem_provider_def NewJSONFilepathStorageProvider_def gr NewFilepathREST_def MemoryFS_def Let_def
        Manifest_resource_def)
qed

lemma main_serves:
  assumes "main_builder rand ord defs d = Some a"
  shows "\<exists>a' opts sch w' info f. ToServerOptions legacyCodec a = Some (a', Inr opts) \<and>
    buildAPIGroupInfos (\<lambda>_. None) (tso_scheme opts) (tso_apis opts) (GetRESTOptions opts) (srv_world a') = Some (sch, w', Inr [info]) \<and>
    agi_Group info = ''core.tilt.dev'' \<and> objRootPath f = ''data/core.tilt.dev/manifests'' \<and> rest_fs f = MemoryFS ord \<and>
    VersionedResourcesStorageMap info =
      [(''v1alpha1'', [(''manifests'', MemStorage 0 f),
        (''manifests/status'', StatusStorage (MemStorage 0
          (f\<lparr>rest_strategy := status_strategy (\<lambda>_. Manifest_methods) (rest_strategy f)\<rparr>)))])] \<and>
    w_ws (srv_world a') = [NewWatchSet] \<and> mem_has_dir (w_mem w') ''data/core.tilt.dev/manifests''"
proof -
  from ToServerOptions_main [OF assms, of legacyCodec] obtain a' opts where
    t: "ToServerOptions legacyCodec a = Some (a', Inr opts)" "srv_world a' = srv_world a" "tso_apis opts = srv_apis a" by blast
  note m = main_builder_apis(1,8) [OF assms]
  obtain enc dec where k: "GetRESTOptions opts Manifest_GroupResource = Inr (enc, dec)"
    by (cases "tso_codec opts") (auto simp: GetRESTOptions_def)
  let ?m1 = "fst (MemoryFS_EnsureDir man_root NewMemoryFS)"
  have e: "snd (MemoryFS_EnsureDir man_root NewMemoryFS) = None" "MemoryFS_EnsureDir man_root ?m1 = (?m1, None)"
    by code_simp+
  let ?s = "\<lambda>sch. builder_strategy rand Manifest_resource sch"
  let ?f = "\<lambda>sch. \<lparr>rest_enc = enc, rest_dec = dec, objRootPath = man_root, newFunc = Manifest_New,
    newListFunc = Manifest_NewList, rest_strategy = ?s sch, groupResource = Manifest_GroupResource, rest_fs = MemoryFS ord\<rparr>"
  have p: "main_provider rand ord sch (GetRESTOptions opts) (srv_world a) =
      Some ((srv_world a)\<lparr>w_mem := ?m1\<rparr>, Inr (MemStorage 0 (?f sch)))" for sch
    unfolding main_provider_def using main_provider_eval [of "GetRESTOptions opts" enc dec "srv_world a"] k e(1) by (simp add: m(2))
  have q: "main_status_provider rand ord sch (GetRESTOptions opts) ((srv_world a)\<lparr>w_mem := ?m1\<rparr>) =
      Some ((srv_world a)\<lparr>w_mem := ?m1\<rparr>, Inr (StatusStorage (MemStorage 0
        ((?f sch)\<lparr>rest_strategy := status_strategy (\<lambda>_. Manifest_methods) (?s sch)\<rparr>))))" for sch
    unfolding main_status_provider_def statusProvider_Get_def
    using main_provider_eval [of "GetRESTOptions opts" enc dec "(srv_world a)\<lparr>w_mem := ?m1\<rparr>"] k e(2) by (simp add: m(2))
  have "lookup_node (mfs_dir ?m1) (path_parts man_root) = Some (Dir [])" by code_simp
  then have d: "mem_has_dir ?m1 man_root" by (simp add: mem_has_dir_def)
  let ?F = "?f (tso_scheme opts)" and ?w = "(srv_world a)\<lparr>w_mem := ?m1\<rparr>"
  let ?info = "\<lparr>agi_Group = ''core.tilt.dev'', PrioritizedVersions = PrioritizedVersionsForGroup (tso_scheme opts) ''core.tilt.dev'',
    VersionedResourcesStorageMap = [(''v1alpha1'', [(''manifests'', MemStorage 0 ?F), (''manifests/status'',
      StatusStorage (MemStorage 0 (?F\<lparr>rest_strategy := status_strategy (\<lambda>_. Manifest_methods) (rest_strategy ?F)\<rparr>)))])]\<rparr>"
  have b: "buildAPIGroupInfos (\<lambda>_. None) (tso_scheme opts) (tso_apis opts) (GetRESTOptions opts) (srv_world a') =
      Some (tso_scheme opts, ?w, Inr [?info])"
    by (simp add: t(2,3) m(1) buildAPIGroupInfos_def p q register_default_def)
  show ?thesis unfolding man_root_def [symmetric]
    by (rule exI [of _ a'], rule exI [of _ opts], rule exI [of _ "tso_scheme opts"], rule exI [of _ ?w],
        rule exI [of _ ?info], rule exI [of _ ?F]) (use t(1,2) b d m(2) in simp)
qed

text \<open>The priorities that are in a scheme when its groups are built.\<close>

lemma build_group_priority:
  "build_group d g grp m sch w apis = Some (sch', w', r) \<Longrightarrow> versionPriority sch' = versionPriority sch"
  by (induction d g grp m sch w apis rule: build_group.induct)
    (auto simp: Let_def register_default_def AddTypeDefaultingFunc_def split: if_splits option.splits sum.splits)

lemma build_groups_priority:
  "build_groups d g m grps (sch :: 'o Scheme) w = Some (sch', w', Inr infos) \<Longrightarrow> info \<in> set infos \<Longrightarrow>
     \<exists>sch1 :: 'o Scheme. versionPriority sch1 = versionPriority sch \<and> PrioritizedVersions info = PrioritizedVersionsForGroup sch1 (agi_Group info)"
proof (induction d g m grps sch w arbitrary: infos rule: build_groups.induct)
  case (2 d g m grp grps sch w)
  from "2.prems"(1) obtain sch1 w1 apis infos' where b: "build_group d g grp m sch w [] = Some (sch1, w1, Inr apis)"
    and r: "build_groups d g m grps sch1 w1 = Some (sch', w', Inr infos')"
    and i: "infos = \<lparr>agi_Group = grp, PrioritizedVersions = PrioritizedVersionsForGroup sch1 grp,
      VersionedResourcesStorageMap = apis\<rparr> # infos'"
    by (auto simp: Let_def split: option.splits sum.splits)
  note p = build_group_priority [OF b]
  show ?case
  proof (cases "info \<in> set infos'")
    case True
    from "2.IH" [OF b refl refl refl _ r True] p show ?thesis by simp
  next
    case False
    with "2.prems"(2) i p show ?thesis by (intro exI [of _ sch1]) simp
  qed
qed simp

lemma set_versions_of_group: "set (versions_of_group gvrs grp) = {v. \<exists>r. gvr_of grp v r \<in> set gvrs}"
proof -
  have e: "gvr_Group x = grp \<and> gvr_Version x = v \<longleftrightarrow> (\<exists>r. x = gvr_of grp v r)" for x v by (cases x) auto
  have "v \<in> set (versions_of_group gvrs grp) \<longleftrightarrow> (\<exists>x \<in> set gvrs. gvr_Group x = grp \<and> gvr_Version x = v)" for v
    by (auto simp: versions_of_group_def)
  then show ?thesis unfolding e by blast
qed

lemma versions_of_group_nonempty: "gvr \<in> set gvrs \<Longrightarrow> gvr_Group gvr = grp \<Longrightarrow> versions_of_group gvrs grp \<noteq> []"
  using set_versions_of_group [of gvrs grp] by (cases gvr) auto

text \<open>The scheme of a builder is consistent, and so are the functions that it is going to apply to it.\<close>

lemma NewScheme_ok: "NewScheme = Some s \<Longrightarrow> scheme_ok s"
  unfolding NewScheme_def bind_eq_Some_conv
  using AddToGroupVersion_ok AddUnversionedTypes_ok scheme_ok_empty by blast

lemma built_scheme: "built R a \<Longrightarrow> scheme_ok (apiScheme a) \<and> (\<forall>f \<in> set (apiSchemeBuilder a). keeps_ok f)"
proof (induction rule: built.induct)
  case (built_New d a)
  then show ?case by (auto simp: NewServerBuilder_def NewScheme_ok split: option.splits)
qed (auto simp: builder_methods Let_def WithResourceAndHandler_def WithSubResourceAndHandler_def Register_def
    simp del: withGroupVersions.simps AddToScheme.simps)

section \<open>Properties\<close>

text \<open>C26. The server of \<open>main\<close> can be built, and it serves exactly two resources of the group
  \<open>core.tilt.dev\<close>: manifests, and their status with \<open>Get\<close> and \<open>Update\<close> only. Both
  work on the same directory of the same in-memory file system and share one watch set; they differ
  in their strategies only.\<close>

theorem Main_serves_manifests:
  "\<exists>a :: (ManifestBody, 'c) Server. main_builder rand ord defs d = Some a \<and> (\<exists>a' opts sch w' info f.
    ToServerOptions legacyCodec a = Some (a', Inr opts) \<and>
    buildAPIGroupInfos (\<lambda>_. None) (tso_scheme opts) (tso_apis opts) (GetRESTOptions opts) (srv_world a') = Some (sch, w', Inr [info]) \<and>
    agi_Group info = ''core.tilt.dev'' \<and> objRootPath f = ''data/core.tilt.dev/manifests'' \<and> rest_fs f = MemoryFS ord \<and>
    VersionedResourcesStorageMap info =
      [(''v1alpha1'', [(''manifests'', MemStorage 0 f),
        (''manifests/status'', StatusStorage (MemStorage 0
          (f\<lparr>rest_strategy := status_strategy (\<lambda>_. Manifest_methods) (rest_strategy f)\<rparr>)))])] \<and>
    w_ws (srv_world a') = [NewWatchSet] \<and> mem_has_dir (w_mem w') ''data/core.tilt.dev/manifests'')"
proof -
  obtain a :: "(ManifestBody, 'c) Server" where a: "main_builder rand ord defs d = Some a"
    by (simp add: main_builder_def NewServerBuilder_def NewScheme_total)
  show ?thesis by (rule exI, rule conjI, rule a, rule main_serves [OF a])
qed

text \<open>C28. Every group that a built server installs has a version: its preferred versions start with the
  versions under which its resources were registered, in alphabetical order, whatever the order in
  which they were registered. So the check for a group without priorities never fails.\<close>

theorem Built_groups_have_versions:
  fixes a :: "('b, 'c) Server"
  assumes "built R a" and "ToServerOptions legacyCodec a = Some (a', Inr opts)"
    and "buildAPIGroupInfos d (tso_scheme opts) (tso_apis opts) g w = Some (sch, w', Inr infos)" and "info \<in> set infos"
  shows "\<exists>vs rest. PrioritizedVersions info = map (\<lambda>v. \<lparr>gv_Group = agi_Group info, gv_Version = v\<rparr>) vs @ rest \<and>
    vs \<noteq> [] \<and> sorted vs \<and> distinct vs \<and> set vs = {v. \<exists>r. gvr_of (agi_Group info) v r \<in> fst ` set (srv_apis a)}"
proof -
  let ?gvrs = "map fst (srv_apis a)"
  from assms(2) obtain k where k: "buildCodec legacyCodec a = Some (a', Inr k)" and o: "tso_scheme opts = apiScheme a'" "tso_apis opts = srv_apis a'"
    by (auto simp: ToServerOptions_def NewTiltServerOptions_def split: option.splits sum.splits)
  obtain s where s: "SchemeBuilder_AddToScheme (apiSchemeBuilder a) (apiScheme a) = Some (s, None)"
    "registerGroupVersions ?gvrs (orderedGroupVersions a) s = Some (apiScheme a', None)" "srv_apis a' = srv_apis a"
    using buildCodec_ok [OF k] by metis
  have "scheme_ok s" using SchemeBuilder_keeps [OF s(1)] built_scheme [OF assms(1)] by blast
  note pri = registerGroupVersions_ok [OF s(2) this]
  note b = assms(3) [unfolded o s(3) buildAPIGroupInfos_def]
  have "agi_Group info \<in> gvr_Group ` set ?gvrs"
    using build_groups_infos [OF b, THEN conjunct1] imageI [OF assms(4), of agi_Group]
    unfolding set_map [symmetric] by (auto simp: image_image)
  then obtain gvr where gvr: "gvr \<in> set ?gvrs" "gvr_Group gvr = agi_Group info" by (elim imageE) simp
  let ?vs = "versions_of_group ?gvrs (agi_Group info)"
  from pri [THEN conjunct2, THEN conjunct2, THEN conjunct1, rule_format, OF gvr(1)]
  have v: "map_of (versionPriority (apiScheme a')) (agi_Group info) = Some ?vs" by (simp only: gvr(2))
  from build_groups_priority [OF b assms(4)] obtain sch1 :: "'b Object Scheme" where "versionPriority sch1 = versionPriority (apiScheme a')"
    "PrioritizedVersions info = PrioritizedVersionsForGroup sch1 (agi_Group info)" by blast
  with PrioritizedVersions_prefix [of sch1 "agi_Group info" ?vs] v obtain rest where
    r: "PrioritizedVersions info = map (\<lambda>v. \<lparr>gv_Group = agi_Group info, gv_Version = v\<rparr>) ?vs @ rest" by auto
  note m = set_versions_of_group [of ?gvrs "agi_Group info"]
  from gvr have "?vs \<noteq> []" by (rule versions_of_group_nonempty)
  with r m show ?thesis by (intro exI [of _ ?vs] exI [of _ rest]) (simp add: versions_of_group_def)
qed

theorem Built_groups_have_versions_witness:
  "\<exists>(a :: (ManifestBody, unit) Server) (a' :: (ManifestBody, unit) Server) (opts :: (ManifestBody, unit) server_options) sch w' info.
     main_builder (\<lambda>_. ''aaaaa'') insertion_order [] [] = Some a \<and>
     buildAPIGroupInfos (\<lambda>_. None) (tso_scheme opts) (tso_apis opts) (GetRESTOptions opts) (srv_world a') = Some (sch, w', Inr [info]) \<and>
     hd (PrioritizedVersions info) = SchemeGroupVersion"
proof -
  obtain a :: "(ManifestBody, unit) Server" where a: "main_builder (\<lambda>_. ''aaaaa'') insertion_order [] [] = Some a"
    by (simp add: main_builder_def NewServerBuilder_def NewScheme_total)
  obtain a' opts sch w' info where t: "ToServerOptions (\<lambda>_. (manifest_enc, manifest_dec)) a = Some (a', Inr opts)"
    and b: "buildAPIGroupInfos (\<lambda>_. None) (tso_scheme opts) (tso_apis opts) (GetRESTOptions opts) (srv_world a') = Some (sch, w', Inr [info])"
    and g: "agi_Group info = ''core.tilt.dev''"
    using main_serves [OF a] by blast
  have v: "{v. \<exists>r. gvr_of (agi_Group info) v r \<in> fst ` set (srv_apis a)} = {''v1alpha1''}"
    by (auto simp: main_builder_apis(1) [OF a] g)
  obtain R where R: "built R a" using a by (rule main_built)
  have "info \<in> set [info]" by simp
  from Built_groups_have_versions [OF R t b this] v obtain vs rest where
    "PrioritizedVersions info = map (\<lambda>v. \<lparr>gv_Group = ''core.tilt.dev'', gv_Version = v\<rparr>) vs @ rest" "vs \<noteq> []" "set vs = {''v1alpha1''}"
    unfolding g by metis
  then have "hd (PrioritizedVersions info) = SchemeGroupVersion"
    by (cases vs) (auto simp: SchemeGroupVersion_def GroupName_def Version_def)
  with a b show ?thesis by blast
qed

end
