(* ===== verification/Informers.thy ===== *)
theory Informers
  imports Scheme "HOL-Library.AList" "HOL-Library.Multiset"
begin

text \<open>
  The shared informer factory of the generated client:
  \<open>pkg/generated/informers/externalversions\<close> (\<open>factory.go\<close>, \<open>generic.go\<close>,
  \<open>core/interface.go\<close>, \<open>core/v1alpha1/interface.go\<close> and
  \<open>core/v1alpha1/manifest.go\<close>).

  An informer is a pointer, here an index into a list of informers. The sections of the factory
  that run under its mutex are functions on the factory; the goroutines that it starts, its wait
  group and the callers of \<open>Shutdown\<close> are steps of a transition system. The body of
  \<open>SharedIndexInformer.Run\<close> is vendored code: it returns once its stop channel is closed.
\<close>

section \<open>Definitions\<close>

subsection \<open>Informers\<close>

text \<open>The two calls of the client that an informer makes, on list options of type \<open>'l\<close>.\<close>

record ('l, 'r, 'w) Manifests_client =
  Manifests_List :: "'l \<Rightarrow> 'r"
  Manifests_Watch :: "'l \<Rightarrow> 'w"

record ('l, 'r, 'w, 't) SharedIndexInformer =
  inf_ListFunc :: "'l \<Rightarrow> 'r"
  inf_WatchFunc :: "'l \<Rightarrow> 'w"
  inf_object :: gotype
  inf_resyncPeriod :: int
  inf_indexers :: "string list"
  inf_transform :: "'t option"

definition tweaked :: "('l \<Rightarrow> 'l) option \<Rightarrow> 'l \<Rightarrow> 'l" where
  "tweaked tweakListOptions opts = (case tweakListOptions of None \<Rightarrow> opts | Some f \<Rightarrow> f opts)"

definition NewFilteredManifestInformer ::
  "('l, 'r, 'w) Manifests_client \<Rightarrow> int \<Rightarrow> string list \<Rightarrow> ('l \<Rightarrow> 'l) option \<Rightarrow> ('l, 'r, 'w, 't) SharedIndexInformer" where
  "NewFilteredManifestInformer client resyncPeriod indexers tweakListOptions =
     \<lparr>inf_ListFunc = (\<lambda>opts. Manifests_List client (tweaked tweakListOptions opts)),
      inf_WatchFunc = (\<lambda>opts. Manifests_Watch client (tweaked tweakListOptions opts)),
      inf_object = v1alpha1 ''Manifest'', inf_resyncPeriod = resyncPeriod, inf_indexers = indexers,
      inf_transform = None\<rparr>"

definition NewManifestInformer ::
  "('l, 'r, 'w) Manifests_client \<Rightarrow> int \<Rightarrow> string list \<Rightarrow> ('l, 'r, 'w, 't) SharedIndexInformer" where
  "NewManifestInformer client resyncPeriod indexers = NewFilteredManifestInformer client resyncPeriod indexers None"

subsection \<open>The factory\<close>

record ('l, 'r, 'w, 't) sharedInformerFactory =
  sif_client :: "('l, 'r, 'w) Manifests_client"
  sif_namespace :: string
  sif_tweakListOptions :: "('l \<Rightarrow> 'l) option"
  defaultResync :: int
  customResync :: "(gotype \<times> int) list"
  sif_transform :: "'t option"
  informers :: "(gotype \<times> nat) list"
  startedInformers :: "gotype list"
  wg :: nat
  shuttingDown :: bool

text \<open>The map \<open>startedInformers\<close> is only ever set to \<open>true\<close>: the list holds its keys.
  \<open>wg\<close> is the counter of the wait group.\<close>

definition WithCustomResyncConfig ::
  "(gotype \<times> int) list \<Rightarrow> ('l, 'r, 'w, 't) sharedInformerFactory \<Rightarrow> ('l, 'r, 'w, 't) sharedInformerFactory" where
  "WithCustomResyncConfig resyncConfig factory =
     factory\<lparr>customResync := foldl (\<lambda>m (k, v). AList.update k v m) (customResync factory) resyncConfig\<rparr>"

definition WithTweakListOptions ::
  "('l \<Rightarrow> 'l) option \<Rightarrow> ('l, 'r, 'w, 't) sharedInformerFactory \<Rightarrow> ('l, 'r, 'w, 't) sharedInformerFactory" where
  "WithTweakListOptions tweakListOptions factory = factory\<lparr>sif_tweakListOptions := tweakListOptions\<rparr>"

definition WithNamespace ::
  "string \<Rightarrow> ('l, 'r, 'w, 't) sharedInformerFactory \<Rightarrow> ('l, 'r, 'w, 't) sharedInformerFactory" where
  "WithNamespace ns factory = factory\<lparr>sif_namespace := ns\<rparr>"

definition WithTransform ::
  "'t option \<Rightarrow> ('l, 'r, 'w, 't) sharedInformerFactory \<Rightarrow> ('l, 'r, 'w, 't) sharedInformerFactory" where
  "WithTransform transform factory = factory\<lparr>sif_transform := transform\<rparr>"

definition NewSharedInformerFactoryWithOptions ::
  "('l, 'r, 'w) Manifests_client \<Rightarrow> int \<Rightarrow>
     (('l, 'r, 'w, 't) sharedInformerFactory \<Rightarrow> ('l, 'r, 'w, 't) sharedInformerFactory) list \<Rightarrow>
     ('l, 'r, 'w, 't) sharedInformerFactory" where
  "NewSharedInformerFactoryWithOptions client resync opts =
     foldl (\<lambda>factory opt. opt factory)
       \<lparr>sif_client = client, sif_namespace = [], sif_tweakListOptions = None, defaultResync = resync,
        customResync = [], sif_transform = None, informers = [], startedInformers = [], wg = 0,
        shuttingDown = False\<rparr> opts"

definition NewSharedInformerFactory ::
  "('l, 'r, 'w) Manifests_client \<Rightarrow> int \<Rightarrow> ('l, 'r, 'w, 't) sharedInformerFactory" where
  "NewSharedInformerFactory client resync = NewSharedInformerFactoryWithOptions client resync []"

definition NewFilteredSharedInformerFactory ::
  "('l, 'r, 'w) Manifests_client \<Rightarrow> int \<Rightarrow> string \<Rightarrow> ('l \<Rightarrow> 'l) option \<Rightarrow> ('l, 'r, 'w, 't) sharedInformerFactory" where
  "NewFilteredSharedInformerFactory client resync ns tweakListOptions =
     NewSharedInformerFactoryWithOptions client resync [WithNamespace ns, WithTweakListOptions tweakListOptions]"

text \<open>\<open>InformerFor\<close>: the informer of a type is made at the first request, with the resync period
  of the type, and kept. \<open>newFunc\<close> makes a new informer, at the end of the list of all, as the
  functions of the generated code do; one that hands out an informer it made before is not covered.\<close>

definition InformerFor ::
  "gotype \<Rightarrow> (('l, 'r, 'w) Manifests_client \<Rightarrow> int \<Rightarrow> ('l, 'r, 'w, 't) SharedIndexInformer) \<Rightarrow>
     ('l, 'r, 'w, 't) sharedInformerFactory \<Rightarrow> ('l, 'r, 'w, 't) SharedIndexInformer list \<Rightarrow>
     ('l, 'r, 'w, 't) sharedInformerFactory \<times> ('l, 'r, 'w, 't) SharedIndexInformer list \<times> nat" where
  "InformerFor informerType newFunc f heap =
     (case map_of (informers f) informerType of
        Some informer \<Rightarrow> (f, heap, informer)
      | None \<Rightarrow>
          (let resyncPeriod = (case map_of (customResync f) informerType of Some r \<Rightarrow> r | None \<Rightarrow> defaultResync f);
               informer = length heap
           in (f\<lparr>informers := AList.update informerType informer (informers f)\<rparr>,
               heap @ [(newFunc (sif_client f) resyncPeriod)\<lparr>inf_transform := sif_transform f\<rparr>], informer)))"

text \<open>\<open>Start\<close>: what it does with the entries of the map, in the order in which they are visited;
  the second result is the goroutines that it starts, with their informers and the stop channel.\<close>

fun start_loop ::
  "nat \<Rightarrow> (gotype \<times> nat) list \<Rightarrow> ('l, 'r, 'w, 't) sharedInformerFactory \<Rightarrow>
     ('l, 'r, 'w, 't) sharedInformerFactory \<times> (gotype \<times> nat \<times> nat) list" where
  "start_loop stopCh [] f = (f, [])"
| "start_loop stopCh ((informerType, informer) # es) f =
     (if informerType \<in> set (startedInformers f) then start_loop stopCh es f
      else
        let (f', gs) = start_loop stopCh es (f\<lparr>wg := wg f + 1, startedInformers := informerType # startedInformers f\<rparr>)
        in (f', (informerType, informer, stopCh) # gs))"

definition Start ::
  "nat \<Rightarrow> (gotype \<times> nat) list \<Rightarrow> ('l, 'r, 'w, 't) sharedInformerFactory \<Rightarrow>
     ('l, 'r, 'w, 't) sharedInformerFactory \<times> (gotype \<times> nat \<times> nat) list" where
  "Start stopCh order f = (if shuttingDown f then (f, []) else start_loop stopCh order f)"

text \<open>The locked part of \<open>Shutdown\<close>; the rest of it waits for the wait group.\<close>

definition Shutdown_mark :: "('l, 'r, 'w, 't) sharedInformerFactory \<Rightarrow> ('l, 'r, 'w, 't) sharedInformerFactory" where
  "Shutdown_mark f = f\<lparr>shuttingDown := True\<rparr>"

definition Shutdown_waits :: "('l, 'r, 'w, 't) sharedInformerFactory \<Rightarrow> bool" where
  "Shutdown_waits f \<longleftrightarrow> wg f \<noteq> 0"

text \<open>\<open>WaitForCacheSync\<close>: \<open>synced\<close> is what the vendored \<open>cache.WaitForCacheSync\<close>
  returns for an informer.\<close>

definition WaitForCacheSync :: "(nat \<Rightarrow> bool) \<Rightarrow> ('l, 'r, 'w, 't) sharedInformerFactory \<Rightarrow> (gotype \<times> bool) list" where
  "WaitForCacheSync synced f =
     (let started = filter (\<lambda>(informerType, _). informerType \<in> set (startedInformers f)) (informers f)
      in map (\<lambda>(informerType, informer). (informerType, synced informer)) started)"

subsection \<open>Access to informers\<close>

text \<open>\<open>f.Core().V1alpha1().Manifests()\<close>: the options of the factory are passed on from the group
  to the version and to the informer; the factory itself is the state of the calls.\<close>

record 'l core_group =
  cg_namespace :: string
  cg_tweakListOptions :: "('l \<Rightarrow> 'l) option"

record 'l core_version =
  cv_namespace :: string
  cv_tweakListOptions :: "('l \<Rightarrow> 'l) option"

record 'l manifestInformer =
  mi_tweakListOptions :: "('l \<Rightarrow> 'l) option"

definition core_group_New :: "string \<Rightarrow> ('l \<Rightarrow> 'l) option \<Rightarrow> 'l core_group" where
  "core_group_New ns tweakListOptions = \<lparr>cg_namespace = ns, cg_tweakListOptions = tweakListOptions\<rparr>"

definition Core :: "('l, 'r, 'w, 't) sharedInformerFactory \<Rightarrow> 'l core_group" where
  "Core f = core_group_New (sif_namespace f) (sif_tweakListOptions f)"

definition core_version_New :: "string \<Rightarrow> ('l \<Rightarrow> 'l) option \<Rightarrow> 'l core_version" where
  "core_version_New ns tweakListOptions = \<lparr>cv_namespace = ns, cv_tweakListOptions = tweakListOptions\<rparr>"

definition group_V1alpha1 :: "'l core_group \<Rightarrow> 'l core_version" where
  "group_V1alpha1 g = core_version_New (cg_namespace g) (cg_tweakListOptions g)"

definition version_Manifests :: "'l core_version \<Rightarrow> 'l manifestInformer" where
  "version_Manifests v = \<lparr>mi_tweakListOptions = cv_tweakListOptions v\<rparr>"

definition defaultInformer ::
  "'l manifestInformer \<Rightarrow> ('l, 'r, 'w) Manifests_client \<Rightarrow> int \<Rightarrow> ('l, 'r, 'w, 't) SharedIndexInformer" where
  "defaultInformer mi client resyncPeriod =
     NewFilteredManifestInformer client resyncPeriod [''namespace''] (mi_tweakListOptions mi)"

definition manifestInformer_Informer ::
  "'l manifestInformer \<Rightarrow> ('l, 'r, 'w, 't) sharedInformerFactory \<Rightarrow> ('l, 'r, 'w, 't) SharedIndexInformer list \<Rightarrow>
     ('l, 'r, 'w, 't) sharedInformerFactory \<times> ('l, 'r, 'w, 't) SharedIndexInformer list \<times> nat" where
  "manifestInformer_Informer mi f heap = InformerFor (v1alpha1 ''Manifest'') (defaultInformer mi) f heap"

definition ForResource ::
  "GroupVersionResource \<Rightarrow> ('l, 'r, 'w, 't) sharedInformerFactory \<Rightarrow> ('l, 'r, 'w, 't) SharedIndexInformer list \<Rightarrow>
     ('l, 'r, 'w, 't) sharedInformerFactory \<times> ('l, 'r, 'w, 't) SharedIndexInformer list \<times> (go_error + nat \<times> GroupResource)" where
  "ForResource resource f heap =
     (if resource = \<lparr>gvr_Group = gv_Group SchemeGroupVersion, gvr_Version = gv_Version SchemeGroupVersion, gvr_Resource = ''manifests''\<rparr>
      then let (f', heap', informer) = manifestInformer_Informer (version_Manifests (group_V1alpha1 (Core f))) f heap
        in (f', heap', Inr (informer, GVR_GroupResource resource))
      else (f, heap, Inl (OtherError ''no informer found'')))"

subsection \<open>The running system\<close>

text \<open>The goroutines that run an informer and those that have ended, the closed stop channels, and
  the calls of \<open>Shutdown\<close> that wait and that have returned.\<close>

record ('l, 'r, 'w, 't) informer_system =
  sys_factory :: "('l, 'r, 'w, 't) sharedInformerFactory"
  sys_heap :: "('l, 'r, 'w, 't) SharedIndexInformer list"
  sys_running :: "(gotype \<times> nat \<times> nat) list"
  sys_ended :: "(gotype \<times> nat \<times> nat) list"
  sys_closed :: "nat list"
  sys_waiting :: nat
  sys_returned :: nat

inductive informer_step :: "('l, 'r, 'w, 't) informer_system \<Rightarrow> ('l, 'r, 'w, 't) informer_system \<Rightarrow> bool" where
  step_InformerFor:
    "InformerFor t newFunc (sys_factory s) (sys_heap s) = (f, h, p) \<Longrightarrow>
       informer_step s (s\<lparr>sys_factory := f, sys_heap := h\<rparr>)"
| step_Start:
    "mset order = mset (informers (sys_factory s)) \<Longrightarrow> Start stopCh order (sys_factory s) = (f, gs) \<Longrightarrow>
       informer_step s (s\<lparr>sys_factory := f, sys_running := sys_running s @ gs\<rparr>)"
| step_close: "informer_step s (s\<lparr>sys_closed := stopCh # sys_closed s\<rparr>)"
| step_Done:
    "sys_running s = gs1 @ (t, p, stopCh) # gs2 \<Longrightarrow> stopCh \<in> set (sys_closed s) \<Longrightarrow>
       informer_step s (s\<lparr>sys_factory := (sys_factory s)\<lparr>wg := wg (sys_factory s) - 1\<rparr>,
         sys_running := gs1 @ gs2, sys_ended := sys_ended s @ [(t, p, stopCh)]\<rparr>)"
| step_Shutdown:
    "informer_step s (s\<lparr>sys_factory := Shutdown_mark (sys_factory s), sys_waiting := sys_waiting s + 1\<rparr>)"
| step_Shutdown_returns:
    "0 < sys_waiting s \<Longrightarrow> \<not> Shutdown_waits (sys_factory s) \<Longrightarrow>
       informer_step s (s\<lparr>sys_waiting := sys_waiting s - 1, sys_returned := sys_returned s + 1\<rparr>)"

definition new_system :: "('l, 'r, 'w, 't) sharedInformerFactory \<Rightarrow> ('l, 'r, 'w, 't) informer_system" where
  "new_system f = \<lparr>sys_factory = f, sys_heap = [], sys_running = [], sys_ended = [], sys_closed = [], sys_waiting = 0, sys_returned = 0\<rparr>"

inductive factory_option :: "(('l, 'r, 'w, 't) sharedInformerFactory \<Rightarrow> ('l, 'r, 'w, 't) sharedInformerFactory) \<Rightarrow> bool" where
  "factory_option (WithCustomResyncConfig c)"
| "factory_option (WithTweakListOptions tw)"
| "factory_option (WithNamespace ns)"
| "factory_option (WithTransform tr)"

text \<open>The states that a program reaches from a factory made with any of the options.\<close>

inductive informer_reach :: "('l, 'r, 'w, 't) informer_system \<Rightarrow> bool" where
  reach_New:
    "\<forall>opt \<in> set opts. factory_option opt \<Longrightarrow> informer_reach (new_system (NewSharedInformerFactoryWithOptions client resync opts))"
| reach_step: "informer_reach s \<Longrightarrow> informer_step s s' \<Longrightarrow> informer_reach s'"

section \<open>Lemmas\<close>

text \<open>The namespace of the factory gets lost on the way: manifests are not namespaced.\<close>

lemma Manifests_of_factory:
  "version_Manifests (group_V1alpha1 (Core f)) = \<lparr>mi_tweakListOptions = sif_tweakListOptions f\<rparr>"
  by (simp add: version_Manifests_def group_V1alpha1_def core_version_New_def Core_def core_group_New_def)

lemma start_loop_spec:
  "distinct (map fst es) \<Longrightarrow> start_loop ch es f = (f', gs) \<Longrightarrow>
     gs = map (\<lambda>(t, p). (t, p, ch)) (filter (\<lambda>(t, p). t \<notin> set (startedInformers f)) es) \<and>
     (\<exists>st. f' = f\<lparr>wg := wg f + length gs, startedInformers := st\<rparr> \<and> set st = set (startedInformers f) \<union> fst ` set es)"
proof (induction ch es f arbitrary: f' gs rule: start_loop.induct)
  case (1 ch f)
  then show ?case by (auto intro: exI [of _ "startedInformers f"])
next
  case (2 ch t p es f)
  show ?case
  proof (cases "t \<in> set (startedInformers f)")
    case True
    with "2.prems" have "distinct (map fst es)" "start_loop ch es f = (f', gs)" by auto
    moreover have "set (startedInformers f) \<union> fst ` set ((t, p) # es) = set (startedInformers f) \<union> fst ` set es" using True by auto
    ultimately show ?thesis using "2.IH"(1) [OF True] True by auto
  next
    case False
    let ?f = "f\<lparr>wg := wg f + 1, startedInformers := t # startedInformers f\<rparr>"
    from "2.prems"(2) False obtain gs' where l: "start_loop ch es ?f = (f', gs')" and gs: "gs = (t, p, ch) # gs'"
      by (auto split: prod.splits)
    have "distinct (map fst es)" and t: "t \<notin> fst ` set es" using "2.prems"(1) by auto
    from "2.IH"(2) [OF False this(1) l] obtain st where
      g: "gs' = map (\<lambda>(t, p). (t, p, ch)) (filter (\<lambda>(x, p). x \<notin> set (t # startedInformers f)) es)"
      and st: "f' = ?f\<lparr>wg := wg ?f + length gs', startedInformers := st\<rparr>" "set st = insert t (set (startedInformers f)) \<union> fst ` set es"
      by auto
    have "filter (\<lambda>(x, p). x \<notin> set (t # startedInformers f)) es = filter (\<lambda>(x, p). x \<notin> set (startedInformers f)) es"
      using t by (auto intro!: filter_cong simp: image_iff)
    with g gs st False show ?thesis by (auto intro!: exI [of _ st])
  qed
qed

text \<open>What a reachable system satisfies: every type has one informer and every informer one type;
  the goroutines that ever ran belong to different types, the started ones; the counter of the wait
  group is the number of running goroutines; and once a \<open>Shutdown\<close> has returned, none runs.\<close>

definition informers_ok :: "('l, 'r, 'w, 't) sharedInformerFactory \<Rightarrow> nat \<Rightarrow> bool" where
  "informers_ok f n \<longleftrightarrow>
     distinct (map fst (informers f)) \<and> distinct (map snd (informers f)) \<and> (\<forall>e \<in> set (informers f). snd e < n)"

definition threads_ok :: "('l, 'r, 'w, 't) sharedInformerFactory \<Rightarrow> (gotype \<times> nat \<times> nat) list \<Rightarrow> bool" where
  "threads_ok f gs \<longleftrightarrow>
     distinct (map fst gs) \<and> set (map fst gs) = set (startedInformers f) \<and>
     (\<forall>g \<in> set gs. (fst g, fst (snd g)) \<in> set (informers f))"

definition system_ok :: "('l, 'r, 'w, 't) informer_system \<Rightarrow> bool" where
  "system_ok s \<longleftrightarrow>
     informers_ok (sys_factory s) (length (sys_heap s)) \<and> threads_ok (sys_factory s) (sys_running s @ sys_ended s) \<and>
     wg (sys_factory s) = length (sys_running s) \<and>
     (0 < sys_waiting s + sys_returned s \<longrightarrow> shuttingDown (sys_factory s)) \<and>
     (0 < sys_returned s \<longrightarrow> sys_running s = [])"

lemma ok_frame [simp]:
  "informers_ok (f\<lparr>wg := n\<rparr>) = informers_ok f" "informers_ok (f\<lparr>startedInformers := st\<rparr>) = informers_ok f"
  "informers_ok (f\<lparr>shuttingDown := b\<rparr>) = informers_ok f" "threads_ok (f\<lparr>wg := n\<rparr>) = threads_ok f"
  "threads_ok (f\<lparr>shuttingDown := b\<rparr>) = threads_ok f"
  by (auto simp: informers_ok_def threads_ok_def fun_eq_iff)

lemma threads_ok_mset: "mset gs = mset gs' \<Longrightarrow> threads_ok f gs = threads_ok f gs'"
  unfolding threads_ok_def
  using mset_eq_setD [of gs gs'] mset_eq_imp_distinct_iff [of "map fst gs" "map fst gs'"] by simp

lemma InformerFor_cases:
  assumes "InformerFor t newFunc f h = (f', h', p)"
  obtains "map_of (informers f) t = Some p" "f' = f" "h' = h"
  | i where "map_of (informers f) t = None" "f' = f\<lparr>informers := AList.update t (length h) (informers f)\<rparr>"
      "h' = h @ [i]" "p = length h"
proof (cases "map_of (informers f) t")
  case None
  show thesis by (rule that(2) [OF None]) (use assms None in \<open>auto simp: InformerFor_def Let_def\<close>)
next
  case (Some q)
  with assms show thesis by (intro that(1)) (simp_all add: InformerFor_def)
qed

lemma update_new: "map_of xs k = None \<Longrightarrow> AList.update k v xs = xs @ [(k, v)]"
  by (induction xs) (auto split: if_splits)

lemma system_ok_InformerFor:
  assumes ok: "system_ok s" and "InformerFor t newFunc (sys_factory s) (sys_heap s) = (f, h, p)"
  shows "system_ok (s\<lparr>sys_factory := f, sys_heap := h\<rparr>)"
  using assms(2)
proof (cases rule: InformerFor_cases)
  case (2 i)
  let ?f = "sys_factory s" and ?h = "sys_heap s"
  have u: "AList.update t (length ?h) (informers ?f) = informers ?f @ [(t, length ?h)]" using 2(1) by (rule update_new)
  have "t \<notin> fst ` set (informers ?f)" using 2(1) by (simp add: map_of_eq_None_iff)
  then have "informers_ok f (length h)" using ok unfolding system_ok_def informers_ok_def 2 by (auto simp: u)
  moreover have "threads_ok f (sys_running s @ sys_ended s)" using ok unfolding system_ok_def threads_ok_def 2 by (simp add: u)
  ultimately show ?thesis using ok by (simp add: system_ok_def 2)
qed (use ok in simp)

lemma system_ok_Start:
  assumes ok: "system_ok s" and order: "mset order = mset (informers (sys_factory s))"
    and start: "Start stopCh order (sys_factory s) = (f, gs)"
  shows "system_ok (s\<lparr>sys_factory := f, sys_running := sys_running s @ gs\<rparr>)"
proof (cases "shuttingDown (sys_factory s)")
  case True
  with ok start show ?thesis by (auto simp: Start_def)
next
  case False
  let ?f = "sys_factory s"
  have m: "mset (map fst order) = mset (map fst (informers ?f))" using order by simp
  have set: "set order = set (informers ?f)" using mset_eq_setD [OF order] .
  have d: "distinct (map fst order)" using ok mset_eq_imp_distinct_iff [OF m] by (simp add: system_ok_def informers_ok_def)
  from start False have "start_loop stopCh order ?f = (f, gs)" by (simp add: Start_def)
  from start_loop_spec [OF d this] obtain st where
    gs: "gs = map (\<lambda>(t, p). (t, p, stopCh)) (filter (\<lambda>(t, p). t \<notin> set (startedInformers ?f)) order)"
    and f: "f = ?f\<lparr>wg := wg ?f + length gs, startedInformers := st\<rparr>" "set st = set (startedInformers ?f) \<union> fst ` set order"
    by blast
  have k: "map fst gs = filter (\<lambda>t. t \<notin> set (startedInformers ?f)) (map fst order)"
    unfolding gs filter_map comp_def by (simp add: case_prod_unfold comp_def)
  have "threads_ok f (gs @ sys_running s @ sys_ended s)"
  proof -
    have "distinct (map fst gs)" "set (map fst gs) = fst ` set order - set (startedInformers ?f)" using d unfolding k by auto
    moreover have "\<forall>g \<in> set gs. (fst g, fst (snd g)) \<in> set (informers ?f)" using set by (auto simp: gs)
    moreover have "threads_ok ?f (sys_running s @ sys_ended s)" using ok by (simp add: system_ok_def)
    ultimately show ?thesis unfolding threads_ok_def f by (auto simp: f(2))
  qed
  then have "threads_ok f ((sys_running s @ gs) @ sys_ended s)" by (rule threads_ok_mset [THEN iffD1, rotated]) simp
  with ok False show ?thesis by (simp add: system_ok_def f(1))
qed

lemma system_ok_Done:
  assumes ok: "system_ok s" and r: "sys_running s = gs1 @ g # gs2"
  shows "system_ok (s\<lparr>sys_factory := (sys_factory s)\<lparr>wg := wg (sys_factory s) - 1\<rparr>,
    sys_running := gs1 @ gs2, sys_ended := sys_ended s @ [g]\<rparr>)"
proof -
  have "mset (sys_running s @ sys_ended s) = mset ((gs1 @ gs2) @ sys_ended s @ [g])" by (simp add: r)
  then have "threads_ok (sys_factory s) ((gs1 @ gs2) @ sys_ended s @ [g])"
    using threads_ok_mset ok unfolding system_ok_def by blast
  with ok show ?thesis by (simp add: system_ok_def r)
qed

lemma system_ok_step: "informer_step s s' \<Longrightarrow> system_ok s \<Longrightarrow> system_ok s'"
proof (induction rule: informer_step.induct)
  case (step_InformerFor t newFunc s f h p)
  then show ?case by (intro system_ok_InformerFor)
next
  case (step_Start order s stopCh f gs)
  then show ?case by (intro system_ok_Start)
next
  case (step_Done s gs1 t p stopCh gs2)
  then show ?case by (intro system_ok_Done)
qed (auto simp: system_ok_def Shutdown_mark_def Shutdown_waits_def)

lemma new_system_ok:
  assumes "\<forall>opt \<in> set opts. factory_option opt"
  shows "system_ok (new_system (NewSharedInformerFactoryWithOptions client resync opts))"
proof -
  let ?P = "\<lambda>f. informers f = [] \<and> startedInformers f = [] \<and> wg f = 0"
  have "?P (foldl (\<lambda>f opt. opt f) f opts)" if "?P f" for f
    using that assms
  proof (induction opts arbitrary: f)
    case (Cons opt opts)
    then have "factory_option opt" by simp
    then have "?P (opt f)" using Cons.prems(1)
      by cases (simp_all add: WithCustomResyncConfig_def WithTweakListOptions_def WithNamespace_def WithTransform_def)
    with Cons show ?case by simp
  qed simp
  then show ?thesis
    by (simp add: system_ok_def new_system_def informers_ok_def threads_ok_def NewSharedInformerFactoryWithOptions_def)
qed

lemma informer_reach_ok: "informer_reach s \<Longrightarrow> system_ok s"
  by (induction rule: informer_reach.induct) (auto intro: new_system_ok system_ok_step)

text \<open>Informers stay: no step forgets or replaces one.\<close>

definition keeps_informers :: "('l, 'r, 'w, 't) informer_system \<Rightarrow> ('l, 'r, 'w, 't) informer_system \<Rightarrow> bool" where
  "keeps_informers s s' \<longleftrightarrow>
     (\<forall>t p. map_of (informers (sys_factory s)) t = Some p \<longrightarrow> map_of (informers (sys_factory s')) t = Some p) \<and>
     (\<exists>new. sys_heap s' = sys_heap s @ new)"

lemma Start_informers: "Start ch es f = (f', gs) \<Longrightarrow> informers f' = informers f"
proof -
  have "start_loop ch es f = (f', gs) \<Longrightarrow> informers f' = informers f" for gs
    by (induction ch es f arbitrary: f' gs rule: start_loop.induct) (auto split: if_splits prod.splits)
  then show "Start ch es f = (f', gs) \<Longrightarrow> informers f' = informers f" by (auto simp: Start_def split: if_splits)
qed

lemma step_keeps_informers: "informer_step s s' \<Longrightarrow> keeps_informers s s'"
proof (induction rule: informer_step.induct)
  case (step_InformerFor t newFunc s f h p)
  then show ?case by (cases rule: InformerFor_cases) (auto simp: keeps_informers_def)
next
  case (step_Start order s stopCh f gs)
  from Start_informers [OF step_Start(2)] show ?case by (simp add: keeps_informers_def)
qed (simp_all add: keeps_informers_def Shutdown_mark_def)

lemma steps_keep_informers: "informer_step\<^sup>*\<^sup>* s s' \<Longrightarrow> keeps_informers s s'"
proof (induction rule: rtranclp_induct)
  case (step s' s'')
  from step_keeps_informers [OF step(2)] step(3) show ?case unfolding keeps_informers_def by (metis append.assoc)
qed (simp add: keeps_informers_def)

text \<open>A system that is shutting down starts nothing any more.\<close>

lemma step_shutting_down:
  "informer_step s s' \<Longrightarrow> shuttingDown (sys_factory s) \<Longrightarrow>
     shuttingDown (sys_factory s') \<and> startedInformers (sys_factory s') = startedInformers (sys_factory s) \<and>
     set (sys_running s') \<subseteq> set (sys_running s)"
proof (induction rule: informer_step.induct)
  case (step_InformerFor t newFunc s f h p)
  from step_InformerFor(1) show ?case by (cases rule: InformerFor_cases) (use step_InformerFor(2) in auto)
qed (auto simp: Start_def Shutdown_mark_def)

lemma steps_shutting_down:
  "informer_step\<^sup>*\<^sup>* s s' \<Longrightarrow> shuttingDown (sys_factory s) \<Longrightarrow>
     shuttingDown (sys_factory s') \<and> startedInformers (sys_factory s') = startedInformers (sys_factory s) \<and>
     set (sys_running s') \<subseteq> set (sys_running s)"
proof (induction rule: rtranclp_induct)
  case (step s' s'')
  then show ?case using step_shutting_down [OF step(2)] by auto
qed simp

lemma drain_running:
  "sys_running s = gs \<Longrightarrow> wg (sys_factory s) = length gs \<Longrightarrow> \<forall>g \<in> set gs. snd (snd g) \<in> set (sys_closed s) \<Longrightarrow>
     \<exists>s'. (informer_step ^^ length gs) s s' \<and> sys_running s' = [] \<and> wg (sys_factory s') = 0 \<and>
       sys_waiting s' = sys_waiting s \<and> sys_returned s' = sys_returned s"
proof (induction gs arbitrary: s)
  case (Cons g gs)
  obtain t p ch where g: "g = (t, p, ch)" by (cases g)
  let ?s = "s\<lparr>sys_factory := (sys_factory s)\<lparr>wg := wg (sys_factory s) - 1\<rparr>, sys_running := gs, sys_ended := sys_ended s @ [(t, p, ch)]\<rparr>"
  have r: "sys_running s = [] @ (t, p, ch) # gs" "ch \<in> set (sys_closed s)" using Cons.prems(1,3) by (auto simp: g)
  from step_Done [OF r] have "informer_step s ?s" by simp
  moreover from Cons.IH [of ?s] Cons.prems obtain s' where "(informer_step ^^ length gs) ?s s'" "sys_running s' = []"
    "wg (sys_factory s') = 0" "sys_waiting s' = sys_waiting s" "sys_returned s' = sys_returned s" by auto
  ultimately show ?case by (auto simp del: relpowp.simps intro!: exI [of _ s'] intro: relpowp_Suc_I2)
qed (auto intro: exI [of _ s])

section \<open>Properties\<close>

text \<open>C31. Whatever the callers of a factory do, in any interleaving: every type has one informer and
  every informer belongs to one type; an informer is run at most once, and only after it was
  requested; the counter of the wait group is the number of informers that run; and the result of
  \<open>WaitForCacheSync\<close> covers exactly the informers that were started.\<close>

theorem Informers_run_once:
  assumes "informer_reach s"
  shows "distinct (map fst (informers (sys_factory s))) \<and> distinct (map snd (informers (sys_factory s))) \<and>
    distinct (map (fst \<circ> snd) (sys_running s @ sys_ended s)) \<and>
    set (map fst (sys_running s @ sys_ended s)) = set (startedInformers (sys_factory s)) \<and>
    set (startedInformers (sys_factory s)) \<subseteq> fst ` set (informers (sys_factory s)) \<and>
    wg (sys_factory s) = length (sys_running s) \<and>
    set (map fst (WaitForCacheSync synced (sys_factory s))) = set (startedInformers (sys_factory s))"
proof -
  let ?f = "sys_factory s" and ?gs = "sys_running s @ sys_ended s"
  from informer_reach_ok [OF assms] have i: "informers_ok ?f (length (sys_heap s))" and t: "threads_ok ?f ?gs"
    and w: "wg ?f = length (sys_running s)" by (simp_all add: system_ok_def)
  from t have sub: "set (startedInformers ?f) \<subseteq> fst ` set (informers ?f)" unfolding threads_ok_def by force
  have "inj_on (fst \<circ> snd) (set ?gs)"
  proof (rule inj_onI)
    fix a b assume a: "a \<in> set ?gs" and b: "b \<in> set ?gs" and e: "(fst \<circ> snd) a = (fst \<circ> snd) b"
    have m: "(fst a, fst (snd a)) \<in> set (informers ?f)" "(fst b, fst (snd b)) \<in> set (informers ?f)"
      using t a b by (auto simp: threads_ok_def)
    have "inj_on snd (set (informers ?f))" using i by (simp add: informers_ok_def distinct_map)
    from inj_onD [OF this _ m] e have "fst a = fst b" by simp
    with t a b show "a = b" by (auto simp: threads_ok_def distinct_map dest: inj_onD)
  qed
  moreover have "distinct ?gs" using t unfolding threads_ok_def distinct_map by blast
  ultimately have "distinct (map (fst \<circ> snd) ?gs)" by (simp only: distinct_map)
  moreover have "set (map fst (WaitForCacheSync synced ?f)) = set (startedInformers ?f)"
    using sub by (force simp: WaitForCacheSync_def)
  ultimately show ?thesis using i t w sub by (simp only: informers_ok_def threads_ok_def)
qed

text \<open>A factory for the examples, and a run of it: the manifests' informer is requested and started,
  its channel is closed, \<open>Shutdown\<close> is called and returns.\<close>

definition demo_factory :: "(unit, unit, unit, unit) sharedInformerFactory" where
  "demo_factory = NewSharedInformerFactory \<lparr>Manifests_List = id, Manifests_Watch = id\<rparr> 30"

definition demo_requested :: "(unit, unit, unit, unit) informer_system" where
  "demo_requested = (let (f, h, p) = manifestInformer_Informer (version_Manifests (group_V1alpha1 (Core demo_factory))) demo_factory [] in (new_system demo_factory)\<lparr>sys_factory := f, sys_heap := h\<rparr>)"

definition demo_started :: "(unit, unit, unit, unit) informer_system" where
  "demo_started = (let (f, gs) = Start 0 (informers (sys_factory demo_requested)) (sys_factory demo_requested)
     in demo_requested\<lparr>sys_factory := f, sys_running := gs\<rparr>)"

definition demo_waiting :: "(unit, unit, unit, unit) informer_system" where
  "demo_waiting = demo_started\<lparr>sys_factory := Shutdown_mark (sys_factory demo_started), sys_waiting := 1, sys_closed := [0]\<rparr>"

definition demo_returned :: "(unit, unit, unit, unit) informer_system" where
  "demo_returned = demo_waiting\<lparr>sys_factory := (sys_factory demo_waiting)\<lparr>wg := 0\<rparr>, sys_running := [],
     sys_ended := sys_running demo_waiting, sys_waiting := 0, sys_returned := 1\<rparr>"

lemma demo_running: "sys_running demo_waiting = [(v1alpha1 ''Manifest'', 0, 0)]" "sys_running demo_started = [(v1alpha1 ''Manifest'', 0, 0)]"
  "wg (sys_factory demo_waiting) = 1" "sys_ended demo_waiting = []" "sys_closed demo_started = []" "sys_waiting demo_started = 0"
  "sys_returned demo_started = 0"
  by (code_simp; fail)+

lemma demo_reach: "informer_reach demo_started" "informer_reach demo_waiting" "informer_reach demo_returned"
proof -
  have "informer_reach (new_system demo_factory)"
    unfolding demo_factory_def NewSharedInformerFactory_def by (rule reach_New) simp
  then have 1: "informer_reach demo_requested"
  proof (rule reach_step)
    obtain f h p where "manifestInformer_Informer (version_Manifests (group_V1alpha1 (Core demo_factory))) demo_factory [] = (f, h, p)" by (cases "manifestInformer_Informer (version_Manifests (group_V1alpha1 (Core demo_factory))) demo_factory []")
    then show "informer_step (new_system demo_factory) demo_requested"
      using step_InformerFor [where s = "new_system demo_factory" and f = f and h = h and p = p]
      by (simp add: demo_requested_def manifestInformer_Informer_def new_system_def)
  qed
  obtain f gs where st: "Start 0 (informers (sys_factory demo_requested)) (sys_factory demo_requested) = (f, gs)" by fastforce
  have "demo_started = demo_requested\<lparr>sys_factory := f, sys_running := sys_running demo_requested @ gs\<rparr>"
  proof -
    have "sys_running demo_requested = []" by code_simp
    then show ?thesis by (simp add: demo_started_def st)
  qed
  then show 2: "informer_reach demo_started" using reach_step [OF 1 step_Start [OF refl st]] by simp
  show 3: "informer_reach demo_waiting"
    using reach_step [OF reach_step [OF 2 step_Shutdown] step_close [where stopCh = 0]]
    by (simp add: demo_waiting_def demo_running)
  have r: "sys_running demo_waiting = [] @ (v1alpha1 ''Manifest'', 0, 0) # []" "0 \<in> set (sys_closed demo_waiting)"
    by (simp_all add: demo_running) (simp add: demo_waiting_def)
  let ?s = "demo_waiting\<lparr>sys_factory := (sys_factory demo_waiting)\<lparr>wg := 0\<rparr>, sys_running := [], sys_ended := sys_running demo_waiting\<rparr>"
  from reach_step [OF 3 step_Done [OF r]] have 4: "informer_reach ?s" by (simp add: demo_running)
  have "0 < sys_waiting ?s" "\<not> Shutdown_waits (sys_factory ?s)" by (simp_all add: Shutdown_waits_def) (simp add: demo_waiting_def)
  from reach_step [OF 4 step_Shutdown_returns [OF this]] show "informer_reach demo_returned"
    by (simp add: demo_returned_def) (simp add: demo_waiting_def demo_running)
qed

theorem Informers_run_once_witness:
  "wg (sys_factory demo_started) = 1 \<and> set (startedInformers (sys_factory demo_started)) = {v1alpha1 ''Manifest''}"
  using Informers_run_once [OF demo_reach(1), of "\<lambda>_. True"] by (simp add: demo_running) code_simp

text \<open>C32. Once a call of \<open>Shutdown\<close> has returned, no informer runs, then or ever after, whoever
  calls \<open>Start\<close> or asks for informers later.\<close>

theorem Shutdown_is_final:
  assumes "informer_reach s" and "0 < sys_returned s" and "informer_step\<^sup>*\<^sup>* s s'"
  shows "sys_running s' = [] \<and> startedInformers (sys_factory s') = startedInformers (sys_factory s)"
proof -
  from informer_reach_ok [OF assms(1)] assms(2) have "shuttingDown (sys_factory s)" "sys_running s = []"
    by (simp_all add: system_ok_def)
  with steps_shutting_down [OF assms(3)] show ?thesis by simp
qed

theorem Shutdown_is_final_witness:
  "snd (Start 1 (informers (sys_factory demo_returned)) (sys_factory demo_returned)) = []"
proof -
  obtain f gs where st: "Start 1 (informers (sys_factory demo_returned)) (sys_factory demo_returned) = (f, gs)" by fastforce
  from r_into_rtranclp [of informer_step, OF step_Start [OF refl st]]
  have "informer_step\<^sup>*\<^sup>* demo_returned (demo_returned\<lparr>sys_factory := f, sys_running := sys_running demo_returned @ gs\<rparr>)" .
  moreover have "0 < sys_returned demo_returned" by (simp add: demo_returned_def)
  ultimately have "sys_running demo_returned @ gs = []" using Shutdown_is_final [OF demo_reach(3)] by fastforce
  then show ?thesis unfolding st by simp
qed

text \<open>\<open>Shutdown\<close> returns: when every stop channel of the running informers is closed, as many
  steps as there are running informers bring the system to a state in which the call returns.\<close>

theorem Shutdown_terminates:
  assumes "informer_reach s" and "0 < sys_waiting s" and "\<forall>g \<in> set (sys_running s). snd (snd g) \<in> set (sys_closed s)"
  shows "\<exists>s'. (informer_step ^^ Suc (length (sys_running s))) s s' \<and> sys_returned s' = sys_returned s + 1 \<and> sys_running s' = []"
proof -
  from informer_reach_ok [OF assms(1)] have "wg (sys_factory s) = length (sys_running s)" by (simp add: system_ok_def)
  from drain_running [OF refl this assms(3)] obtain s1 where s1: "(informer_step ^^ length (sys_running s)) s s1"
    "sys_running s1 = []" "wg (sys_factory s1) = 0" "sys_waiting s1 = sys_waiting s" "sys_returned s1 = sys_returned s" by blast
  have "informer_step s1 (s1\<lparr>sys_waiting := sys_waiting s1 - 1, sys_returned := sys_returned s1 + 1\<rparr>)"
    by (rule step_Shutdown_returns) (use assms(2) s1 in \<open>simp_all add: Shutdown_waits_def\<close>)
  with s1(1) have "(informer_step ^^ Suc (length (sys_running s))) s (s1\<lparr>sys_waiting := sys_waiting s1 - 1, sys_returned := sys_returned s1 + 1\<rparr>)"
    by (rule relpowp_Suc_I)
  then show ?thesis by (intro exI conjI, assumption) (simp_all add: s1)
qed

theorem Shutdown_terminates_witness: "\<exists>s'. (informer_step ^^ 2) demo_waiting s' \<and> sys_returned s' = 1 \<and> sys_running s' = []"
proof -
  have "0 < sys_waiting demo_waiting" "\<forall>g \<in> set (sys_running demo_waiting). snd (snd g) \<in> set (sys_closed demo_waiting)"
    "sys_returned demo_waiting = 0" "Suc (length (sys_running demo_waiting)) = 2" by (code_simp; fail)+
  with Shutdown_terminates [OF demo_reach(2)] show ?thesis by simp
qed

text \<open>Informers are shared: once a type has its informer, every later request for the type, with
  whatever constructor, returns the same pointer, makes nothing, and the informer keeps the client, the
  resync period of its type and the transform that it was made with.\<close>

theorem Informers_are_shared:
  assumes "informer_reach s" and "InformerFor t newFunc (sys_factory s) (sys_heap s) = (f, h, p)"
    and "informer_step\<^sup>*\<^sup>* (s\<lparr>sys_factory := f, sys_heap := h\<rparr>) s'"
  shows "InformerFor t newFunc' (sys_factory s') (sys_heap s') = (sys_factory s', sys_heap s', p) \<and>
    sys_heap s' ! p = h ! p \<and> p < length h \<and>
    (map_of (informers (sys_factory s)) t = None \<longrightarrow>
       h ! p = (newFunc (sif_client (sys_factory s))
         (case map_of (customResync (sys_factory s)) t of Some r \<Rightarrow> r | None \<Rightarrow> defaultResync (sys_factory s)))
           \<lparr>inf_transform := sif_transform (sys_factory s)\<rparr>)"
proof -
  have p: "map_of (informers f) t = Some p" using assms(2) by (cases rule: InformerFor_cases) auto
  have "system_ok (s\<lparr>sys_factory := f, sys_heap := h\<rparr>)"
    by (rule system_ok_InformerFor [OF informer_reach_ok [OF assms(1)] assms(2)])
  then have l: "p < length h" using map_of_SomeD [OF p] by (auto simp: system_ok_def informers_ok_def)
  from steps_keep_informers [OF assms(3)] p obtain new where
    "map_of (informers (sys_factory s')) t = Some p" "sys_heap s' = h @ new" by (auto simp: keeps_informers_def)
  with l show ?thesis using assms(2)
    by (auto simp: InformerFor_def Let_def nth_append)
qed

theorem Informers_are_shared_witness:
  "InformerFor (v1alpha1 ''Manifest'') (\<lambda>client r. NewManifestInformer client r []) (sys_factory demo_waiting) (sys_heap demo_waiting) =
     (sys_factory demo_waiting, sys_heap demo_waiting, 0)"
proof -
  have m: "map_of (informers (sys_factory demo_started)) (v1alpha1 ''Manifest'') = Some 0" by code_simp
  have i: "InformerFor (v1alpha1 ''Manifest'') (\<lambda>client r. NewManifestInformer client r []) (sys_factory demo_started) (sys_heap demo_started)
    = (sys_factory demo_started, sys_heap demo_started, 0)" by (simp add: InformerFor_def m)
  let ?s = "demo_started\<lparr>sys_factory := Shutdown_mark (sys_factory demo_started), sys_waiting := sys_waiting demo_started + 1\<rparr>"
  have e: "?s\<lparr>sys_closed := 0 # sys_closed ?s\<rparr> = demo_waiting" by (simp add: demo_waiting_def demo_running)
  from rtranclp.rtrancl_into_rtrancl [OF r_into_rtranclp [of informer_step, OF step_Shutdown [of demo_started]] step_close [of ?s 0]]
  have "informer_step\<^sup>*\<^sup>* (demo_started\<lparr>sys_factory := sys_factory demo_started, sys_heap := sys_heap demo_started\<rparr>) demo_waiting"
    unfolding e by simp
  from Informers_are_shared [OF demo_reach(1) i this] show ?thesis by blast
qed

end
