(* ===== verification/Etcd_Store.thy ===== *)
theory Etcd_Store
  imports Builder Manifest
begin

text \<open>
  The etcd-backed handlers of \<open>pkg/server/builder/rest/rest.go\<close>, and the methods of
  \<open>DefaultStrategy\<close> (\<open>strategy.go\<close>) that only such a store uses.

  The generic store and its \<open>CompleteWithOptions\<close> are vendored: a store is the record of the
  fields that \<open>newStore\<close> sets, and completing it is a parameter. So is the table convertor of
  the registry.
\<close>

section \<open>Definitions\<close>

subsection \<open>Strategies of a store\<close>

text \<open>What a store needs of a strategy beyond the handlers' interface. \<open>'q\<close> is the type of table
  options, \<open>'t\<close> that of tables; printing panics (\<open>None\<close>) without a convertor.\<close>

type_synonym ('b, 'q, 't) table_convertor = "request_ctx \<Rightarrow> 'b Object \<Rightarrow> 'q \<Rightarrow> (go_error + 't) option"

record ('b, 'q, 't) StoreStrategy = "'b Strategy" +
  ss_WarningsOnCreate :: "request_ctx \<Rightarrow> 'b Object \<Rightarrow> string list"
  ss_WarningsOnUpdate :: "request_ctx \<Rightarrow> 'b Object \<Rightarrow> 'b Object \<Rightarrow> string list"
  ss_Match :: "label_selector \<Rightarrow> field_selector \<Rightarrow> 'b SelectionPredicate"
  ss_ConvertToTable :: "('b, 'q, 't) table_convertor"

record ('b, 'q, 't) DefaultStoreStrategy = "'b DefaultStrategy" +
  ds_TableConvertor :: "('b, 'q, 't) table_convertor option"

text \<open>\<open>SelectableFields\<close> and \<open>GetAttrs\<close>; every object of the model that has metadata is a
  \<open>resource.Object\<close>.\<close>

definition SelectableFields :: "ObjectMeta \<Rightarrow> string_set" where
  "SelectableFields obj = [(''metadata.name'', Name obj), (''metadata.namespace'', Namespace obj)]"

definition GetAttrs :: "'b Object \<Rightarrow> go_error + string_set \<times> string_set" where
  "GetAttrs obj =
     (case Metadata obj of
        None \<Rightarrow> Inl (OtherError ''given object does not have metadata'')
      | Some om \<Rightarrow> Inr (Labels om, SelectableFields om))"

definition DefaultStrategy_Match :: "label_selector \<Rightarrow> field_selector \<Rightarrow> 'b SelectionPredicate" where
  "DefaultStrategy_Match label field = \<lparr>sp_Label = label, sp_Field = field, sp_GetAttrs = GetAttrs\<rparr>"

text \<open>\<open>own\<close> finds the \<open>TableConverter\<close> of an object's own type.\<close>

definition DefaultStrategy_ConvertToTable ::
  "('b Object \<Rightarrow> (request_ctx \<Rightarrow> 'q \<Rightarrow> go_error + 't) option) \<Rightarrow> ('b, 'q, 't) DefaultStoreStrategy \<Rightarrow> ('b, 'q, 't) table_convertor" where
  "DefaultStrategy_ConvertToTable own d ctx obj tableOptions =
     (case own obj of
        Some c \<Rightarrow> Some (c ctx tableOptions)
      | None \<Rightarrow> (case ds_TableConvertor d of None \<Rightarrow> None | Some c \<Rightarrow> c ctx obj tableOptions))"

definition DefaultStrategy_WarningsOnCreate :: "request_ctx \<Rightarrow> 'b Object \<Rightarrow> string list" where
  "DefaultStrategy_WarningsOnCreate ctx obj = []"

definition DefaultStrategy_WarningsOnUpdate :: "request_ctx \<Rightarrow> 'b Object \<Rightarrow> 'b Object \<Rightarrow> string list" where
  "DefaultStrategy_WarningsOnUpdate ctx old new = []"

text \<open>Both strategies as strategies of a store.\<close>

definition default_store_strategy ::
  "(nat \<Rightarrow> string) \<Rightarrow> ('b Object \<Rightarrow> 'b type_methods) \<Rightarrow> ('b Object \<Rightarrow> (request_ctx \<Rightarrow> 'q \<Rightarrow> go_error + 't) option) \<Rightarrow>
     ('b, 'q, 't) DefaultStoreStrategy \<Rightarrow> ('b, 'q, 't) StoreStrategy" where
  "default_store_strategy rand methods_of own d =
     Strategy.extend (default_strategy rand methods_of (DefaultStrategy.truncate d))
       (StoreStrategy.fields DefaultStrategy_WarningsOnCreate DefaultStrategy_WarningsOnUpdate DefaultStrategy_Match
          (DefaultStrategy_ConvertToTable own d))"

definition StatusSubResourceStrategy :: "('b Object \<Rightarrow> 'b type_methods) \<Rightarrow> ('b, 'q, 't) StoreStrategy \<Rightarrow> ('b, 'q, 't) StoreStrategy" where
  "StatusSubResourceStrategy methods_of s = s\<lparr>strat_PrepareForUpdate := StatusSubResourceStrategy_PrepareForUpdate methods_of\<rparr>"

subsection \<open>Stores\<close>

record ('b, 'q, 't) Store =
  st_NewFunc :: "'b Object"
  st_NewListFunc :: "'b ListObject"
  st_PredicateFunc :: "label_selector \<Rightarrow> field_selector \<Rightarrow> 'b SelectionPredicate"
  st_DefaultQualifiedResource :: GroupResource
  st_TableConvertor :: "('b, 'q, 't) table_convertor"
  st_CreateStrategy :: "('b, 'q, 't) StoreStrategy"
  st_UpdateStrategy :: "('b, 'q, 't) StoreStrategy"
  st_DeleteStrategy :: "('b, 'q, 't) StoreStrategy"

record ('b, 'g) StoreOptions =
  so_RESTOptions :: 'g
  so_AttrFunc :: "'b Object \<Rightarrow> go_error + string_set \<times> string_set"

type_synonym ('b, 'g, 'q, 't) StoreFn =
  "('b, 'q, 't) Store \<times> ('b, 'g) StoreOptions \<Rightarrow> ('b, 'q, 't) Store \<times> ('b, 'g) StoreOptions"

type_synonym ('b, 'g, 'q, 't) complete = "('b, 'q, 't) Store \<Rightarrow> ('b, 'g) StoreOptions \<Rightarrow> ('b, 'q, 't) Store \<times> go_error option"

definition newStore ::
  "('b, 'g, 'q, 't) complete \<Rightarrow> 'b Object \<Rightarrow> 'b ListObject \<Rightarrow> GroupVersionResource \<Rightarrow> ('b, 'q, 't) StoreStrategy \<Rightarrow> 'g \<Rightarrow>
     ('b, 'g, 'q, 't) StoreFn option \<Rightarrow> go_error + ('b, 'q, 't) Store" where
  "newStore CompleteWithOptions single list_obj gvr s optsGetter fn =
     (let store = \<lparr>st_NewFunc = single, st_NewListFunc = list_obj, st_PredicateFunc = ss_Match s,
                   st_DefaultQualifiedResource = GVR_GroupResource gvr, st_TableConvertor = ss_ConvertToTable s,
                   st_CreateStrategy = s, st_UpdateStrategy = s, st_DeleteStrategy = s\<rparr>;
          options = \<lparr>so_RESTOptions = optsGetter, so_AttrFunc = GetAttrs\<rparr>;
          (store1, options1) = (case fn of None \<Rightarrow> (store, options) | Some f \<Rightarrow> f (store, options))
      in case CompleteWithOptions store1 options1 of
           (_, Some e) \<Rightarrow> Inl e
         | (store2, None) \<Rightarrow> Inr store2)"

subsection \<open>Handler providers\<close>

text \<open>What the constructors share: random names, the convertor of the registry for a resource, the
  table converters of the types, and the completion of stores.\<close>

record ('b, 'g, 'q, 't) store_env =
  se_rand :: "nat \<Rightarrow> string"
  se_NewDefaultTableConvertor :: "GroupResource \<Rightarrow> ('b, 'q, 't) table_convertor"
  se_own_table :: "'b Object \<Rightarrow> (request_ctx \<Rightarrow> 'q \<Rightarrow> go_error + 't) option"
  se_complete :: "('b, 'g, 'q, 't) complete"

definition etcd_strategy :: "('b, 'g, 'q, 't) store_env \<Rightarrow> 'b resource \<Rightarrow> 'b Object Scheme \<Rightarrow> ('b, 'q, 't) StoreStrategy" where
  "etcd_strategy env obj sch =
     default_store_strategy (se_rand env) (\<lambda>_. res_methods obj) (se_own_table env)
       \<lparr>ds_Object = Some (res_methods obj), ds_ObjectTyper = (\<lambda>_. Scheme_ObjectKinds sch (ro_New (res_object obj))),
        ds_TableConvertor = Some (se_NewDefaultTableConvertor env (GVR_GroupResource (res_gvr obj)))\<rparr>"

definition StaticHandlerProvider_Get :: "'s \<Rightarrow> 'b Object Scheme \<Rightarrow> 'g \<Rightarrow> go_error + 's" where
  "StaticHandlerProvider_Get storage s g = Inr storage"

definition New ::
  "('b, 'g, 'q, 't) store_env \<Rightarrow> 'b resource \<Rightarrow> 'b Object Scheme \<Rightarrow> 'g \<Rightarrow> go_error + ('b, 'q, 't) Store" where
  "New env obj sch optsGetter =
     newStore (se_complete env) (res_New obj) (res_NewList obj) (res_gvr obj) (etcd_strategy env obj sch) optsGetter None"

definition NewStatus ::
  "('b, 'g, 'q, 't) store_env \<Rightarrow> 'b resource \<Rightarrow>
     'b resource \<times> string \<times> 'b resource \<times> ('b Object Scheme \<Rightarrow> 'g \<Rightarrow> go_error + ('b, 'q, 't) Store)" where
  "NewStatus env obj =
     (obj, ''status'', obj, \<lambda>sch optsGetter.
        newStore (se_complete env) (res_New obj) (res_NewList obj) (res_gvr obj)
          (StatusSubResourceStrategy (\<lambda>_. res_methods obj) (etcd_strategy env obj sch)) optsGetter None)"

definition NewWithStrategy ::
  "('b, 'g, 'q, 't) store_env \<Rightarrow> 'b resource \<Rightarrow> ('b, 'q, 't) StoreStrategy \<Rightarrow> 'b Object Scheme \<Rightarrow> 'g \<Rightarrow> go_error + ('b, 'q, 't) Store" where
  "NewWithStrategy env obj s sch optsGetter =
     newStore (se_complete env) (res_New obj) (res_NewList obj) (res_gvr obj) s optsGetter None"

text \<open>The closure of \<open>NewStatusWithStrategy\<close> assigns to the strategy that it captured: a call takes
  the captured strategy and returns its new value with the result.\<close>

definition NewStatusWithStrategy ::
  "('b, 'g, 'q, 't) store_env \<Rightarrow> 'b resource \<Rightarrow> 'b Object Scheme \<Rightarrow> 'g \<Rightarrow> ('b, 'q, 't) StoreStrategy \<Rightarrow>
     ('b, 'q, 't) StoreStrategy \<times> (go_error + ('b, 'q, 't) Store)" where
  "NewStatusWithStrategy env obj sch optsGetter s =
     (let s' = StatusSubResourceStrategy (\<lambda>_. res_methods obj) s
      in (s', newStore (se_complete env) (res_New obj) (res_NewList obj) (res_gvr obj) s' optsGetter None))"

definition NewWithFn ::
  "('b, 'g, 'q, 't) store_env \<Rightarrow> 'b resource \<Rightarrow> ('b, 'g, 'q, 't) StoreFn option \<Rightarrow> 'b Object Scheme \<Rightarrow> 'g \<Rightarrow>
     go_error + ('b, 'q, 't) Store" where
  "NewWithFn env obj fn sch optsGetter =
     newStore (se_complete env) (res_New obj) (res_NewList obj) (res_gvr obj) (etcd_strategy env obj sch) optsGetter fn"

definition NewStatusWithFn ::
  "('b, 'g, 'q, 't) store_env \<Rightarrow> 'b resource \<Rightarrow> ('b, 'g, 'q, 't) StoreFn option \<Rightarrow> 'b Object Scheme \<Rightarrow> 'g \<Rightarrow>
     go_error + ('b, 'q, 't) Store" where
  "NewStatusWithFn env obj fn sch optsGetter =
     newStore (se_complete env) (res_New obj) (res_NewList obj) (res_gvr obj)
       (StatusSubResourceStrategy (\<lambda>_. res_methods obj) (etcd_strategy env obj sch)) optsGetter fn"

section \<open>Lemmas\<close>

lemma StatusSubResourceStrategy_idem [simp]:
  "StatusSubResourceStrategy m (StatusSubResourceStrategy m s) = StatusSubResourceStrategy m s"
  by (simp add: StatusSubResourceStrategy_def)

text \<open>The results of \<open>n\<close> calls of a provider whose closure keeps a strategy.\<close>

fun calls :: "('s \<Rightarrow> 's \<times> 'r) \<Rightarrow> nat \<Rightarrow> 's \<Rightarrow> 'r list" where
  "calls f 0 s = []"
| "calls f (Suc n) s = (let (s', r) = f s in r # calls f n s')"

lemma calls_stable: "(\<And>s. f (fst (f s)) = f s) \<Longrightarrow> calls f n s = replicate n (snd (f s))"
proof (induction n arbitrary: s)
  case (Suc n)
  from Suc.IH [OF Suc.prems, of "fst (f s)"] Suc.prems [of s] show ?case by (simp add: case_prod_beta)
qed simp

section \<open>Properties\<close>

text \<open>A provider of \<open>NewStatusWithStrategy\<close> wraps the strategy that it has captured once more
  at every call, without effect: every call returns what the first one returns, a store for the
  status subresource that runs the given strategy with the update hook replaced.\<close>

theorem Status_provider_calls:
  "calls (NewStatusWithStrategy env obj sch g) n s =
     replicate n (NewWithStrategy env obj (StatusSubResourceStrategy (\<lambda>_. res_methods obj) s) sch g)"
  using calls_stable [of "NewStatusWithStrategy env obj sch g" n s]
  by (simp add: NewStatusWithStrategy_def NewWithStrategy_def Let_def)

text \<open>A store of this package selects by name and by namespace: an object with metadata matches
  exactly when its labels match and the two fields do.\<close>

theorem Store_selects_by_namespace:
  assumes "Metadata obj = Some m"
  shows "SelectionPredicate_Matches (ss_Match (etcd_strategy env r sch) l f) obj =
    Inr (labels_Matches l (Labels m) \<and>
      fields_Matches f [(''metadata.name'', Name m), (''metadata.namespace'', Namespace m)])"
proof -
  have "ss_Match (etcd_strategy env r sch) l f = \<lparr>sp_Label = l, sp_Field = f, sp_GetAttrs = GetAttrs\<rparr>"
    by (simp add: etcd_strategy_def default_store_strategy_def Strategy.defs StoreStrategy.defs DefaultStrategy_Match_def)
  with assms show ?thesis
    by (auto simp: SelectionPredicate_Matches_def SelectionPredicate_Empty_def GetAttrs_def SelectableFields_def
        labels_Empty_Matches fields_Empty_Matches)
qed

theorem Store_selects_by_namespace_witness:
  "\<forall>(env :: (ManifestBody, unit, unit, unit) store_env) r sch.
     SelectionPredicate_Matches (ss_Match (etcd_strategy env r sch) labels_Everything (HasTerm ''metadata.namespace'' ''x''))
       (manifest_of ''a'' ''x'' ''u1'' ''2'' ''hi'' [] False []) = Inr True"
proof (intro allI)
  fix env :: "(ManifestBody, unit, unit, unit) store_env" and r sch
  obtain m where m: "Metadata (manifest_of ''a'' ''x'' ''u1'' ''2'' ''hi'' [] False []) = Some m" "Namespace m = ''x''"
    by (simp add: manifest_of_def)
  from Store_selects_by_namespace [OF m(1), of env r sch labels_Everything "HasTerm ''metadata.namespace'' ''x''"] m(2)
  show "SelectionPredicate_Matches (ss_Match (etcd_strategy env r sch) labels_Everything (HasTerm ''metadata.namespace'' ''x''))
       (manifest_of ''a'' ''x'' ''u1'' ''2'' ''hi'' [] False []) = Inr True"
    by (simp add: labels_Everything_def fields_Get_def)
qed

end
