(* ===== verification/Openapi_Defs.thy ===== *)
theory Openapi_Defs
  imports Prelude
begin

text \<open>
  The OpenAPI definitions of the API: \<open>pkg/generated/openapi/zz_generated.openapi.go\<close> and the
  model names of \<open>pkg/apis/core/v1alpha1/zz_generated.model_name.go\<close>, one definition per
  function of the file and in its order. The descriptions, which are documentation, are left out.
  Fields that a Go literal does not set have their zero value.
\<close>

section \<open>Schemas\<close>

text \<open>The fields of \<open>spec.SchemaProps\<close> and \<open>spec.VendorExtensible\<close> that the file sets:
  types, format, default, reference, properties, items, additional properties (with
  \<open>Allows\<close>), required properties, alternatives and extensions. \<open>'r\<close> is the type of
  references that the callback makes.\<close>

datatype schema_default =
    DefString string
  | DefInt int
  | DefBool bool
  | DefObject

datatype 'r Schema =
    Schema (sch_Type: "string list") (sch_Format: string) (sch_Default: "schema_default option") (sch_Ref: "'r option")
      (sch_Properties: "(string \<times> 'r Schema) list") (sch_Items: "'r Schema option")
      (sch_AdditionalProperties: "(bool \<times> 'r Schema) option") (sch_Required: "string list")
      (sch_OneOf: "'r Schema list") (sch_Extensions: "(string \<times> 'r extension) list")
and 'r extension =
    ExtString string
  | ExtStrings "string list"
  | ExtSchema "'r Schema"

record 'r OpenAPIDefinition =
  oad_Schema :: "'r Schema"
  oad_Dependencies :: "string list"

text \<open>The literals that occur most: a schema with a type, a format and a default, one that refers to
  another definition, and a list with its items and extensions.\<close>

abbreviation Scalar :: "string list \<Rightarrow> string \<Rightarrow> schema_default option \<Rightarrow> 'r Schema" where
  "Scalar ty fm df \<equiv> Schema ty fm df None [] None None [] [] []"

abbreviation Reference :: "schema_default option \<Rightarrow> 'r \<Rightarrow> 'r Schema" where
  "Reference df r \<equiv> Schema [] [] df (Some r) [] None None [] [] []"

abbreviation ArrayOf :: "'r Schema \<Rightarrow> (string \<times> 'r extension) list \<Rightarrow> 'r Schema" where
  "ArrayOf item exts \<equiv> Schema [''array''] [] None None [] (Some item) None [] [] exts"

text \<open>The helpers of the vendored \<open>kube-openapi/pkg/common\<close> for a type with alternatives.\<close>

definition GenerateOpenAPIV3OneOfSchema :: "string list \<Rightarrow> 'r Schema list" where
  "GenerateOpenAPIV3OneOfSchema types = map (\<lambda>t. Scalar [t] [] None) types"

fun set_extension :: "string \<Rightarrow> 'r extension \<Rightarrow> 'r Schema \<Rightarrow> 'r Schema" where
  "set_extension k v (Schema ty fm df rf ps it ap rq oo exts) =
     Schema ty fm df rf ps it ap rq oo (filter (\<lambda>e. fst e \<noteq> k) exts @ [(k, v)])"

definition EmbedOpenAPIDefinitionIntoV2Extension ::
  "'r OpenAPIDefinition \<Rightarrow> 'r OpenAPIDefinition \<Rightarrow> 'r OpenAPIDefinition" where
  "EmbedOpenAPIDefinitionIntoV2Extension main embedded =
     main\<lparr>oad_Schema := set_extension ''x-kubernetes-v2-schema'' (ExtSchema (oad_Schema embedded)) (oad_Schema main)\<rparr>"

section \<open>Names and formats of the vendored types\<close>

definition model_v1alpha1 :: "string \<Rightarrow> string" where
  "model_v1alpha1 n = ''github.com/tilt-dev/tilt-apiserver/pkg/apis/core/v1alpha1.'' @ n"

definition model_meta_v1 :: "string \<Rightarrow> string" where
  "model_meta_v1 n = ''io.k8s.apimachinery.pkg.apis.meta.v1.'' @ n"

definition model_resource :: "string \<Rightarrow> string" where
  "model_resource n = ''io.k8s.apimachinery.pkg.api.resource.'' @ n"

definition model_runtime :: "string \<Rightarrow> string" where
  "model_runtime n = ''io.k8s.apimachinery.pkg.runtime.'' @ n"

definition model_version :: "string \<Rightarrow> string" where
  "model_version n = ''io.k8s.apimachinery.pkg.version.'' @ n"

abbreviation (input) "Quantity_OpenAPIV3OneOfTypes \<equiv> [''string'', ''number'']"
abbreviation (input) "Quantity_OpenAPISchemaType \<equiv> [''string'']"
abbreviation (input) "Quantity_OpenAPISchemaFormat \<equiv> ([] :: string)"
abbreviation (input) "Duration_OpenAPISchemaType \<equiv> [''string'']"
abbreviation (input) "Duration_OpenAPISchemaFormat \<equiv> ([] :: string)"
abbreviation (input) "Time_OpenAPISchemaType \<equiv> [''string'']"
abbreviation (input) "Time_OpenAPISchemaFormat \<equiv> ''date-time''"
abbreviation (input) "MicroTime_OpenAPISchemaType \<equiv> [''string'']"
abbreviation (input) "MicroTime_OpenAPISchemaFormat \<equiv> ''date-time''"

section \<open>Definitions\<close>

definition schema_pkg_apis_core_v1alpha1_Manifest :: "(string \<Rightarrow> 'r) \<Rightarrow> 'r OpenAPIDefinition" where
  "schema_pkg_apis_core_v1alpha1_Manifest ref =
     \<lparr>oad_Schema = Schema [''object''] [] None None
       [(''kind'', Scalar [''string''] [] None),
        (''apiVersion'', Scalar [''string''] [] None),
        (''metadata'', Reference (Some DefObject) (ref (model_meta_v1 ''ObjectMeta''))),
        (''spec'', Reference (Some DefObject) (ref (model_v1alpha1 ''ManifestSpec''))),
        (''status'', Reference (Some DefObject) (ref (model_v1alpha1 ''ManifestStatus'')))]
        None None [] [] [],
      oad_Dependencies = [model_v1alpha1 ''ManifestSpec'', model_v1alpha1 ''ManifestStatus'',
         model_meta_v1 ''ObjectMeta'']\<rparr>"

definition schema_pkg_apis_core_v1alpha1_ManifestList :: "(string \<Rightarrow> 'r) \<Rightarrow> 'r OpenAPIDefinition" where
  "schema_pkg_apis_core_v1alpha1_ManifestList ref =
     \<lparr>oad_Schema = Schema [''object''] [] None None
       [(''kind'', Scalar [''string''] [] None),
        (''apiVersion'', Scalar [''string''] [] None),
        (''metadata'', Reference (Some DefObject) (ref (model_meta_v1 ''ListMeta''))),
        (''items'', ArrayOf (Reference (Some DefObject) (ref (model_v1alpha1 ''Manifest''))) [])]
        None None [''items''] [] [],
      oad_Dependencies = [model_v1alpha1 ''Manifest'', model_meta_v1 ''ListMeta'']\<rparr>"

definition schema_pkg_apis_core_v1alpha1_ManifestSpec :: "(string \<Rightarrow> 'r) \<Rightarrow> 'r OpenAPIDefinition" where
  "schema_pkg_apis_core_v1alpha1_ManifestSpec ref =
     \<lparr>oad_Schema = Schema [''object''] [] None None
       [(''message'', Scalar [''string''] [] (Some (DefString [])))]
        None None [''message''] [] [],
      oad_Dependencies = []\<rparr>"

definition schema_pkg_apis_core_v1alpha1_ManifestStatus :: "(string \<Rightarrow> 'r) \<Rightarrow> 'r OpenAPIDefinition" where
  "schema_pkg_apis_core_v1alpha1_ManifestStatus ref =
     \<lparr>oad_Schema = Schema [''object''] [] None None
       [(''message'', Scalar [''string''] [] (Some (DefString [])))]
        None None [''message''] [] [],
      oad_Dependencies = []\<rparr>"

definition schema_apimachinery_pkg_api_resource_Quantity :: "(string \<Rightarrow> 'r) \<Rightarrow> 'r OpenAPIDefinition" where
  "schema_apimachinery_pkg_api_resource_Quantity ref =
     EmbedOpenAPIDefinitionIntoV2Extension
       \<lparr>oad_Schema = Schema [] Quantity_OpenAPISchemaFormat None None [] None None [] (GenerateOpenAPIV3OneOfSchema Quantity_OpenAPIV3OneOfTypes) [],
         oad_Dependencies = []\<rparr>
       \<lparr>oad_Schema = Scalar Quantity_OpenAPISchemaType Quantity_OpenAPISchemaFormat None,
         oad_Dependencies = []\<rparr>"

definition schema_apimachinery_pkg_api_resource_int64Amount :: "(string \<Rightarrow> 'r) \<Rightarrow> 'r OpenAPIDefinition" where
  "schema_apimachinery_pkg_api_resource_int64Amount ref =
     \<lparr>oad_Schema = Schema [''object''] [] None None
       [(''value'', Scalar [''integer''] ''int64'' (Some (DefInt 0))),
        (''scale'', Scalar [''integer''] ''int32'' (Some (DefInt 0)))]
        None None [''value'', ''scale''] [] [],
      oad_Dependencies = []\<rparr>"

definition schema_pkg_apis_meta_v1_APIGroup :: "(string \<Rightarrow> 'r) \<Rightarrow> 'r OpenAPIDefinition" where
  "schema_pkg_apis_meta_v1_APIGroup ref =
     \<lparr>oad_Schema = Schema [''object''] [] None None
       [(''kind'', Scalar [''string''] [] None),
        (''apiVersion'', Scalar [''string''] [] None),
        (''name'', Scalar [''string''] [] (Some (DefString []))),
        (''versions'', ArrayOf (Reference (Some DefObject) (ref (model_meta_v1 ''GroupVersionForDiscovery'')))
           [(''x-kubernetes-list-type'', ExtString ''atomic'')]),
        (''preferredVersion'', Reference (Some DefObject) (ref (model_meta_v1 ''GroupVersionForDiscovery''))),
        (''serverAddressByClientCIDRs'', ArrayOf (Reference (Some DefObject) (ref (model_meta_v1 ''ServerAddressByClientCIDR'')))
           [(''x-kubernetes-list-type'', ExtString ''atomic'')])]
        None None [''name'', ''versions''] [] [],
      oad_Dependencies = [model_meta_v1 ''GroupVersionForDiscovery'',
         model_meta_v1 ''ServerAddressByClientCIDR'']\<rparr>"

definition schema_pkg_apis_meta_v1_APIGroupList :: "(string \<Rightarrow> 'r) \<Rightarrow> 'r OpenAPIDefinition" where
  "schema_pkg_apis_meta_v1_APIGroupList ref =
     \<lparr>oad_Schema = Schema [''object''] [] None None
       [(''kind'', Scalar [''string''] [] None),
        (''apiVersion'', Scalar [''string''] [] None),
        (''groups'', ArrayOf (Reference (Some DefObject) (ref (model_meta_v1 ''APIGroup'')))
           [(''x-kubernetes-list-type'', ExtString ''atomic'')])]
        None None [''groups''] [] [],
      oad_Dependencies = [model_meta_v1 ''APIGroup'']\<rparr>"

definition schema_pkg_apis_meta_v1_APIResource :: "(string \<Rightarrow> 'r) \<Rightarrow> 'r OpenAPIDefinition" where
  "schema_pkg_apis_meta_v1_APIResource ref =
     \<lparr>oad_Schema = Schema [''object''] [] None None
       [(''name'', Scalar [''string''] [] (Some (DefString []))),
        (''singularName'', Scalar [''string''] [] (Some (DefString []))),
        (''namespaced'', Scalar [''boolean''] [] (Some (DefBool False))),
        (''group'', Scalar [''string''] [] None),
        (''version'', Scalar [''string''] [] None),
        (''kind'', Scalar [''string''] [] (Some (DefString []))),
        (''verbs'', ArrayOf (Scalar [''string''] [] (Some (DefString []))) []),
        (''shortNames'', ArrayOf (Scalar [''string''] [] (Some (DefString [])))
           [(''x-kubernetes-list-type'', ExtString ''atomic'')]),
        (''categories'', ArrayOf (Scalar [''string''] [] (Some (DefString [])))
           [(''x-kubernetes-list-type'', ExtString ''atomic'')]),
        (''storageVersionHash'', Scalar [''string''] [] None)]
        None None [''name'', ''singularName'', ''namespaced'', ''kind'', ''verbs''] [] [],
      oad_Dependencies = []\<rparr>"

definition schema_pkg_apis_meta_v1_APIResourceList :: "(string \<Rightarrow> 'r) \<Rightarrow> 'r OpenAPIDefinition" where
  "schema_pkg_apis_meta_v1_APIResourceList ref =
     \<lparr>oad_Schema = Schema [''object''] [] None None
       [(''kind'', Scalar [''string''] [] None),
        (''apiVersion'', Scalar [''string''] [] None),
        (''groupVersion'', Scalar [''string''] [] (Some (DefString []))),
        (''resources'', ArrayOf (Reference (Some DefObject) (ref (model_meta_v1 ''APIResource'')))
           [(''x-kubernetes-list-type'', ExtString ''atomic'')])]
        None None [''groupVersion'', ''resources''] [] [],
      oad_Dependencies = [model_meta_v1 ''APIResource'']\<rparr>"

definition schema_pkg_apis_meta_v1_APIVersions :: "(string \<Rightarrow> 'r) \<Rightarrow> 'r OpenAPIDefinition" where
  "schema_pkg_apis_meta_v1_APIVersions ref =
     \<lparr>oad_Schema = Schema [''object''] [] None None
       [(''kind'', Scalar [''string''] [] None),
        (''apiVersion'', Scalar [''string''] [] None),
        (''versions'', ArrayOf (Scalar [''string''] [] (Some (DefString [])))
           [(''x-kubernetes-list-type'', ExtString ''atomic'')]),
        (''serverAddressByClientCIDRs'', ArrayOf (Reference (Some DefObject) (ref (model_meta_v1 ''ServerAddressByClientCIDR'')))
           [(''x-kubernetes-list-type'', ExtString ''atomic'')])]
        None None [''versions'', ''serverAddressByClientCIDRs''] [] [],
      oad_Dependencies = [model_meta_v1 ''ServerAddressByClientCIDR'']\<rparr>"

definition schema_pkg_apis_meta_v1_ApplyOptions :: "(string \<Rightarrow> 'r) \<Rightarrow> 'r OpenAPIDefinition" where
  "schema_pkg_apis_meta_v1_ApplyOptions ref =
     \<lparr>oad_Schema = Schema [''object''] [] None None
       [(''kind'', Scalar [''string''] [] None),
        (''apiVersion'', Scalar [''string''] [] None),
        (''dryRun'', ArrayOf (Scalar [''string''] [] (Some (DefString [])))
           [(''x-kubernetes-list-type'', ExtString ''atomic'')]),
        (''force'', Scalar [''boolean''] [] (Some (DefBool False))),
        (''fieldManager'', Scalar [''string''] [] (Some (DefString [])))]
        None None [''force'', ''fieldManager''] [] [],
      oad_Dependencies = []\<rparr>"

definition schema_pkg_apis_meta_v1_Condition :: "(string \<Rightarrow> 'r) \<Rightarrow> 'r OpenAPIDefinition" where
  "schema_pkg_apis_meta_v1_Condition ref =
     \<lparr>oad_Schema = Schema [''object''] [] None None
       [(''type'', Scalar [''string''] [] (Some (DefString []))),
        (''status'', Scalar [''string''] [] (Some (DefString []))),
        (''observedGeneration'', Scalar [''integer''] ''int64'' None),
        (''lastTransitionTime'', Reference None (ref (model_meta_v1 ''Time''))),
        (''reason'', Scalar [''string''] [] (Some (DefString []))),
        (''message'', Scalar [''string''] [] (Some (DefString [])))]
        None None [''type'', ''status'', ''lastTransitionTime'', ''reason'', ''message''] [] [],
      oad_Dependencies = [model_meta_v1 ''Time'']\<rparr>"

definition schema_pkg_apis_meta_v1_CreateOptions :: "(string \<Rightarrow> 'r) \<Rightarrow> 'r OpenAPIDefinition" where
  "schema_pkg_apis_meta_v1_CreateOptions ref =
     \<lparr>oad_Schema = Schema [''object''] [] None None
       [(''kind'', Scalar [''string''] [] None),
        (''apiVersion'', Scalar [''string''] [] None),
        (''dryRun'', ArrayOf (Scalar [''string''] [] (Some (DefString [])))
           [(''x-kubernetes-list-type'', ExtString ''atomic'')]),
        (''fieldManager'', Scalar [''string''] [] None),
        (''fieldValidation'', Scalar [''string''] [] None)]
        None None [] [] [],
      oad_Dependencies = []\<rparr>"

definition schema_pkg_apis_meta_v1_DeleteOptions :: "(string \<Rightarrow> 'r) \<Rightarrow> 'r OpenAPIDefinition" where
  "schema_pkg_apis_meta_v1_DeleteOptions ref =
     \<lparr>oad_Schema = Schema [''object''] [] None None
       [(''kind'', Scalar [''string''] [] None),
        (''apiVersion'', Scalar [''string''] [] None),
        (''gracePeriodSeconds'', Scalar [''integer''] ''int64'' None),
        (''preconditions'', Reference None (ref (model_meta_v1 ''Preconditions''))),
        (''orphanDependents'', Scalar [''boolean''] [] None),
        (''propagationPolicy'', Scalar [''string''] [] None),
        (''dryRun'', ArrayOf (Scalar [''string''] [] (Some (DefString [])))
           [(''x-kubernetes-list-type'', ExtString ''atomic'')]),
        (''ignoreStoreReadErrorWithClusterBreakingPotential'', Scalar [''boolean''] [] None)]
        None None [] [] [],
      oad_Dependencies = [model_meta_v1 ''Preconditions'']\<rparr>"

definition schema_pkg_apis_meta_v1_Duration :: "(string \<Rightarrow> 'r) \<Rightarrow> 'r OpenAPIDefinition" where
  "schema_pkg_apis_meta_v1_Duration ref =
     \<lparr>oad_Schema = Scalar Duration_OpenAPISchemaType Duration_OpenAPISchemaFormat None,
      oad_Dependencies = []\<rparr>"

definition schema_pkg_apis_meta_v1_FieldSelectorRequirement :: "(string \<Rightarrow> 'r) \<Rightarrow> 'r OpenAPIDefinition" where
  "schema_pkg_apis_meta_v1_FieldSelectorRequirement ref =
     \<lparr>oad_Schema = Schema [''object''] [] None None
       [(''key'', Scalar [''string''] [] (Some (DefString []))),
        (''operator'', Scalar [''string''] [] (Some (DefString []))),
        (''values'', ArrayOf (Scalar [''string''] [] (Some (DefString [])))
           [(''x-kubernetes-list-type'', ExtString ''atomic'')])]
        None None [''key'', ''operator''] [] [],
      oad_Dependencies = []\<rparr>"

definition schema_pkg_apis_meta_v1_FieldsV1 :: "(string \<Rightarrow> 'r) \<Rightarrow> 'r OpenAPIDefinition" where
  "schema_pkg_apis_meta_v1_FieldsV1 ref =
     \<lparr>oad_Schema = Scalar [''object''] [] None,
      oad_Dependencies = []\<rparr>"

definition schema_pkg_apis_meta_v1_GetOptions :: "(string \<Rightarrow> 'r) \<Rightarrow> 'r OpenAPIDefinition" where
  "schema_pkg_apis_meta_v1_GetOptions ref =
     \<lparr>oad_Schema = Schema [''object''] [] None None
       [(''kind'', Scalar [''string''] [] None),
        (''apiVersion'', Scalar [''string''] [] None),
        (''resourceVersion'', Scalar [''string''] [] None)]
        None None [] [] [],
      oad_Dependencies = []\<rparr>"

definition schema_pkg_apis_meta_v1_GroupKind :: "(string \<Rightarrow> 'r) \<Rightarrow> 'r OpenAPIDefinition" where
  "schema_pkg_apis_meta_v1_GroupKind ref =
     \<lparr>oad_Schema = Schema [''object''] [] None None
       [(''group'', Scalar [''string''] [] (Some (DefString []))),
        (''kind'', Scalar [''string''] [] (Some (DefString [])))]
        None None [''group'', ''kind''] [] [],
      oad_Dependencies = []\<rparr>"

definition schema_pkg_apis_meta_v1_GroupResource :: "(string \<Rightarrow> 'r) \<Rightarrow> 'r OpenAPIDefinition" where
  "schema_pkg_apis_meta_v1_GroupResource ref =
     \<lparr>oad_Schema = Schema [''object''] [] None None
       [(''group'', Scalar [''string''] [] (Some (DefString []))),
        (''resource'', Scalar [''string''] [] (Some (DefString [])))]
        None None [''group'', ''resource''] [] [],
      oad_Dependencies = []\<rparr>"

definition schema_pkg_apis_meta_v1_GroupVersion :: "(string \<Rightarrow> 'r) \<Rightarrow> 'r OpenAPIDefinition" where
  "schema_pkg_apis_meta_v1_GroupVersion ref =
     \<lparr>oad_Schema = Schema [''object''] [] None None
       [(''group'', Scalar [''string''] [] (Some (DefString []))),
        (''version'', Scalar [''string''] [] (Some (DefString [])))]
        None None [''group'', ''version''] [] [],
      oad_Dependencies = []\<rparr>"

definition schema_pkg_apis_meta_v1_GroupVersionForDiscovery :: "(string \<Rightarrow> 'r) \<Rightarrow> 'r OpenAPIDefinition" where
  "schema_pkg_apis_meta_v1_GroupVersionForDiscovery ref =
     \<lparr>oad_Schema = Schema [''object''] [] None None
       [(''groupVersion'', Scalar [''string''] [] (Some (DefString []))),
        (''version'', Scalar [''string''] [] (Some (DefString [])))]
        None None [''groupVersion'', ''version''] [] [],
      oad_Dependencies = []\<rparr>"

definition schema_pkg_apis_meta_v1_GroupVersionKind :: "(string \<Rightarrow> 'r) \<Rightarrow> 'r OpenAPIDefinition" where
  "schema_pkg_apis_meta_v1_GroupVersionKind ref =
     \<lparr>oad_Schema = Schema [''object''] [] None None
       [(''group'', Scalar [''string''] [] (Some (DefString []))),
        (''version'', Scalar [''string''] [] (Some (DefString []))),
        (''kind'', Scalar [''string''] [] (Some (DefString [])))]
        None None [''group'', ''version'', ''kind''] [] [],
      oad_Dependencies = []\<rparr>"

definition schema_pkg_apis_meta_v1_GroupVersionResource :: "(string \<Rightarrow> 'r) \<Rightarrow> 'r OpenAPIDefinition" where
  "schema_pkg_apis_meta_v1_GroupVersionResource ref =
     \<lparr>oad_Schema = Schema [''object''] [] None None
       [(''group'', Scalar [''string''] [] (Some (DefString []))),
        (''version'', Scalar [''string''] [] (Some (DefString []))),
        (''resource'', Scalar [''string''] [] (Some (DefString [])))]
        None None [''group'', ''version'', ''resource''] [] [],
      oad_Dependencies = []\<rparr>"

definition schema_pkg_apis_meta_v1_InternalEvent :: "(string \<Rightarrow> 'r) \<Rightarrow> 'r OpenAPIDefinition" where
  "schema_pkg_apis_meta_v1_InternalEvent ref =
     \<lparr>oad_Schema = Schema [''object''] [] None None
       [(''Type'', Scalar [''string''] [] (Some (DefString []))),
        (''Object'', Scalar [] [] None)]
        None None [''Type'', ''Object''] [] [],
      oad_Dependencies = []\<rparr>"

definition schema_pkg_apis_meta_v1_LabelSelector :: "(string \<Rightarrow> 'r) \<Rightarrow> 'r OpenAPIDefinition" where
  "schema_pkg_apis_meta_v1_LabelSelector ref =
     \<lparr>oad_Schema = Schema [''object''] [] None None
       [(''matchLabels'', Schema [''object''] [] None None [] None (Some (True, Scalar [''string''] [] (Some (DefString [])))) [] [] []),
        (''matchExpressions'', ArrayOf (Reference (Some DefObject) (ref (model_meta_v1 ''LabelSelectorRequirement'')))
           [(''x-kubernetes-list-type'', ExtString ''atomic'')])]
        None None [] [] [(''x-kubernetes-map-type'', ExtString ''atomic'')],
      oad_Dependencies = [model_meta_v1 ''LabelSelectorRequirement'']\<rparr>"

definition schema_pkg_apis_meta_v1_LabelSelectorRequirement :: "(string \<Rightarrow> 'r) \<Rightarrow> 'r OpenAPIDefinition" where
  "schema_pkg_apis_meta_v1_LabelSelectorRequirement ref =
     \<lparr>oad_Schema = Schema [''object''] [] None None
       [(''key'', Scalar [''string''] [] (Some (DefString []))),
        (''operator'', Scalar [''string''] [] (Some (DefString []))),
        (''values'', ArrayOf (Scalar [''string''] [] (Some (DefString [])))
           [(''x-kubernetes-list-type'', ExtString ''atomic'')])]
        None None [''key'', ''operator''] [] [],
      oad_Dependencies = []\<rparr>"

definition schema_pkg_apis_meta_v1_List :: "(string \<Rightarrow> 'r) \<Rightarrow> 'r OpenAPIDefinition" where
  "schema_pkg_apis_meta_v1_List ref =
     \<lparr>oad_Schema = Schema [''object''] [] None None
       [(''kind'', Scalar [''string''] [] None),
        (''apiVersion'', Scalar [''string''] [] None),
        (''metadata'', Reference (Some DefObject) (ref (model_meta_v1 ''ListMeta''))),
        (''items'', ArrayOf (Reference None (ref (model_runtime ''RawExtension''))) [])]
        None None [''items''] [] [],
      oad_Dependencies = [model_meta_v1 ''ListMeta'', model_runtime ''RawExtension'']\<rparr>"

definition schema_pkg_apis_meta_v1_ListMeta :: "(string \<Rightarrow> 'r) \<Rightarrow> 'r OpenAPIDefinition" where
  "schema_pkg_apis_meta_v1_ListMeta ref =
     \<lparr>oad_Schema = Schema [''object''] [] None None
       [(''selfLink'', Scalar [''string''] [] None),
        (''resourceVersion'', Scalar [''string''] [] None),
        (''continue'', Scalar [''string''] [] None),
        (''remainingItemCount'', Scalar [''integer''] ''int64'' None)]
        None None [] [] [],
      oad_Dependencies = []\<rparr>"

definition schema_pkg_apis_meta_v1_ListOptions :: "(string \<Rightarrow> 'r) \<Rightarrow> 'r OpenAPIDefinition" where
  "schema_pkg_apis_meta_v1_ListOptions ref =
     \<lparr>oad_Schema = Schema [''object''] [] None None
       [(''kind'', Scalar [''string''] [] None),
        (''apiVersion'', Scalar [''string''] [] None),
        (''labelSelector'', Scalar [''string''] [] None),
        (''fieldSelector'', Scalar [''string''] [] None),
        (''watch'', Scalar [''boolean''] [] None),
        (''allowWatchBookmarks'', Scalar [''boolean''] [] None),
        (''resourceVersion'', Scalar [''string''] [] None),
        (''resourceVersionMatch'', Scalar [''string''] [] None),
        (''timeoutSeconds'', Scalar [''integer''] ''int64'' None),
        (''limit'', Scalar [''integer''] ''int64'' None),
        (''continue'', Scalar [''string''] [] None),
        (''sendInitialEvents'', Scalar [''boolean''] [] None)]
        None None [] [] [],
      oad_Dependencies = []\<rparr>"

definition schema_pkg_apis_meta_v1_ManagedFieldsEntry :: "(string \<Rightarrow> 'r) \<Rightarrow> 'r OpenAPIDefinition" where
  "schema_pkg_apis_meta_v1_ManagedFieldsEntry ref =
     \<lparr>oad_Schema = Schema [''object''] [] None None
       [(''manager'', Scalar [''string''] [] None),
        (''operation'', Scalar [''string''] [] None),
        (''apiVersion'', Scalar [''string''] [] None),
        (''time'', Reference None (ref (model_meta_v1 ''Time''))),
        (''fieldsType'', Scalar [''string''] [] None),
        (''fieldsV1'', Reference None (ref (model_meta_v1 ''FieldsV1''))),
        (''subresource'', Scalar [''string''] [] None)]
        None None [] [] [],
      oad_Dependencies = [model_meta_v1 ''FieldsV1'', model_meta_v1 ''Time'']\<rparr>"

definition schema_pkg_apis_meta_v1_MicroTime :: "(string \<Rightarrow> 'r) \<Rightarrow> 'r OpenAPIDefinition" where
  "schema_pkg_apis_meta_v1_MicroTime ref =
     \<lparr>oad_Schema = Scalar MicroTime_OpenAPISchemaType MicroTime_OpenAPISchemaFormat None,
      oad_Dependencies = []\<rparr>"

definition schema_pkg_apis_meta_v1_ObjectMeta :: "(string \<Rightarrow> 'r) \<Rightarrow> 'r OpenAPIDefinition" where
  "schema_pkg_apis_meta_v1_ObjectMeta ref =
     \<lparr>oad_Schema = Schema [''object''] [] None None
       [(''name'', Scalar [''string''] [] None),
        (''generateName'', Scalar [''string''] [] None),
        (''namespace'', Scalar [''string''] [] None),
        (''selfLink'', Scalar [''string''] [] None),
        (''uid'', Scalar [''string''] [] None),
        (''resourceVersion'', Scalar [''string''] [] None),
        (''generation'', Scalar [''integer''] ''int64'' None),
        (''creationTimestamp'', Reference None (ref (model_meta_v1 ''Time''))),
        (''deletionTimestamp'', Reference None (ref (model_meta_v1 ''Time''))),
        (''deletionGracePeriodSeconds'', Scalar [''integer''] ''int64'' None),
        (''labels'', Schema [''object''] [] None None [] None (Some (True, Scalar [''string''] [] (Some (DefString [])))) [] [] []),
        (''annotations'', Schema [''object''] [] None None [] None (Some (True, Scalar [''string''] [] (Some (DefString [])))) [] [] []),
        (''ownerReferences'', ArrayOf (Reference (Some DefObject) (ref (model_meta_v1 ''OwnerReference'')))
           [(''x-kubernetes-list-map-keys'', ExtStrings [''uid'']), (''x-kubernetes-list-type'', ExtString ''map''), (''x-kubernetes-patch-merge-key'', ExtString ''uid''), (''x-kubernetes-patch-strategy'', ExtString ''merge'')]),
        (''finalizers'', ArrayOf (Scalar [''string''] [] (Some (DefString [])))
           [(''x-kubernetes-list-type'', ExtString ''set''), (''x-kubernetes-patch-strategy'', ExtString ''merge'')]),
        (''managedFields'', ArrayOf (Reference (Some DefObject) (ref (model_meta_v1 ''ManagedFieldsEntry'')))
           [(''x-kubernetes-list-type'', ExtString ''atomic'')])]
        None None [] [] [],
      oad_Dependencies = [model_meta_v1 ''ManagedFieldsEntry'', model_meta_v1 ''OwnerReference'',
         model_meta_v1 ''Time'']\<rparr>"

definition schema_pkg_apis_meta_v1_OwnerReference :: "(string \<Rightarrow> 'r) \<Rightarrow> 'r OpenAPIDefinition" where
  "schema_pkg_apis_meta_v1_OwnerReference ref =
     \<lparr>oad_Schema = Schema [''object''] [] None None
       [(''apiVersion'', Scalar [''string''] [] (Some (DefString []))),
        (''kind'', Scalar [''string''] [] (Some (DefString []))),
        (''name'', Scalar [''string''] [] (Some (DefString []))),
        (''uid'', Scalar [''string''] [] (Some (DefString []))),
        (''controller'', Scalar [''boolean''] [] None),
        (''blockOwnerDeletion'', Scalar [''boolean''] [] None)]
        None None [''apiVersion'', ''kind'', ''name'', ''uid''] [] [(''x-kubernetes-map-type'', ExtString ''atomic'')],
      oad_Dependencies = []\<rparr>"

definition schema_pkg_apis_meta_v1_PartialObjectMetadata :: "(string \<Rightarrow> 'r) \<Rightarrow> 'r OpenAPIDefinition" where
  "schema_pkg_apis_meta_v1_PartialObjectMetadata ref =
     \<lparr>oad_Schema = Schema [''object''] [] None None
       [(''kind'', Scalar [''string''] [] None),
        (''apiVersion'', Scalar [''string''] [] None),
        (''metadata'', Reference (Some DefObject) (ref (model_meta_v1 ''ObjectMeta'')))]
        None None [] [] [],
      oad_Dependencies = [model_meta_v1 ''ObjectMeta'']\<rparr>"

definition schema_pkg_apis_meta_v1_PartialObjectMetadataList :: "(string \<Rightarrow> 'r) \<Rightarrow> 'r OpenAPIDefinition" where
  "schema_pkg_apis_meta_v1_PartialObjectMetadataList ref =
     \<lparr>oad_Schema = Schema [''object''] [] None None
       [(''kind'', Scalar [''string''] [] None),
        (''apiVersion'', Scalar [''string''] [] None),
        (''metadata'', Reference (Some DefObject) (ref (model_meta_v1 ''ListMeta''))),
        (''items'', ArrayOf (Reference (Some DefObject) (ref (model_meta_v1 ''PartialObjectMetadata''))) [])]
        None None [''items''] [] [],
      oad_Dependencies = [model_meta_v1 ''ListMeta'', model_meta_v1 ''PartialObjectMetadata'']\<rparr>"

definition schema_pkg_apis_meta_v1_Patch :: "(string \<Rightarrow> 'r) \<Rightarrow> 'r OpenAPIDefinition" where
  "schema_pkg_apis_meta_v1_Patch ref =
     \<lparr>oad_Schema = Scalar [''object''] [] None,
      oad_Dependencies = []\<rparr>"

definition schema_pkg_apis_meta_v1_PatchOptions :: "(string \<Rightarrow> 'r) \<Rightarrow> 'r OpenAPIDefinition" where
  "schema_pkg_apis_meta_v1_PatchOptions ref =
     \<lparr>oad_Schema = Schema [''object''] [] None None
       [(''kind'', Scalar [''string''] [] None),
        (''apiVersion'', Scalar [''string''] [] None),
        (''dryRun'', ArrayOf (Scalar [''string''] [] (Some (DefString [])))
           [(''x-kubernetes-list-type'', ExtString ''atomic'')]),
        (''force'', Scalar [''boolean''] [] None),
        (''fieldManager'', Scalar [''string''] [] None),
        (''fieldValidation'', Scalar [''string''] [] None)]
        None None [] [] [],
      oad_Dependencies = []\<rparr>"

definition schema_pkg_apis_meta_v1_Preconditions :: "(string \<Rightarrow> 'r) \<Rightarrow> 'r OpenAPIDefinition" where
  "schema_pkg_apis_meta_v1_Preconditions ref =
     \<lparr>oad_Schema = Schema [''object''] [] None None
       [(''uid'', Scalar [''string''] [] None),
        (''resourceVersion'', Scalar [''string''] [] None)]
        None None [] [] [],
      oad_Dependencies = []\<rparr>"

definition schema_pkg_apis_meta_v1_RootPaths :: "(string \<Rightarrow> 'r) \<Rightarrow> 'r OpenAPIDefinition" where
  "schema_pkg_apis_meta_v1_RootPaths ref =
     \<lparr>oad_Schema = Schema [''object''] [] None None
       [(''paths'', ArrayOf (Scalar [''string''] [] (Some (DefString [])))
          [(''x-kubernetes-list-type'', ExtString ''atomic'')])]
        None None [''paths''] [] [],
      oad_Dependencies = []\<rparr>"

definition schema_pkg_apis_meta_v1_ServerAddressByClientCIDR :: "(string \<Rightarrow> 'r) \<Rightarrow> 'r OpenAPIDefinition" where
  "schema_pkg_apis_meta_v1_ServerAddressByClientCIDR ref =
     \<lparr>oad_Schema = Schema [''object''] [] None None
       [(''clientCIDR'', Scalar [''string''] [] (Some (DefString []))),
        (''serverAddress'', Scalar [''string''] [] (Some (DefString [])))]
        None None [''clientCIDR'', ''serverAddress''] [] [],
      oad_Dependencies = []\<rparr>"

definition schema_pkg_apis_meta_v1_Status :: "(string \<Rightarrow> 'r) \<Rightarrow> 'r OpenAPIDefinition" where
  "schema_pkg_apis_meta_v1_Status ref =
     \<lparr>oad_Schema = Schema [''object''] [] None None
       [(''kind'', Scalar [''string''] [] None),
        (''apiVersion'', Scalar [''string''] [] None),
        (''metadata'', Reference (Some DefObject) (ref (model_meta_v1 ''ListMeta''))),
        (''status'', Scalar [''string''] [] None),
        (''message'', Scalar [''string''] [] None),
        (''reason'', Scalar [''string''] [] None),
        (''details'', Reference None (ref (model_meta_v1 ''StatusDetails''))),
        (''code'', Scalar [''integer''] ''int32'' None)]
        None None [] [] [],
      oad_Dependencies = [model_meta_v1 ''ListMeta'', model_meta_v1 ''StatusDetails'']\<rparr>"

definition schema_pkg_apis_meta_v1_StatusCause :: "(string \<Rightarrow> 'r) \<Rightarrow> 'r OpenAPIDefinition" where
  "schema_pkg_apis_meta_v1_StatusCause ref =
     \<lparr>oad_Schema = Schema [''object''] [] None None
       [(''reason'', Scalar [''string''] [] None),
        (''message'', Scalar [''string''] [] None),
        (''field'', Scalar [''string''] [] None)]
        None None [] [] [],
      oad_Dependencies = []\<rparr>"

definition schema_pkg_apis_meta_v1_StatusDetails :: "(string \<Rightarrow> 'r) \<Rightarrow> 'r OpenAPIDefinition" where
  "schema_pkg_apis_meta_v1_StatusDetails ref =
     \<lparr>oad_Schema = Schema [''object''] [] None None
       [(''name'', Scalar [''string''] [] None),
        (''group'', Scalar [''string''] [] None),
        (''kind'', Scalar [''string''] [] None),
        (''uid'', Scalar [''string''] [] None),
        (''causes'', ArrayOf (Reference (Some DefObject) (ref (model_meta_v1 ''StatusCause'')))
           [(''x-kubernetes-list-type'', ExtString ''atomic'')]),
        (''retryAfterSeconds'', Scalar [''integer''] ''int32'' None)]
        None None [] [] [],
      oad_Dependencies = [model_meta_v1 ''StatusCause'']\<rparr>"

definition schema_pkg_apis_meta_v1_Table :: "(string \<Rightarrow> 'r) \<Rightarrow> 'r OpenAPIDefinition" where
  "schema_pkg_apis_meta_v1_Table ref =
     \<lparr>oad_Schema = Schema [''object''] [] None None
       [(''kind'', Scalar [''string''] [] None),
        (''apiVersion'', Scalar [''string''] [] None),
        (''metadata'', Reference (Some DefObject) (ref (model_meta_v1 ''ListMeta''))),
        (''columnDefinitions'', ArrayOf (Reference (Some DefObject) (ref (model_meta_v1 ''TableColumnDefinition'')))
           [(''x-kubernetes-list-type'', ExtString ''atomic'')]),
        (''rows'', ArrayOf (Reference (Some DefObject) (ref (model_meta_v1 ''TableRow'')))
           [(''x-kubernetes-list-type'', ExtString ''atomic'')])]
        None None [''columnDefinitions'', ''rows''] [] [],
      oad_Dependencies = [model_meta_v1 ''ListMeta'', model_meta_v1 ''TableColumnDefinition'',
         model_meta_v1 ''TableRow'']\<rparr>"

definition schema_pkg_apis_meta_v1_TableColumnDefinition :: "(string \<Rightarrow> 'r) \<Rightarrow> 'r OpenAPIDefinition" where
  "schema_pkg_apis_meta_v1_TableColumnDefinition ref =
     \<lparr>oad_Schema = Schema [''object''] [] None None
       [(''name'', Scalar [''string''] [] (Some (DefString []))),
        (''type'', Scalar [''string''] [] (Some (DefString []))),
        (''format'', Scalar [''string''] [] (Some (DefString []))),
        (''description'', Scalar [''string''] [] (Some (DefString []))),
        (''priority'', Scalar [''integer''] ''int32'' (Some (DefInt 0)))]
        None None [''name'', ''type'', ''format'', ''description'', ''priority''] [] [],
      oad_Dependencies = []\<rparr>"

definition schema_pkg_apis_meta_v1_TableOptions :: "(string \<Rightarrow> 'r) \<Rightarrow> 'r OpenAPIDefinition" where
  "schema_pkg_apis_meta_v1_TableOptions ref =
     \<lparr>oad_Schema = Schema [''object''] [] None None
       [(''kind'', Scalar [''string''] [] None),
        (''apiVersion'', Scalar [''string''] [] None),
        (''includeObject'', Scalar [''string''] [] None)]
        None None [] [] [],
      oad_Dependencies = []\<rparr>"

definition schema_pkg_apis_meta_v1_TableRow :: "(string \<Rightarrow> 'r) \<Rightarrow> 'r OpenAPIDefinition" where
  "schema_pkg_apis_meta_v1_TableRow ref =
     \<lparr>oad_Schema = Schema [''object''] [] None None
       [(''cells'', ArrayOf (Scalar [''object''] [] None) [(''x-kubernetes-list-type'', ExtString ''atomic'')]),
        (''conditions'', ArrayOf (Reference (Some DefObject) (ref (model_meta_v1 ''TableRowCondition'')))
           [(''x-kubernetes-list-type'', ExtString ''atomic'')]),
        (''object'', Reference None (ref (model_runtime ''RawExtension'')))]
        None None [''cells''] [] [],
      oad_Dependencies = [model_meta_v1 ''TableRowCondition'', model_runtime ''RawExtension'']\<rparr>"

definition schema_pkg_apis_meta_v1_TableRowCondition :: "(string \<Rightarrow> 'r) \<Rightarrow> 'r OpenAPIDefinition" where
  "schema_pkg_apis_meta_v1_TableRowCondition ref =
     \<lparr>oad_Schema = Schema [''object''] [] None None
       [(''type'', Scalar [''string''] [] (Some (DefString []))),
        (''status'', Scalar [''string''] [] (Some (DefString []))),
        (''reason'', Scalar [''string''] [] None),
        (''message'', Scalar [''string''] [] None)]
        None None [''type'', ''status''] [] [],
      oad_Dependencies = []\<rparr>"

definition schema_pkg_apis_meta_v1_Time :: "(string \<Rightarrow> 'r) \<Rightarrow> 'r OpenAPIDefinition" where
  "schema_pkg_apis_meta_v1_Time ref =
     \<lparr>oad_Schema = Scalar Time_OpenAPISchemaType Time_OpenAPISchemaFormat None,
      oad_Dependencies = []\<rparr>"

definition schema_pkg_apis_meta_v1_Timestamp :: "(string \<Rightarrow> 'r) \<Rightarrow> 'r OpenAPIDefinition" where
  "schema_pkg_apis_meta_v1_Timestamp ref =
     \<lparr>oad_Schema = Schema [''object''] [] None None
       [(''seconds'', Scalar [''integer''] ''int64'' (Some (DefInt 0))),
        (''nanos'', Scalar [''integer''] ''int32'' (Some (DefInt 0)))]
        None None [''seconds'', ''nanos''] [] [],
      oad_Dependencies = []\<rparr>"

definition schema_pkg_apis_meta_v1_TypeMeta :: "(string \<Rightarrow> 'r) \<Rightarrow> 'r OpenAPIDefinition" where
  "schema_pkg_apis_meta_v1_TypeMeta ref =
     \<lparr>oad_Schema = Schema [''object''] [] None None
       [(''kind'', Scalar [''string''] [] None),
        (''apiVersion'', Scalar [''string''] [] None)]
        None None [] [] [],
      oad_Dependencies = []\<rparr>"

definition schema_pkg_apis_meta_v1_UpdateOptions :: "(string \<Rightarrow> 'r) \<Rightarrow> 'r OpenAPIDefinition" where
  "schema_pkg_apis_meta_v1_UpdateOptions ref =
     \<lparr>oad_Schema = Schema [''object''] [] None None
       [(''kind'', Scalar [''string''] [] None),
        (''apiVersion'', Scalar [''string''] [] None),
        (''dryRun'', ArrayOf (Scalar [''string''] [] (Some (DefString [])))
           [(''x-kubernetes-list-type'', ExtString ''atomic'')]),
        (''fieldManager'', Scalar [''string''] [] None),
        (''fieldValidation'', Scalar [''string''] [] None)]
        None None [] [] [],
      oad_Dependencies = []\<rparr>"

definition schema_pkg_apis_meta_v1_WatchEvent :: "(string \<Rightarrow> 'r) \<Rightarrow> 'r OpenAPIDefinition" where
  "schema_pkg_apis_meta_v1_WatchEvent ref =
     \<lparr>oad_Schema = Schema [''object''] [] None None
       [(''type'', Scalar [''string''] [] (Some (DefString []))),
        (''object'', Reference None (ref (model_runtime ''RawExtension'')))]
        None None [''type'', ''object''] [] [],
      oad_Dependencies = [model_runtime ''RawExtension'']\<rparr>"

definition schema_k8sio_apimachinery_pkg_runtime_RawExtension :: "(string \<Rightarrow> 'r) \<Rightarrow> 'r OpenAPIDefinition" where
  "schema_k8sio_apimachinery_pkg_runtime_RawExtension ref =
     \<lparr>oad_Schema = Scalar [''object''] [] None,
      oad_Dependencies = []\<rparr>"

definition schema_k8sio_apimachinery_pkg_runtime_TypeMeta :: "(string \<Rightarrow> 'r) \<Rightarrow> 'r OpenAPIDefinition" where
  "schema_k8sio_apimachinery_pkg_runtime_TypeMeta ref =
     \<lparr>oad_Schema = Schema [''object''] [] None None
       [(''apiVersion'', Scalar [''string''] [] None),
        (''kind'', Scalar [''string''] [] None)]
        None None [] [] [],
      oad_Dependencies = []\<rparr>"

definition schema_k8sio_apimachinery_pkg_runtime_Unknown :: "(string \<Rightarrow> 'r) \<Rightarrow> 'r OpenAPIDefinition" where
  "schema_k8sio_apimachinery_pkg_runtime_Unknown ref =
     \<lparr>oad_Schema = Schema [''object''] [] None None
       [(''apiVersion'', Scalar [''string''] [] None),
        (''kind'', Scalar [''string''] [] None),
        (''ContentEncoding'', Scalar [''string''] [] (Some (DefString []))),
        (''ContentType'', Scalar [''string''] [] (Some (DefString [])))]
        None None [''ContentEncoding'', ''ContentType''] [] [],
      oad_Dependencies = []\<rparr>"

definition schema_k8sio_apimachinery_pkg_version_Info :: "(string \<Rightarrow> 'r) \<Rightarrow> 'r OpenAPIDefinition" where
  "schema_k8sio_apimachinery_pkg_version_Info ref =
     \<lparr>oad_Schema = Schema [''object''] [] None None
       [(''major'', Scalar [''string''] [] (Some (DefString []))),
        (''minor'', Scalar [''string''] [] (Some (DefString []))),
        (''emulationMajor'', Scalar [''string''] [] None),
        (''emulationMinor'', Scalar [''string''] [] None),
        (''minCompatibilityMajor'', Scalar [''string''] [] None),
        (''minCompatibilityMinor'', Scalar [''string''] [] None),
        (''gitVersion'', Scalar [''string''] [] (Some (DefString []))),
        (''gitCommit'', Scalar [''string''] [] (Some (DefString []))),
        (''gitTreeState'', Scalar [''string''] [] (Some (DefString []))),
        (''buildDate'', Scalar [''string''] [] (Some (DefString []))),
        (''goVersion'', Scalar [''string''] [] (Some (DefString []))),
        (''compiler'', Scalar [''string''] [] (Some (DefString []))),
        (''platform'', Scalar [''string''] [] (Some (DefString [])))]
        None None [''major'', ''minor'', ''gitVersion'', ''gitCommit'', ''gitTreeState'', ''buildDate'',
          ''goVersion'', ''compiler'', ''platform''] [] [],
      oad_Dependencies = []\<rparr>"

definition GetOpenAPIDefinitions :: "(string \<Rightarrow> 'r) \<Rightarrow> (string \<times> 'r OpenAPIDefinition) list" where
  "GetOpenAPIDefinitions ref =
     [(model_v1alpha1 ''Manifest'', schema_pkg_apis_core_v1alpha1_Manifest ref),
      (model_v1alpha1 ''ManifestList'', schema_pkg_apis_core_v1alpha1_ManifestList ref),
      (model_v1alpha1 ''ManifestSpec'', schema_pkg_apis_core_v1alpha1_ManifestSpec ref),
      (model_v1alpha1 ''ManifestStatus'', schema_pkg_apis_core_v1alpha1_ManifestStatus ref),
      (model_resource ''Quantity'', schema_apimachinery_pkg_api_resource_Quantity ref),
      (model_meta_v1 ''APIGroup'', schema_pkg_apis_meta_v1_APIGroup ref),
      (model_meta_v1 ''APIGroupList'', schema_pkg_apis_meta_v1_APIGroupList ref),
      (model_meta_v1 ''APIResource'', schema_pkg_apis_meta_v1_APIResource ref),
      (model_meta_v1 ''APIResourceList'', schema_pkg_apis_meta_v1_APIResourceList ref),
      (model_meta_v1 ''APIVersions'', schema_pkg_apis_meta_v1_APIVersions ref),
      (model_meta_v1 ''ApplyOptions'', schema_pkg_apis_meta_v1_ApplyOptions ref),
      (model_meta_v1 ''Condition'', schema_pkg_apis_meta_v1_Condition ref),
      (model_meta_v1 ''CreateOptions'', schema_pkg_apis_meta_v1_CreateOptions ref),
      (model_meta_v1 ''DeleteOptions'', schema_pkg_apis_meta_v1_DeleteOptions ref),
      (model_meta_v1 ''Duration'', schema_pkg_apis_meta_v1_Duration ref),
      (model_meta_v1 ''FieldSelectorRequirement'', schema_pkg_apis_meta_v1_FieldSelectorRequirement ref),
      (model_meta_v1 ''FieldsV1'', schema_pkg_apis_meta_v1_FieldsV1 ref),
      (model_meta_v1 ''GetOptions'', schema_pkg_apis_meta_v1_GetOptions ref),
      (model_meta_v1 ''GroupKind'', schema_pkg_apis_meta_v1_GroupKind ref),
      (model_meta_v1 ''GroupResource'', schema_pkg_apis_meta_v1_GroupResource ref),
      (model_meta_v1 ''GroupVersion'', schema_pkg_apis_meta_v1_GroupVersion ref),
      (model_meta_v1 ''GroupVersionForDiscovery'', schema_pkg_apis_meta_v1_GroupVersionForDiscovery ref),
      (model_meta_v1 ''GroupVersionKind'', schema_pkg_apis_meta_v1_GroupVersionKind ref),
      (model_meta_v1 ''GroupVersionResource'', schema_pkg_apis_meta_v1_GroupVersionResource ref),
      (model_meta_v1 ''InternalEvent'', schema_pkg_apis_meta_v1_InternalEvent ref),
      (model_meta_v1 ''LabelSelector'', schema_pkg_apis_meta_v1_LabelSelector ref),
      (model_meta_v1 ''LabelSelectorRequirement'', schema_pkg_apis_meta_v1_LabelSelectorRequirement ref),
      (model_meta_v1 ''List'', schema_pkg_apis_meta_v1_List ref),
      (model_meta_v1 ''ListMeta'', schema_pkg_apis_meta_v1_ListMeta ref),
      (model_meta_v1 ''ListOptions'', schema_pkg_apis_meta_v1_ListOptions ref),
      (model_meta_v1 ''ManagedFieldsEntry'', schema_pkg_apis_meta_v1_ManagedFieldsEntry ref),
      (model_meta_v1 ''MicroTime'', schema_pkg_apis_meta_v1_MicroTime ref),
      (model_meta_v1 ''ObjectMeta'', schema_pkg_apis_meta_v1_ObjectMeta ref),
      (model_meta_v1 ''OwnerReference'', schema_pkg_apis_meta_v1_OwnerReference ref),
      (model_meta_v1 ''PartialObjectMetadata'', schema_pkg_apis_meta_v1_PartialObjectMetadata ref),
      (model_meta_v1 ''PartialObjectMetadataList'', schema_pkg_apis_meta_v1_PartialObjectMetadataList ref),
      (model_meta_v1 ''Patch'', schema_pkg_apis_meta_v1_Patch ref),
      (model_meta_v1 ''PatchOptions'', schema_pkg_apis_meta_v1_PatchOptions ref),
      (model_meta_v1 ''Preconditions'', schema_pkg_apis_meta_v1_Preconditions ref),
      (model_meta_v1 ''RootPaths'', schema_pkg_apis_meta_v1_RootPaths ref),
      (model_meta_v1 ''ServerAddressByClientCIDR'', schema_pkg_apis_meta_v1_ServerAddressByClientCIDR ref),
      (model_meta_v1 ''Status'', schema_pkg_apis_meta_v1_Status ref),
      (model_meta_v1 ''StatusCause'', schema_pkg_apis_meta_v1_StatusCause ref),
      (model_meta_v1 ''StatusDetails'', schema_pkg_apis_meta_v1_StatusDetails ref),
      (model_meta_v1 ''Table'', schema_pkg_apis_meta_v1_Table ref),
      (model_meta_v1 ''TableColumnDefinition'', schema_pkg_apis_meta_v1_TableColumnDefinition ref),
      (model_meta_v1 ''TableOptions'', schema_pkg_apis_meta_v1_TableOptions ref),
      (model_meta_v1 ''TableRow'', schema_pkg_apis_meta_v1_TableRow ref),
      (model_meta_v1 ''TableRowCondition'', schema_pkg_apis_meta_v1_TableRowCondition ref),
      (model_meta_v1 ''Time'', schema_pkg_apis_meta_v1_Time ref),
      (model_meta_v1 ''Timestamp'', schema_pkg_apis_meta_v1_Timestamp ref),
      (model_meta_v1 ''TypeMeta'', schema_pkg_apis_meta_v1_TypeMeta ref),
      (model_meta_v1 ''UpdateOptions'', schema_pkg_apis_meta_v1_UpdateOptions ref),
      (model_meta_v1 ''WatchEvent'', schema_pkg_apis_meta_v1_WatchEvent ref),
      (model_runtime ''RawExtension'', schema_k8sio_apimachinery_pkg_runtime_RawExtension ref),
      (model_runtime ''TypeMeta'', schema_k8sio_apimachinery_pkg_runtime_TypeMeta ref),
      (model_runtime ''Unknown'', schema_k8sio_apimachinery_pkg_runtime_Unknown ref),
      (model_version ''Info'', schema_k8sio_apimachinery_pkg_version_Info ref)]"

end
