(* ===== verification/Openapi_Props.thy ===== *)
theory Openapi_Props
  imports Openapi_Defs
begin

text \<open>
  The OpenAPI definitions are self-contained: the document that the server builds from them has no
  dangling reference. Names of different packages never collide.
\<close>

section \<open>Names\<close>

lemma model_names [simp]:
  "model_v1alpha1 a = model_v1alpha1 b \<longleftrightarrow> a = b"
  "model_meta_v1 a = model_meta_v1 b \<longleftrightarrow> a = b"
  "model_resource a = model_resource b \<longleftrightarrow> a = b"
  "model_runtime a = model_runtime b \<longleftrightarrow> a = b"
  "model_version a = model_version b \<longleftrightarrow> a = b"
  by (simp_all add: model_v1alpha1_def model_meta_v1_def model_resource_def model_runtime_def model_version_def)

lemma model_groups [simp]:
  "model_v1alpha1 a \<noteq> model_meta_v1 b" "model_meta_v1 a \<noteq> model_v1alpha1 b"
  "model_v1alpha1 a \<noteq> model_resource b" "model_resource a \<noteq> model_v1alpha1 b"
  "model_v1alpha1 a \<noteq> model_runtime b" "model_runtime a \<noteq> model_v1alpha1 b"
  "model_v1alpha1 a \<noteq> model_version b" "model_version a \<noteq> model_v1alpha1 b"
  "model_meta_v1 a \<noteq> model_resource b" "model_resource a \<noteq> model_meta_v1 b"
  "model_meta_v1 a \<noteq> model_runtime b" "model_runtime a \<noteq> model_meta_v1 b"
  "model_meta_v1 a \<noteq> model_version b" "model_version a \<noteq> model_meta_v1 b"
  "model_resource a \<noteq> model_runtime b" "model_runtime a \<noteq> model_resource b"
  "model_resource a \<noteq> model_version b" "model_version a \<noteq> model_resource b"
  "model_runtime a \<noteq> model_version b" "model_version a \<noteq> model_runtime b"
  by (simp_all add: model_v1alpha1_def model_meta_v1_def model_resource_def model_runtime_def model_version_def)

section \<open>Closure\<close>

text \<open>A definition is in order with respect to the names \<open>keys\<close> of a document: the properties of its
  schema have different names and include the required ones; the references that occur anywhere in
  the schema (in properties, items, additional properties, alternatives and extensions) are the
  references to the listed dependencies, no more and no less; and the document defines all of them.\<close>

definition schema_wf :: "'r Schema \<Rightarrow> bool" where
  "schema_wf s \<longleftrightarrow> distinct (map fst (sch_Properties s)) \<and> set (sch_Required s) \<subseteq> fst ` set (sch_Properties s)"

definition definition_ok :: "(string \<Rightarrow> 'r) \<Rightarrow> string list \<Rightarrow> 'r OpenAPIDefinition \<Rightarrow> bool" where
  "definition_ok ref keys d \<longleftrightarrow>
     schema_wf (oad_Schema d) \<and>
     set_Schema (oad_Schema d) = ref ` set (oad_Dependencies d) \<and>
     set (oad_Dependencies d) \<subseteq> set keys"

lemmas openapi_defs =
  schema_pkg_apis_core_v1alpha1_Manifest_def schema_pkg_apis_core_v1alpha1_ManifestList_def
  schema_pkg_apis_core_v1alpha1_ManifestSpec_def schema_pkg_apis_core_v1alpha1_ManifestStatus_def
  schema_apimachinery_pkg_api_resource_Quantity_def schema_apimachinery_pkg_api_resource_int64Amount_def
  schema_pkg_apis_meta_v1_APIGroup_def schema_pkg_apis_meta_v1_APIGroupList_def
  schema_pkg_apis_meta_v1_APIResource_def schema_pkg_apis_meta_v1_APIResourceList_def
  schema_pkg_apis_meta_v1_APIVersions_def schema_pkg_apis_meta_v1_ApplyOptions_def
  schema_pkg_apis_meta_v1_Condition_def schema_pkg_apis_meta_v1_CreateOptions_def
  schema_pkg_apis_meta_v1_DeleteOptions_def schema_pkg_apis_meta_v1_Duration_def
  schema_pkg_apis_meta_v1_FieldSelectorRequirement_def schema_pkg_apis_meta_v1_FieldsV1_def
  schema_pkg_apis_meta_v1_GetOptions_def schema_pkg_apis_meta_v1_GroupKind_def
  schema_pkg_apis_meta_v1_GroupResource_def schema_pkg_apis_meta_v1_GroupVersion_def
  schema_pkg_apis_meta_v1_GroupVersionForDiscovery_def schema_pkg_apis_meta_v1_GroupVersionKind_def
  schema_pkg_apis_meta_v1_GroupVersionResource_def schema_pkg_apis_meta_v1_InternalEvent_def
  schema_pkg_apis_meta_v1_LabelSelector_def schema_pkg_apis_meta_v1_LabelSelectorRequirement_def
  schema_pkg_apis_meta_v1_List_def schema_pkg_apis_meta_v1_ListMeta_def schema_pkg_apis_meta_v1_ListOptions_def
  schema_pkg_apis_meta_v1_ManagedFieldsEntry_def schema_pkg_apis_meta_v1_MicroTime_def
  schema_pkg_apis_meta_v1_ObjectMeta_def schema_pkg_apis_meta_v1_OwnerReference_def
  schema_pkg_apis_meta_v1_PartialObjectMetadata_def schema_pkg_apis_meta_v1_PartialObjectMetadataList_def
  schema_pkg_apis_meta_v1_Patch_def schema_pkg_apis_meta_v1_PatchOptions_def schema_pkg_apis_meta_v1_Preconditions_def
  schema_pkg_apis_meta_v1_RootPaths_def schema_pkg_apis_meta_v1_ServerAddressByClientCIDR_def
  schema_pkg_apis_meta_v1_Status_def schema_pkg_apis_meta_v1_StatusCause_def schema_pkg_apis_meta_v1_StatusDetails_def
  schema_pkg_apis_meta_v1_Table_def schema_pkg_apis_meta_v1_TableColumnDefinition_def
  schema_pkg_apis_meta_v1_TableOptions_def schema_pkg_apis_meta_v1_TableRow_def
  schema_pkg_apis_meta_v1_TableRowCondition_def schema_pkg_apis_meta_v1_Time_def schema_pkg_apis_meta_v1_Timestamp_def
  schema_pkg_apis_meta_v1_TypeMeta_def schema_pkg_apis_meta_v1_UpdateOptions_def
  schema_pkg_apis_meta_v1_WatchEvent_def schema_k8sio_apimachinery_pkg_runtime_RawExtension_def
  schema_k8sio_apimachinery_pkg_runtime_TypeMeta_def schema_k8sio_apimachinery_pkg_runtime_Unknown_def
  schema_k8sio_apimachinery_pkg_version_Info_def

text \<open>C37. The OpenAPI document is closed, for every way to write references: each name is defined once,
  and every definition lists exactly the definitions it refers to, all of which are in the document,
  and requires only properties that it has.\<close>

theorem OpenAPI_closed:
  "distinct (map fst (GetOpenAPIDefinitions ref)) \<and>
   list_all (\<lambda>(n, d). definition_ok ref (map fst (GetOpenAPIDefinitions ref)) d) (GetOpenAPIDefinitions ref)"
proof
  let ?keys = "map fst (GetOpenAPIDefinitions ref)"
  show "distinct ?keys" by (simp add: GetOpenAPIDefinitions_def)
  have deps: "set (oad_Dependencies d) \<subseteq> set ?keys" if "(n, d) \<in> set (GetOpenAPIDefinitions ref)" for n d
  proof -
    have "set (concat (map (\<lambda>d. oad_Dependencies (snd d)) (GetOpenAPIDefinitions ref))) \<subseteq> set ?keys"
      unfolding GetOpenAPIDefinitions_def
      by (simp add: openapi_defs EmbedOpenAPIDefinitionIntoV2Extension_def)
    with that show ?thesis by fastforce
  qed
  have refs: "list_all (\<lambda>(n, d). schema_wf (oad_Schema d) \<and>
     set_Schema (oad_Schema d) = ref ` set (oad_Dependencies d)) (GetOpenAPIDefinitions ref)"
    unfolding GetOpenAPIDefinitions_def
    by (simp add: openapi_defs schema_wf_def insert_commute EmbedOpenAPIDefinitionIntoV2Extension_def GenerateOpenAPIV3OneOfSchema_def)
  show "list_all (\<lambda>(n, d). definition_ok ref ?keys d) (GetOpenAPIDefinitions ref)"
    using refs deps unfolding list_all_iff definition_ok_def split_beta by (metis prod.collapse)
qed

end
