(* ===== verification/Apply_Config.thy ===== *)
theory Apply_Config
  imports Scheme "HOL-Library.AList"
begin

text \<open>
  The generated apply configurations of \<open>pkg/generated/applyconfiguration\<close>: partial objects that a
  client builds with a chain of calls and sends in an apply request. A field that no call has set is
  nil and is left out of the request.

  A configuration refers to its spec and its status by pointers that the caller keeps, so these live
  in a store and have an address: a message that is set after \<open>WithSpec\<close> is seen by the
  configuration. All other fields are values that the configuration owns; \<open>'o\<close> is the type of owner
  references. A panic is \<open>None\<close>.
\<close>

section \<open>Definitions\<close>

subsection \<open>Specs and statuses\<close>

record ManifestSpecApplyConfiguration =
  spec_Message :: "string option"

record ManifestStatusApplyConfiguration =
  status_Message :: "string option"

type_synonym address = nat

record store_of_configs =
  sc_specs :: "ManifestSpecApplyConfiguration list"
  sc_statuses :: "ManifestStatusApplyConfiguration list"

definition ManifestSpec_apply :: "store_of_configs \<Rightarrow> store_of_configs \<times> address" where
  "ManifestSpec_apply st = (st\<lparr>sc_specs := sc_specs st @ [\<lparr>spec_Message = None\<rparr>]\<rparr>, length (sc_specs st))"

definition ManifestSpec_WithMessage :: "address \<Rightarrow> string \<Rightarrow> store_of_configs \<Rightarrow> store_of_configs \<times> address" where
  "ManifestSpec_WithMessage b value st =
     (st\<lparr>sc_specs := (sc_specs st)[b := (sc_specs st ! b)\<lparr>spec_Message := Some value\<rparr>]\<rparr>, b)"

definition ManifestStatus_apply :: "store_of_configs \<Rightarrow> store_of_configs \<times> address" where
  "ManifestStatus_apply st = (st\<lparr>sc_statuses := sc_statuses st @ [\<lparr>status_Message = None\<rparr>]\<rparr>, length (sc_statuses st))"

definition ManifestStatus_WithMessage :: "address \<Rightarrow> string \<Rightarrow> store_of_configs \<Rightarrow> store_of_configs \<times> address" where
  "ManifestStatus_WithMessage b value st =
     (st\<lparr>sc_statuses := (sc_statuses st)[b := (sc_statuses st ! b)\<lparr>status_Message := Some value\<rparr>]\<rparr>, b)"

subsection \<open>Manifests\<close>

text \<open>The vendored \<open>ObjectMetaApplyConfiguration\<close>. A map may be nil (\<open>None\<close>).\<close>

record 'o ObjectMetaApplyConfiguration =
  am_Name :: "string option"
  am_GenerateName :: "string option"
  am_Namespace :: "string option"
  am_UID :: "string option"
  am_ResourceVersion :: "string option"
  am_Generation :: "int option"
  am_CreationTimestamp :: "int option"
  am_DeletionTimestamp :: "int option"
  am_DeletionGracePeriodSeconds :: "int option"
  am_Labels :: "(string \<times> string) list option"
  am_Annotations :: "(string \<times> string) list option"
  am_OwnerReferences :: "'o list"
  am_Finalizers :: "string list"

definition no_meta :: "'o ObjectMetaApplyConfiguration" where
  "no_meta = \<lparr>am_Name = None, am_GenerateName = None, am_Namespace = None, am_UID = None, am_ResourceVersion = None,
     am_Generation = None, am_CreationTimestamp = None, am_DeletionTimestamp = None, am_DeletionGracePeriodSeconds = None,
     am_Labels = None, am_Annotations = None, am_OwnerReferences = [], am_Finalizers = []\<rparr>"

record 'o ManifestApplyConfiguration =
  ac_Kind :: "string option"
  ac_APIVersion :: "string option"
  ac_ObjectMeta :: "'o ObjectMetaApplyConfiguration option"
  ac_Spec :: "address option"
  ac_Status :: "address option"

type_synonym 'o ac = "'o ManifestApplyConfiguration"

definition WithKind_apply :: "string \<Rightarrow> 'o ac \<Rightarrow> 'o ac" where
  "WithKind_apply value b = b\<lparr>ac_Kind := Some value\<rparr>"

definition WithAPIVersion :: "string \<Rightarrow> 'o ac \<Rightarrow> 'o ac" where
  "WithAPIVersion value b = b\<lparr>ac_APIVersion := Some value\<rparr>"

definition ensureObjectMetaApplyConfigurationExists :: "'o ac \<Rightarrow> 'o ac" where
  "ensureObjectMetaApplyConfigurationExists b =
     (case ac_ObjectMeta b of None \<Rightarrow> b\<lparr>ac_ObjectMeta := Some no_meta\<rparr> | Some _ \<Rightarrow> b)"

text \<open>An assignment to a field of the metadata after \<open>ensureObjectMetaApplyConfigurationExists\<close>.\<close>

definition set_meta_field :: "('o ObjectMetaApplyConfiguration \<Rightarrow> 'o ObjectMetaApplyConfiguration) \<Rightarrow> 'o ac \<Rightarrow> 'o ac" where
  "set_meta_field f b = (let b' = ensureObjectMetaApplyConfigurationExists b in b'\<lparr>ac_ObjectMeta := map_option f (ac_ObjectMeta b')\<rparr>)"

definition WithName :: "string \<Rightarrow> 'o ac \<Rightarrow> 'o ac" where
  "WithName value b = set_meta_field (\<lambda>m. m\<lparr>am_Name := Some value\<rparr>) b"

definition WithGenerateName :: "string \<Rightarrow> 'o ac \<Rightarrow> 'o ac" where
  "WithGenerateName value b = set_meta_field (\<lambda>m. m\<lparr>am_GenerateName := Some value\<rparr>) b"

definition WithNamespace_apply :: "string \<Rightarrow> 'o ac \<Rightarrow> 'o ac" where
  "WithNamespace_apply value b = set_meta_field (\<lambda>m. m\<lparr>am_Namespace := Some value\<rparr>) b"

definition WithUID :: "string \<Rightarrow> 'o ac \<Rightarrow> 'o ac" where
  "WithUID value b = set_meta_field (\<lambda>m. m\<lparr>am_UID := Some value\<rparr>) b"

definition WithResourceVersion :: "string \<Rightarrow> 'o ac \<Rightarrow> 'o ac" where
  "WithResourceVersion value b = set_meta_field (\<lambda>m. m\<lparr>am_ResourceVersion := Some value\<rparr>) b"

definition WithGeneration :: "int \<Rightarrow> 'o ac \<Rightarrow> 'o ac" where
  "WithGeneration value b = set_meta_field (\<lambda>m. m\<lparr>am_Generation := Some value\<rparr>) b"

definition WithCreationTimestamp :: "int \<Rightarrow> 'o ac \<Rightarrow> 'o ac" where
  "WithCreationTimestamp value b = set_meta_field (\<lambda>m. m\<lparr>am_CreationTimestamp := Some value\<rparr>) b"

definition WithDeletionTimestamp :: "int \<Rightarrow> 'o ac \<Rightarrow> 'o ac" where
  "WithDeletionTimestamp value b = set_meta_field (\<lambda>m. m\<lparr>am_DeletionTimestamp := Some value\<rparr>) b"

definition WithDeletionGracePeriodSeconds :: "int \<Rightarrow> 'o ac \<Rightarrow> 'o ac" where
  "WithDeletionGracePeriodSeconds value b = set_meta_field (\<lambda>m. m\<lparr>am_DeletionGracePeriodSeconds := Some value\<rparr>) b"

text \<open>Assigning entries to a map: a nil map is only made when there is an entry to assign.\<close>

definition put_entries :: "(string \<times> string) list \<Rightarrow> (string \<times> string) list option \<Rightarrow> (string \<times> string) list option" where
  "put_entries entries mp =
     (let mp' = (if mp = None \<and> entries \<noteq> [] then Some [] else mp)
      in map_option (\<lambda>m. foldl (\<lambda>m (k, v). AList.update k v m) m entries) mp')"

definition WithLabels :: "(string \<times> string) list \<Rightarrow> 'o ac \<Rightarrow> 'o ac" where
  "WithLabels entries b = set_meta_field (\<lambda>m. m\<lparr>am_Labels := put_entries entries (am_Labels m)\<rparr>) b"

definition WithAnnotations :: "(string \<times> string) list \<Rightarrow> 'o ac \<Rightarrow> 'o ac" where
  "WithAnnotations entries b = set_meta_field (\<lambda>m. m\<lparr>am_Annotations := put_entries entries (am_Annotations m)\<rparr>) b"

fun append_owners :: "'o option list \<Rightarrow> 'o ac \<Rightarrow> 'o ac option" where
  "append_owners [] b = Some b"
| "append_owners (None # vs) b = None"
| "append_owners (Some v # vs) b = append_owners vs (set_meta_field (\<lambda>m. m\<lparr>am_OwnerReferences := am_OwnerReferences m @ [v]\<rparr>) b)"

definition WithOwnerReferences :: "'o option list \<Rightarrow> 'o ac \<Rightarrow> 'o ac option" where
  "WithOwnerReferences values b = append_owners values (ensureObjectMetaApplyConfigurationExists b)"

definition WithFinalizers :: "string list \<Rightarrow> 'o ac \<Rightarrow> 'o ac" where
  "WithFinalizers values b = set_meta_field (\<lambda>m. m\<lparr>am_Finalizers := am_Finalizers m @ values\<rparr>) b"

definition WithSpec :: "address option \<Rightarrow> 'o ac \<Rightarrow> 'o ac" where
  "WithSpec value b = b\<lparr>ac_Spec := value\<rparr>"

definition WithStatus :: "address option \<Rightarrow> 'o ac \<Rightarrow> 'o ac" where
  "WithStatus value b = b\<lparr>ac_Status := value\<rparr>"

text \<open>\<open>GetName\<close> and \<open>GetNamespace\<close> create the metadata as well.\<close>

definition GetKind :: "'o ac \<Rightarrow> string option" where
  "GetKind b = ac_Kind b"

definition GetAPIVersion :: "'o ac \<Rightarrow> string option" where
  "GetAPIVersion b = ac_APIVersion b"

definition GetName :: "'o ac \<Rightarrow> 'o ac \<times> string option" where
  "GetName b = (let b' = ensureObjectMetaApplyConfigurationExists b in (b', Option.bind (ac_ObjectMeta b') am_Name))"

definition GetNamespace :: "'o ac \<Rightarrow> 'o ac \<times> string option" where
  "GetNamespace b = (let b' = ensureObjectMetaApplyConfigurationExists b in (b', Option.bind (ac_ObjectMeta b') am_Namespace))"

definition Manifest_apply :: "string \<Rightarrow> 'o ac" where
  "Manifest_apply name =
     WithAPIVersion ''core.tilt.dev/v1alpha1'' (WithKind_apply ''Manifest'' (WithName name
       \<lparr>ac_Kind = None, ac_APIVersion = None, ac_ObjectMeta = None, ac_Spec = None, ac_Status = None\<rparr>))"

subsection \<open>Kinds\<close>

datatype apply_kind = ForManifest | ForManifestSpec | ForManifestStatus

definition ForKind :: "GroupVersionKind \<Rightarrow> apply_kind option" where
  "ForKind kind =
     (if kind = WithKind SchemeGroupVersion ''Manifest'' then Some ForManifest
      else if kind = WithKind SchemeGroupVersion ''ManifestSpec'' then Some ForManifestSpec
      else if kind = WithKind SchemeGroupVersion ''ManifestStatus'' then Some ForManifestStatus
      else None)"

section \<open>Chains of calls\<close>

datatype 'o apply_call =
    CallKind string
  | CallAPIVersion string
  | CallName string
  | CallGenerateName string
  | CallNamespace string
  | CallUID string
  | CallResourceVersion string
  | CallGeneration int
  | CallCreationTimestamp int
  | CallDeletionTimestamp int
  | CallDeletionGracePeriodSeconds int
  | CallLabels "(string \<times> string) list"
  | CallAnnotations "(string \<times> string) list"
  | CallOwnerReferences "'o option list"
  | CallFinalizers "string list"
  | CallSpec "address option"
  | CallStatus "address option"

fun run_call :: "'o apply_call \<Rightarrow> 'o ac \<Rightarrow> 'o ac option" where
  "run_call (CallKind v) b = Some (WithKind_apply v b)"
| "run_call (CallAPIVersion v) b = Some (WithAPIVersion v b)"
| "run_call (CallName v) b = Some (WithName v b)"
| "run_call (CallGenerateName v) b = Some (WithGenerateName v b)"
| "run_call (CallNamespace v) b = Some (WithNamespace_apply v b)"
| "run_call (CallUID v) b = Some (WithUID v b)"
| "run_call (CallResourceVersion v) b = Some (WithResourceVersion v b)"
| "run_call (CallGeneration v) b = Some (WithGeneration v b)"
| "run_call (CallCreationTimestamp v) b = Some (WithCreationTimestamp v b)"
| "run_call (CallDeletionTimestamp v) b = Some (WithDeletionTimestamp v b)"
| "run_call (CallDeletionGracePeriodSeconds v) b = Some (WithDeletionGracePeriodSeconds v b)"
| "run_call (CallLabels es) b = Some (WithLabels es b)"
| "run_call (CallAnnotations es) b = Some (WithAnnotations es b)"
| "run_call (CallOwnerReferences vs) b = WithOwnerReferences vs b"
| "run_call (CallFinalizers vs) b = Some (WithFinalizers vs b)"
| "run_call (CallSpec v) b = Some (WithSpec v b)"
| "run_call (CallStatus v) b = Some (WithStatus v b)"

definition run_calls :: "'o apply_call list \<Rightarrow> 'o ac \<Rightarrow> 'o ac option" where
  "run_calls cs b = foldl (\<lambda>r c. Option.bind r (run_call c)) (Some b) cs"

text \<open>What a chain should build: of each field the value of the last call that set it, the entries and
  elements of all calls for maps and lists.\<close>

definition last_of :: "('o apply_call \<Rightarrow> 'v option) \<Rightarrow> 'o apply_call list \<Rightarrow> 'v option \<Rightarrow> 'v option" where
  "last_of sel cs d = (let vs = List.map_filter sel cs in if vs = [] then d else Some (last vs))"

definition all_of :: "('o apply_call \<Rightarrow> 'v list) \<Rightarrow> 'o apply_call list \<Rightarrow> 'v list" where
  "all_of sel cs = concat (map sel cs)"

definition map_from :: "(string \<times> string) list \<Rightarrow> (string \<times> string) list option" where
  "map_from es = (if es = [] then None else Some (foldl (\<lambda>m (k, v). AList.update k v m) [] es))"

definition applied :: "string \<Rightarrow> 'o apply_call list \<Rightarrow> 'o ac" where
  "applied name cs =
     \<lparr>ac_Kind = last_of (\<lambda>c. case c of CallKind v \<Rightarrow> Some v | _ \<Rightarrow> None) cs (Some ''Manifest''),
      ac_APIVersion = last_of (\<lambda>c. case c of CallAPIVersion v \<Rightarrow> Some v | _ \<Rightarrow> None) cs (Some ''core.tilt.dev/v1alpha1''),
      ac_ObjectMeta = Some
        \<lparr>am_Name = last_of (\<lambda>c. case c of CallName v \<Rightarrow> Some v | _ \<Rightarrow> None) cs (Some name),
         am_GenerateName = last_of (\<lambda>c. case c of CallGenerateName v \<Rightarrow> Some v | _ \<Rightarrow> None) cs None,
         am_Namespace = last_of (\<lambda>c. case c of CallNamespace v \<Rightarrow> Some v | _ \<Rightarrow> None) cs None,
         am_UID = last_of (\<lambda>c. case c of CallUID v \<Rightarrow> Some v | _ \<Rightarrow> None) cs None,
         am_ResourceVersion = last_of (\<lambda>c. case c of CallResourceVersion v \<Rightarrow> Some v | _ \<Rightarrow> None) cs None,
         am_Generation = last_of (\<lambda>c. case c of CallGeneration v \<Rightarrow> Some v | _ \<Rightarrow> None) cs None,
         am_CreationTimestamp = last_of (\<lambda>c. case c of CallCreationTimestamp v \<Rightarrow> Some v | _ \<Rightarrow> None) cs None,
         am_DeletionTimestamp = last_of (\<lambda>c. case c of CallDeletionTimestamp v \<Rightarrow> Some v | _ \<Rightarrow> None) cs None,
         am_DeletionGracePeriodSeconds = last_of (\<lambda>c. case c of CallDeletionGracePeriodSeconds v \<Rightarrow> Some v | _ \<Rightarrow> None) cs None,
         am_Labels = map_from (all_of (\<lambda>c. case c of CallLabels es \<Rightarrow> es | _ \<Rightarrow> []) cs),
         am_Annotations = map_from (all_of (\<lambda>c. case c of CallAnnotations es \<Rightarrow> es | _ \<Rightarrow> []) cs),
         am_OwnerReferences = map the (all_of (\<lambda>c. case c of CallOwnerReferences vs \<Rightarrow> vs | _ \<Rightarrow> []) cs),
         am_Finalizers = all_of (\<lambda>c. case c of CallFinalizers vs \<Rightarrow> vs | _ \<Rightarrow> []) cs\<rparr>,
      ac_Spec = Option.bind (last_of (\<lambda>c. case c of CallSpec v \<Rightarrow> Some v | _ \<Rightarrow> None) cs None) (\<lambda>v. v),
      ac_Status = Option.bind (last_of (\<lambda>c. case c of CallStatus v \<Rightarrow> Some v | _ \<Rightarrow> None) cs None) (\<lambda>v. v)\<rparr>"

abbreviation nil_owner :: "'o apply_call \<Rightarrow> bool" where
  "nil_owner c \<equiv> (case c of CallOwnerReferences vs \<Rightarrow> None \<in> set vs | _ \<Rightarrow> False)"

section \<open>Lemmas\<close>

lemma last_of_snoc [simp]: "last_of sel (cs @ [c]) d = (case sel c of None \<Rightarrow> last_of sel cs d | Some v \<Rightarrow> Some v)"
  by (simp add: last_of_def List.map_filter_def split: option.split)

lemma all_of_snoc [simp]: "all_of sel (cs @ [c]) = all_of sel cs @ sel c"
  by (simp add: all_of_def)

lemma run_calls_snoc [simp]: "run_calls (cs @ [c]) b = Option.bind (run_calls cs b) (run_call c)"
  by (simp add: run_calls_def)

lemma put_entries_map_from [simp]: "put_entries es (map_from fs) = map_from (fs @ es)"
  by (simp add: put_entries_def map_from_def)

lemma append_owners_meta:
  "append_owners vs b = (if None \<in> set vs then None
     else Some (if vs = [] then b else set_meta_field (\<lambda>m. m\<lparr>am_OwnerReferences := am_OwnerReferences m @ map the vs\<rparr>) b))"
  by (induction vs b rule: append_owners.induct)
    (auto simp: set_meta_field_def ensureObjectMetaApplyConfigurationExists_def Let_def split: option.splits)

lemmas apply_defs = WithKind_apply_def WithAPIVersion_def WithName_def WithGenerateName_def WithNamespace_apply_def WithUID_def
  WithResourceVersion_def WithGeneration_def WithCreationTimestamp_def WithDeletionTimestamp_def
  WithDeletionGracePeriodSeconds_def WithLabels_def WithAnnotations_def WithOwnerReferences_def WithFinalizers_def
  WithSpec_def WithStatus_def set_meta_field_def ensureObjectMetaApplyConfigurationExists_def

lemma Manifest_applied: "Manifest_apply name = applied name []"
  by (simp add: Manifest_apply_def applied_def apply_defs last_of_def all_of_def map_from_def no_meta_def List.map_filter_def)

lemma run_call_applied:
  "run_call c (applied name cs) = (if nil_owner c then None else Some (applied name (cs @ [c])))"
  by (cases c) (simp_all add: applied_def apply_defs append_owners_meta)

lemma map_of_foldl_update:
  "map_of (foldl (\<lambda>m (k, v). AList.update k v m) m es) = map_of m ++ map_of (rev es)"
proof (induction es arbitrary: m)
  case (Cons e es)
  then show ?case by (cases e) (auto simp: update_conv map_add_def fun_eq_iff split: option.splits)
qed simp

text \<open>The configuration shares its spec with the caller: the message that is sent is the one that the
  spec has when the request is made.\<close>

lemma Spec_is_shared:
  assumes "ManifestSpec_apply st = (st1, p)" and "ManifestSpec_WithMessage p msg st1 = (st2, p')"
  shows "ac_Spec (WithSpec (Some p) b) = Some p' \<and> sc_specs st2 ! p' = \<lparr>spec_Message = Some msg\<rparr> \<and>
    (\<forall>q < length (sc_specs st). sc_specs st2 ! q = sc_specs st ! q)"
  using assms by (auto simp: ManifestSpec_apply_def ManifestSpec_WithMessage_def WithSpec_def nth_append)

text \<open>C40. A chain of calls builds exactly the configuration it describes: for each field the last call
  wins, also over the name, kind and version of the constructor, owner references and finalizers of all
  calls are kept in order, labels and annotations are merged with later entries replacing earlier
  ones, and what no call sets stays nil. It panics exactly when a nil owner reference is passed.\<close>

theorem Apply_chain:
  "run_calls cs (Manifest_apply name) = (if list_ex nil_owner cs then None else Some (applied name cs)) \<and>
   (case map_from es of None \<Rightarrow> es = [] | Some m \<Rightarrow> es \<noteq> [] \<and> map_of m = map_of (rev es))"
proof
  show "run_calls cs (Manifest_apply name) = (if list_ex nil_owner cs then None else Some (applied name cs))"
    by (induction cs rule: rev_induct) (auto simp: Manifest_applied run_calls_def [of "[]"] run_call_applied)
  show "case map_from es of None \<Rightarrow> es = [] | Some m \<Rightarrow> es \<noteq> [] \<and> map_of m = map_of (rev es)"
    by (simp add: map_from_def map_of_foldl_update)
qed

end
