(* ===== verification/Watch_Replica.thy ===== *)
theory Watch_Replica
  imports Checks Watch_Props
begin

text \<open>
  What a watch is for: a client that starts a watch and applies its events, one after the other, to
  an empty map has a copy of the storage. This composes the handlers of
  \<open>pkg/storage/filepath/jsonfile_rest.go\<close>, the files of \<open>MemoryFS\<close> and the watch set.
  The copy is faithful for a watch of everything; a watch with a selector is never told that an
  object has left the selection.
\<close>

section \<open>Definitions\<close>

text \<open>What a client makes of an event.\<close>

fun apply_event :: "'b Event \<Rightarrow> (string \<Rightarrow> 'b Object option) \<Rightarrow> string \<Rightarrow> 'b Object option" where
  "apply_event ev r =
     (case Metadata (ev_Object ev) of
        None \<Rightarrow> r
      | Some m \<Rightarrow> r(Name m := (if ev_Type ev = Deleted then None else Some (ev_Object ev))))"

definition replica :: "'b Event list \<Rightarrow> string \<Rightarrow> 'b Object option" where
  "replica evs = fold apply_event evs (\<lambda>_. None)"

text \<open>The requests that write objects, and a sequence of them. A request may be refused.\<close>

datatype 'b request =
    ReqCreate meta_validators gotime string "'b Object" "'b validate_object"
  | ReqUpdate meta_validators string "'b Object option \<Rightarrow> go_error + 'b Object" "'b validate_object" "'b validate_update" bool
  | ReqDelete gotime string "'b validate_object"

fun serve :: "('fs, 'b) filepathREST \<Rightarrow> request_ctx \<Rightarrow> 'b request \<Rightarrow> ('fs, 'b) store \<Rightarrow> ('fs, 'b) store option" where
  "serve f ctx (ReqCreate V now uuid obj cv) s = map_option fst (rest_Create V now uuid f ctx obj cv s)"
| "serve f ctx (ReqUpdate V name upd cv uv force) s = map_option fst (rest_Update V f ctx name upd cv uv force s)"
| "serve f ctx (ReqDelete now name dv) s = map_option fst (rest_Delete now f ctx name dv s)"

fun serve_all :: "('fs, 'b) filepathREST \<Rightarrow> request_ctx \<Rightarrow> 'b request list \<Rightarrow> ('fs, 'b) store \<Rightarrow> ('fs, 'b) store option" where
  "serve_all f ctx [] s = Some s"
| "serve_all f ctx (q # qs) s = do { s' \<leftarrow> serve f ctx q s; serve_all f ctx qs s' }"

text \<open>The file system holds objects of this storage only, each in the file of its name.\<close>

definition names_ok :: "(memory_fs, 'b) filepathREST \<Rightarrow> request_ctx \<Rightarrow> memory_fs \<Rightarrow> bool" where
  "names_ok f ctx fs \<longleftrightarrow>
     (\<forall>k v. mem_content fs k = Some v \<longrightarrow>
        (\<exists>name obj m. slash \<notin> set name \<and> k = mem_key (objectFileName f ctx name) \<and>
           decodeBuffer (rest_dec f) v (newFunc f) = Inr obj \<and> Metadata obj = Some m \<and> Name m = name))"

text \<open>The same object up to its canonical form and its resource version.\<close>

definition same_object :: "('b Object \<Rightarrow> 'b Object) \<Rightarrow> 'b Object \<Rightarrow> 'b Object \<Rightarrow> bool" where
  "same_object canon a b \<longleftrightarrow> (\<exists>rv. b = a \<or> b = with_rv rv (canon a))"

definition mirrors ::
  "(memory_fs, 'b) filepathREST \<Rightarrow> request_ctx \<Rightarrow> ('b Object \<Rightarrow> 'b Object) \<Rightarrow>
   (string \<Rightarrow> 'b Object option) \<Rightarrow> memory_fs \<Rightarrow> bool" where
  "mirrors f ctx canon r fs \<longleftrightarrow>
     (\<forall>name. slash \<notin> set name \<longrightarrow> rel_option (same_object canon) (r name) (stored_object f ctx name fs))"

text \<open>The watch \<open>i\<close> of everything has delivered the events \<open>evs\<close>.\<close>

definition watching :: "64 word \<Rightarrow> 'b WatchSet \<Rightarrow> 'b Event list \<Rightarrow> bool" where
  "watching i ws evs \<longleftrightarrow>
     (\<exists>w. map_of (ws_nodes ws) i = Some w \<and> wn_p w = Some (newSelectionPredicate None) \<and> wn_out w = evs)"

section \<open>Lemmas\<close>

lemma replica_snoc [simp]: "replica (evs @ [ev]) = apply_event ev (replica evs)"
  by (simp add: replica_def)

lemma replica_Nil [simp]: "replica [] = (\<lambda>_. None)"
  by (simp add: replica_def)

lemma notify_watching:
  assumes "WatchSet_notifyWatchers ev ws = Some ws'" and "watching i ws evs"
  shows "watching i ws' (evs @ [ev])"
proof -
  from assms(1) have "ws' = ws\<lparr>ws_nodes := map (\<lambda>(i, w). (i, receive ev w)) (ws_nodes ws)\<rparr>"
    by (auto simp: WatchSet_notifyWatchers_def split: if_splits)
  moreover from assms(2) obtain w where "map_of (ws_nodes ws) i = Some w" "wn_p w = Some (newSelectionPredicate None)" "wn_out w = evs"
    by (auto simp: watching_def)
  ultimately show ?thesis
    by (auto simp: watching_def receive_def map_of_map case_prod_beta
        map_of_map [of "receive ev" "ws_nodes ws", simplified case_prod_beta])
qed

lemma same_location:
  assumes "mem_ready ord f ctx s" and "slash \<notin> set a" and "slash \<notin> set b"
  shows "mem_key (objectFileName f ctx a) = mem_key (objectFileName f ctx b) \<longleftrightarrow> a = b"
  using mem.loc_inject [OF mem_readyD(1) [OF assms(1)] mem_readyD(1) [OF assms(1)] assms(2,3)] by (auto simp: mem.loc_def)

lemma names_ok_stored:
  assumes "mem_ready ord f ctx s" and "names_ok f ctx fs" and "stored_object f ctx name fs = Some obj" and "slash \<notin> set name"
  shows "\<exists>m. Metadata obj = Some m \<and> Name m = name"
proof -
  from assms(3) obtain v where v: "mem_content fs (mem_key (objectFileName f ctx name)) = Some v"
    "decodeBuffer (rest_dec f) v (newFunc f) = Inr obj"
    by (auto simp: stored_object_def mem_file_def split: option.splits sum.splits)
  with assms(2) obtain name' m where "slash \<notin> set name'"
    "mem_key (objectFileName f ctx name) = mem_key (objectFileName f ctx name')" "Metadata obj = Some m" "Name m = name'"
    unfolding names_ok_def by fastforce
  with same_location [OF assms(1,4)] show ?thesis by auto
qed

text \<open>A storage whose watch \<open>i\<close> has kept its client up to date.\<close>

definition in_sync ::
  "versionedData node map_order \<Rightarrow> (memory_fs, 'b) filepathREST \<Rightarrow> request_ctx \<Rightarrow> ('b Object \<Rightarrow> 'b Object) \<Rightarrow> 64 word \<Rightarrow>
     (memory_fs, 'b) store \<Rightarrow> bool" where
  "in_sync ord f ctx canon i s \<longleftrightarrow> mem_ready ord f ctx s \<and> names_ok f ctx (st_fs s) \<and>
     (\<exists>evs. mirrors f ctx canon (replica evs) (st_fs s) \<and> watching i (st_ws s) evs)"

lemma in_sync_unchanged:
  assumes "in_sync ord f ctx canon i s" and "mem_ready ord f ctx s'" and "mem_content (st_fs s') = mem_content (st_fs s)"
    and "st_ws s' = st_ws s"
  shows "in_sync ord f ctx canon i s'"
  using assms by (auto simp: in_sync_def names_ok_def mirrors_def stored_object_def mem_file_def)

text \<open>What is in the file after a write.\<close>

lemma stored_decoded:
  assumes "mem.stored nf (rest_enc f) obj v obj'" and "codec_ok (rest_enc f) (rest_dec f) canon" and "Metadata obj = Some m"
  obtains o' m' mo where "decodeBuffer (rest_dec f) v (newFunc f) = Inr o'" and "Metadata o' = Some mo" and "Name mo = Name m"
    and "same_object canon obj' o'" and "Metadata obj' = Some m'" and "Name m' = Name m"
proof -
  from assms(1,2) obtain rv rv' where o: "obj' = with_rv rv' obj"
    and d: "decodeBuffer (rest_dec f) v (newFunc f) = Inr (with_rv rv (canon obj))"
    unfolding mem.stored_def mem_unpack_def by blast
  from assms(2,3) obtain mc where "Metadata (canon obj) = Some mc" "Name mc = Name m" by (rule codec_ok_meta)
  moreover have "same_object canon obj' (with_rv rv (canon obj))"
    using codec_ok_rv [OF assms(2)] unfolding same_object_def o by (metis with_rv_with_rv)
  ultimately show thesis using that d o assms(3) by simp
qed

text \<open>A write of the file of \<open>n\<close> with an event, and a removal.\<close>

lemma in_sync_write:
  assumes sync: "in_sync ord f ctx canon i s" and r': "mem_ready ord f ctx s'" and n: "slash \<notin> set n"
    and c: "mem_content (st_fs s') = (mem_content (st_fs s))(mem_key (objectFileName f ctx n) \<mapsto> v)"
    and st: "mem.stored nf (rest_enc f) obj v obj'" "codec_ok (rest_enc f) (rest_dec f) canon" "Metadata obj = Some m" "Name m = n"
    and ev: "WatchSet_notifyWatchers \<lparr>ev_Type = ty, ev_Object = obj'\<rparr> (st_ws s) = Some (st_ws s')" "ty \<noteq> Deleted"
  shows "in_sync ord f ctx canon i s'"
proof -
  from sync obtain evs where k: "mem_ready ord f ctx s" "names_ok f ctx (st_fs s)"
    "mirrors f ctx canon (replica evs) (st_fs s)" "watching i (st_ws s) evs" by (auto simp: in_sync_def)
  from st(1-3) obtain o' m' mo where o: "decodeBuffer (rest_dec f) v (newFunc f) = Inr o'" "Metadata o' = Some mo" "Name mo = Name m"
    "same_object canon obj' o'" "Metadata obj' = Some m'" "Name m' = Name m" by (rule stored_decoded)
  have "names_ok f ctx (st_fs s')" using k(2) n o st(4) unfolding names_ok_def c by (simp add: fun_upd_apply)
  moreover have "stored_object f ctx name (st_fs s') = (if name = n then Some o' else stored_object f ctx name (st_fs s))"
    if "slash \<notin> set name" for name
    using same_location [OF k(1) that n] o(1) by (simp add: stored_object_def mem_file_def c)
  with k(3) o st(4) ev(2) have "mirrors f ctx canon (replica (evs @ [\<lparr>ev_Type = ty, ev_Object = obj'\<rparr>])) (st_fs s')"
    by (simp add: mirrors_def)
  ultimately show ?thesis using r' notify_watching [OF ev(1) k(4)] unfolding in_sync_def by blast
qed

lemma in_sync_remove:
  assumes sync: "in_sync ord f ctx canon i s" and r': "mem_ready ord f ctx s'" and n: "slash \<notin> set n"
    and c: "mem_content (st_fs s') = (mem_content (st_fs s))(mem_key (objectFileName f ctx n) := None)"
    and o: "Metadata obj = Some m" "Name m = n"
    and ev: "WatchSet_notifyWatchers \<lparr>ev_Type = Deleted, ev_Object = obj\<rparr> (st_ws s) = Some (st_ws s')"
  shows "in_sync ord f ctx canon i s'"
proof -
  from sync obtain evs where k: "mem_ready ord f ctx s" "names_ok f ctx (st_fs s)"
    "mirrors f ctx canon (replica evs) (st_fs s)" "watching i (st_ws s) evs" by (auto simp: in_sync_def)
  have "names_ok f ctx (st_fs s')" using k(2) unfolding names_ok_def c by (simp add: fun_upd_apply)
  moreover have "stored_object f ctx name (st_fs s') = (if name = n then None else stored_object f ctx name (st_fs s))"
    if "slash \<notin> set name" for name
    using same_location [OF k(1) that n] by (simp add: stored_object_def mem_file_def c)
  with k(3) o have "mirrors f ctx canon (replica (evs @ [\<lparr>ev_Type = Deleted, ev_Object = obj\<rparr>])) (st_fs s')"
    by (simp add: mirrors_def)
  ultimately show ?thesis using r' notify_watching [OF ev k(4)] unfolding in_sync_def by blast
qed

lemma in_sync_file:
  assumes "in_sync ord f ctx canon i s" and "mem_content (st_fs s) (mem_key (objectFileName f ctx name)) = Some c"
    and "mem_unpack (rest_dec f) (newFunc f) c = Inr old"
  obtains m where "Metadata old = Some m" and "slash \<notin> set (Name m)"
    and "mem_key (objectFileName f ctx name) = mem_key (objectFileName f ctx (Name m))"
  using assms unfolding in_sync_def names_ok_def mem_unpack_def by fastforce

lemma serve_Create:
  assumes sync: "in_sync ord f ctx canon i s" and k: "hooks_keep_metadata (rest_strategy f) ctx"
    and codec: "codec_ok (rest_enc f) (rest_dec f) canon"
  shows "\<exists>s'. serve f ctx (ReqCreate V now uuid obj cv) s = Some s' \<and> in_sync ord f ctx canon i s'"
proof -
  from sync have r: "mem_ready ord f ctx s" by (simp add: in_sync_def)
  obtain s' res where c: "rest_Create V now uuid f ctx obj cv s = Some (s', res)" "mem_inv (st_fs s')" "ws_live (st_ws s')"
    "case res of Inl e \<Rightarrow> mem_content (st_fs s') = mem_content (st_fs s) \<and> st_ws s' = st_ws s
     | Inr obj' \<Rightarrow> \<exists>obj1 m. BeforeCreate V (rest_strategy f) ctx (FillObjectMetaSystemFields now uuid obj) = Inr obj1 \<and>
         Metadata obj1 = Some m \<and> mem.created f ctx (Name m) obj1 s s' obj'"
    using mem.rest_Create_total [OF mem_readyD [OF r]] by blast
  note ready = mem_readyI [OF r c(2,3)]
  have "in_sync ord f ctx canon i s'"
  proof (cases res)
    case (Inl e)
    with c(4) in_sync_unchanged [OF sync ready] show ?thesis by simp
  next
    case (Inr obj')
    with c(4) obtain obj1 m1 where b: "BeforeCreate V (rest_strategy f) ctx (FillObjectMetaSystemFields now uuid obj) = Inr obj1"
      and m1: "Metadata obj1 = Some m1" and cr: "mem.created f ctx (Name m1) obj1 s s' obj'" by auto
    from ValidateObjectMetaAccessor_name [OF BeforeCreate_validated [OF b m1 k]] have "slash \<notin> set (Name m1)"
      by (simp add: safe_name_def)
    with cr m1 codec show ?thesis
      unfolding mem.created_def mem.loc_def by (elim conjE exE) (rule in_sync_write [OF sync ready], auto)
  qed
  with c(1) show ?thesis by auto
qed

lemma serve_Delete:
  assumes sync: "in_sync ord f ctx canon i s" and codec: "codec_ok (rest_enc f) (rest_dec f) canon"
  shows "\<exists>s'. serve f ctx (ReqDelete now name dv) s = Some s' \<and> in_sync ord f ctx canon i s'"
proof -
  from sync have r: "mem_ready ord f ctx s" by (simp add: in_sync_def)
  obtain s' res where c: "rest_Delete now f ctx name dv s = Some (s', res)" "mem_inv (st_fs s')" "ws_live (st_ws s')"
    "case res of Inl e \<Rightarrow> mem_content (st_fs s') = mem_content (st_fs s) \<and> st_ws s' = st_ws s
     | Inr (obj', gone) \<Rightarrow> mem.deleted now f ctx name s s' obj' gone"
    using mem.rest_Delete_total [OF mem_readyD [OF r]] by blast
  note ready = mem_readyI [OF r c(2,3)]
  have "in_sync ord f ctx canon i s'"
  proof (cases res)
    case (Inl e)
    with c(4) in_sync_unchanged [OF sync ready] show ?thesis by simp
  next
    case (Inr ok)
    with c(4) obtain obj' gone where "mem.deleted now f ctx name s s' obj' gone" by (cases ok) auto
    then obtain v old where v: "mem_content (st_fs s) (mem_key (objectFileName f ctx name)) = Some v"
        "mem_unpack (rest_dec f) (newFunc f) v = Inr old"
      and g: "if gone
         then mem_content (st_fs s') = (mem_content (st_fs s))(mem_key (objectFileName f ctx name) := None) \<and>
           WatchSet_notifyWatchers \<lparr>ev_Type = Deleted, ev_Object = old\<rparr> (st_ws s) = Some (st_ws s')
         else (\<exists>c'. mem_content (st_fs s') = (mem_content (st_fs s))(mem_key (objectFileName f ctx name) \<mapsto> c') \<and>
             mem.stored False (rest_enc f) (mark_deleted now old) c' obj') \<and>
           WatchSet_notifyWatchers \<lparr>ev_Type = Modified, ev_Object = obj'\<rparr> (st_ws s) = Some (st_ws s')"
      unfolding mem.deleted_def mem.loc_def by (metis (no_types, lifting))
    from sync v obtain m where m: "Metadata old = Some m" "slash \<notin> set (Name m)"
      "mem_key (objectFileName f ctx name) = mem_key (objectFileName f ctx (Name m))" by (rule in_sync_file)
    from m(1) obtain m' where "Metadata (mark_deleted now old) = Some m'" "Name m' = Name m"
      by (auto simp: mark_deleted_def update_meta_def)
    with g m codec show ?thesis
      using in_sync_remove [OF sync ready m(2)] in_sync_write [OF sync ready m(2), where ty = Modified]
      by (cases gone) auto
  qed
  with c(1) show ?thesis by auto
qed

lemma serve_Update:
  assumes sync: "in_sync ord f ctx canon i s" and hooks: "hooks_return (rest_strategy f) ctx"
    and k: "hooks_keep_metadata (rest_strategy f) ctx" and codec: "codec_ok (rest_enc f) (rest_dec f) canon"
  shows "\<exists>s'. serve f ctx (ReqUpdate V name upd cv uv force) s = Some s' \<and> in_sync ord f ctx canon i s'"
proof -
  from sync have r: "mem_ready ord f ctx s" by (simp add: in_sync_def)
  obtain s' res where c: "rest_Update V f ctx name upd cv uv force s = Some (s', res)" "mem_inv (st_fs s')" "ws_live (st_ws s')"
    "case res of Inl e \<Rightarrow> mem_content (st_fs s') = mem_content (st_fs s) \<and> st_ws s' = st_ws s
     | Inr (obj', isNew) \<Rightarrow> mem.updated V f ctx name upd cv uv s s' obj' isNew"
    using mem.rest_Update_total [OF mem_readyD [OF r] hooks] by blast
  note ready = mem_readyI [OF r c(2,3)]
  have "in_sync ord f ctx canon i s'"
  proof (cases res)
    case (Inl e)
    with c(4) in_sync_unchanged [OF sync ready] show ?thesis by simp
  next
    case (Inr ok)
    with c(4) obtain obj' isNew where "mem.updated V f ctx name upd cv uv s s' obj' isNew" by (cases ok) auto
    then obtain s1 isDelete v old w out v' where
      v: "mem_content (st_fs s) (mem_key (objectFileName f ctx name)) = Some v" "mem_unpack (rest_dec f) (newFunc f) v = Inr old"
      and t: "tryUpdate_checks V f ctx name upd cv uv (Some old) w = Some (Inr (out, False, isDelete))"
      and st: "mem_content s1 = (mem_content (st_fs s))(mem_key (objectFileName f ctx name) \<mapsto> v')"
        "mem.stored False (rest_enc f) out v' obj'"
      and g: "if isDelete
         then mem_content (st_fs s') = (mem_content (st_fs s))(mem_key (objectFileName f ctx name) := None) \<and>
           WatchSet_notifyWatchers \<lparr>ev_Type = Deleted, ev_Object = obj'\<rparr> (st_ws s) = Some (st_ws s')
         else mem_content (st_fs s') = mem_content s1 \<and>
           WatchSet_notifyWatchers \<lparr>ev_Type = Modified, ev_Object = obj'\<rparr> (st_ws s) = Some (st_ws s')"
      unfolding mem.updated_def mem.committed_def mem.loc_def by blast
    from sync v obtain m where m: "Metadata old = Some m" "slash \<notin> set (Name m)"
      "mem_key (objectFileName f ctx name) = mem_key (objectFileName f ctx (Name m))" by (rule in_sync_file)
    from t obtain outp old' where "BeforeUpdate V (rest_strategy f) ctx outp (Some old) = Some (Inr (out, old'))"
      by (rule tryUpdate_checks_ok) blast
    from this k obtain mo om where "Metadata out = Some mo" "Metadata old = Some om" "same_identity mo om"
      by (rule BeforeUpdate_identity)
    with m(1) have o: "Metadata out = Some mo" "Name mo = Name m" by (auto simp: same_identity_def)
    from st(2) codec o(1) obtain m' where "Metadata obj' = Some m'" "Name m' = Name mo" by (rule stored_decoded)
    with g st m o codec show ?thesis
      using in_sync_remove [OF sync ready m(2)] in_sync_write [OF sync ready m(2), where ty = Modified]
      by (cases isDelete) auto
  qed
  with c(1) show ?thesis by auto
qed

lemma serve_all_in_sync:
  assumes "in_sync ord f ctx canon i s" and "hooks_return (rest_strategy f) ctx"
    and "hooks_keep_metadata (rest_strategy f) ctx" and "codec_ok (rest_enc f) (rest_dec f) canon"
  shows "\<exists>s'. serve_all f ctx qs s = Some s' \<and> in_sync ord f ctx canon i s'"
  using assms(1)
proof (induction qs arbitrary: s)
  case (Cons q qs)
  have "\<exists>s'. serve f ctx q s = Some s' \<and> in_sync ord f ctx canon i s'"
    using serve_Create [OF Cons.prems assms(3,4)] serve_Update [OF Cons.prems assms(2,3,4)] serve_Delete [OF Cons.prems assms(4)]
    by (cases q) simp_all
  with Cons.IH show ?case by auto
qed simp

lemma replica_Added:
  "replica (map (\<lambda>obj. \<lparr>ev_Type = Added, ev_Object = obj\<rparr>) objs) name = Some obj \<Longrightarrow>
     obj \<in> set objs \<and> (\<exists>m. Metadata obj = Some m \<and> Name m = name)"
  "obj \<in> set objs \<Longrightarrow> Metadata obj = Some m \<Longrightarrow>
     replica (map (\<lambda>obj. \<lparr>ev_Type = Added, ev_Object = obj\<rparr>) objs) (Name m) \<noteq> None"
  by (induction objs rule: rev_induct) (auto split: if_splits option.splits)

text \<open>The listed objects are the stored ones, by name.\<close>

lemma listed_object:
  assumes n: "names_ok f ctx (st_fs s)" and li: "mem_listing (st_fs s) (objectDirName f ctx) files"
    and item: "obj \<in> set (map (\<lambda>(p, v). projr (decodeBuffer (rest_dec f) v (newFunc f))) files)"
  shows "\<exists>m. Metadata obj = Some m \<and> slash \<notin> set (Name m) \<and> stored_object f ctx (Name m) (st_fs s) = Some obj"
proof -
  from item obtain p v where pv: "(p, v) \<in> set files" "obj = projr (decodeBuffer (rest_dec f) v (newFunc f))" by auto
  with li have "mem_content (st_fs s) (mem_key p) = Some v" by (auto simp: mem_listing_def)
  moreover from this n obtain name o' m where "slash \<notin> set name" "mem_key p = mem_key (objectFileName f ctx name)"
    "decodeBuffer (rest_dec f) v (newFunc f) = Inr o'" "Metadata o' = Some m" "Name m = name" unfolding names_ok_def by blast
  ultimately show ?thesis using pv(2) by (auto simp: stored_object_def mem_file_def)
qed

text \<open>The Added events of a listing are a copy of the storage.\<close>

lemma listing_mirrors:
  assumes r: "mem_ready ord f ctx s" and n: "names_ok f ctx (st_fs s)"
    and li: "mem_listing (st_fs s) (objectDirName f ctx) files"
    and items: "items = map (\<lambda>(p, v). projr (decodeBuffer (rest_dec f) v (newFunc f))) files"
  shows "mirrors f ctx canon (replica (map (\<lambda>obj. \<lparr>ev_Type = Added, ev_Object = obj\<rparr>) items)) (st_fs s)"
  unfolding mirrors_def
proof (intro allI impI)
  fix name assume name: "slash \<notin> set name"
  let ?r = "replica (map (\<lambda>obj. \<lparr>ev_Type = Added, ev_Object = obj\<rparr>) items)"
  show "rel_option (same_object canon) (?r name) (stored_object f ctx name (st_fs s))"
  proof (cases "?r name")
    case None
    have False if "stored_object f ctx name (st_fs s) = Some obj" for obj
    proof -
      from r li name that obtain v where "(path_below (objectDirName f ctx) [name @ ''.json''], v) \<in> set files"
        "decodeBuffer (rest_dec f) v (newFunc f) = Inr obj"
        by (rule mem_listing_stored)
      then have "obj \<in> set items" unfolding items by force
      moreover from names_ok_stored [OF r n that name] obtain m where "Metadata obj = Some m" "Name m = name" by blast
      ultimately show False using replica_Added(2) None by metis
    qed
    with None show ?thesis by (cases "stored_object f ctx name (st_fs s)") auto
  next
    case (Some obj)
    with replica_Added(1) [of items name obj] have "obj \<in> set items" "\<exists>m. Metadata obj = Some m \<and> Name m = name" by auto
    with listed_object [OF n li, of obj] have "stored_object f ctx name (st_fs s) = Some obj" unfolding items by auto
    with Some show ?thesis by (simp add: same_object_def)
  qed
qed

lemma watch_in_sync:
  assumes r: "mem_ready ord f ctx s" and dir: "mem_has_dir (st_fs s) (objectDirName f ctx)" and n: "names_ok f ctx (st_fs s)"
    and new: "newListFunc f = \<lparr>ListResourceVersion = Some rv0, Items = Inr []\<rparr>" and rev: "mfs_rev (st_fs s) \<noteq> 0"
  obtains s1 i where "rest_Watch f ctx None s = Some (s1, i, None)" and "in_sync ord f ctx canon i s1"
proof -
  let ?dec = "\<lambda>v. decodeBuffer (rest_dec f) v (newFunc f)"
  have dec: "\<forall>k c. mem_content (st_fs s) k = Some c \<longrightarrow>
      (\<exists>obj. mem_unpack (rest_dec f) (newFunc f) c = Inr obj \<and> Metadata obj \<noteq> None)"
    using n unfolding names_ok_def mem_unpack_def by (metis option.distinct(1))
  have "Items (newListFunc f) = Inr []" by (simp add: new)
  from mem.rest_List_exact [where options = None, OF mem_readyD(1,2) [OF r] dir dec this]
  obtain files where li: "mem_listing (st_fs s) (objectDirName f ctx) files" and l: "rest_List f ctx None (st_fs s) =
      Some (st_fs s, setListResourceVersion (newListFunc f\<lparr>Items := Inr (map (\<lambda>(p, v). projr (?dec v)) files)\<rparr>) (mfs_rev (st_fs s)))"
    unfolding mem_unpack_def mem.listing_def mem_listing_def by auto
  let ?items = "map (\<lambda>(p, v). projr (?dec v)) files"
  have metas: "\<forall>obj \<in> set ?items. Metadata obj \<noteq> None"
  proof
    fix obj assume "obj \<in> set ?items"
    from listed_object [OF n li this] show "Metadata obj \<noteq> None" by auto
  qed
  have "rest_List f ctx None (st_fs s) =
      Some (st_fs s, Inr \<lparr>ListResourceVersion = Some (formatResourceVersion (mfs_rev (st_fs s))), Items = Inr ?items\<rparr>)"
    using l rev by (simp add: new setListResourceVersion_def)
  from rest_Watch_starts [OF this _ metas mem_readyD(3) [OF r]] obtain s1 i w where w: "rest_Watch f ctx None s = Some (s1, i, None)"
    "st_fs s1 = st_fs s" "ws_live (st_ws s1)" "map_of (ws_nodes (st_ws s1)) i = Some w" "wn_p w = Some (newSelectionPredicate None)"
    "wn_out w = map (\<lambda>obj. \<lparr>ev_Type = Added, ev_Object = obj\<rparr>) ?items" by auto
  have "mirrors f ctx canon (replica (wn_out w)) (st_fs s1)"
    unfolding w(2,6) by (rule listing_mirrors [OF r n li refl])
  with w n mem_readyI [OF r, of s1] mem_readyD(2) [OF r] have "in_sync ord f ctx canon i s1"
    unfolding in_sync_def watching_def by auto
  with w(1) show thesis by (rule that)
qed

section \<open>Properties\<close>

text \<open>C14. A watch keeps a faithful copy: after a watch of everything has started and any sequence of
  creates, updates and deletes has been served, every request returned, and applying the events that
  the watch delivered, in order, to an empty map gives exactly the stored objects, up to their
  canonical form and resource version.\<close>

theorem Watch_replica:
  assumes "mem_ready ord f ctx s" and "mem_has_dir (st_fs s) (objectDirName f ctx)" and "names_ok f ctx (st_fs s)"
    and "newListFunc f = \<lparr>ListResourceVersion = Some rv0, Items = Inr []\<rparr>" and "mfs_rev (st_fs s) \<noteq> 0"
    and "hooks_return (rest_strategy f) ctx" and "hooks_keep_metadata (rest_strategy f) ctx"
    and "codec_ok (rest_enc f) (rest_dec f) canon"
  shows "\<exists>s1 i s2 evs. rest_Watch f ctx None s = Some (s1, i, None) \<and> serve_all f ctx qs s1 = Some s2 \<and>
    events_of i (st_ws s2) = Some evs \<and>
    (\<forall>name. slash \<notin> set name \<longrightarrow> rel_option (same_object canon) (replica evs name) (stored_object f ctx name (st_fs s2)))"
proof -
  from assms(1-5) obtain s1 i where w: "rest_Watch f ctx None s = Some (s1, i, None)" "in_sync ord f ctx canon i s1"
    by (rule watch_in_sync)
  from serve_all_in_sync [OF w(2) assms(6-8)] obtain s2 where s2: "serve_all f ctx qs s1 = Some s2" "in_sync ord f ctx canon i s2"
    by blast
  then obtain evs where "mirrors f ctx canon (replica evs) (st_fs s2)" "watching i (st_ws s2) evs" by (auto simp: in_sync_def)
  with w(1) s2(1) show ?thesis by (auto simp: mirrors_def watching_def events_of_def)
qed

lemma store_a_names: "names_ok manifest_rest cluster_ctx (st_fs store_a)"
proof -
  obtain v where v: "mem_content (st_fs store_a) = [mem_key (objectFileName manifest_rest cluster_ctx ''a'') \<mapsto> v]"
    "decodeBuffer manifest_dec v Manifest_New = Inr (manifest_of ''a'' [] ''u1'' ''2'' ''hi'' [] False [])"
    by (rule store_a_content)
  have "Metadata (manifest_of ''a'' [] ''u1'' ''2'' ''hi'' [] False []) \<noteq> None" by (simp add: manifest_of_def)
  then obtain m where "Metadata (manifest_of ''a'' [] ''u1'' ''2'' ''hi'' [] False []) = Some m" "Name m = ''a''"
    by (auto simp: manifest_of_def)
  with v(2) have "slash \<notin> set ''a'' \<and> decodeBuffer (rest_dec manifest_rest) v (newFunc manifest_rest) =
      Inr (manifest_of ''a'' [] ''u1'' ''2'' ''hi'' [] False []) \<and>
      Metadata (manifest_of ''a'' [] ''u1'' ''2'' ''hi'' [] False []) = Some m \<and> Name m = ''a''"
    by (simp add: manifest_rest_def)
  then show ?thesis unfolding names_ok_def v(1) by (auto split: if_splits)
qed

theorem Watch_replica_witness:
  "\<exists>s1 i s2 evs. rest_Watch manifest_rest cluster_ctx None store_a = Some (s1, i, None) \<and>
     serve_all manifest_rest cluster_ctx [ReqDelete 9 ''a'' None] s1 = Some s2 \<and> events_of i (st_ws s2) = Some evs \<and>
     length evs = 2 \<and> replica evs ''a'' = None"
proof -
  let ?q = "[ReqDelete 9 ''a'' None] :: ManifestBody request list"
  let ?run = "\<lambda>P. case rest_Watch manifest_rest cluster_ctx None store_a of None \<Rightarrow> False
    | Some (s1, i, e) \<Rightarrow> (case serve_all manifest_rest cluster_ctx ?q s1 of None \<Rightarrow> False | Some s2 \<Rightarrow> P i s2)"
  have "mem_has_dir (st_fs store_a) (objectDirName manifest_rest cluster_ctx)" "mfs_rev (st_fs store_a) \<noteq> 0" by code_simp+
  moreover have "newListFunc manifest_rest = \<lparr>ListResourceVersion = Some [], Items = Inr []\<rparr>" by code_simp
  moreover have "hooks_keep_metadata (rest_strategy manifest_rest) cluster_ctx" by (simp add: manifest_rest_def)
  moreover have "codec_ok (rest_enc manifest_rest) (rest_dec manifest_rest) manifest_canon" by (simp add: manifest_rest_def manifest_codec_ok)
  ultimately obtain s1 i s2 evs where w: "rest_Watch manifest_rest cluster_ctx None store_a = Some (s1, i, None)"
    "serve_all manifest_rest cluster_ctx ?q s1 = Some s2" "events_of i (st_ws s2) = Some evs"
    "\<forall>name. slash \<notin> set name \<longrightarrow> rel_option (same_object manifest_canon) (replica evs name) (stored_object manifest_rest cluster_ctx name (st_fs s2))"
    using Watch_replica [OF store_a_ready _ store_a_names, of "[]" manifest_canon ?q] by auto
  have "?run (\<lambda>i s2. stored_object manifest_rest cluster_ctx ''a'' (st_fs s2) = None)" by code_simp
  with w have "stored_object manifest_rest cluster_ctx ''a'' (st_fs s2) = None" by simp
  moreover have "?run (\<lambda>i s2. map_option length (events_of i (st_ws s2)) = Some 2)" by code_simp
  with w have "length evs = 2" by simp
  ultimately show ?thesis using w by (auto dest: spec [of _ "''a''"])
qed

text \<open>C15. A watch with a selector is not told when an object leaves its selection: the event of an update
  whose result the selector does not match is not delivered, so the copy of the client keeps the
  object.\<close>

theorem Selector_watch_not_told:
  assumes "mem_ready ord f ctx s" and "hooks_return (rest_strategy f) ctx"
    and "map_of (ws_nodes (st_ws s)) i = Some w" and "wn_p w = Some (newSelectionPredicate options)"
    and "rest_Update V f ctx name upd cv uv force s = Some (s', Inr (obj', isNew))" and "\<not> selected options obj'"
  shows "events_of i (st_ws s') = events_of i (st_ws s)"
proof -
  from mem.rest_Update_total [OF mem_readyD [OF assms(1)] assms(2), of V name upd cv uv force] assms(5)
  have "mem.updated V f ctx name upd cv uv s s' obj' isNew" by simp
  then obtain ty where n: "WatchSet_notifyWatchers \<lparr>ev_Type = ty, ev_Object = obj'\<rparr> (st_ws s) = Some (st_ws s')"
    unfolding mem.updated_def by metis
  let ?ev = "\<lparr>ev_Type = ty, ev_Object = obj'\<rparr>"
  have "receive ?ev w = w" using assms(4,6) by (auto simp: receive_def split: sum.split)
  moreover from n have "st_ws s' = (st_ws s)\<lparr>ws_nodes := map (\<lambda>(i, w). (i, receive ?ev w)) (ws_nodes (st_ws s))\<rparr>"
    by (auto simp: WatchSet_notifyWatchers_def split: if_splits)
  ultimately show ?thesis
    using assms(3) by (simp add: events_of_def map_of_map [of "receive ?ev" "ws_nodes (st_ws s)", simplified case_prod_beta] case_prod_beta)
qed

definition unlabelled :: "ListOptions option" where
  "unlabelled = Some \<lparr>LabelSelector = Some (InternalSelector [\<lparr>req_key = ''env'', req_operator = DoesNotExist, strValues = []\<rparr>]),
     FieldSelector = None\<rparr>"

definition add_label :: "ManifestBody Object option \<Rightarrow> go_error + ManifestBody Object" where
  "add_label input = map_sum (\<lambda>e. e) (update_meta (\<lambda>m. m\<lparr>Labels := [(''env'', ''x'')]\<rparr>)) (edit ''new'' [] ''2'' input)"

theorem Selector_watch_not_told_witness:
  "\<exists>s1 i s2 obj'. rest_Watch manifest_rest cluster_ctx unlabelled store_a = Some (s1, i, None) \<and>
     rest_Update no_checks manifest_rest cluster_ctx ''a'' add_label None None False s1 = Some (s2, Inr (obj', False)) \<and>
     \<not> selected unlabelled obj' \<and>
     events_of i (st_ws s2) = Some [\<lparr>ev_Type = Added, ev_Object = the_manifest\<rparr>]"
proof -
  let ?up = "\<lambda>s1. rest_Update no_checks manifest_rest cluster_ctx ''a'' add_label None None False s1"
  have "returned (\<lambda>fs l. fs = st_fs store_a \<and> Items l = Inr [the_manifest] \<and> filter (selected unlabelled) [the_manifest] = [the_manifest])
      (rest_List manifest_rest cluster_ctx unlabelled (st_fs store_a))" by code_simp
  then obtain l where l: "rest_List manifest_rest cluster_ctx unlabelled (st_fs store_a) = Some (st_fs store_a, Inr l)"
    "Items l = Inr [the_manifest]" and sel: "filter (selected unlabelled) [the_manifest] = [the_manifest]" by (elim returnedE) auto
  have "\<forall>obj \<in> set [the_manifest]. Metadata obj \<noteq> None" by (simp add: the_manifest_def manifest_of_def)
  from rest_Watch_starts [OF l this mem_readyD(3) [OF store_a_ready]] obtain s1 i w where
    w: "rest_Watch manifest_rest cluster_ctx unlabelled store_a = Some (s1, i, None)" "st_fs s1 = st_fs store_a" "ws_live (st_ws s1)"
      "map_of (ws_nodes (st_ws s1)) i = Some w" "wn_p w = Some (newSelectionPredicate unlabelled)"
      "wn_out w = [\<lparr>ev_Type = Added, ev_Object = the_manifest\<rparr>]" unfolding sel by auto
  have ready: "mem_ready insertion_order manifest_rest cluster_ctx s1"
    by (rule mem_readyI [OF store_a_ready]) (use w mem_readyD(2) [OF store_a_ready] in auto)
  have "case rest_Watch manifest_rest cluster_ctx unlabelled store_a of None \<Rightarrow> False
    | Some (s1, i, e) \<Rightarrow> returned (\<lambda>s2 y. \<not> snd y \<and> \<not> selected unlabelled (fst y)) (?up s1)" by code_simp
  with w(1) have "returned (\<lambda>s2 y. \<not> snd y \<and> \<not> selected unlabelled (fst y)) (?up s1)" by simp
  then obtain s2 obj' where u: "?up s1 = Some (s2, Inr (obj', False))" "\<not> selected unlabelled obj'" by (elim returnedE) auto
  from Selector_watch_not_told [OF ready manifest_hooks_return w(4,5) u] w u show ?thesis by (auto simp: events_of_def)
qed

end
