(* ===== verification/Go_Heap.thy ===== *)
theory Go_Heap
  imports Prelude
begin

text \<open>
  Go's memory, as far as the generated deep-copy functions need it: a heap of typed cells,
  pointers that may be nil, slices as windows of a backing array, and maps. The deep-copy code
  is put together from four patterns, each a definition here:
  \<^item> \<open>*out = new(T); (*in).DeepCopyInto(*out)\<close> under a test for nil (\<open>ptr_copy\<close>);
  \<^item> \<open>*out = make([]T, len(*in))\<close> and a loop over the elements (\<open>slice_copy\<close>);
  \<^item> the same with the built-in \<open>copy\<close> (\<open>flat_copy\<close>);
  \<^item> \<open>*out = make(map[string]string)\<close> and a loop over the entries (\<open>map_copy\<close>).

  The locale \<open>deep_copying\<close> is the contract of a deep copy: what a value reads as depends
  only on the cells it owns, and a copy reads the same, owns only cells allocated by the copying,
  and leaves every older cell alone. Its extensions \<open>pointer\<close> and \<open>slices\<close> show that
  the patterns keep the contract, so the copy functions of the structs get it by interpretation.
\<close>

section \<open>Definitions\<close>

subsection \<open>The heap\<close>

record 'c heap =
  cells :: "nat \<Rightarrow> 'c option"
  next_addr :: nat

definition heap_ok :: "'c heap \<Rightarrow> bool" where
  "heap_ok h \<longleftrightarrow> (\<forall>a. cells h a \<noteq> None \<longrightarrow> a < next_addr h)"

definition alloc :: "'c \<Rightarrow> 'c heap \<Rightarrow> nat \<times> 'c heap" where
  "alloc c h =
     (next_addr h, h\<lparr>cells := (cells h)(next_addr h \<mapsto> c), next_addr := Suc (next_addr h)\<rparr>)"

text \<open>Reading and writing a cell; a cell that is not there or holds another type would be a nil
  dereference, which does not return.\<close>

definition load :: "('c \<Rightarrow> 'a option) \<Rightarrow> nat \<Rightarrow> 'c heap \<Rightarrow> 'a option" where
  "load sel a h = Option.bind (cells h a) sel"

definition heap_store :: "nat \<Rightarrow> 'c \<Rightarrow> 'c heap \<Rightarrow> 'c heap option" where
  "heap_store a c h = (case cells h a of None \<Rightarrow> None | Some _ \<Rightarrow> Some (h\<lparr>cells := (cells h)(a \<mapsto> c)\<rparr>))"

text \<open>Every cell of the first heap is unchanged in the second.\<close>

definition grows :: "'c heap \<Rightarrow> 'c heap \<Rightarrow> bool" where
  "grows h k \<longleftrightarrow>
     heap_ok k \<and> next_addr h \<le> next_addr k \<and> (\<forall>a. a < next_addr h \<longrightarrow> cells k a = cells h a)"

subsection \<open>Values without pointers\<close>

definition val_view :: "'c heap \<Rightarrow> 'a \<Rightarrow> 'a option" where
  "val_view h x = Some x"

definition val_owned :: "'c heap \<Rightarrow> 'a \<Rightarrow> nat list" where
  "val_owned h x = []"

text \<open>\<open>*out = *in\<close>.\<close>

definition val_copy :: "'a \<Rightarrow> 'c heap \<Rightarrow> ('a \<times> 'c heap) option" where
  "val_copy x h = Some (x, h)"

subsection \<open>Pointers\<close>

definition ptr_view ::
  "('c heap \<Rightarrow> 'a \<Rightarrow> 'v option) \<Rightarrow> ('c \<Rightarrow> 'a option) \<Rightarrow> 'c heap \<Rightarrow> nat option \<Rightarrow> 'v option option" where
  "ptr_view view sel h p =
     (case p of None \<Rightarrow> Some None
      | Some a \<Rightarrow> Option.bind (load sel a h) (\<lambda>x. map_option Some (view h x)))"

definition ptr_owned ::
  "('c heap \<Rightarrow> 'a \<Rightarrow> nat list) \<Rightarrow> ('c \<Rightarrow> 'a option) \<Rightarrow> 'c heap \<Rightarrow> nat option \<Rightarrow> nat list" where
  "ptr_owned owned sel h p =
     (case p of None \<Rightarrow> []
      | Some a \<Rightarrow> a # (case load sel a h of None \<Rightarrow> [] | Some x \<Rightarrow> owned h x))"

text \<open>\<open>in.DeepCopyInto(out)\<close> on pointers: \<open>copy\<close> gives the struct that the assignments
  leave in \<open>*out\<close>.\<close>

definition copy_into ::
  "('a \<Rightarrow> 'c heap \<Rightarrow> ('a \<times> 'c heap) option) \<Rightarrow> ('c \<Rightarrow> 'a option) \<Rightarrow> ('a \<Rightarrow> 'c) \<Rightarrow>
   nat \<Rightarrow> nat \<Rightarrow> 'c heap \<Rightarrow> 'c heap option" where
  "copy_into copy sel con src out h =
     do { x \<leftarrow> load sel src h; (y, h1) \<leftarrow> copy x h; heap_store out (con y) h1 }"

definition ptr_copy ::
  "('a \<Rightarrow> 'c heap \<Rightarrow> ('a \<times> 'c heap) option) \<Rightarrow> ('c \<Rightarrow> 'a option) \<Rightarrow> ('a \<Rightarrow> 'c) \<Rightarrow> 'a \<Rightarrow>
   nat option \<Rightarrow> 'c heap \<Rightarrow> (nat option \<times> 'c heap) option" where
  "ptr_copy copy sel con zero p h =
     (case p of None \<Rightarrow> Some (None, h)
      | Some src \<Rightarrow>
          let (out, h1) = alloc (con zero) h
          in do { h2 \<leftarrow> copy_into copy sel con src out h1; Some (Some out, h2) })"

subsection \<open>Slices\<close>

text \<open>A slice is a window of a backing array; its capacity is the rest of the array.\<close>

record slice =
  s_array :: nat
  s_off :: nat
  s_len :: nat

definition slice_elems :: "('c \<Rightarrow> 'a list option) \<Rightarrow> slice \<Rightarrow> 'c heap \<Rightarrow> 'a list option" where
  "slice_elems sel s h =
     (case load sel (s_array s) h of None \<Rightarrow> None
      | Some xs \<Rightarrow>
          if s_off s + s_len s \<le> length xs then Some (take (s_len s) (drop (s_off s) xs)) else None)"

definition slice_view ::
  "('c heap \<Rightarrow> 'a \<Rightarrow> 'v option) \<Rightarrow> ('c \<Rightarrow> 'a list option) \<Rightarrow> 'c heap \<Rightarrow> slice option \<Rightarrow>
   'v list option option" where
  "slice_view view sel h p =
     (case p of None \<Rightarrow> Some None
      | Some s \<Rightarrow> Option.bind (slice_elems sel s h) (\<lambda>xs. map_option Some (those (map (view h) xs))))"

definition slice_owned ::
  "('c heap \<Rightarrow> 'a \<Rightarrow> nat list) \<Rightarrow> ('c \<Rightarrow> 'a list option) \<Rightarrow> 'c heap \<Rightarrow> slice option \<Rightarrow> nat list" where
  "slice_owned owned sel h p =
     (case p of None \<Rightarrow> []
      | Some s \<Rightarrow> s_array s # (case slice_elems sel s h of None \<Rightarrow> [] | Some xs \<Rightarrow> concat (map (owned h) xs)))"

text \<open>\<open>for i := range *in { (*in)[i].DeepCopyInto(&(*out)[i]) }\<close>, from index \<open>i\<close> on with
  \<open>n\<close> rounds to go.\<close>

fun copy_loop ::
  "('a \<Rightarrow> 'c heap \<Rightarrow> ('a \<times> 'c heap) option) \<Rightarrow> ('c \<Rightarrow> 'a list option) \<Rightarrow> ('a list \<Rightarrow> 'c) \<Rightarrow>
   slice \<Rightarrow> nat \<Rightarrow> nat \<Rightarrow> nat \<Rightarrow> 'c heap \<Rightarrow> 'c heap option" where
  "copy_loop copy sel con s out i 0 h = Some h"
| "copy_loop copy sel con s out i (Suc n) h =
     do {
       xs \<leftarrow> slice_elems sel s h;
       if i < length xs then do {
         (y, h1) \<leftarrow> copy (xs ! i) h;
         ys \<leftarrow> load sel out h1;
         if i < length ys then do {
           h2 \<leftarrow> heap_store out (con (ys[i := y])) h1;
           copy_loop copy sel con s out (Suc i) n h2
         } else None
       } else None
     }"

definition slice_copy ::
  "('a \<Rightarrow> 'c heap \<Rightarrow> ('a \<times> 'c heap) option) \<Rightarrow> ('c \<Rightarrow> 'a list option) \<Rightarrow> ('a list \<Rightarrow> 'c) \<Rightarrow> 'a \<Rightarrow>
   slice option \<Rightarrow> 'c heap \<Rightarrow> (slice option \<times> 'c heap) option" where
  "slice_copy copy sel con zero p h =
     (case p of None \<Rightarrow> Some (None, h)
      | Some s \<Rightarrow>
          let (out, h1) = alloc (con (replicate (s_len s) zero)) h
          in do {
            h2 \<leftarrow> copy_loop copy sel con s out 0 (s_len s) h1;
            Some (Some \<lparr>s_array = out, s_off = 0, s_len = s_len s\<rparr>, h2)
          })"

text \<open>The built-in \<open>copy(dst, src)\<close>: as many elements as both have.\<close>

definition go_copy :: "'a list \<Rightarrow> 'a list \<Rightarrow> 'a list" where
  "go_copy dst src = take (length dst) src @ drop (length src) dst"

definition flat_copy ::
  "('c \<Rightarrow> 'a list option) \<Rightarrow> ('a list \<Rightarrow> 'c) \<Rightarrow> 'a \<Rightarrow> slice option \<Rightarrow> 'c heap \<Rightarrow>
   (slice option \<times> 'c heap) option" where
  "flat_copy sel con zero p h =
     (case p of None \<Rightarrow> Some (None, h)
      | Some s \<Rightarrow>
          let (out, h1) = alloc (con (replicate (s_len s) zero)) h
          in do {
            xs \<leftarrow> slice_elems sel s h1;
            ys \<leftarrow> load sel out h1;
            h2 \<leftarrow> heap_store out (con (go_copy ys xs)) h1;
            Some (Some \<lparr>s_array = out, s_off = 0, s_len = s_len s\<rparr>, h2)
          })"

subsection \<open>Maps\<close>

text \<open>The entries of a map in the order in which a \<open>range\<close> visits them; as a value the map
  is the function they describe.\<close>

definition map_view :: "('c \<Rightarrow> ('k \<times> 'w) list option) \<Rightarrow> 'c heap \<Rightarrow> nat option \<Rightarrow> ('k \<Rightarrow> 'w option) option option" where
  "map_view sel h p =
     (case p of None \<Rightarrow> Some None
      | Some a \<Rightarrow>
          (case load sel a h of None \<Rightarrow> None
           | Some m \<Rightarrow> if distinct (map fst m) then Some (Some (map_of m)) else None))"

definition map_owned :: "'c heap \<Rightarrow> nat option \<Rightarrow> nat list" where
  "map_owned h p = (case p of None \<Rightarrow> [] | Some a \<Rightarrow> [a])"

text \<open>\<open>for key, val := range *in { (*out)[key] = val }\<close>.\<close>

fun map_loop ::
  "('c \<Rightarrow> ('k \<times> 'w) list option) \<Rightarrow> (('k \<times> 'w) list \<Rightarrow> 'c) \<Rightarrow> nat \<Rightarrow> ('k \<times> 'w) list \<Rightarrow> 'c heap \<Rightarrow>
   'c heap option" where
  "map_loop sel con out [] h = Some h"
| "map_loop sel con out (kv # kvs) h =
     do {
       m \<leftarrow> load sel out h;
       h1 \<leftarrow> heap_store out (con (AList.update (fst kv) (snd kv) m)) h;
       map_loop sel con out kvs h1
     }"

definition map_copy ::
  "('c \<Rightarrow> ('k \<times> 'w) list option) \<Rightarrow> (('k \<times> 'w) list \<Rightarrow> 'c) \<Rightarrow> nat option \<Rightarrow> 'c heap \<Rightarrow>
   (nat option \<times> 'c heap) option" where
  "map_copy sel con p h =
     (case p of None \<Rightarrow> Some (None, h)
      | Some a \<Rightarrow>
          let (out, h1) = alloc (con []) h
          in do { m \<leftarrow> load sel a h1; h2 \<leftarrow> map_loop sel con out m h1; Some (Some out, h2) })"

subsection \<open>Structs\<close>

text \<open>Two fields copied one after the other, and a struct whose pointer fields are taken out by
  \<open>get\<close> and replaced by \<open>put\<close>; \<open>mk\<close> gives the value of the struct.\<close>

definition pair_view ::
  "('c heap \<Rightarrow> 'a \<Rightarrow> 'v option) \<Rightarrow> ('c heap \<Rightarrow> 'b \<Rightarrow> 'w option) \<Rightarrow> 'c heap \<Rightarrow> 'a \<times> 'b \<Rightarrow> ('v \<times> 'w) option" where
  "pair_view view1 view2 h p = do { v \<leftarrow> view1 h (fst p); w \<leftarrow> view2 h (snd p); Some (v, w) }"

definition pair_owned ::
  "('c heap \<Rightarrow> 'a \<Rightarrow> nat list) \<Rightarrow> ('c heap \<Rightarrow> 'b \<Rightarrow> nat list) \<Rightarrow> 'c heap \<Rightarrow> 'a \<times> 'b \<Rightarrow> nat list" where
  "pair_owned owned1 owned2 h p = owned1 h (fst p) @ owned2 h (snd p)"

definition pair_copy ::
  "('a \<Rightarrow> 'c heap \<Rightarrow> ('a \<times> 'c heap) option) \<Rightarrow> ('b \<Rightarrow> 'c heap \<Rightarrow> ('b \<times> 'c heap) option) \<Rightarrow> 'a \<times> 'b \<Rightarrow>
   'c heap \<Rightarrow> (('a \<times> 'b) \<times> 'c heap) option" where
  "pair_copy copy1 copy2 p h =
     do { (x, h1) \<leftarrow> copy1 (fst p) h; (y, h2) \<leftarrow> copy2 (snd p) h1; Some ((x, y), h2) }"

definition struct_view ::
  "('c heap \<Rightarrow> 'a \<Rightarrow> 'v option) \<Rightarrow> ('s \<Rightarrow> 'a) \<Rightarrow> ('s \<Rightarrow> 'v \<Rightarrow> 'w) \<Rightarrow> 'c heap \<Rightarrow> 's \<Rightarrow> 'w option" where
  "struct_view view get mk h s = map_option (mk s) (view h (get s))"

definition struct_owned :: "('c heap \<Rightarrow> 'a \<Rightarrow> nat list) \<Rightarrow> ('s \<Rightarrow> 'a) \<Rightarrow> 'c heap \<Rightarrow> 's \<Rightarrow> nat list" where
  "struct_owned owned get h s = owned h (get s)"

definition struct_copy ::
  "('a \<Rightarrow> 'c heap \<Rightarrow> ('a \<times> 'c heap) option) \<Rightarrow> ('s \<Rightarrow> 'a) \<Rightarrow> ('a \<Rightarrow> 's \<Rightarrow> 's) \<Rightarrow> 's \<Rightarrow>
   'c heap \<Rightarrow> ('s \<times> 'c heap) option" where
  "struct_copy copy get put s h = do { (x, h1) \<leftarrow> copy (get s) h; Some (put x s, h1) }"

section \<open>The heap operations\<close>

lemma grows_refl: "heap_ok h \<Longrightarrow> grows h h"
  by (simp add: grows_def)

lemma grows_trans: "grows h k \<Longrightarrow> grows k l \<Longrightarrow> grows h l"
  by (auto simp: grows_def)

lemma grows_ok: "grows h k \<Longrightarrow> heap_ok k"
  by (simp add: grows_def)

lemma grows_next: "grows h k \<Longrightarrow> next_addr h \<le> next_addr k"
  by (simp add: grows_def)

lemma grows_load: "grows h k \<Longrightarrow> heap_ok h \<Longrightarrow> load sel a h = Some x \<Longrightarrow> load sel a k = Some x"
  by (auto simp: grows_def heap_ok_def load_def bind_eq_Some_conv)

lemma load_below: "heap_ok h \<Longrightarrow> load sel a h = Some x \<Longrightarrow> a < next_addr h"
  by (auto simp: heap_ok_def load_def bind_eq_Some_conv)

lemma alloc_grows: "heap_ok h \<Longrightarrow> alloc c h = (a, k) \<Longrightarrow> grows h k \<and> a = next_addr h \<and> cells k a = Some c \<and> next_addr k = Suc a"
  by (auto simp: alloc_def grows_def heap_ok_def less_Suc_eq)

text \<open>A write to a cell that is not among the old ones.\<close>

lemma heap_store_fresh:
  assumes "grows h k" and "next_addr h \<le> a" and "cells k a \<noteq> None"
  obtains l where "heap_store a c k = Some l" and "grows h l" and "cells l a = Some c"
    and "\<And>b. b \<noteq> a \<Longrightarrow> cells l b = cells k b" and "next_addr l = next_addr k"
proof
  show "heap_store a c k = Some (k\<lparr>cells := (cells k)(a \<mapsto> c)\<rparr>)"
    using assms by (auto simp: heap_store_def)
  show "grows h (k\<lparr>cells := (cells k)(a \<mapsto> c)\<rparr>)"
    using assms by (auto simp: grows_def heap_ok_def)
qed auto

lemma those_conv: "those (map f xs) = Some vs \<longleftrightarrow> list_all2 (\<lambda>x v. f x = Some v) xs vs"
proof (induction xs arbitrary: vs)
  case (Cons x xs)
  then show ?case by (cases vs) (auto split: option.splits)
qed auto

lemma update_fresh_key: "k \<notin> fst ` set m \<Longrightarrow> AList.update k v m = m @ [(k, v)]"
  by (induction m) auto

section \<open>The contract\<close>

locale deep_copying =
  fixes view :: "'c heap \<Rightarrow> 'a \<Rightarrow> 'v option"
    and owned :: "'c heap \<Rightarrow> 'a \<Rightarrow> nat list"
    and copy :: "'a \<Rightarrow> 'c heap \<Rightarrow> ('a \<times> 'c heap) option"
  assumes view_owned: "view h x = Some v \<Longrightarrow> a \<in> set (owned h x) \<Longrightarrow> cells h a \<noteq> None"
    and view_local: "view h x = Some v \<Longrightarrow> (\<And>a. a \<in> set (owned h x) \<Longrightarrow> cells k a = cells h a) \<Longrightarrow>
      view k x = Some v \<and> owned k x = owned h x"
    and copy_fresh: "heap_ok h \<Longrightarrow> view h x = Some v \<Longrightarrow>
      \<exists>y k. copy x h = Some (y, k) \<and> grows h k \<and> view k y = Some v \<and> (\<forall>a\<in>set (owned k y). next_addr h \<le> a)"
begin

lemma owned_below: "heap_ok h \<Longrightarrow> view h x = Some v \<Longrightarrow> a \<in> set (owned h x) \<Longrightarrow> a < next_addr h"
  using view_owned by (auto simp: heap_ok_def)

lemma view_grows:
  assumes "heap_ok h" and "grows h k" and "view h x = Some v"
  shows "view k x = Some v" and "owned k x = owned h x"
  using view_local[OF assms(3), of k] owned_below[OF assms(1,3)] assms(2) by (auto simp: grows_def)

text \<open>A copy, carried on into any heap that has the cells the copying left.\<close>

lemma copy_obtain:
  assumes "heap_ok h" and "view h x = Some v"
  obtains y k where "copy x h = Some (y, k)" and "grows h k" and "heap_ok k" and "view k y = Some v"
    and "\<And>a. a \<in> set (owned k y) \<Longrightarrow> next_addr h \<le> a"
    and "\<And>l. grows k l \<Longrightarrow> view l y = Some v \<and> owned l y = owned k y"
  using copy_fresh[OF assms] view_grows grows_ok by metis

text \<open>Copy and original have no cell in common, and no write through one shows in the other.\<close>

lemma isolated:
  assumes "heap_ok h" and "view h x = Some v"
  shows "\<exists>y k. copy x h = Some (y, k) \<and> grows h k \<and> view k y = Some v \<and>
    set (owned k y) \<inter> set (owned h x) = {} \<and>
    (\<forall>l. (\<forall>a. a \<notin> set (owned k y) \<longrightarrow> cells l a = cells k a) \<longrightarrow> view l x = Some v) \<and>
    (\<forall>l. (\<forall>a. a \<notin> set (owned h x) \<longrightarrow> cells l a = cells k a) \<longrightarrow> view l y = Some v)"
proof -
  obtain y k where c: "copy x h = Some (y, k)" "grows h k" "view k y = Some v"
    "\<And>a. a \<in> set (owned k y) \<Longrightarrow> next_addr h \<le> a"
    using copy_obtain[OF assms] by metis
  have apart: "a \<notin> set (owned k y)" if "a \<in> set (owned h x)" for a
    using c(4) owned_below[OF assms that] by force
  have x: "view k x = Some v" "owned k x = owned h x"
    using view_grows[OF assms(1) c(2) assms(2)] by simp_all
  have "view l x = Some v" if "\<forall>a. a \<notin> set (owned k y) \<longrightarrow> cells l a = cells k a" for l
    using view_local[OF x(1), of l] x(2) apart that by simp
  moreover have "view l y = Some v" if "\<forall>a. a \<notin> set (owned h x) \<longrightarrow> cells l a = cells k a" for l
    using view_local[OF c(3), of l] apart that by blast
  ultimately show ?thesis
    using c(1-3) apart by blast
qed

end

interpretation plain: deep_copying val_view val_owned val_copy
  by unfold_locales (auto simp: val_view_def val_owned_def val_copy_def grows_refl)

section \<open>Pointers keep the contract\<close>

locale pointer = deep_copying view owned copy
  for view :: "'c heap \<Rightarrow> 'a \<Rightarrow> 'v option" and owned copy +
  fixes sel :: "'c \<Rightarrow> 'a option" and con :: "'a \<Rightarrow> 'c" and zero :: 'a
  assumes sel_con: "sel (con x) = Some x"
begin

lemma load_con: "cells h a = Some (con x) \<Longrightarrow> load sel a h = Some x"
  by (simp add: load_def sel_con)

text \<open>\<open>DeepCopyInto\<close> into a cell that was allocated before: the copied struct ends there, and
  what it owns lies beyond it.\<close>

lemma copy_into_ok:
  assumes h: "grows g h" "next_addr g \<le> out" "cells h out \<noteq> None" and x: "load sel src h = Some x" "view h x = Some v"
  shows "\<exists>y k. copy_into copy sel con src out h = Some k \<and> grows g k \<and> load sel out k = Some y \<and>
    view k y = Some v \<and> (\<forall>a\<in>set (owned k y). next_addr h \<le> a)"
proof -
  obtain y k where c: "copy x h = Some (y, k)" "grows h k" "view k y = Some v"
    "\<And>a. a \<in> set (owned k y) \<Longrightarrow> next_addr h \<le> a"
    using copy_obtain[OF grows_ok[OF h(1)] x(2)] by metis
  have below: "out < next_addr h" using h(1,3) by (auto simp: grows_def heap_ok_def)
  obtain l where l: "heap_store out (con y) k = Some l" "grows g l" "cells l out = Some (con y)"
    "\<And>b. b \<noteq> out \<Longrightarrow> cells l b = cells k b"
    using heap_store_fresh[OF grows_trans[OF h(1) c(2)] h(2)] below h(3) c(2)
    by (metis grows_def)
  have y: "view l y = Some v \<and> owned l y = owned k y"
    using view_local[OF c(3)] l(4) c(4) below by (metis leD)
  show ?thesis
    using c(1,4) l(1,2) y x(1) load_con[OF l(3)] by (simp add: copy_into_def)
qed

lemma ptr_view_Some:
  assumes "ptr_view view sel h (Some b) = Some v"
  obtains x w where "load sel b h = Some x" and "view h x = Some w" and "v = Some w"
  using assms by (auto simp: ptr_view_def bind_eq_Some_conv)

lemma ptr_owned_Some: "load sel b h = Some x \<Longrightarrow> ptr_owned owned sel h (Some b) = b # owned h x"
  by (simp add: ptr_owned_def)

lemma ptr_view_I: "load sel b h = Some x \<Longrightarrow> view h x = Some w \<Longrightarrow> ptr_view view sel h (Some b) = Some (Some w)"
  by (simp add: ptr_view_def)

lemma ptr_nil: "ptr_view view sel h None = Some None" "ptr_owned owned sel h None = []"
  "ptr_copy copy sel con zero None h = Some (None, h)"
  by (simp_all add: ptr_view_def ptr_owned_def ptr_copy_def)

lemma ptr_view_owned:
  assumes v: "ptr_view view sel h p = Some v" and a: "a \<in> set (ptr_owned owned sel h p)"
  shows "cells h a \<noteq> None"
proof (cases p)
  case (Some b)
  obtain x w where x: "load sel b h = Some x" "view h x = Some w"
    using v unfolding Some by (rule ptr_view_Some)
  then have "cells h b \<noteq> None" by (auto simp: load_def bind_eq_Some_conv)
  then show ?thesis
    using a x view_owned[OF x(2)] by (auto simp: Some ptr_owned_Some)
qed (use a in \<open>simp add: ptr_nil\<close>)

lemma ptr_view_local:
  assumes v: "ptr_view view sel h p = Some v" and agree: "\<And>a. a \<in> set (ptr_owned owned sel h p) \<Longrightarrow> cells k a = cells h a"
  shows "ptr_view view sel k p = Some v \<and> ptr_owned owned sel k p = ptr_owned owned sel h p"
proof (cases p)
  case (Some b)
  obtain x w where x: "load sel b h = Some x" "view h x = Some w" "v = Some w"
    using v unfolding Some by (rule ptr_view_Some)
  have same: "cells k b = cells h b" "\<And>a. a \<in> set (owned h x) \<Longrightarrow> cells k a = cells h a"
    using agree x(1) by (simp_all add: Some ptr_owned_Some)
  then have "load sel b k = Some x" using x(1) by (simp add: load_def)
  then show ?thesis
    using view_local[OF x(2), of k] same(2) x by (simp add: Some ptr_owned_Some ptr_view_I)
qed (use v in \<open>simp add: ptr_nil\<close>)

lemma ptr_copy_fresh:
  assumes ok: "heap_ok h" and v: "ptr_view view sel h p = Some v"
  shows "\<exists>y k. ptr_copy copy sel con zero p h = Some (y, k) \<and> grows h k \<and> ptr_view view sel k y = Some v \<and>
      (\<forall>a\<in>set (ptr_owned owned sel k y). next_addr h \<le> a)"
proof (cases p)
  case (Some b)
  obtain x w where x: "load sel b h = Some x" "view h x = Some w" "v = Some w"
    using v unfolding Some by (rule ptr_view_Some)
  obtain out h1 where al: "alloc (con zero) h = (out, h1)" by force
  then have h1: "grows h h1" "out = next_addr h" "cells h1 out \<noteq> None" "next_addr h1 = Suc out"
    using alloc_grows[OF ok al] by auto
  obtain y k where k: "copy_into copy sel con b out h1 = Some k" "grows h k" "load sel out k = Some y"
    "view k y = Some w" "\<forall>a\<in>set (owned k y). next_addr h1 \<le> a"
    using copy_into_ok[OF h1(1) eq_refl[OF h1(2)[symmetric]] h1(3) grows_load[OF h1(1) ok x(1)] view_grows(1)[OF ok h1(1) x(2)]]
    by blast
  have "ptr_copy copy sel con zero p h = Some (Some out, k)"
    using k(1) by (simp add: Some ptr_copy_def al)
  moreover have "\<forall>a\<in>set (ptr_owned owned sel k (Some out)). next_addr h \<le> a"
    unfolding ptr_owned_Some[OF k(3)] using k(5) h1(2,4) by auto
  ultimately show ?thesis
    using k(2) ptr_view_I[OF k(3,4)] x(3) by blast
qed (use v ok in \<open>simp add: ptr_nil grows_refl\<close>)

end

sublocale pointer \<subseteq> ptr: deep_copying "ptr_view view sel" "ptr_owned owned sel" "ptr_copy copy sel con zero"
  by (rule deep_copying.intro) (fact ptr_view_owned ptr_view_local ptr_copy_fresh)+

context pointer
begin

lemma ptr_contract: "deep_copying (ptr_view view sel) (ptr_owned owned sel) (ptr_copy copy sel con zero)"
  by (rule ptr.deep_copying_axioms)

lemma ptr_isolated:
  assumes "heap_ok h" and "ptr_view view sel h (Some p) = Some (Some v)"
  shows "\<exists>q k. ptr_copy copy sel con zero (Some p) h = Some (Some q, k) \<and> grows h k \<and>
    ptr_view view sel k (Some q) = Some (Some v) \<and>
    set (ptr_owned owned sel k (Some q)) \<inter> set (ptr_owned owned sel h (Some p)) = {} \<and>
    (\<forall>l. (\<forall>a. a \<notin> set (ptr_owned owned sel k (Some q)) \<longrightarrow> cells l a = cells k a) \<longrightarrow>
       ptr_view view sel l (Some p) = Some (Some v)) \<and>
    (\<forall>l. (\<forall>a. a \<notin> set (ptr_owned owned sel h (Some p)) \<longrightarrow> cells l a = cells k a) \<longrightarrow>
       ptr_view view sel l (Some q) = Some (Some v))"
proof -
  obtain y k where c: "ptr_copy copy sel con zero (Some p) h = Some (y, k)" "ptr_view view sel k y = Some (Some v)"
    and rest: "grows h k" "set (ptr_owned owned sel k y) \<inter> set (ptr_owned owned sel h (Some p)) = {}"
      "\<forall>l. (\<forall>a. a \<notin> set (ptr_owned owned sel k y) \<longrightarrow> cells l a = cells k a) \<longrightarrow> ptr_view view sel l (Some p) = Some (Some v)"
      "\<forall>l. (\<forall>a. a \<notin> set (ptr_owned owned sel h (Some p)) \<longrightarrow> cells l a = cells k a) \<longrightarrow> ptr_view view sel l y = Some (Some v)"
    using ptr.isolated[OF assms] by blast
  obtain q where q: "y = Some q" using c(2) by (cases y) (simp_all add: ptr_nil)
  show ?thesis using c rest unfolding q by blast
qed

end

section \<open>Slices keep the contract\<close>

locale slices = deep_copying view owned copy
  for view :: "'c heap \<Rightarrow> 'a \<Rightarrow> 'v option" and owned copy +
  fixes sel :: "'c \<Rightarrow> 'a list option" and con :: "'a list \<Rightarrow> 'c" and zero :: 'a
  assumes sel_con: "sel (con xs) = Some xs"
begin

lemma load_con: "cells h a = Some (con xs) \<Longrightarrow> load sel a h = Some xs"
  by (simp add: load_def sel_con)

abbreviation reads :: "'c heap \<Rightarrow> 'a list \<Rightarrow> 'v list \<Rightarrow> bool" where
  "reads h \<equiv> list_all2 (\<lambda>x v. view h x = Some v)"

lemma slice_view_Some:
  assumes "slice_view view sel h (Some s) = Some v"
  obtains xs vs where "slice_elems sel s h = Some xs" and "reads h xs vs" and "v = Some vs"
  using assms by (auto simp: slice_view_def bind_eq_Some_conv those_conv)

lemma slice_view_I: "slice_elems sel s h = Some xs \<Longrightarrow> reads h xs vs \<Longrightarrow> slice_view view sel h (Some s) = Some (Some vs)"
  by (simp add: slice_view_def those_conv[symmetric])

lemma slice_owned_Some:
  "slice_elems sel s h = Some xs \<Longrightarrow> slice_owned owned sel h (Some s) = s_array s # concat (map (owned h) xs)"
  by (simp add: slice_owned_def)

lemma slice_nil: "slice_view view sel h None = Some None" "slice_owned owned sel h None = []"
  "slice_copy copy sel con zero None h = Some (None, h)"
  by (simp_all add: slice_view_def slice_owned_def slice_copy_def)

lemma slice_elems_cell: "slice_elems sel s h = Some xs \<Longrightarrow> cells h (s_array s) \<noteq> None"
  by (cases "cells h (s_array s)") (simp_all add: slice_elems_def load_def)

lemma slice_elems_same: "cells k (s_array s) = cells h (s_array s) \<Longrightarrow> slice_elems sel s k = slice_elems sel s h"
  by (simp add: slice_elems_def load_def)

lemma slice_elems_length: "slice_elems sel s h = Some xs \<Longrightarrow> length xs = s_len s"
  by (auto simp: slice_elems_def split: option.splits if_splits)

lemma slice_elems_grows: "heap_ok h \<Longrightarrow> grows h k \<Longrightarrow> slice_elems sel s h = Some xs \<Longrightarrow> slice_elems sel s k = Some xs"
  using slice_elems_cell slice_elems_same by (metis grows_def heap_ok_def)

text \<open>The elements that a window of the whole array shows.\<close>

lemma slice_elems_all:
  "cells h a = Some (con xs) \<Longrightarrow> slice_elems sel \<lparr>s_array = a, s_off = 0, s_len = length xs\<rparr> h = Some xs"
  by (simp add: slice_elems_def load_con)

lemma reads_local:
  assumes "reads h xs vs" and "\<forall>x\<in>set xs. \<forall>a\<in>set (owned h x). cells k a = cells h a"
  shows "reads k xs vs \<and> map (owned k) xs = map (owned h) xs"
  using assms
proof (induction rule: list_all2_induct)
  case (Cons x xs v vs)
  then show ?case using view_local[of h x v k] by simp
qed simp

lemma reads_owned: "reads h xs vs \<Longrightarrow> x \<in> set xs \<Longrightarrow> a \<in> set (owned h x) \<Longrightarrow> cells h a \<noteq> None"
proof (induction rule: list_all2_induct)
  case (Cons y xs v vs)
  then show ?case using view_owned[of h y v a] by auto
qed simp

lemma reads_grows: "heap_ok h \<Longrightarrow> grows h k \<Longrightarrow> reads h xs vs \<Longrightarrow> reads k xs vs"
  by (erule list_all2_mono) (rule view_grows(1))

lemma slice_view_owned:
  assumes v: "slice_view view sel h p = Some v" and a: "a \<in> set (slice_owned owned sel h p)"
  shows "cells h a \<noteq> None"
proof (cases p)
  case (Some s)
  obtain xs vs where x: "slice_elems sel s h = Some xs" "reads h xs vs"
    using v unfolding Some by (rule slice_view_Some)
  have "a = s_array s \<or> (\<exists>x\<in>set xs. a \<in> set (owned h x))"
    using a unfolding Some slice_owned_Some[OF x(1)] by auto
  then show ?thesis using slice_elems_cell[OF x(1)] reads_owned[OF x(2)] by blast
qed (use a in \<open>simp add: slice_nil\<close>)

lemma slice_view_local:
  assumes v: "slice_view view sel h p = Some v" and agree: "\<And>a. a \<in> set (slice_owned owned sel h p) \<Longrightarrow> cells k a = cells h a"
  shows "slice_view view sel k p = Some v \<and> slice_owned owned sel k p = slice_owned owned sel h p"
proof (cases p)
  case (Some s)
  obtain xs vs where x: "slice_elems sel s h = Some xs" "reads h xs vs" "v = Some vs"
    using v unfolding Some by (rule slice_view_Some)
  have same: "cells k (s_array s) = cells h (s_array s)"
    "\<forall>x\<in>set xs. \<forall>a\<in>set (owned h x). cells k a = cells h a"
    using agree unfolding Some slice_owned_Some[OF x(1)] by auto
  have k: "slice_elems sel s k = Some xs" using x(1) slice_elems_same[OF same(1)] by simp
  have r: "reads k xs vs" "map (owned k) xs = map (owned h) xs"
    using reads_local[OF x(2) same(2)] by blast+
  show ?thesis
    unfolding Some slice_owned_Some[OF x(1)] slice_owned_Some[OF k] r(2)
    using slice_view_I[OF k r(1)] x(3) by simp
qed (use v in \<open>simp add: slice_nil\<close>)

text \<open>One round of the loop: the next element is copied and put into the new array. \<open>ys\<close>
  are the copies made so far; what they own lies beyond the new array, so the write does not
  disturb them.\<close>

lemma copy_round:
  assumes h: "grows g h" "next_addr g \<le> out" "cells h out = Some (con (ys @ z # zs))"
    and ys: "reads h ys vs" "\<forall>y\<in>set ys. \<forall>a\<in>set (owned h y). out < a" and x: "view h x = Some v"
  shows "\<exists>y h1 h2. copy x h = Some (y, h1) \<and> load sel out h1 = Some (ys @ z # zs) \<and>
    heap_store out (con (ys @ y # zs)) h1 = Some h2 \<and> grows g h2 \<and> cells h2 out = Some (con (ys @ y # zs)) \<and>
    reads h2 (ys @ [y]) (vs @ [v]) \<and> (\<forall>y'\<in>set (ys @ [y]). \<forall>a\<in>set (owned h2 y'). out < a)"
proof -
  have ok: "heap_ok h" by (rule grows_ok[OF h(1)])
  obtain y h1 where c: "copy x h = Some (y, h1)" "grows h h1" "view h1 y = Some v"
    "\<And>a. a \<in> set (owned h1 y) \<Longrightarrow> next_addr h \<le> a"
    using copy_obtain[OF ok x] by metis
  have below: "out < next_addr h" using ok h(3) by (auto simp: heap_ok_def)
  have out1: "cells h1 out = Some (con (ys @ z # zs))" using c(2) below h(3) by (simp add: grows_def)
  have r1: "reads h1 ys vs" by (rule reads_grows[OF ok c(2) ys(1)])
  have "\<forall>y'\<in>set ys. \<forall>a\<in>set (owned h y'). cells h1 a = cells h a"
    using reads_owned[OF ys(1)] ok c(2) unfolding grows_def heap_ok_def by blast
  then have "map (owned h1) ys = map (owned h) ys" using reads_local[OF ys(1)] by blast
  then have "\<forall>y'\<in>set ys. \<forall>a\<in>set (owned h1 y'). out < a" using ys(2) by simp
  moreover have "\<forall>a\<in>set (owned h1 y). out < a" using c(4) below less_le_trans by blast
  ultimately have o1: "\<forall>y'\<in>set (ys @ [y]). \<forall>a\<in>set (owned h1 y'). out < a" by auto
  obtain h2 where s: "heap_store out (con (ys @ y # zs)) h1 = Some h2" "grows g h2" "cells h2 out = Some (con (ys @ y # zs))"
    "\<And>b. b \<noteq> out \<Longrightarrow> cells h2 b = cells h1 b"
    using heap_store_fresh[OF grows_trans[OF h(1) c(2)] h(2), of "con (ys @ y # zs)"] out1 by blast
  have "reads h1 (ys @ [y]) (vs @ [v])" using r1 c(3) by (simp add: list_all2_appendI)
  moreover have "\<forall>y'\<in>set (ys @ [y]). \<forall>a\<in>set (owned h1 y'). cells h2 a = cells h1 a"
    using s(4) o1 less_not_refl2 by metis
  ultimately have r2: "reads h2 (ys @ [y]) (vs @ [v])" "map (owned h2) (ys @ [y]) = map (owned h1) (ys @ [y])"
    using reads_local[of h1 "ys @ [y]" "vs @ [v]" h2] by blast+
  have "\<forall>y'\<in>set (ys @ [y]). \<forall>a\<in>set (owned h2 y'). out < a"
    using o1 r2(2) by simp
  then show ?thesis using c(1) load_con[OF out1] s(1-3) r2(1) by blast
qed

lemma copy_loop_ok:
  assumes "heap_ok g" and "grows g h" and "next_addr g \<le> out" and "cells h out = Some (con (ys @ replicate n zero))"
    and "slice_elems sel s g = Some xs" and "reads g xs (vs @ ws)" and "length ys + n = length xs"
    and "reads h ys vs" and "\<forall>y\<in>set ys. \<forall>a\<in>set (owned h y). out < a"
  shows "\<exists>k zs. copy_loop copy sel con s out (length ys) n h = Some k \<and> grows g k \<and> length zs = length xs \<and>
    cells k out = Some (con zs) \<and> reads k zs (vs @ ws) \<and> (\<forall>y\<in>set zs. \<forall>a\<in>set (owned k y). out < a)"
  using assms
proof (induction n arbitrary: h ys vs ws)
  case 0
  then have "ws = []" by (auto dest!: list_all2_lengthD)
  then show ?case using 0 by auto
next
  case (Suc n)
  have len: "length ys = length vs" "length xs = length vs + length ws"
    using Suc.prems(6,8) by (auto dest!: list_all2_lengthD)
  then obtain w ws' where ws: "ws = w # ws'" using Suc.prems(7) by (cases ws) auto
  have "view g (xs ! length ys) = Some w"
    using Suc.prems(6) len by (auto simp: list_all2_conv_all_nth ws nth_append dest: spec[of _ "length vs"])
  then have "view h (xs ! length ys) = Some w"
    using view_grows(1)[OF Suc.prems(1,2)] by blast
  with Suc.prems(2,3,4,8,9) obtain y h1 h2 where r: "copy (xs ! length ys) h = Some (y, h1)"
    "load sel out h1 = Some (ys @ zero # replicate n zero)" "heap_store out (con (ys @ y # replicate n zero)) h1 = Some h2"
    "grows g h2" "cells h2 out = Some (con (ys @ y # replicate n zero))" "reads h2 (ys @ [y]) (vs @ [w])"
    "\<forall>y'\<in>set (ys @ [y]). \<forall>a\<in>set (owned h2 y'). out < a"
    using copy_round[of g h out ys zero "replicate n zero" vs "xs ! length ys" w] by auto
  have "slice_elems sel s h = Some xs" by (rule slice_elems_grows[OF Suc.prems(1,2,5)])
  then have "copy_loop copy sel con s out (length ys) (Suc n) h = copy_loop copy sel con s out (length (ys @ [y])) n h2"
    using r(1-3) Suc.prems(7) by simp
  then show ?case
    using Suc.IH[of h2 "ys @ [y]" "vs @ [w]" ws'] Suc.prems r(4-7) ws by simp
qed

lemma slice_copy_fresh:
  assumes ok: "heap_ok h" and v: "slice_view view sel h p = Some v"
  shows "\<exists>y k. slice_copy copy sel con zero p h = Some (y, k) \<and> grows h k \<and> slice_view view sel k y = Some v \<and>
      (\<forall>a\<in>set (slice_owned owned sel k y). next_addr h \<le> a)"
proof (cases p)
  case (Some s)
  obtain xs vs where x: "slice_elems sel s h = Some xs" "reads h xs vs" "v = Some vs"
    using v unfolding Some by (rule slice_view_Some)
  note len = slice_elems_length[OF x(1)]
  obtain out h1 where al: "alloc (con (replicate (s_len s) zero)) h = (out, h1)" by force
  then have h1: "grows h h1" "out = next_addr h" "cells h1 out = Some (con ([] @ replicate (s_len s) zero))"
    using alloc_grows[OF ok al] by auto
  obtain k zs where k: "copy_loop copy sel con s out 0 (s_len s) h1 = Some k" "grows h k" "length zs = length xs"
    "cells k out = Some (con zs)" "reads k zs vs" "\<forall>y\<in>set zs. \<forall>a\<in>set (owned k y). out < a"
    using copy_loop_ok[OF ok h1(1) eq_refl[OF h1(2)[symmetric]] h1(3) x(1), of "[]" vs] x(2) len by auto
  let ?s = "\<lparr>s_array = out, s_off = 0, s_len = s_len s\<rparr>"
  have e: "slice_elems sel ?s k = Some zs" using slice_elems_all[OF k(4)] k(3) len by simp
  have "slice_copy copy sel con zero p h = Some (Some ?s, k)"
    using k(1) by (simp add: Some slice_copy_def al)
  moreover have "\<forall>a\<in>set (slice_owned owned sel k (Some ?s)). next_addr h \<le> a"
    unfolding slice_owned_Some[OF e] using k(6) h1(2) by (auto intro: less_imp_le)
  ultimately show ?thesis
    using k(2) slice_view_I[OF e k(5)] x(3) by blast
qed (use v ok in \<open>simp add: slice_nil grows_refl\<close>)

end

sublocale slices \<subseteq> slice: deep_copying "slice_view view sel" "slice_owned owned sel" "slice_copy copy sel con zero"
  by (rule deep_copying.intro) (fact slice_view_owned slice_view_local slice_copy_fresh)+

text \<open>The slices that are copied by the built-in \<open>copy\<close>: their elements have no pointers.\<close>

locale flat_slices =
  fixes sel :: "'c \<Rightarrow> 'a list option" and con :: "'a list \<Rightarrow> 'c" and zero :: 'a
  assumes sel_con: "sel (con xs) = Some xs"

sublocale flat_slices \<subseteq> elems: slices val_view val_owned val_copy sel con zero
  by unfold_locales (rule sel_con)

context flat_slices
begin

lemma flat_copy_fresh:
  assumes ok: "heap_ok h" and v: "slice_view val_view sel h p = Some v"
  shows "\<exists>y k. flat_copy sel con zero p h = Some (y, k) \<and> grows h k \<and> slice_view val_view sel k y = Some v \<and>
      (\<forall>a\<in>set (slice_owned val_owned sel k y). next_addr h \<le> a)"
proof (cases p)
  case (Some s)
  obtain xs vs where x: "slice_elems sel s h = Some xs" "elems.reads h xs vs" "v = Some vs"
    using v unfolding Some by (rule elems.slice_view_Some)
  note len = elems.slice_elems_length[OF x(1)]
  obtain out h1 where al: "alloc (con (replicate (s_len s) zero)) h = (out, h1)" by force
  then have h1: "grows h h1" "out = next_addr h" "cells h1 out = Some (con (replicate (s_len s) zero))"
    using alloc_grows[OF ok al] by auto
  obtain k where k: "heap_store out (con xs) h1 = Some k" "grows h k" "cells k out = Some (con xs)"
    using heap_store_fresh[OF h1(1) eq_refl[OF h1(2)[symmetric]], of "con xs"] h1(3) by (metis option.distinct(1))
  let ?s = "\<lparr>s_array = out, s_off = 0, s_len = s_len s\<rparr>"
  have e: "slice_elems sel ?s k = Some xs" using elems.slice_elems_all[OF k(3)] len by simp
  have "go_copy (replicate (s_len s) zero) xs = xs" using len by (simp add: go_copy_def)
  then have "flat_copy sel con zero p h = Some (Some ?s, k)"
    using k(1) elems.slice_elems_grows[OF ok h1(1) x(1)] elems.load_con[OF h1(3)]
    by (simp add: Some flat_copy_def al)
  moreover have "\<forall>a\<in>set (slice_owned val_owned sel k (Some ?s)). next_addr h \<le> a"
    unfolding elems.slice_owned_Some[OF e] using h1(2) by (auto simp: val_owned_def)
  moreover have "elems.reads k xs vs" using x(2) by (simp add: val_view_def)
  ultimately show ?thesis
    using k(2) elems.slice_view_I[OF e] x(3) by blast
qed (use v ok in \<open>simp add: elems.slice_nil flat_copy_def grows_refl\<close>)

end

sublocale flat_slices \<subseteq> flat: deep_copying "slice_view val_view sel" "slice_owned val_owned sel" "flat_copy sel con zero"
  by (rule deep_copying.intro) (fact elems.slice_view_owned elems.slice_view_local flat_copy_fresh)+

section \<open>Maps keep the contract\<close>

locale go_map =
  fixes sel :: "'c \<Rightarrow> ('k \<times> 'w) list option" and con :: "('k \<times> 'w) list \<Rightarrow> 'c"
  assumes sel_con: "sel (con m) = Some m"
begin

lemma map_loop_ok:
  assumes "grows g h" and "next_addr g \<le> out" and "cells h out = Some (con m)" and "distinct (map fst (m @ kvs))"
  shows "\<exists>k. map_loop sel con out kvs h = Some k \<and> grows g k \<and> cells k out = Some (con (m @ kvs))"
  using assms
proof (induction kvs arbitrary: h m)
  case (Cons kv kvs)
  have m: "load sel out h = Some m" using Cons.prems(3) by (simp add: load_def sel_con)
  have u: "AList.update (fst kv) (snd kv) m = m @ [kv]"
    using Cons.prems(4) by (simp add: update_fresh_key)
  obtain h1 where h1: "heap_store out (con (m @ [kv])) h = Some h1" "grows g h1" "cells h1 out = Some (con (m @ [kv]))"
    using heap_store_fresh[OF Cons.prems(1,2), of "con (m @ [kv])"] Cons.prems(3) by (metis option.distinct(1))
  show ?case using Cons.IH[OF h1(2) Cons.prems(2) h1(3)] Cons.prems(4) m u h1(1) by simp
qed simp

lemma map_copy_fresh:
  assumes ok: "heap_ok h" and v: "map_view sel h p = Some v"
  shows "\<exists>y k. map_copy sel con p h = Some (y, k) \<and> grows h k \<and> map_view sel k y = Some v \<and>
      (\<forall>a\<in>set (map_owned k y). next_addr h \<le> a)"
proof (cases p)
  case (Some a)
  obtain m where m: "load sel a h = Some m" "distinct (map fst m)" "v = Some (map_of m)"
    using v by (auto simp: Some map_view_def split: option.splits if_splits)
  obtain out h1 where al: "alloc (con []) h = (out, h1)" by force
  then have h1: "grows h h1" "out = next_addr h" "cells h1 out = Some (con [])"
    using alloc_grows[OF ok al] by auto
  obtain k where k: "map_loop sel con out m h1 = Some k" "grows h k" "cells k out = Some (con m)"
    using map_loop_ok[OF h1(1) eq_refl[OF h1(2)[symmetric]] h1(3), of m] m(2) by auto
  have "map_copy sel con p h = Some (Some out, k)"
    using k(1) grows_load[OF h1(1) ok m(1)] by (simp add: Some map_copy_def al)
  moreover have "map_view sel k (Some out) = Some v"
    using k(3) m(2,3) by (simp add: map_view_def load_def sel_con)
  ultimately show ?thesis using k(2) h1(2) by (auto simp: map_owned_def)
qed (use v ok in \<open>simp add: map_view_def map_owned_def map_copy_def grows_refl\<close>)

end

sublocale go_map \<subseteq> maps: deep_copying "map_view sel" map_owned "map_copy sel con"
proof (rule deep_copying.intro)
  show "cells h a \<noteq> None" if "map_view sel h p = Some v" "a \<in> set (map_owned h p)" for h p v a
    using that by (cases p; cases "cells h a") (auto simp: map_view_def map_owned_def load_def)
  show "map_view sel k p = Some v \<and> map_owned k p = map_owned h p"
    if "map_view sel h p = Some v" "\<And>a. a \<in> set (map_owned h p) \<Longrightarrow> cells k a = cells h a" for h p v and k :: "'c heap"
    using that by (cases p) (auto simp: map_view_def map_owned_def load_def)
qed (fact map_copy_fresh)

section \<open>Structs keep the contract\<close>

locale two_fields = first: deep_copying view1 owned1 copy1 + second: deep_copying view2 owned2 copy2
  for view1 :: "'c heap \<Rightarrow> 'a \<Rightarrow> 'v option" and owned1 copy1
    and view2 :: "'c heap \<Rightarrow> 'b \<Rightarrow> 'w option" and owned2 copy2
begin

lemma pair_view_Some:
  assumes "pair_view view1 view2 h p = Some v"
  shows "view1 h (fst p) = Some (fst v)" and "view2 h (snd p) = Some (snd v)"
  using assms by (auto simp: pair_view_def bind_eq_Some_conv)

lemma pair_view_I: "view1 h x = Some v \<Longrightarrow> view2 h y = Some w \<Longrightarrow> pair_view view1 view2 h (x, y) = Some (v, w)"
  by (simp add: pair_view_def)

lemma pair_copy_fresh:
  assumes ok: "heap_ok h" and v: "pair_view view1 view2 h p = Some v"
  shows "\<exists>y k. pair_copy copy1 copy2 p h = Some (y, k) \<and> grows h k \<and> pair_view view1 view2 k y = Some v \<and>
      (\<forall>a\<in>set (pair_owned owned1 owned2 k y). next_addr h \<le> a)"
proof -
  note vs = pair_view_Some[OF v]
  obtain y1 k1 where c1: "copy1 (fst p) h = Some (y1, k1)" "grows h k1" "heap_ok k1"
    "\<And>a. a \<in> set (owned1 k1 y1) \<Longrightarrow> next_addr h \<le> a"
    "\<And>l. grows k1 l \<Longrightarrow> view1 l y1 = Some (fst v) \<and> owned1 l y1 = owned1 k1 y1"
    using first.copy_obtain[OF ok vs(1)] by metis
  have "view2 k1 (snd p) = Some (snd v)" by (rule second.view_grows(1)[OF ok c1(2) vs(2)])
  then obtain y2 k2 where c2: "copy2 (snd p) k1 = Some (y2, k2)" "grows k1 k2" "view2 k2 y2 = Some (snd v)"
    "\<And>a. a \<in> set (owned2 k2 y2) \<Longrightarrow> next_addr k1 \<le> a"
    using second.copy_obtain[OF c1(3)] by metis
  have "\<forall>a\<in>set (pair_owned owned1 owned2 k2 (y1, y2)). next_addr h \<le> a"
    using c1(4) c1(5)[OF c2(2)] c2(4) order_trans[OF grows_next[OF c1(2)]] by (auto simp: pair_owned_def)
  moreover have "pair_copy copy1 copy2 p h = Some ((y1, y2), k2)"
    using c1(1) c2(1) by (simp add: pair_copy_def)
  moreover have "pair_view view1 view2 k2 (y1, y2) = Some v"
    using pair_view_I c1(5)[OF c2(2)] c2(3) by (metis prod.collapse)
  ultimately show ?thesis using grows_trans[OF c1(2) c2(2)] by blast
qed

end

sublocale two_fields \<subseteq> both: deep_copying "pair_view view1 view2" "pair_owned owned1 owned2" "pair_copy copy1 copy2"
proof (rule deep_copying.intro)
  show "cells h a \<noteq> None" if "pair_view view1 view2 h p = Some v" "a \<in> set (pair_owned owned1 owned2 h p)" for h p v a
    using that(2) first.view_owned[OF pair_view_Some(1)[OF that(1)]] second.view_owned[OF pair_view_Some(2)[OF that(1)]]
    by (auto simp: pair_owned_def)
  show "pair_view view1 view2 k p = Some v \<and> pair_owned owned1 owned2 k p = pair_owned owned1 owned2 h p"
    if "pair_view view1 view2 h p = Some v" "\<And>a. a \<in> set (pair_owned owned1 owned2 h p) \<Longrightarrow> cells k a = cells h a" for h p v k
    using that(2) first.view_local[OF pair_view_Some(1)[OF that(1)], of k] second.view_local[OF pair_view_Some(2)[OF that(1)], of k]
    by (auto simp: pair_owned_def pair_view_def)
qed (fact pair_copy_fresh)

locale struct = fields: deep_copying view owned copy
  for view :: "'c heap \<Rightarrow> 'a \<Rightarrow> 'v option" and owned copy +
  fixes get :: "'s \<Rightarrow> 'a" and put :: "'a \<Rightarrow> 's \<Rightarrow> 's" and mk :: "'s \<Rightarrow> 'v \<Rightarrow> 'w"
  assumes get_put: "get (put x s) = x" and mk_put: "mk (put x s) v = mk s v"

sublocale struct \<subseteq> whole: deep_copying "struct_view view get mk" "struct_owned owned get" "struct_copy copy get put"
proof (rule deep_copying.intro)
  show "cells h a \<noteq> None" if "struct_view view get mk h s = Some w" "a \<in> set (struct_owned owned get h s)" for h s w a
    using that fields.view_owned by (auto simp: struct_view_def struct_owned_def)
  show "struct_view view get mk k s = Some w \<and> struct_owned owned get k s = struct_owned owned get h s"
    if sv: "struct_view view get mk h s = Some w"
      and agree: "\<And>a. a \<in> set (struct_owned owned get h s) \<Longrightarrow> cells k a = cells h a" for h s w k
  proof -
    obtain v where "view h (get s) = Some v" "w = mk s v" using sv by (auto simp: struct_view_def)
    then show ?thesis using fields.view_local[of h "get s" v k] agree by (simp add: struct_view_def struct_owned_def)
  qed
  show "\<exists>y k. struct_copy copy get put s h = Some (y, k) \<and> grows h k \<and> struct_view view get mk k y = Some w \<and>
      (\<forall>a\<in>set (struct_owned owned get k y). next_addr h \<le> a)"
    if ok: "heap_ok h" and sv: "struct_view view get mk h s = Some w" for h s w
  proof -
    obtain v where v: "view h (get s) = Some v" "w = mk s v" using sv by (auto simp: struct_view_def)
    obtain y k where c: "copy (get s) h = Some (y, k)" "grows h k" "view k y = Some v"
      "\<forall>a\<in>set (owned k y). next_addr h \<le> a"
      using fields.copy_fresh[OF ok v(1)] by blast
    have "struct_copy copy get put s h = Some (put y s, k)" by (simp add: struct_copy_def c(1))
    moreover have "struct_view view get mk k (put y s) = Some w" by (simp add: struct_view_def get_put mk_put c(3) v(2))
    moreover have "struct_owned owned get k (put y s) = owned k y" by (simp add: struct_owned_def get_put)
    ultimately show ?thesis using c(2,4) by metis
  qed
qed

context two_fields
begin

lemma both_contract: "deep_copying (pair_view view1 view2) (pair_owned owned1 owned2) (pair_copy copy1 copy2)"
  by (rule both.deep_copying_axioms)

end

context struct
begin

lemma whole_contract:
  assumes "view' = struct_view view get mk" and "owned' = struct_owned owned get" and "copy' = struct_copy copy get put"
  shows "deep_copying view' owned' copy'"
  unfolding assms by (rule whole.deep_copying_axioms)

end

text \<open>The contracts of fields and structs as rules.\<close>

lemmas contract_pair = two_fields.both_contract[OF two_fields.intro]

lemmas contract_struct = struct.whole_contract[OF struct.intro[OF _ struct_axioms.intro]]

end
