(* ===== verification/Deep_Copy.thy ===== *)
theory Deep_Copy
  imports Api_Meta Go_Heap
begin

text \<open>
  The generated deep copies of the Manifest API (\<open>pkg/apis/core/v1alpha1/zz_generated.deepcopy.go\<close>)
  and of the metadata structs they call (\<open>metav1\<close>), on the heap of \<open>Go_Heap\<close>.

  A struct is a record with a type parameter for each of its pointer fields: with addresses and
  slices it is what Go keeps in memory (the synonyms without arguments), with optional values it is
  what the struct reads as. A \<open>DeepCopyInto\<close> takes the struct \<open>*in\<close> and gives the struct
  its assignments leave in \<open>*out\<close>; fields it does not mention come from \<open>*out = *in\<close>.

  Every struct satisfies the contract \<open>deep_copying\<close>. Of the API types it follows that a deep
  copy reads as the original, that the two have no cell in common, and that no later write through
  one shows in the other, for the nested slices, maps and pointers as well.
\<close>

section \<open>Definitions\<close>

subsection \<open>Structs\<close>

record 'bptr OwnerReference_mem =
  or_APIVersion :: string
  or_Kind :: string
  or_Name :: string
  or_UID :: string
  or_Controller :: 'bptr
  or_BlockOwnerDeletion :: 'bptr

record 'raw FieldsV1_mem =
  fv_Raw :: 'raw

record ('tptr, 'fptr) ManagedFieldsEntry_mem =
  mf_Manager :: string
  mf_Operation :: string
  mf_APIVersion :: string
  mf_Time :: 'tptr
  mf_FieldsType :: string
  mf_FieldsV1 :: 'fptr
  mf_Subresource :: string

record ('tptr, 'iptr, 'strmap, 'owners, 'strings, 'managed) ObjectMeta_mem =
  mm_Name :: string
  mm_GenerateName :: string
  mm_Namespace :: string
  mm_SelfLink :: string
  mm_UID :: string
  mm_ResourceVersion :: string
  mm_Generation :: int
  mm_CreationTimestamp :: gotime
  mm_DeletionTimestamp :: 'tptr
  mm_DeletionGracePeriodSeconds :: 'iptr
  mm_Labels :: 'strmap
  mm_Annotations :: 'strmap
  mm_OwnerReferences :: 'owners
  mm_Finalizers :: 'strings
  mm_ManagedFields :: 'managed

record 'iptr ListMeta_mem =
  lm_SelfLink :: string
  lm_ResourceVersion :: string
  lm_Continue :: string
  lm_RemainingItemCount :: 'iptr

record ManifestSpec_mem =
  sp_Message :: string

record ManifestStatus_mem =
  ss_Message :: string

record 'meta Manifest_mem =
  mn_TypeMeta :: "string \<times> string"
  mn_ObjectMeta :: 'meta
  mn_Spec :: ManifestSpec_mem
  mn_Status :: ManifestStatus_mem

record ('meta, 'items) ManifestList_mem =
  ml_TypeMeta :: "string \<times> string"
  ml_ListMeta :: 'meta
  ml_Items :: 'items

subsection \<open>In memory\<close>

type_synonym ptr = "nat option"
type_synonym owner_struct = "ptr OwnerReference_mem"
type_synonym fields_struct = "slice option FieldsV1_mem"
type_synonym managed_struct = "(ptr, ptr) ManagedFieldsEntry_mem"
type_synonym meta_struct = "(ptr, ptr, ptr, slice option, slice option, slice option) ObjectMeta_mem"
type_synonym listmeta_struct = "ptr ListMeta_mem"
type_synonym manifest_struct = "meta_struct Manifest_mem"
type_synonym manifestlist_struct = "(listmeta_struct, slice option) ManifestList_mem"

datatype cell =
    CBool bool
  | CInt64 int
  | CTime gotime
  | CMap "(string \<times> string) list"
  | CStrings "string list"
  | CBytes bytes
  | CFieldsV1 fields_struct
  | COwners "owner_struct list"
  | CManaged "managed_struct list"
  | CManifests "manifest_struct list"
  | CManifest manifest_struct
  | CManifestList manifestlist_struct
  | CSpec ManifestSpec_mem
  | CStatus ManifestStatus_mem

text \<open>The cell read at the type that the pointer or slice has in the source.\<close>

fun as_bool :: "cell \<Rightarrow> bool option" where
  "as_bool (CBool x) = Some x"
| "as_bool _ = None"

fun as_int :: "cell \<Rightarrow> int option" where
  "as_int (CInt64 x) = Some x"
| "as_int _ = None"

fun as_time :: "cell \<Rightarrow> gotime option" where
  "as_time (CTime x) = Some x"
| "as_time _ = None"

fun as_map :: "cell \<Rightarrow> ((string \<times> string) list) option" where
  "as_map (CMap x) = Some x"
| "as_map _ = None"

fun as_strings :: "cell \<Rightarrow> (string list) option" where
  "as_strings (CStrings x) = Some x"
| "as_strings _ = None"

fun as_bytes :: "cell \<Rightarrow> bytes option" where
  "as_bytes (CBytes x) = Some x"
| "as_bytes _ = None"

fun as_fields :: "cell \<Rightarrow> fields_struct option" where
  "as_fields (CFieldsV1 x) = Some x"
| "as_fields _ = None"

fun as_owners :: "cell \<Rightarrow> (owner_struct list) option" where
  "as_owners (COwners x) = Some x"
| "as_owners _ = None"

fun as_managed :: "cell \<Rightarrow> (managed_struct list) option" where
  "as_managed (CManaged x) = Some x"
| "as_managed _ = None"

fun as_manifests :: "cell \<Rightarrow> (manifest_struct list) option" where
  "as_manifests (CManifests x) = Some x"
| "as_manifests _ = None"

fun as_manifest :: "cell \<Rightarrow> manifest_struct option" where
  "as_manifest (CManifest x) = Some x"
| "as_manifest _ = None"

fun as_manifestlist :: "cell \<Rightarrow> manifestlist_struct option" where
  "as_manifestlist (CManifestList x) = Some x"
| "as_manifestlist _ = None"

fun as_spec :: "cell \<Rightarrow> ManifestSpec_mem option" where
  "as_spec (CSpec x) = Some x"
| "as_spec _ = None"

fun as_status :: "cell \<Rightarrow> ManifestStatus_mem option" where
  "as_status (CStatus x) = Some x"
| "as_status _ = None"

text \<open>Zero values.\<close>

definition zero_owner :: owner_struct where
  "zero_owner = \<lparr>or_APIVersion = [], or_Kind = [], or_Name = [], or_UID = [], or_Controller = None, or_BlockOwnerDeletion = None\<rparr>"

definition zero_fields :: fields_struct where
  "zero_fields = \<lparr>fv_Raw = None\<rparr>"

definition zero_managed :: managed_struct where
  "zero_managed =
     \<lparr>mf_Manager = [], mf_Operation = [], mf_APIVersion = [], mf_Time = None, mf_FieldsType = [], mf_FieldsV1 = None,
      mf_Subresource = []\<rparr>"

definition zero_meta :: meta_struct where
  "zero_meta =
     \<lparr>mm_Name = [], mm_GenerateName = [], mm_Namespace = [], mm_SelfLink = [], mm_UID = [], mm_ResourceVersion = [],
      mm_Generation = 0, mm_CreationTimestamp = 0, mm_DeletionTimestamp = None, mm_DeletionGracePeriodSeconds = None,
      mm_Labels = None, mm_Annotations = None, mm_OwnerReferences = None, mm_Finalizers = None, mm_ManagedFields = None\<rparr>"

definition zero_manifest :: manifest_struct where
  "zero_manifest =
     \<lparr>mn_TypeMeta = ([], []), mn_ObjectMeta = zero_meta, mn_Spec = \<lparr>sp_Message = []\<rparr>, mn_Status = \<lparr>ss_Message = []\<rparr>\<rparr>"

definition zero_manifestlist :: manifestlist_struct where
  "zero_manifestlist =
     \<lparr>ml_TypeMeta = ([], []),
      ml_ListMeta = \<lparr>lm_SelfLink = [], lm_ResourceVersion = [], lm_Continue = [], lm_RemainingItemCount = None\<rparr>,
      ml_Items = None\<rparr>"

subsection \<open>The copies of the metadata (metav1)\<close>

text \<open>The pointer fields: \<open>*bool\<close> and \<open>*int64\<close> (\<open>new\<close> and an assignment),
  \<open>*Time\<close> (\<open>Time.DeepCopy\<close>).\<close>

definition bool_DeepCopy :: "ptr \<Rightarrow> cell heap \<Rightarrow> (ptr \<times> cell heap) option" where
  "bool_DeepCopy = ptr_copy val_copy as_bool CBool False"

definition int64_DeepCopy :: "ptr \<Rightarrow> cell heap \<Rightarrow> (ptr \<times> cell heap) option" where
  "int64_DeepCopy = ptr_copy val_copy as_int CInt64 0"

definition Time_DeepCopy :: "ptr \<Rightarrow> cell heap \<Rightarrow> (ptr \<times> cell heap) option" where
  "Time_DeepCopy = ptr_copy val_copy as_time CTime 0"

definition OwnerReference_DeepCopyInto :: "owner_struct \<Rightarrow> cell heap \<Rightarrow> (owner_struct \<times> cell heap) option" where
  "OwnerReference_DeepCopyInto r h =
     do {
       (controller, h) \<leftarrow> bool_DeepCopy (or_Controller r) h;
       (block, h) \<leftarrow> bool_DeepCopy (or_BlockOwnerDeletion r) h;
       Some (r\<lparr>or_Controller := controller, or_BlockOwnerDeletion := block\<rparr>, h)
     }"

definition FieldsV1_DeepCopyInto :: "fields_struct \<Rightarrow> cell heap \<Rightarrow> (fields_struct \<times> cell heap) option" where
  "FieldsV1_DeepCopyInto f h =
     do { (raw, h) \<leftarrow> flat_copy as_bytes CBytes (char_of (0 :: nat)) (fv_Raw f) h; Some (f\<lparr>fv_Raw := raw\<rparr>, h) }"

definition ManagedFieldsEntry_DeepCopyInto :: "managed_struct \<Rightarrow> cell heap \<Rightarrow> (managed_struct \<times> cell heap) option" where
  "ManagedFieldsEntry_DeepCopyInto e h =
     do {
       (time, h) \<leftarrow> Time_DeepCopy (mf_Time e) h;
       (fields, h) \<leftarrow> ptr_copy FieldsV1_DeepCopyInto as_fields CFieldsV1 zero_fields (mf_FieldsV1 e) h;
       Some (e\<lparr>mf_Time := time, mf_FieldsV1 := fields\<rparr>, h)
     }"

definition ObjectMeta_DeepCopyInto :: "meta_struct \<Rightarrow> cell heap \<Rightarrow> (meta_struct \<times> cell heap) option" where
  "ObjectMeta_DeepCopyInto m h =
     do {
       (deletion, h) \<leftarrow> Time_DeepCopy (mm_DeletionTimestamp m) h;
       (grace, h) \<leftarrow> int64_DeepCopy (mm_DeletionGracePeriodSeconds m) h;
       (labels, h) \<leftarrow> map_copy as_map CMap (mm_Labels m) h;
       (annotations, h) \<leftarrow> map_copy as_map CMap (mm_Annotations m) h;
       (owners, h) \<leftarrow> slice_copy OwnerReference_DeepCopyInto as_owners COwners zero_owner (mm_OwnerReferences m) h;
       (finalizers, h) \<leftarrow> flat_copy as_strings CStrings [] (mm_Finalizers m) h;
       (managed, h) \<leftarrow> slice_copy ManagedFieldsEntry_DeepCopyInto as_managed CManaged zero_managed (mm_ManagedFields m) h;
       Some (m\<lparr>mm_DeletionTimestamp := deletion, mm_DeletionGracePeriodSeconds := grace, mm_Labels := labels,
         mm_Annotations := annotations, mm_OwnerReferences := owners, mm_Finalizers := finalizers,
         mm_ManagedFields := managed\<rparr>, h)
     }"

definition ListMeta_DeepCopyInto :: "listmeta_struct \<Rightarrow> cell heap \<Rightarrow> (listmeta_struct \<times> cell heap) option" where
  "ListMeta_DeepCopyInto m h =
     do { (n, h) \<leftarrow> int64_DeepCopy (lm_RemainingItemCount m) h; Some (m\<lparr>lm_RemainingItemCount := n\<rparr>, h) }"

subsection \<open>The copies of the API types\<close>

definition Manifest_DeepCopyInto :: "manifest_struct \<Rightarrow> cell heap \<Rightarrow> (manifest_struct \<times> cell heap) option" where
  "Manifest_DeepCopyInto m h =
     do { (meta, h) \<leftarrow> ObjectMeta_DeepCopyInto (mn_ObjectMeta m) h;
       Some (m\<lparr>mn_TypeMeta := mn_TypeMeta m, mn_ObjectMeta := meta, mn_Spec := mn_Spec m, mn_Status := mn_Status m\<rparr>, h) }"

definition Manifest_DeepCopy :: "ptr \<Rightarrow> cell heap \<Rightarrow> (ptr \<times> cell heap) option" where
  "Manifest_DeepCopy = ptr_copy Manifest_DeepCopyInto as_manifest CManifest zero_manifest"

text \<open>A value of the interface \<open>runtime.Object\<close>: a typed pointer, itself possibly nil. The nil
  interface is \<open>None\<close>.\<close>

datatype runtime_object = ObjManifest ptr | ObjManifestList ptr

definition Manifest_DeepCopyObject :: "ptr \<Rightarrow> cell heap \<Rightarrow> (runtime_object option \<times> cell heap) option" where
  "Manifest_DeepCopyObject p h =
     do {
       (c, h) \<leftarrow> Manifest_DeepCopy p h;
       if c \<noteq> None then Some (Some (ObjManifest c), h) else Some (None, h)
     }"

definition ManifestList_DeepCopyInto :: "manifestlist_struct \<Rightarrow> cell heap \<Rightarrow> (manifestlist_struct \<times> cell heap) option" where
  "ManifestList_DeepCopyInto l h =
     do {
       (meta, h) \<leftarrow> ListMeta_DeepCopyInto (ml_ListMeta l) h;
       (items, h) \<leftarrow> slice_copy Manifest_DeepCopyInto as_manifests CManifests zero_manifest (ml_Items l) h;
       Some (l\<lparr>ml_TypeMeta := ml_TypeMeta l, ml_ListMeta := meta, ml_Items := items\<rparr>, h)
     }"

definition ManifestList_DeepCopy :: "ptr \<Rightarrow> cell heap \<Rightarrow> (ptr \<times> cell heap) option" where
  "ManifestList_DeepCopy = ptr_copy ManifestList_DeepCopyInto as_manifestlist CManifestList zero_manifestlist"

definition ManifestList_DeepCopyObject :: "ptr \<Rightarrow> cell heap \<Rightarrow> (runtime_object option \<times> cell heap) option" where
  "ManifestList_DeepCopyObject p h =
     do {
       (c, h) \<leftarrow> ManifestList_DeepCopy p h;
       if c \<noteq> None then Some (Some (ObjManifestList c), h) else Some (None, h)
     }"

definition ManifestSpec_DeepCopyInto :: "ManifestSpec_mem \<Rightarrow> cell heap \<Rightarrow> (ManifestSpec_mem \<times> cell heap) option" where
  "ManifestSpec_DeepCopyInto = val_copy"

definition ManifestSpec_DeepCopy :: "ptr \<Rightarrow> cell heap \<Rightarrow> (ptr \<times> cell heap) option" where
  "ManifestSpec_DeepCopy = ptr_copy ManifestSpec_DeepCopyInto as_spec CSpec \<lparr>sp_Message = []\<rparr>"

definition ManifestStatus_DeepCopyInto :: "ManifestStatus_mem \<Rightarrow> cell heap \<Rightarrow> (ManifestStatus_mem \<times> cell heap) option" where
  "ManifestStatus_DeepCopyInto = val_copy"

definition ManifestStatus_DeepCopy :: "ptr \<Rightarrow> cell heap \<Rightarrow> (ptr \<times> cell heap) option" where
  "ManifestStatus_DeepCopy = ptr_copy ManifestStatus_DeepCopyInto as_status CStatus \<lparr>ss_Message = []\<rparr>"

subsection \<open>What the structs read as\<close>

type_synonym owner_value = "bool option OwnerReference_mem"
type_synonym fields_value = "bytes option FieldsV1_mem"
type_synonym managed_value = "(gotime option, fields_value option) ManagedFieldsEntry_mem"
type_synonym meta_value =
  "(gotime option, int option, (string \<Rightarrow> string option) option, owner_value list option, string list option,
    managed_value list option) ObjectMeta_mem"
type_synonym manifest_value = "meta_value Manifest_mem"
type_synonym manifestlist_value = "(int option ListMeta_mem, manifest_value list option) ManifestList_mem"

definition OwnerReference_view :: "cell heap \<Rightarrow> owner_struct \<Rightarrow> owner_value option" where
  "OwnerReference_view h r =
     do {
       c \<leftarrow> ptr_view val_view as_bool h (or_Controller r);
       b \<leftarrow> ptr_view val_view as_bool h (or_BlockOwnerDeletion r);
       Some \<lparr>or_APIVersion = or_APIVersion r, or_Kind = or_Kind r, or_Name = or_Name r, or_UID = or_UID r,
         or_Controller = c, or_BlockOwnerDeletion = b\<rparr>
     }"

definition OwnerReference_owned :: "cell heap \<Rightarrow> owner_struct \<Rightarrow> nat list" where
  "OwnerReference_owned h r =
     ptr_owned val_owned as_bool h (or_Controller r) @ ptr_owned val_owned as_bool h (or_BlockOwnerDeletion r)"

definition FieldsV1_view :: "cell heap \<Rightarrow> fields_struct \<Rightarrow> fields_value option" where
  "FieldsV1_view h f = do { raw \<leftarrow> slice_view val_view as_bytes h (fv_Raw f); Some \<lparr>fv_Raw = raw\<rparr> }"

definition FieldsV1_owned :: "cell heap \<Rightarrow> fields_struct \<Rightarrow> nat list" where
  "FieldsV1_owned h f = slice_owned val_owned as_bytes h (fv_Raw f)"

definition ManagedFieldsEntry_view :: "cell heap \<Rightarrow> managed_struct \<Rightarrow> managed_value option" where
  "ManagedFieldsEntry_view h e =
     do {
       t \<leftarrow> ptr_view val_view as_time h (mf_Time e);
       f \<leftarrow> ptr_view FieldsV1_view as_fields h (mf_FieldsV1 e);
       Some \<lparr>mf_Manager = mf_Manager e, mf_Operation = mf_Operation e, mf_APIVersion = mf_APIVersion e, mf_Time = t,
         mf_FieldsType = mf_FieldsType e, mf_FieldsV1 = f, mf_Subresource = mf_Subresource e\<rparr>
     }"

definition ManagedFieldsEntry_owned :: "cell heap \<Rightarrow> managed_struct \<Rightarrow> nat list" where
  "ManagedFieldsEntry_owned h e =
     ptr_owned val_owned as_time h (mf_Time e) @ ptr_owned FieldsV1_owned as_fields h (mf_FieldsV1 e)"

definition ObjectMeta_view :: "cell heap \<Rightarrow> meta_struct \<Rightarrow> meta_value option" where
  "ObjectMeta_view h m =
     do {
       deletion \<leftarrow> ptr_view val_view as_time h (mm_DeletionTimestamp m);
       grace \<leftarrow> ptr_view val_view as_int h (mm_DeletionGracePeriodSeconds m);
       labels \<leftarrow> map_view as_map h (mm_Labels m);
       annotations \<leftarrow> map_view as_map h (mm_Annotations m);
       owners \<leftarrow> slice_view OwnerReference_view as_owners h (mm_OwnerReferences m);
       finalizers \<leftarrow> slice_view val_view as_strings h (mm_Finalizers m);
       managed \<leftarrow> slice_view ManagedFieldsEntry_view as_managed h (mm_ManagedFields m);
       Some \<lparr>mm_Name = mm_Name m, mm_GenerateName = mm_GenerateName m, mm_Namespace = mm_Namespace m,
         mm_SelfLink = mm_SelfLink m, mm_UID = mm_UID m, mm_ResourceVersion = mm_ResourceVersion m,
         mm_Generation = mm_Generation m, mm_CreationTimestamp = mm_CreationTimestamp m,
         mm_DeletionTimestamp = deletion, mm_DeletionGracePeriodSeconds = grace, mm_Labels = labels,
         mm_Annotations = annotations, mm_OwnerReferences = owners, mm_Finalizers = finalizers,
         mm_ManagedFields = managed\<rparr>
     }"

definition ObjectMeta_owned :: "cell heap \<Rightarrow> meta_struct \<Rightarrow> nat list" where
  "ObjectMeta_owned h m =
     ptr_owned val_owned as_time h (mm_DeletionTimestamp m) @
     ptr_owned val_owned as_int h (mm_DeletionGracePeriodSeconds m) @
     map_owned h (mm_Labels m) @ map_owned h (mm_Annotations m) @
     slice_owned OwnerReference_owned as_owners h (mm_OwnerReferences m) @
     slice_owned val_owned as_strings h (mm_Finalizers m) @
     slice_owned ManagedFieldsEntry_owned as_managed h (mm_ManagedFields m)"

definition ListMeta_view :: "cell heap \<Rightarrow> listmeta_struct \<Rightarrow> int option ListMeta_mem option" where
  "ListMeta_view h m =
     do {
       n \<leftarrow> ptr_view val_view as_int h (lm_RemainingItemCount m);
       Some \<lparr>lm_SelfLink = lm_SelfLink m, lm_ResourceVersion = lm_ResourceVersion m, lm_Continue = lm_Continue m,
         lm_RemainingItemCount = n\<rparr>
     }"

definition ListMeta_owned :: "cell heap \<Rightarrow> listmeta_struct \<Rightarrow> nat list" where
  "ListMeta_owned h m = ptr_owned val_owned as_int h (lm_RemainingItemCount m)"

definition Manifest_view :: "cell heap \<Rightarrow> manifest_struct \<Rightarrow> manifest_value option" where
  "Manifest_view h m =
     do {
       meta \<leftarrow> ObjectMeta_view h (mn_ObjectMeta m);
       Some \<lparr>mn_TypeMeta = mn_TypeMeta m, mn_ObjectMeta = meta, mn_Spec = mn_Spec m, mn_Status = mn_Status m\<rparr>
     }"

definition Manifest_owned :: "cell heap \<Rightarrow> manifest_struct \<Rightarrow> nat list" where
  "Manifest_owned h m = ObjectMeta_owned h (mn_ObjectMeta m)"

definition ManifestList_view :: "cell heap \<Rightarrow> manifestlist_struct \<Rightarrow> manifestlist_value option" where
  "ManifestList_view h l =
     do {
       meta \<leftarrow> ListMeta_view h (ml_ListMeta l);
       items \<leftarrow> slice_view Manifest_view as_manifests h (ml_Items l);
       Some \<lparr>ml_TypeMeta = ml_TypeMeta l, ml_ListMeta = meta, ml_Items = items\<rparr>
     }"

definition ManifestList_owned :: "cell heap \<Rightarrow> manifestlist_struct \<Rightarrow> nat list" where
  "ManifestList_owned h l =
     ListMeta_owned h (ml_ListMeta l) @ slice_owned Manifest_owned as_manifests h (ml_Items l)"

section \<open>The metadata structs keep the contract\<close>

lemmas copy_combinators =
  pair_view_def pair_owned_def pair_copy_def struct_view_def struct_owned_def struct_copy_def

interpretation bool_ptr: pointer val_view val_owned val_copy as_bool CBool False
  by unfold_locales simp

interpretation int_ptr: pointer val_view val_owned val_copy as_int CInt64 0
  by unfold_locales simp

interpretation time_ptr: pointer val_view val_owned val_copy as_time CTime 0
  by unfold_locales simp

interpretation string_map: go_map as_map CMap
  by unfold_locales simp

interpretation strings: flat_slices as_strings CStrings "[]"
  by unfold_locales simp

interpretation raw: flat_slices as_bytes CBytes "char_of (0 :: nat)"
  by unfold_locales simp

interpretation owner_ref: deep_copying OwnerReference_view OwnerReference_owned OwnerReference_DeepCopyInto
proof (rule contract_struct[OF contract_pair[OF bool_ptr.ptr_contract bool_ptr.ptr_contract]])
  let ?get = "\<lambda>r. (or_Controller r, or_BlockOwnerDeletion r)"
  let ?put = "\<lambda>x r. r\<lparr>or_Controller := fst x, or_BlockOwnerDeletion := snd x\<rparr>"
  let ?mk = "\<lambda>r v. \<lparr>or_APIVersion = or_APIVersion r, or_Kind = or_Kind r, or_Name = or_Name r, or_UID = or_UID r,
    or_Controller = fst v, or_BlockOwnerDeletion = snd v\<rparr>"
  show "?get (?put x r) = x" for x and r :: owner_struct by simp
  show "?mk (?put x r) v = ?mk r v" for x v and r :: owner_struct by simp
  show "OwnerReference_view = struct_view (pair_view (ptr_view val_view as_bool) (ptr_view val_view as_bool)) ?get ?mk"
    by (intro ext) (auto simp: OwnerReference_view_def copy_combinators split: Option.bind_splits)
  show "OwnerReference_owned = struct_owned (pair_owned (ptr_owned val_owned as_bool) (ptr_owned val_owned as_bool)) ?get"
    by (intro ext) (simp add: OwnerReference_owned_def copy_combinators)
  show "OwnerReference_DeepCopyInto = struct_copy
      (pair_copy (ptr_copy val_copy as_bool CBool False) (ptr_copy val_copy as_bool CBool False)) ?get ?put"
    by (intro ext) (auto simp: OwnerReference_DeepCopyInto_def bool_DeepCopy_def copy_combinators split: Option.bind_splits)
qed

interpretation owners: slices OwnerReference_view OwnerReference_owned OwnerReference_DeepCopyInto as_owners COwners zero_owner
  by unfold_locales simp

interpretation fields_v1: deep_copying FieldsV1_view FieldsV1_owned FieldsV1_DeepCopyInto
proof (rule contract_struct[OF raw.flat.deep_copying_axioms])
  show "fv_Raw (f\<lparr>fv_Raw := x\<rparr>) = x" for x and f :: fields_struct by simp
  show "(\<lambda>f v. \<lparr>fv_Raw = v\<rparr>) (f\<lparr>fv_Raw := x\<rparr>) v = (\<lambda>f v. \<lparr>fv_Raw = v\<rparr>) f v" for x v and f :: fields_struct by simp
  show "FieldsV1_view = struct_view (slice_view val_view as_bytes) fv_Raw (\<lambda>f v. \<lparr>fv_Raw = v\<rparr>)"
    by (intro ext) (auto simp: FieldsV1_view_def copy_combinators split: Option.bind_splits)
  show "FieldsV1_owned = struct_owned (slice_owned val_owned as_bytes) fv_Raw"
    by (intro ext) (simp add: FieldsV1_owned_def copy_combinators)
  show "FieldsV1_DeepCopyInto = struct_copy (flat_copy as_bytes CBytes (char_of (0 :: nat))) fv_Raw (\<lambda>x f. f\<lparr>fv_Raw := x\<rparr>)"
    by (intro ext) (simp add: FieldsV1_DeepCopyInto_def copy_combinators)
qed

interpretation fields_ptr: pointer FieldsV1_view FieldsV1_owned FieldsV1_DeepCopyInto as_fields CFieldsV1 zero_fields
  by unfold_locales simp

interpretation managed_entry: deep_copying ManagedFieldsEntry_view ManagedFieldsEntry_owned ManagedFieldsEntry_DeepCopyInto
proof (rule contract_struct[OF contract_pair[OF time_ptr.ptr_contract fields_ptr.ptr_contract]])
  let ?get = "\<lambda>e. (mf_Time e, mf_FieldsV1 e)"
  let ?put = "\<lambda>x e. e\<lparr>mf_Time := fst x, mf_FieldsV1 := snd x\<rparr>"
  let ?mk = "\<lambda>e v. \<lparr>mf_Manager = mf_Manager e, mf_Operation = mf_Operation e, mf_APIVersion = mf_APIVersion e,
    mf_Time = fst v, mf_FieldsType = mf_FieldsType e, mf_FieldsV1 = snd v, mf_Subresource = mf_Subresource e\<rparr>"
  show "?get (?put x e) = x" for x and e :: managed_struct by simp
  show "?mk (?put x e) v = ?mk e v" for x v and e :: managed_struct by simp
  show "ManagedFieldsEntry_view = struct_view (pair_view (ptr_view val_view as_time) (ptr_view FieldsV1_view as_fields)) ?get ?mk"
    by (intro ext) (auto simp: ManagedFieldsEntry_view_def copy_combinators split: Option.bind_splits)
  show "ManagedFieldsEntry_owned = struct_owned (pair_owned (ptr_owned val_owned as_time) (ptr_owned FieldsV1_owned as_fields)) ?get"
    by (intro ext) (simp add: ManagedFieldsEntry_owned_def copy_combinators)
  show "ManagedFieldsEntry_DeepCopyInto = struct_copy (pair_copy (ptr_copy val_copy as_time CTime 0)
      (ptr_copy FieldsV1_DeepCopyInto as_fields CFieldsV1 zero_fields)) ?get ?put"
    by (intro ext) (auto simp: ManagedFieldsEntry_DeepCopyInto_def Time_DeepCopy_def copy_combinators split: Option.bind_splits)
qed

interpretation managed: slices ManagedFieldsEntry_view ManagedFieldsEntry_owned ManagedFieldsEntry_DeepCopyInto as_managed CManaged zero_managed
  by unfold_locales simp

text \<open>The seven pointer fields of \<open>ObjectMeta\<close>, in the order in which they are copied.\<close>

definition meta_fields where
  "meta_fields m =
     (mm_DeletionTimestamp m, mm_DeletionGracePeriodSeconds m, mm_Labels m, mm_Annotations m, mm_OwnerReferences m,
      mm_Finalizers m, mm_ManagedFields m)"

definition meta_with where
  "meta_with m x =
     (case x of (deletion, grace, labels, annotations, owners, finalizers, managed) \<Rightarrow>
       \<lparr>mm_Name = mm_Name m, mm_GenerateName = mm_GenerateName m, mm_Namespace = mm_Namespace m,
        mm_SelfLink = mm_SelfLink m, mm_UID = mm_UID m, mm_ResourceVersion = mm_ResourceVersion m,
        mm_Generation = mm_Generation m, mm_CreationTimestamp = mm_CreationTimestamp m,
        mm_DeletionTimestamp = deletion, mm_DeletionGracePeriodSeconds = grace, mm_Labels = labels,
        mm_Annotations = annotations, mm_OwnerReferences = owners, mm_Finalizers = finalizers,
        mm_ManagedFields = managed\<rparr>)"

lemmas meta_fields_contract =
  contract_pair[OF time_ptr.ptr_contract contract_pair[OF int_ptr.ptr_contract
    contract_pair[OF string_map.maps.deep_copying_axioms contract_pair[OF string_map.maps.deep_copying_axioms
      contract_pair[OF owners.slice.deep_copying_axioms contract_pair[OF strings.flat.deep_copying_axioms
        managed.slice.deep_copying_axioms]]]]]]

interpretation obj_meta: deep_copying ObjectMeta_view ObjectMeta_owned ObjectMeta_DeepCopyInto
proof (rule contract_struct[OF meta_fields_contract])
  show "meta_fields (meta_with m x) = x" for x and m :: meta_struct
    by (simp add: meta_fields_def meta_with_def split: prod.splits)
  show "meta_with (meta_with m x) v = meta_with m v" for x v and m :: meta_struct
    by (simp add: meta_with_def split: prod.splits)
  show "ObjectMeta_view = struct_view (pair_view (ptr_view val_view as_time) (pair_view (ptr_view val_view as_int)
      (pair_view (map_view as_map) (pair_view (map_view as_map) (pair_view (slice_view OwnerReference_view as_owners)
        (pair_view (slice_view val_view as_strings) (slice_view ManagedFieldsEntry_view as_managed)))))))
      meta_fields meta_with"
    by (intro ext) (auto simp: ObjectMeta_view_def meta_fields_def meta_with_def copy_combinators split: Option.bind_splits)
  show "ObjectMeta_owned = struct_owned (pair_owned (ptr_owned val_owned as_time) (pair_owned (ptr_owned val_owned as_int)
      (pair_owned map_owned (pair_owned map_owned (pair_owned (slice_owned OwnerReference_owned as_owners)
        (pair_owned (slice_owned val_owned as_strings) (slice_owned ManagedFieldsEntry_owned as_managed)))))))
      meta_fields"
    by (intro ext) (simp add: ObjectMeta_owned_def meta_fields_def copy_combinators)
  show "ObjectMeta_DeepCopyInto = struct_copy (pair_copy (ptr_copy val_copy as_time CTime 0)
      (pair_copy (ptr_copy val_copy as_int CInt64 0) (pair_copy (map_copy as_map CMap) (pair_copy (map_copy as_map CMap)
        (pair_copy (slice_copy OwnerReference_DeepCopyInto as_owners COwners zero_owner)
          (pair_copy (flat_copy as_strings CStrings [])
            (slice_copy ManagedFieldsEntry_DeepCopyInto as_managed CManaged zero_managed)))))))
      meta_fields (\<lambda>x m. meta_with m x)"
    by (intro ext) (auto simp: ObjectMeta_DeepCopyInto_def Time_DeepCopy_def int64_DeepCopy_def meta_fields_def meta_with_def
      copy_combinators split: Option.bind_splits)
qed

interpretation list_meta: deep_copying ListMeta_view ListMeta_owned ListMeta_DeepCopyInto
proof (rule contract_struct[OF int_ptr.ptr_contract])
  let ?put = "\<lambda>x m. m\<lparr>lm_RemainingItemCount := x\<rparr>"
  let ?mk = "\<lambda>m v. \<lparr>lm_SelfLink = lm_SelfLink m, lm_ResourceVersion = lm_ResourceVersion m, lm_Continue = lm_Continue m,
    lm_RemainingItemCount = v\<rparr>"
  show "lm_RemainingItemCount (?put x m) = x" for x and m :: listmeta_struct by simp
  show "?mk (?put x m) v = ?mk m v" for x v and m :: listmeta_struct by simp
  show "ListMeta_view = struct_view (ptr_view val_view as_int) lm_RemainingItemCount ?mk"
    by (intro ext) (auto simp: ListMeta_view_def copy_combinators split: Option.bind_splits)
  show "ListMeta_owned = struct_owned (ptr_owned val_owned as_int) lm_RemainingItemCount"
    by (intro ext) (simp add: ListMeta_owned_def copy_combinators)
  show "ListMeta_DeepCopyInto = struct_copy (ptr_copy val_copy as_int CInt64 0) lm_RemainingItemCount ?put"
    by (intro ext) (simp add: ListMeta_DeepCopyInto_def int64_DeepCopy_def copy_combinators)
qed

section \<open>The API types keep the contract\<close>

interpretation manifest_obj: deep_copying Manifest_view Manifest_owned Manifest_DeepCopyInto
proof (rule contract_struct[OF obj_meta.deep_copying_axioms])
  let ?put = "\<lambda>x m. m\<lparr>mn_ObjectMeta := x\<rparr>"
  let ?mk = "\<lambda>m v. \<lparr>mn_TypeMeta = mn_TypeMeta m, mn_ObjectMeta = v, mn_Spec = mn_Spec m, mn_Status = mn_Status m\<rparr>"
  show "mn_ObjectMeta (?put x m) = x" for x and m :: manifest_struct by simp
  show "?mk (?put x m) v = ?mk m v" for x v and m :: manifest_struct by simp
  show "Manifest_view = struct_view ObjectMeta_view mn_ObjectMeta ?mk"
    by (intro ext) (auto simp: Manifest_view_def copy_combinators split: Option.bind_splits)
  show "Manifest_owned = struct_owned ObjectMeta_owned mn_ObjectMeta"
    by (intro ext) (simp add: Manifest_owned_def copy_combinators)
  show "Manifest_DeepCopyInto = struct_copy ObjectMeta_DeepCopyInto mn_ObjectMeta ?put"
    by (intro ext) (simp add: Manifest_DeepCopyInto_def copy_combinators)
qed

interpretation manifests: slices Manifest_view Manifest_owned Manifest_DeepCopyInto as_manifests CManifests zero_manifest
  by unfold_locales simp

interpretation manifest_ptr: pointer Manifest_view Manifest_owned Manifest_DeepCopyInto as_manifest CManifest zero_manifest
  by unfold_locales simp

interpretation list_fields: two_fields ListMeta_view ListMeta_owned ListMeta_DeepCopyInto
  "slice_view Manifest_view as_manifests" "slice_owned Manifest_owned as_manifests"
  "slice_copy Manifest_DeepCopyInto as_manifests CManifests zero_manifest"
  by unfold_locales

interpretation list_struct: struct "pair_view ListMeta_view (slice_view Manifest_view as_manifests)"
  "pair_owned ListMeta_owned (slice_owned Manifest_owned as_manifests)"
  "pair_copy ListMeta_DeepCopyInto (slice_copy Manifest_DeepCopyInto as_manifests CManifests zero_manifest)"
  "\<lambda>l. (ml_ListMeta l, ml_Items l)" "\<lambda>x l. l\<lparr>ml_ListMeta := fst x, ml_Items := snd x\<rparr>"
  "\<lambda>l v. \<lparr>ml_TypeMeta = ml_TypeMeta l, ml_ListMeta = fst v, ml_Items = snd v\<rparr>"
  by unfold_locales simp_all

interpretation manifest_list: deep_copying ManifestList_view ManifestList_owned ManifestList_DeepCopyInto
proof (rule list_struct.whole_contract)
  show "ManifestList_view = struct_view (pair_view ListMeta_view (slice_view Manifest_view as_manifests))
      (\<lambda>l. (ml_ListMeta l, ml_Items l)) (\<lambda>l v. \<lparr>ml_TypeMeta = ml_TypeMeta l, ml_ListMeta = fst v, ml_Items = snd v\<rparr>)"
    by (intro ext) (auto simp: ManifestList_view_def copy_combinators split: Option.bind_splits)
  show "ManifestList_owned = struct_owned (pair_owned ListMeta_owned (slice_owned Manifest_owned as_manifests))
      (\<lambda>l. (ml_ListMeta l, ml_Items l))"
    by (intro ext) (simp add: ManifestList_owned_def copy_combinators)
  show "ManifestList_DeepCopyInto = struct_copy
      (pair_copy ListMeta_DeepCopyInto (slice_copy Manifest_DeepCopyInto as_manifests CManifests zero_manifest))
      (\<lambda>l. (ml_ListMeta l, ml_Items l)) (\<lambda>x l. l\<lparr>ml_ListMeta := fst x, ml_Items := snd x\<rparr>)"
    by (intro ext) (auto simp: ManifestList_DeepCopyInto_def copy_combinators split: Option.bind_splits)
qed

interpretation manifestlist_ptr: pointer ManifestList_view ManifestList_owned ManifestList_DeepCopyInto
  as_manifestlist CManifestList zero_manifestlist
  by unfold_locales simp

interpretation spec_ptr: pointer val_view val_owned ManifestSpec_DeepCopyInto as_spec CSpec "\<lparr>sp_Message = []\<rparr>"
  unfolding ManifestSpec_DeepCopyInto_def by unfold_locales simp

interpretation status_ptr: pointer val_view val_owned ManifestStatus_DeepCopyInto as_status CStatus "\<lparr>ss_Message = []\<rparr>"
  unfolding ManifestStatus_DeepCopyInto_def by unfold_locales simp

section \<open>Deep copies of the API types\<close>

text \<open>What a pointer to a \<open>Manifest\<close> or a \<open>ManifestList\<close> reads as, and the cells that
  can be reached through it.\<close>

definition Manifest_at :: "cell heap \<Rightarrow> ptr \<Rightarrow> manifest_value option option" where
  "Manifest_at = ptr_view Manifest_view as_manifest"

definition Manifest_cells :: "cell heap \<Rightarrow> ptr \<Rightarrow> nat list" where
  "Manifest_cells = ptr_owned Manifest_owned as_manifest"

definition ManifestList_at :: "cell heap \<Rightarrow> ptr \<Rightarrow> manifestlist_value option option" where
  "ManifestList_at = ptr_view ManifestList_view as_manifestlist"

definition ManifestList_cells :: "cell heap \<Rightarrow> ptr \<Rightarrow> nat list" where
  "ManifestList_cells = ptr_owned ManifestList_owned as_manifestlist"

lemmas Manifest_copies = manifest_ptr.ptr_isolated[folded Manifest_DeepCopy_def Manifest_at_def Manifest_cells_def]

lemmas ManifestList_copies =
  manifestlist_ptr.ptr_isolated[folded ManifestList_DeepCopy_def ManifestList_at_def ManifestList_cells_def]

lemma Manifest_DeepCopyObject_Some:
  "Manifest_DeepCopy p h = Some (Some q, k) \<Longrightarrow> Manifest_DeepCopyObject p h = Some (Some (ObjManifest (Some q)), k)"
  by (simp add: Manifest_DeepCopyObject_def)

lemma ManifestList_DeepCopyObject_Some:
  "ManifestList_DeepCopy p h = Some (Some q, k) \<Longrightarrow>
   ManifestList_DeepCopyObject p h = Some (Some (ObjManifestList (Some q)), k)"
  by (simp add: ManifestList_DeepCopyObject_def)

text \<open>The nil pointer: the result is the nil interface, not an interface that holds a nil pointer.\<close>

lemma DeepCopyObject_nil:
  "Manifest_DeepCopyObject None h = Some (None, h)" "ManifestList_DeepCopyObject None h = Some (None, h)"
  by (simp_all add: Manifest_DeepCopyObject_def Manifest_DeepCopy_def ManifestList_DeepCopyObject_def
    ManifestList_DeepCopy_def ptr_copy_def)

text \<open>A small object in memory: its labels and annotations are the same map, and its finalizers are
  a window of a longer array.\<close>

definition demo_manifest :: manifest_struct where
  "demo_manifest =
     zero_manifest\<lparr>mn_ObjectMeta := zero_meta\<lparr>mm_Name := ''a'', mm_DeletionTimestamp := Some 0, mm_Labels := Some 1,
       mm_Annotations := Some 1, mm_OwnerReferences := Some \<lparr>s_array = 3, s_off = 0, s_len = 1\<rparr>,
       mm_Finalizers := Some \<lparr>s_array = 2, s_off = 1, s_len = 1\<rparr>\<rparr>\<rparr>"

definition demo_heap :: "cell heap" where
  "demo_heap =
     \<lparr>cells = (\<lambda>a. None)(0 \<mapsto> CTime 7, 1 \<mapsto> CMap [(''app'', ''web''), (''tier'', ''db'')], 2 \<mapsto> CStrings [''x'', ''y'', ''z''],
        3 \<mapsto> COwners [zero_owner\<lparr>or_Name := ''o'', or_Controller := Some 4\<rparr>], 4 \<mapsto> CBool True,
        5 \<mapsto> CManifest demo_manifest, 6 \<mapsto> CManifests [demo_manifest, zero_manifest],
        7 \<mapsto> CManifestList (zero_manifestlist\<lparr>ml_Items := Some \<lparr>s_array = 6, s_off = 0, s_len = 2\<rparr>\<rparr>)),
      next_addr = 8\<rparr>"

lemma demo_heap_ok: "heap_ok demo_heap"
  by (simp add: heap_ok_def demo_heap_def)

lemmas view_defs =
  ptr_view_def slice_view_def slice_elems_def map_view_def val_view_def load_def
  OwnerReference_view_def ObjectMeta_view_def Manifest_view_def ListMeta_view_def ManifestList_view_def
  zero_owner_def zero_meta_def zero_manifest_def zero_manifestlist_def

lemma demo_manifest_at: "\<exists>v. Manifest_at demo_heap (Some 5) = Some (Some v) \<and>
    mm_Finalizers (mn_ObjectMeta v) = Some [''y''] \<and> mm_Labels (mn_ObjectMeta v) = mm_Annotations (mn_ObjectMeta v)"
  by (simp add: Manifest_at_def demo_heap_def demo_manifest_def view_defs)

lemma demo_list_at: "\<exists>v. ManifestList_at demo_heap (Some 7) = Some (Some v) \<and> map_option length (ml_Items v) = Some 2"
  by (simp add: ManifestList_at_def demo_heap_def demo_manifest_def view_defs)

text \<open>\<open>DeepCopyObject\<close> of a Manifest returns an object that reads as the original, leaves the
  memory as it was apart from new cells, and shares no cell with the original: whatever is written
  through the copy, the original reads as before, and whatever is written through the original, the
  copy does. This covers the labels, annotations, owner references, finalizers, managed fields and
  deletion timestamps.\<close>

theorem Manifest_DeepCopyObject_isolated:
  assumes "heap_ok h" and "Manifest_at h (Some p) = Some (Some v)"
  shows "\<exists>q k. Manifest_DeepCopyObject (Some p) h = Some (Some (ObjManifest (Some q)), k) \<and> grows h k \<and>
    Manifest_at k (Some q) = Some (Some v) \<and>
    set (Manifest_cells k (Some q)) \<inter> set (Manifest_cells h (Some p)) = {} \<and>
    (\<forall>l. (\<forall>a. a \<notin> set (Manifest_cells k (Some q)) \<longrightarrow> cells l a = cells k a) \<longrightarrow> Manifest_at l (Some p) = Some (Some v)) \<and>
    (\<forall>l. (\<forall>a. a \<notin> set (Manifest_cells h (Some p)) \<longrightarrow> cells l a = cells k a) \<longrightarrow> Manifest_at l (Some q) = Some (Some v))"
  using Manifest_copies[OF assms] Manifest_DeepCopyObject_Some by blast

theorem Manifest_DeepCopyObject_isolated_witness:
  "\<exists>v q k. mm_Finalizers (mn_ObjectMeta v) = Some [''y''] \<and>
    Manifest_DeepCopyObject (Some 5) demo_heap = Some (Some (ObjManifest (Some q)), k) \<and>
    Manifest_at k (Some q) = Some (Some v) \<and>
    set (Manifest_cells k (Some q)) \<inter> set (Manifest_cells demo_heap (Some 5)) = {}"
proof -
  obtain v where v: "Manifest_at demo_heap (Some 5) = Some (Some v)" "mm_Finalizers (mn_ObjectMeta v) = Some [''y'']"
    using demo_manifest_at by blast
  show ?thesis using Manifest_DeepCopyObject_isolated[OF demo_heap_ok v(1)] v(2) by blast
qed

text \<open>C38. \<open>DeepCopyObject\<close> of a ManifestList likewise, with every object of its \<open>Items\<close>
  copied into a new array: the loop over the items returns, and list and copy share no cell.\<close>

theorem ManifestList_DeepCopyObject_isolated:
  assumes "heap_ok h" and "ManifestList_at h (Some p) = Some (Some v)"
  shows "\<exists>q k. ManifestList_DeepCopyObject (Some p) h = Some (Some (ObjManifestList (Some q)), k) \<and> grows h k \<and>
    ManifestList_at k (Some q) = Some (Some v) \<and>
    set (ManifestList_cells k (Some q)) \<inter> set (ManifestList_cells h (Some p)) = {} \<and>
    (\<forall>l. (\<forall>a. a \<notin> set (ManifestList_cells k (Some q)) \<longrightarrow> cells l a = cells k a) \<longrightarrow>
       ManifestList_at l (Some p) = Some (Some v)) \<and>
    (\<forall>l. (\<forall>a. a \<notin> set (ManifestList_cells h (Some p)) \<longrightarrow> cells l a = cells k a) \<longrightarrow>
       ManifestList_at l (Some q) = Some (Some v))"
  using ManifestList_copies[OF assms] ManifestList_DeepCopyObject_Some by blast

theorem ManifestList_DeepCopyObject_isolated_witness:
  "\<exists>v q k. map_option length (ml_Items v) = Some 2 \<and>
    ManifestList_DeepCopyObject (Some 7) demo_heap = Some (Some (ObjManifestList (Some q)), k) \<and>
    ManifestList_at k (Some q) = Some (Some v) \<and>
    set (ManifestList_cells k (Some q)) \<inter> set (ManifestList_cells demo_heap (Some 7)) = {}"
proof -
  obtain v where v: "ManifestList_at demo_heap (Some 7) = Some (Some v)" "map_option length (ml_Items v) = Some 2"
    using demo_list_at by blast
  show ?thesis using ManifestList_DeepCopyObject_isolated[OF demo_heap_ok v(1)] v(2) by blast
qed

end
