(* ===== verification/Clientset.thy ===== *)
theory Clientset
  imports Complex_Main Manifest Main_Program Informers
begin

text \<open>
  The generated clients (\<open>pkg/generated/clientset/versioned\<close>, \<open>typed/core/v1alpha1\<close>), the
  fake clientset and the lister, with the vendored \<open>rest.RESTClientForConfigAndClient\<close>,
  \<open>discovery\<close> and \<open>testing.Fake\<close> that they are built on.

  Parameters: the HTTP client that \<open>rest.HTTPClientFor\<close> builds from a configuration, the URL
  that \<open>rest.DefaultServerUrlFor\<close> computes, the default user agent; of the fake clientset the
  object tracker; of the lister the indexer.

  The rate limiters are a state: the list of the token buckets created so far. Two clients share
  their limiter when they hold the same index.
\<close>

section \<open>Definitions\<close>

subsection \<open>The REST client (vendored)\<close>

text \<open>\<open>float32\<close>: only comparisons are made with it.\<close>

datatype float32 = NaN | PosInf | NegInf | Num rat

fun positive :: "float32 \<Rightarrow> bool" where
  "positive NaN = False"
| "positive PosInf = True"
| "positive NegInf = False"
| "positive (Num q) = (0 < q)"

fun is_zero :: "float32 \<Rightarrow> bool" where
  "is_zero NaN = False"
| "is_zero PosInf = False"
| "is_zero NegInf = False"
| "is_zero (Num q) = (q = 0)"

datatype serializer = GeneratedClientSerializer | DiscoverySerializer

text \<open>\<open>rest.Config\<close>; \<open>cf_Access\<close> is what the clients do not look at: host, credentials, TLS,
  transport, dialer.\<close>

record 'x rest_config =
  cf_Access :: 'x
  cf_APIPath :: string
  cf_GroupVersion :: "GroupVersion option"
  cf_NegotiatedSerializer :: "serializer option"
  cf_UserAgent :: string
  cf_QPS :: float32
  cf_Burst :: int
  cf_RateLimiter :: "nat option"
  cf_Timeout :: int

type_synonym limiters = "(float32 \<times> int) list"

definition NewTokenBucketRateLimiter :: "float32 \<Rightarrow> int \<Rightarrow> limiters \<Rightarrow> nat \<times> limiters" where
  "NewTokenBucketRateLimiter qps burst ls = (length ls, ls @ [(qps, burst)])"

definition DefaultQPS :: float32 where "DefaultQPS = Num 5"

definition DefaultBurst :: int where "DefaultBurst = 10"

record ('h, 'u) rest_client =
  rc_URL :: 'u
  rc_GroupVersion :: GroupVersion
  rc_Serializer :: serializer
  rc_RateLimiter :: "nat option"
  rc_Client :: 'h

text \<open>What the clients get from the rest of \<open>client-go\<close>.\<close>

record ('x, 'h, 'u) client_lib =
  HTTPClientFor :: "'x rest_config \<Rightarrow> go_error + 'h"
  DefaultServerUrlFor :: "'x rest_config \<Rightarrow> go_error + 'u"
  DefaultKubernetesUserAgent :: string

definition client_limiter :: "'x rest_config \<Rightarrow> limiters \<Rightarrow> nat option \<times> limiters" where
  "client_limiter c ls =
     (case cf_RateLimiter c of
        Some r \<Rightarrow> (Some r, ls)
      | None \<Rightarrow>
          let qps = (if is_zero (cf_QPS c) then DefaultQPS else cf_QPS c);
              burst = (if cf_Burst c = 0 then DefaultBurst else cf_Burst c)
          in if positive qps
             then (case NewTokenBucketRateLimiter qps burst ls of (r, ls') \<Rightarrow> (Some r, ls'))
             else (None, ls))"

definition UnversionedRESTClientForConfigAndClient ::
  "('x, 'h, 'u) client_lib \<Rightarrow> 'x rest_config \<Rightarrow> 'h \<Rightarrow> limiters \<Rightarrow> limiters \<times> (go_error + ('h, 'u) rest_client)" where
  "UnversionedRESTClientForConfigAndClient lib c h ls =
     (case cf_NegotiatedSerializer c of
        None \<Rightarrow> (ls, Inl (OtherError ''NegotiatedSerializer is required when initializing a RESTClient''))
      | Some s \<Rightarrow>
          (case DefaultServerUrlFor lib c of
             Inl e \<Rightarrow> (ls, Inl e)
           | Inr u \<Rightarrow>
               (case client_limiter c ls of (r, ls') \<Rightarrow>
                  (ls', Inr \<lparr>rc_URL = u,
                     rc_GroupVersion = (case cf_GroupVersion c of
                        None \<Rightarrow> \<lparr>gv_Group = ''meta.k8s.io'', gv_Version = ''v1''\<rparr> | Some gv \<Rightarrow> gv),
                     rc_Serializer = s, rc_RateLimiter = r, rc_Client = h\<rparr>))))"

definition RESTClientForConfigAndClient ::
  "('x, 'h, 'u) client_lib \<Rightarrow> 'x rest_config \<Rightarrow> 'h \<Rightarrow> limiters \<Rightarrow> limiters \<times> (go_error + ('h, 'u) rest_client)" where
  "RESTClientForConfigAndClient lib c h ls =
     (case cf_GroupVersion c of
        None \<Rightarrow> (ls, Inl (OtherError ''GroupVersion is required when initializing a RESTClient''))
      | Some gv \<Rightarrow>
          (case cf_NegotiatedSerializer c of
             None \<Rightarrow> (ls, Inl (OtherError ''NegotiatedSerializer is required when initializing a RESTClient''))
           | Some s \<Rightarrow>
               (case DefaultServerUrlFor lib c of
                  Inl e \<Rightarrow> (ls, Inl e)
                | Inr u \<Rightarrow>
                    (case client_limiter c ls of (r, ls') \<Rightarrow>
                       (ls', Inr \<lparr>rc_URL = u, rc_GroupVersion = gv, rc_Serializer = s, rc_RateLimiter = r, rc_Client = h\<rparr>)))))"

subsection \<open>The typed client\<close>

definition setConfigDefaults :: "('x, 'h, 'u) client_lib \<Rightarrow> 'x rest_config \<Rightarrow> 'x rest_config" where
  "setConfigDefaults lib c =
     (let c' = c\<lparr>cf_GroupVersion := Some SchemeGroupVersion, cf_APIPath := ''/apis'',
            cf_NegotiatedSerializer := Some GeneratedClientSerializer\<rparr>
      in if cf_UserAgent c' = [] then c'\<lparr>cf_UserAgent := DefaultKubernetesUserAgent lib\<rparr> else c')"

record ('h, 'u) CoreV1alpha1Client =
  restClient :: "('h, 'u) rest_client"

definition core_NewForConfigAndClient ::
  "('x, 'h, 'u) client_lib \<Rightarrow> 'x rest_config \<Rightarrow> 'h \<Rightarrow> limiters \<Rightarrow> limiters \<times> (go_error + ('h, 'u) CoreV1alpha1Client)" where
  "core_NewForConfigAndClient lib c h ls =
     (case RESTClientForConfigAndClient lib (setConfigDefaults lib c) h ls of
        (ls', Inl e) \<Rightarrow> (ls', Inl e)
      | (ls', Inr client) \<Rightarrow> (ls', Inr \<lparr>restClient = client\<rparr>))"

definition core_NewForConfig ::
  "('x, 'h, 'u) client_lib \<Rightarrow> 'x rest_config \<Rightarrow> limiters \<Rightarrow> limiters \<times> (go_error + ('h, 'u) CoreV1alpha1Client)" where
  "core_NewForConfig lib c ls =
     (let config = setConfigDefaults lib c
      in case HTTPClientFor lib config of
           Inl e \<Rightarrow> (ls, Inl e)
         | Inr h \<Rightarrow> core_NewForConfigAndClient lib config h ls)"

text \<open>\<open>panic\<close> is \<open>None\<close>.\<close>

definition core_NewForConfigOrDie ::
  "('x, 'h, 'u) client_lib \<Rightarrow> 'x rest_config \<Rightarrow> limiters \<Rightarrow> (limiters \<times> ('h, 'u) CoreV1alpha1Client) option" where
  "core_NewForConfigOrDie lib c ls =
     (case core_NewForConfig lib c ls of (ls', Inl e) \<Rightarrow> None | (ls', Inr client) \<Rightarrow> Some (ls', client))"

definition core_New :: "('h, 'u) rest_client \<Rightarrow> ('h, 'u) CoreV1alpha1Client" where
  "core_New c = \<lparr>restClient = c\<rparr>"

definition core_RESTClient :: "('h, 'u) CoreV1alpha1Client option \<Rightarrow> ('h, 'u) rest_client option" where
  "core_RESTClient c = map_option restClient c"

text \<open>\<open>gentype.Client\<close>: the resource, the REST client and the namespace, empty for a resource of
  the cluster.\<close>

record ('h, 'u) manifests_client =
  tc_resource :: string
  tc_client :: "('h, 'u) rest_client option"
  tc_namespace :: string

definition newManifests :: "('h, 'u) CoreV1alpha1Client option \<Rightarrow> ('h, 'u) manifests_client" where
  "newManifests c = \<lparr>tc_resource = ''manifests'', tc_client = core_RESTClient c, tc_namespace = []\<rparr>"

definition Manifests :: "('h, 'u) CoreV1alpha1Client option \<Rightarrow> ('h, 'u) manifests_client" where
  "Manifests c = newManifests c"

subsection \<open>The clientset\<close>

record ('h, 'u) Clientset =
  cs_DiscoveryClient :: "('h, 'u) rest_client"
  cs_coreV1alpha1 :: "('h, 'u) CoreV1alpha1Client"

definition setDiscoveryDefaults :: "('x, 'h, 'u) client_lib \<Rightarrow> 'x rest_config \<Rightarrow> 'x rest_config" where
  "setDiscoveryDefaults lib c =
     c\<lparr>cf_APIPath := [], cf_GroupVersion := None,
       cf_Timeout := (if cf_Timeout c = 0 then 32000000000 else cf_Timeout c),
       cf_Burst := (if cf_Burst c = 0 then 300 else cf_Burst c),
       cf_NegotiatedSerializer := Some DiscoverySerializer,
       cf_UserAgent := (if cf_UserAgent c = [] then DefaultKubernetesUserAgent lib else cf_UserAgent c)\<rparr>"

definition NewDiscoveryClientForConfigAndClient ::
  "('x, 'h, 'u) client_lib \<Rightarrow> 'x rest_config \<Rightarrow> 'h \<Rightarrow> limiters \<Rightarrow> limiters \<times> (go_error + ('h, 'u) rest_client)" where
  "NewDiscoveryClientForConfigAndClient lib c h ls =
     UnversionedRESTClientForConfigAndClient lib (setDiscoveryDefaults lib c) h ls"

text \<open>The limiter that is put into the copy of the configuration.\<close>

definition shared_limiter :: "'x rest_config \<Rightarrow> limiters \<Rightarrow> limiters \<times> (go_error + 'x rest_config)" where
  "shared_limiter c ls =
     (if cf_RateLimiter c = None \<and> positive (cf_QPS c)
      then if cf_Burst c \<le> 0
           then (ls, Inl (OtherError ''burst is required to be greater than 0 when RateLimiter is not set and QPS is set to greater than 0''))
           else (case NewTokenBucketRateLimiter (cf_QPS c) (cf_Burst c) ls of
                   (r, ls') \<Rightarrow> (ls', Inr (c\<lparr>cf_RateLimiter := Some r\<rparr>)))
      else (ls, Inr c))"

definition NewForConfigAndClient ::
  "('x, 'h, 'u) client_lib \<Rightarrow> 'x rest_config \<Rightarrow> 'h \<Rightarrow> limiters \<Rightarrow> limiters \<times> (go_error + ('h, 'u) Clientset)" where
  "NewForConfigAndClient lib c h ls =
     (case shared_limiter c ls of
        (ls1, Inl e) \<Rightarrow> (ls1, Inl e)
      | (ls1, Inr config) \<Rightarrow>
          (case core_NewForConfigAndClient lib config h ls1 of
             (ls2, Inl e) \<Rightarrow> (ls2, Inl e)
           | (ls2, Inr core) \<Rightarrow>
               (case NewDiscoveryClientForConfigAndClient lib config h ls2 of
                  (ls3, Inl e) \<Rightarrow> (ls3, Inl e)
                | (ls3, Inr disc) \<Rightarrow> (ls3, Inr \<lparr>cs_DiscoveryClient = disc, cs_coreV1alpha1 = core\<rparr>))))"

definition with_user_agent :: "('x, 'h, 'u) client_lib \<Rightarrow> 'x rest_config \<Rightarrow> 'x rest_config" where
  "with_user_agent lib c =
     (if cf_UserAgent c = [] then c\<lparr>cf_UserAgent := DefaultKubernetesUserAgent lib\<rparr> else c)"

definition NewForConfig ::
  "('x, 'h, 'u) client_lib \<Rightarrow> 'x rest_config \<Rightarrow> limiters \<Rightarrow> limiters \<times> (go_error + ('h, 'u) Clientset)" where
  "NewForConfig lib c ls =
     (let config = with_user_agent lib c
      in case HTTPClientFor lib config of
           Inl e \<Rightarrow> (ls, Inl e)
         | Inr h \<Rightarrow> NewForConfigAndClient lib config h ls)"

definition NewForConfigOrDie ::
  "('x, 'h, 'u) client_lib \<Rightarrow> 'x rest_config \<Rightarrow> limiters \<Rightarrow> (limiters \<times> ('h, 'u) Clientset) option" where
  "NewForConfigOrDie lib c ls =
     (case NewForConfig lib c ls of (ls', Inl e) \<Rightarrow> None | (ls', Inr cs) \<Rightarrow> Some (ls', cs))"

definition clientset_New :: "('h, 'u) rest_client \<Rightarrow> ('h, 'u) Clientset" where
  "clientset_New c = \<lparr>cs_DiscoveryClient = c, cs_coreV1alpha1 = core_New c\<rparr>"

definition CoreV1alpha1 :: "('h, 'u) Clientset \<Rightarrow> ('h, 'u) CoreV1alpha1Client" where
  "CoreV1alpha1 cs = cs_coreV1alpha1 cs"

definition Discovery :: "('h, 'u) Clientset option \<Rightarrow> ('h, 'u) rest_client option" where
  "Discovery cs = map_option cs_DiscoveryClient cs"

subsection \<open>The scheme of the clients\<close>

text \<open>The package variable \<open>Scheme\<close> after \<open>init\<close>, in \<open>scheme/register.go\<close> and in
  \<open>fake/register.go\<close>; \<open>None\<close> when \<open>utilruntime.Must\<close> panics.\<close>

definition client_localSchemeBuilder :: "'o SchemeBuilder" where
  "client_localSchemeBuilder = [v1alpha1_AddToScheme]"

definition client_Scheme :: "'o Scheme option" where
  "client_Scheme =
     do {
       s \<leftarrow> AddToGroupVersion \<lparr>gv_Group = [], gv_Version = ''v1''\<rparr> empty_Scheme;
       (s', err) \<leftarrow> SchemeBuilder_AddToScheme client_localSchemeBuilder s;
       if err = None then Some s' else None
     }"

definition fake_Scheme :: "'o Scheme option" where
  "fake_Scheme =
     do {
       s \<leftarrow> AddToGroupVersion \<lparr>gv_Group = [], gv_Version = ''v1''\<rparr> empty_Scheme;
       (s', err) \<leftarrow> SchemeBuilder_AddToScheme client_localSchemeBuilder s;
       if err = None then Some s' else None
     }"

subsection \<open>The lister\<close>

record 'o ResourceIndexer =
  ri_GetByKey :: "string \<Rightarrow> go_error + 'o option"
  ri_resource :: GroupResource
  ri_namespace :: string

definition NewManifestLister :: "(string \<Rightarrow> go_error + 'o option) \<Rightarrow> 'o ResourceIndexer" where
  "NewManifestLister indexer = \<lparr>ri_GetByKey = indexer, ri_resource = Resource ''manifest'', ri_namespace = []\<rparr>"

text \<open>\<open>manifestInformer.Lister\<close>: the lister reads the indexer of the shared informer.\<close>

definition manifestInformer_Lister ::
  "(nat \<Rightarrow> string \<Rightarrow> go_error + 'o option) \<Rightarrow> 'l manifestInformer \<Rightarrow> ('l, 'r, 'w, 't) sharedInformerFactory \<Rightarrow>
   ('l, 'r, 'w, 't) SharedIndexInformer list \<Rightarrow>
   ('l, 'r, 'w, 't) sharedInformerFactory \<times> ('l, 'r, 'w, 't) SharedIndexInformer list \<times> 'o ResourceIndexer" where
  "manifestInformer_Lister GetIndexer mi f heap =
     (let (f', heap', informer) = manifestInformer_Informer mi f heap
      in (f', heap', NewManifestLister (GetIndexer informer)))"

definition ResourceIndexer_Get :: "'o ResourceIndexer \<Rightarrow> string \<Rightarrow> go_error + 'o" where
  "ResourceIndexer_Get l name =
     (let key = (if ri_namespace l = [] then name else ri_namespace l @ ''/'' @ name)
      in case ri_GetByKey l key of
           Inl e \<Rightarrow> Inl e
         | Inr None \<Rightarrow> Inl (NotFound (ri_resource l) name)
         | Inr (Some obj) \<Rightarrow> Inr obj)"

subsection \<open>The fake clientset\<close>

text \<open>An action of \<open>client-go/testing\<close>; \<open>ta_ListOptions\<close> is there when it is a
  \<open>WatchActionImpl\<close>.\<close>

record 'l test_action =
  ta_Verb :: string
  ta_Resource :: GroupVersionResource
  ta_Subresource :: string
  ta_Namespace :: string
  ta_ListOptions :: "'l option"

text \<open>A reaction: whether it handled the action, and the result. It may change the tracker.\<close>

type_synonym ('l, 't, 'r) reaction = "'l test_action \<Rightarrow> 't \<Rightarrow> 't \<times> bool \<times> (go_error + 'r)"

record ('l, 't, 'r) SimpleReactor =
  sr_Verb :: string
  sr_Resource :: string
  sr_Reaction :: "('l, 't, 'r) reaction"

record ('l, 't, 'w) SimpleWatchReactor =
  sw_Resource :: string
  sw_Reaction :: "('l, 't, 'w) reaction"

record ('l, 't, 'r, 'w) Fake =
  fk_actions :: "'l test_action list"
  ReactionChain :: "('l, 't, 'r) SimpleReactor list"
  WatchReactionChain :: "('l, 't, 'w) SimpleWatchReactor list"

definition resourceCovers :: "string \<Rightarrow> 'l test_action \<Rightarrow> bool" where
  "resourceCovers resource a \<longleftrightarrow>
     resource = ''*'' \<or> resource = gvr_Resource (ta_Resource a) \<or>
     (CHR ''/'' \<in> set resource \<and> takeWhile (\<lambda>x. x \<noteq> CHR ''/'') resource = gvr_Resource (ta_Resource a) \<and>
      tl (dropWhile (\<lambda>x. x \<noteq> CHR ''/'') resource) = ta_Subresource a)"

definition SimpleReactor_Handles :: "('l, 't, 'r) SimpleReactor \<Rightarrow> 'l test_action \<Rightarrow> bool" where
  "SimpleReactor_Handles r a \<longleftrightarrow> (sr_Verb r = ''*'' \<or> sr_Verb r = ta_Verb a) \<and> resourceCovers (sr_Resource r) a"

definition AddReactor :: "string \<Rightarrow> string \<Rightarrow> ('l, 't, 'r) reaction \<Rightarrow> ('l, 't, 'r, 'w) Fake \<Rightarrow> ('l, 't, 'r, 'w) Fake" where
  "AddReactor verb resource reaction f =
     f\<lparr>ReactionChain := ReactionChain f @ [\<lparr>sr_Verb = verb, sr_Resource = resource, sr_Reaction = reaction\<rparr>]\<rparr>"

definition AddWatchReactor :: "string \<Rightarrow> ('l, 't, 'w) reaction \<Rightarrow> ('l, 't, 'r, 'w) Fake \<Rightarrow> ('l, 't, 'r, 'w) Fake" where
  "AddWatchReactor resource reaction f =
     f\<lparr>WatchReactionChain := WatchReactionChain f @ [\<lparr>sw_Resource = resource, sw_Reaction = reaction\<rparr>]\<rparr>"

fun react_chain :: "('l test_action \<Rightarrow> bool) list \<Rightarrow> ('l, 't, 'r) reaction list \<Rightarrow> 'l test_action \<Rightarrow> 't \<Rightarrow> 't \<times> (go_error + 'r) option" where
  "react_chain (p # ps) (r # rs) a t =
     (if \<not> p a then react_chain ps rs a t
      else (case r a t of
              (t', handled, ret) \<Rightarrow> if \<not> handled then react_chain ps rs a t' else (t', Some ret)))"
| "react_chain _ _ a t = (t, None)"

definition Invokes ::
  "'l test_action \<Rightarrow> 'r \<Rightarrow> ('l, 't, 'r, 'w) Fake \<Rightarrow> 't \<Rightarrow> ('l, 't, 'r, 'w) Fake \<times> 't \<times> (go_error + 'r)" where
  "Invokes a defaultReturnObj f t =
     (case react_chain (map SimpleReactor_Handles (ReactionChain f)) (map sr_Reaction (ReactionChain f)) a t of
        (t', r) \<Rightarrow> (f\<lparr>fk_actions := fk_actions f @ [a]\<rparr>, t', case r of None \<Rightarrow> Inr defaultReturnObj | Some ret \<Rightarrow> ret))"

definition unhandled_watch :: go_error where
  "unhandled_watch = OtherError ''unhandled watch''"

definition InvokesWatch ::
  "'l test_action \<Rightarrow> ('l, 't, 'r, 'w) Fake \<Rightarrow> 't \<Rightarrow> ('l, 't, 'r, 'w) Fake \<times> 't \<times> (go_error + 'w)" where
  "InvokesWatch a f t =
     (case react_chain (map (\<lambda>r. resourceCovers (sw_Resource r)) (WatchReactionChain f)) (map sw_Reaction (WatchReactionChain f)) a t of
        (t', r) \<Rightarrow> (f\<lparr>fk_actions := fk_actions f @ [a]\<rparr>, t', case r of None \<Rightarrow> Inl unhandled_watch | Some ret \<Rightarrow> ret))"

text \<open>The object tracker: \<open>testing.NewObjectTracker\<close>, \<open>NewFieldManagedObjectTracker\<close>, its
  \<open>Add\<close> and \<open>Watch\<close>, and \<open>testing.ObjectReaction\<close>.\<close>

record ('l, 't, 'r, 'w) tracker_lib =
  NewObjectTracker :: 't
  NewFieldManagedObjectTracker :: 't
  tracker_Add :: "'r \<Rightarrow> 't \<Rightarrow> 't \<times> go_error option"
  tracker_Watch :: "GroupVersionResource \<Rightarrow> string \<Rightarrow> 'l \<Rightarrow> 't \<Rightarrow> 't \<times> (go_error + 'w)"
  ObjectReaction :: "('l, 't, 'r) reaction"

fun add_objects :: "('l, 't, 'r, 'w) tracker_lib \<Rightarrow> 'r list \<Rightarrow> 't \<Rightarrow> 't option" where
  "add_objects lib [] o1 = Some o1"
| "add_objects lib (obj # objs) o1 =
     (case tracker_Add lib obj o1 of (o2, Some e) \<Rightarrow> None | (o2, None) \<Rightarrow> add_objects lib objs o2)"

text \<open>The function given to \<open>AddWatchReactor\<close>; \<open>no_opts\<close> is the zero \<open>ListOptions\<close>. The
  result that goes with \<open>handled = false\<close> is an error.\<close>

definition watch_reaction :: "('l, 't, 'r, 'w) tracker_lib \<Rightarrow> 'l \<Rightarrow> ('l, 't, 'w) reaction" where
  "watch_reaction lib no_opts a t =
     (let opts = (case ta_ListOptions a of Some l \<Rightarrow> l | None \<Rightarrow> no_opts)
      in case tracker_Watch lib (ta_Resource a) (ta_Namespace a) opts t of
           (t', Inl e) \<Rightarrow> (t', False, Inl e)
         | (t', Inr w) \<Rightarrow> (t', True, Inr w))"

definition fake_with :: "('l, 't, 'r, 'w) tracker_lib \<Rightarrow> 'l \<Rightarrow> ('l, 't, 'r, 'w) Fake" where
  "fake_with lib no_opts =
     AddWatchReactor ''*'' (watch_reaction lib no_opts)
       (AddReactor ''*'' ''*'' (ObjectReaction lib) \<lparr>fk_actions = [], ReactionChain = [], WatchReactionChain = []\<rparr>)"

definition NewSimpleClientset :: "('l, 't, 'r, 'w) tracker_lib \<Rightarrow> 'l \<Rightarrow> 'r list \<Rightarrow> (('l, 't, 'r, 'w) Fake \<times> 't) option" where
  "NewSimpleClientset lib no_opts objects =
     (case add_objects lib objects (NewObjectTracker lib) of
        None \<Rightarrow> None
      | Some o1 \<Rightarrow> Some (fake_with lib no_opts, o1))"

definition NewClientset :: "('l, 't, 'r, 'w) tracker_lib \<Rightarrow> 'l \<Rightarrow> 'r list \<Rightarrow> (('l, 't, 'r, 'w) Fake \<times> 't) option" where
  "NewClientset lib no_opts objects =
     (case add_objects lib objects (NewFieldManagedObjectTracker lib) of
        None \<Rightarrow> None
      | Some o1 \<Rightarrow> Some (fake_with lib no_opts, o1))"

text \<open>The typed clients of the fake clientset. An interface value is \<open>None\<close> when it is nil and
  \<open>Some p\<close> when it holds the pointer \<open>p\<close>, nil or not.\<close>

record ('l, 't, 'r, 'w) fakeManifests =
  fm_Fake :: "('l, 't, 'r, 'w) Fake"
  fm_namespace :: string
  fm_resource :: GroupVersionResource
  fm_kind :: GroupVersionKind

definition newFakeManifests :: "('l, 't, 'r, 'w) Fake \<Rightarrow> ('l, 't, 'r, 'w) fakeManifests" where
  "newFakeManifests f =
     \<lparr>fm_Fake = f, fm_namespace = [],
      fm_resource = \<lparr>gvr_Group = gv_Group SchemeGroupVersion, gvr_Version = gv_Version SchemeGroupVersion, gvr_Resource = ''manifests''\<rparr>,
      fm_kind = WithKind SchemeGroupVersion ''Manifest''\<rparr>"

definition FakeCoreV1alpha1_Manifests :: "('l, 't, 'r, 'w) Fake \<Rightarrow> ('l, 't, 'r, 'w) fakeManifests" where
  "FakeCoreV1alpha1_Manifests f = newFakeManifests f"

definition FakeCoreV1alpha1_RESTClient :: "('h, 'u) rest_client option option" where
  "FakeCoreV1alpha1_RESTClient = (let ret = None in Some ret)"

section \<open>The rate limiters of a clientset\<close>

lemma setConfigDefaults_simps:
  "cf_Access (setConfigDefaults lib c) = cf_Access c" "cf_GroupVersion (setConfigDefaults lib c) = Some SchemeGroupVersion"
  "cf_NegotiatedSerializer (setConfigDefaults lib c) = Some GeneratedClientSerializer"
  "cf_RateLimiter (setConfigDefaults lib c) = cf_RateLimiter c" "cf_QPS (setConfigDefaults lib c) = cf_QPS c"
  "cf_Burst (setConfigDefaults lib c) = cf_Burst c"
  by (simp_all add: setConfigDefaults_def Let_def)

lemma with_user_agent_simps:
  "cf_Access (with_user_agent lib c) = cf_Access c" "cf_RateLimiter (with_user_agent lib c) = cf_RateLimiter c"
  "cf_QPS (with_user_agent lib c) = cf_QPS c" "cf_Burst (with_user_agent lib c) = cf_Burst c"
  by (simp_all add: with_user_agent_def)

lemma client_limiter_simps: "client_limiter (setConfigDefaults lib c) ls = client_limiter c ls"
  unfolding client_limiter_def setConfigDefaults_simps by (rule refl)

lemma setDiscoveryDefaults_simps:
  "cf_Access (setDiscoveryDefaults lib c) = cf_Access c" "cf_RateLimiter (setDiscoveryDefaults lib c) = cf_RateLimiter c"
  "cf_QPS (setDiscoveryDefaults lib c) = cf_QPS c" "cf_GroupVersion (setDiscoveryDefaults lib c) = None"
  "cf_NegotiatedSerializer (setDiscoveryDefaults lib c) = Some DiscoverySerializer"
  "cf_Burst (setDiscoveryDefaults lib c) = (if cf_Burst c = 0 then 300 else cf_Burst c)"
  by (simp_all add: setDiscoveryDefaults_def)

lemma client_limiter_given: "cf_RateLimiter c = Some r \<Longrightarrow> client_limiter c ls = (Some r, ls)"
  by (simp add: client_limiter_def)

lemma client_limiter_off:
  "cf_RateLimiter c = None \<Longrightarrow> \<not> positive (cf_QPS c) \<Longrightarrow> \<not> is_zero (cf_QPS c) \<Longrightarrow> client_limiter c ls = (None, ls)"
  by (simp add: client_limiter_def)

lemma client_limiter_default:
  "cf_RateLimiter c = None \<Longrightarrow> is_zero (cf_QPS c) \<Longrightarrow>
   client_limiter c ls = (Some (length ls), ls @ [(Num 5, if cf_Burst c = 0 then 10 else cf_Burst c)])"
  by (simp add: client_limiter_def Let_def DefaultQPS_def DefaultBurst_def NewTokenBucketRateLimiter_def)

lemma shared_limiter_none: "cf_RateLimiter c \<noteq> None \<or> \<not> positive (cf_QPS c) \<Longrightarrow> shared_limiter c ls = (ls, Inr c)"
  by (auto simp: shared_limiter_def)

text \<open>A host is accepted or refused whatever the other fields are.\<close>

definition url_ok :: "('x, 'h, 'u) client_lib \<Rightarrow> 'x \<Rightarrow> bool" where
  "url_ok lib x \<longleftrightarrow> (\<forall>c. cf_Access c = x \<longrightarrow> \<not> isl (DefaultServerUrlFor lib c))"

lemma url_ok_url: "url_ok lib (cf_Access c) \<Longrightarrow> \<exists>u. DefaultServerUrlFor lib c = Inr u"
  by (cases "DefaultServerUrlFor lib c") (auto simp: url_ok_def)

text \<open>The clientset once its limiter is chosen.\<close>

lemma clients_of:
  assumes ok: "url_ok lib (cf_Access c)" and l: "shared_limiter c ls = (ls1, Inr config)"
    and a: "cf_Access config = cf_Access c"
    and l2: "client_limiter config ls1 = (r, ls2)" and l3: "client_limiter (setDiscoveryDefaults lib config) ls2 = (r', ls3)"
  shows "\<exists>cs. NewForConfigAndClient lib c h ls = (ls3, Inr cs) \<and> rc_RateLimiter (restClient (CoreV1alpha1 cs)) = r \<and>
    rc_RateLimiter (cs_DiscoveryClient cs) = r'"
proof -
  obtain u u' where u: "DefaultServerUrlFor lib (setConfigDefaults lib config) = Inr u"
      "DefaultServerUrlFor lib (setDiscoveryDefaults lib config) = Inr u'"
    using url_ok_url[of lib "setConfigDefaults lib config"] url_ok_url[of lib "setDiscoveryDefaults lib config"] ok a
    by (auto simp: setConfigDefaults_simps setDiscoveryDefaults_simps)
  show ?thesis
    by (simp add: NewForConfigAndClient_def l core_NewForConfigAndClient_def RESTClientForConfigAndClient_def
      setConfigDefaults_simps client_limiter_simps u l2 NewDiscoveryClientForConfigAndClient_def
      UnversionedRESTClientForConfigAndClient_def setDiscoveryDefaults_simps l3 CoreV1alpha1_def)
qed

text \<open>Without a limiter and without QPS: two buckets.\<close>

lemma default_clients:
  assumes "url_ok lib (cf_Access c)" and "cf_RateLimiter c = None" and "is_zero (cf_QPS c)"
  shows "\<exists>cs. NewForConfigAndClient lib c h ls =
      (ls @ [(Num 5, if cf_Burst c = 0 then 10 else cf_Burst c), (Num 5, if cf_Burst c = 0 then 300 else cf_Burst c)], Inr cs) \<and>
    rc_RateLimiter (restClient (CoreV1alpha1 cs)) = Some (length ls) \<and>
    rc_RateLimiter (cs_DiscoveryClient cs) = Some (Suc (length ls))"
proof -
  let ?b = "\<lambda>d. if cf_Burst c = 0 then d else cf_Burst c"
  have "\<not> positive (cf_QPS c)" using assms(3) by (cases "cf_QPS c") simp_all
  then have l: "shared_limiter c ls = (ls, Inr c)" "client_limiter c ls = (Some (length ls), ls @ [(Num 5, ?b 10)])"
    using assms by (simp_all add: shared_limiter_none client_limiter_default)
  have "client_limiter (setDiscoveryDefaults lib c) (ls @ [(Num 5, ?b 10)]) =
       (Some (Suc (length ls)), ls @ [(Num 5, ?b 10), (Num 5, ?b 300)])"
    using assms by (simp add: client_limiter_default setDiscoveryDefaults_simps)
  from clients_of[OF assms(1) l(1) refl l(2) this, of h] show ?thesis by simp
qed

text \<open>C39. How a new clientset is throttled, for every configuration. A limiter of the configuration is
  used by both clients. A positive QPS needs a positive burst and gives one new token bucket that
  both clients share. With QPS zero each client gets a bucket of its own, of 5 queries per second and
  with the burst of the configuration or else 10 and, for discovery, 300. A negative QPS turns
  throttling off.\<close>

theorem NewForConfig_limiters:
  assumes "HTTPClientFor lib (with_user_agent lib c) = Inr h" and "url_ok lib (cf_Access c)"
  shows "case cf_RateLimiter c of
     Some r \<Rightarrow> \<exists>cs. NewForConfig lib c ls = (ls, Inr cs) \<and> rc_RateLimiter (restClient (CoreV1alpha1 cs)) = Some r \<and>
       rc_RateLimiter (cs_DiscoveryClient cs) = Some r
   | None \<Rightarrow>
       if positive (cf_QPS c)
       then if cf_Burst c \<le> 0 then \<exists>e. NewForConfig lib c ls = (ls, Inl e)
            else \<exists>cs. NewForConfig lib c ls = (ls @ [(cf_QPS c, cf_Burst c)], Inr cs) \<and>
              rc_RateLimiter (restClient (CoreV1alpha1 cs)) = Some (length ls) \<and>
              rc_RateLimiter (cs_DiscoveryClient cs) = Some (length ls)
       else if is_zero (cf_QPS c)
       then \<exists>cs. NewForConfig lib c ls =
              (ls @ [(Num 5, if cf_Burst c = 0 then 10 else cf_Burst c), (Num 5, if cf_Burst c = 0 then 300 else cf_Burst c)], Inr cs) \<and>
              rc_RateLimiter (restClient (CoreV1alpha1 cs)) = Some (length ls) \<and>
              rc_RateLimiter (cs_DiscoveryClient cs) = Some (Suc (length ls))
       else \<exists>cs. NewForConfig lib c ls = (ls, Inr cs) \<and> rc_RateLimiter (restClient (CoreV1alpha1 cs)) = None \<and>
              rc_RateLimiter (cs_DiscoveryClient cs) = None"
proof -
  let ?c = "with_user_agent lib c"
  have n: "NewForConfig lib c ls = NewForConfigAndClient lib ?c h ls"
    using assms(1) by (simp add: NewForConfig_def)
  have ok: "url_ok lib (cf_Access ?c)" using assms(2) by (simp add: with_user_agent_simps)
  note u = with_user_agent_simps
  show ?thesis
  proof (cases "cf_RateLimiter c")
    case (Some r)
    then have "shared_limiter ?c ls = (ls, Inr ?c)" "client_limiter ?c ls = (Some r, ls)"
      "client_limiter (setDiscoveryDefaults lib ?c) ls = (Some r, ls)"
      by (simp_all add: shared_limiter_none client_limiter_given u setDiscoveryDefaults_simps)
    then show ?thesis using clients_of[OF ok, of ls ls ?c "Some r" ls "Some r" ls h] Some by (simp add: n)
  next
    case None
    consider "positive (cf_QPS c)" "cf_Burst c \<le> 0" | "positive (cf_QPS c)" "\<not> cf_Burst c \<le> 0"
      | "\<not> positive (cf_QPS c)" "is_zero (cf_QPS c)" | "\<not> positive (cf_QPS c)" "\<not> is_zero (cf_QPS c)" by blast
    then show ?thesis
    proof cases
      case 1
      then show ?thesis using None by (simp add: n NewForConfigAndClient_def shared_limiter_def u)
    next
      case 2
      let ?l = "ls @ [(cf_QPS c, cf_Burst c)]" and ?c' = "?c\<lparr>cf_RateLimiter := Some (length ls)\<rparr>"
      have "shared_limiter ?c ls = (?l, Inr ?c')"
        using 2 None by (simp add: shared_limiter_def NewTokenBucketRateLimiter_def u)
      then show ?thesis
        using clients_of[OF ok, of ls ?l ?c' "Some (length ls)" ?l "Some (length ls)" ?l h] 2 None
        by (simp add: n client_limiter_given setDiscoveryDefaults_simps)
    next
      case 3
      then show ?thesis using default_clients[OF ok, of h ls, unfolded u] None by (simp add: n)
    next
      case 4
      then have "shared_limiter ?c ls = (ls, Inr ?c)" "client_limiter ?c ls = (None, ls)"
        "client_limiter (setDiscoveryDefaults lib ?c) ls = (None, ls)"
        using None by (simp_all add: shared_limiter_none client_limiter_off u setDiscoveryDefaults_simps)
      then show ?thesis using clients_of[OF ok, of ls ls ?c None ls None ls h] 4 None by (simp add: n)
    qed
  qed
qed

text \<open>A library that accepts every host and keeps the configuration it was given.\<close>

definition client_demo_lib :: "(unit, unit rest_config, unit) client_lib" where
  "client_demo_lib = \<lparr>HTTPClientFor = Inr, DefaultServerUrlFor = (\<lambda>_. Inr ()), DefaultKubernetesUserAgent = ''tilt''\<rparr>"

definition client_demo_config :: "float32 \<Rightarrow> int \<Rightarrow> unit rest_config" where
  "client_demo_config qps burst =
     \<lparr>cf_Access = (), cf_APIPath = [], cf_GroupVersion = None, cf_NegotiatedSerializer = None, cf_UserAgent = [],
      cf_QPS = qps, cf_Burst = burst, cf_RateLimiter = None, cf_Timeout = 0\<rparr>"

theorem NewForConfig_limiters_witness:
  "(\<exists>cs. NewForConfig client_demo_lib (client_demo_config (Num 0) 0) [] = ([(Num 5, 10), (Num 5, 300)], Inr cs) \<and>
     rc_RateLimiter (restClient (CoreV1alpha1 cs)) = Some 0 \<and> rc_RateLimiter (cs_DiscoveryClient cs) = Some 1) \<and>
   (\<exists>e. NewForConfig client_demo_lib (client_demo_config (Num 20) 0) [] = ([], Inl e))"
proof -
  have h: "HTTPClientFor client_demo_lib (with_user_agent client_demo_lib (client_demo_config q b)) = Inr (with_user_agent client_demo_lib (client_demo_config q b))"
    "url_ok client_demo_lib (cf_Access (client_demo_config q b))" for q b
    by (simp_all add: client_demo_lib_def url_ok_def)
  show ?thesis
    using NewForConfig_limiters[OF h(1) h(2), of "Num 0" 0 "[]"] NewForConfig_limiters[OF h(1) h(2), of "Num 20" 0 "[]"]
    by (simp add: client_demo_config_def)
qed

section \<open>The scheme of the clients\<close>

text \<open>Initialisation does not panic, and the schemes know the types of the API.\<close>

lemma client_Scheme_total:
  "\<exists>s. (client_Scheme :: unit Scheme option) = Some s \<and> Recognizes s (WithKind SchemeGroupVersion ''Manifest'') \<and>
     Recognizes s (WithKind SchemeGroupVersion ''ManifestList'')"
proof -
  have "case (client_Scheme :: unit Scheme option) of None \<Rightarrow> False | Some s \<Rightarrow> Recognizes s (WithKind SchemeGroupVersion ''Manifest'') \<and>
     Recognizes s (WithKind SchemeGroupVersion ''ManifestList'')" by code_simp
  then show ?thesis by (auto split: option.splits)
qed

lemma fake_Scheme_same: "fake_Scheme = client_Scheme"
  by (simp add: fake_Scheme_def client_Scheme_def)

section \<open>What the clients talk to\<close>

text \<open>The resource that the typed client puts into its requests.\<close>

definition requested_resource :: "('h, 'u) manifests_client \<Rightarrow> GroupVersionResource option" where
  "requested_resource mc =
     map_option (\<lambda>rc. \<lparr>gvr_Group = gv_Group (rc_GroupVersion rc), gvr_Version = gv_Version (rc_GroupVersion rc),
       gvr_Resource = tc_resource mc\<rparr>) (tc_client mc)"

lemma core_client_fields:
  assumes "core_NewForConfigAndClient lib c h ls = (ls', Inr core)"
  shows "rc_Client (restClient core) = h" and "rc_GroupVersion (restClient core) = SchemeGroupVersion"
  using assms by (auto simp: core_NewForConfigAndClient_def RESTClientForConfigAndClient_def setConfigDefaults_simps
    split: prod.splits sum.splits)

lemma discovery_client_fields:
  "NewDiscoveryClientForConfigAndClient lib c h ls = (ls', Inr disc) \<Longrightarrow> rc_Client disc = h"
  by (auto simp: NewDiscoveryClientForConfigAndClient_def UnversionedRESTClientForConfigAndClient_def setDiscoveryDefaults_simps
    split: prod.splits sum.splits)

text \<open>A clientset uses one HTTP client for everything, and that client was built for a
  configuration with a user agent. Its Manifest client addresses the group, version and resource
  under which the server registers the type, and no namespace, as the type is not namespaced.\<close>

theorem NewForConfig_wiring:
  assumes "NewForConfig lib c ls = (ls', Inr cs)"
  shows "HTTPClientFor lib (with_user_agent lib c) = Inr (rc_Client (restClient (CoreV1alpha1 cs))) \<and>
    rc_Client (cs_DiscoveryClient cs) = rc_Client (restClient (CoreV1alpha1 cs)) \<and>
    (cf_UserAgent (with_user_agent lib c) = [] \<longrightarrow> DefaultKubernetesUserAgent lib = []) \<and>
    requested_resource (Manifests (Some (CoreV1alpha1 cs))) = Some (ro_GetGroupVersionResource (res_object Manifest_resource)) \<and>
    (tc_namespace (Manifests (Some (CoreV1alpha1 cs))) = [] \<longleftrightarrow> tm_NamespaceScoped (res_methods Manifest_resource) = Some False)"
proof -
  obtain h where h: "HTTPClientFor lib (with_user_agent lib c) = Inr h"
    "NewForConfigAndClient lib (with_user_agent lib c) h ls = (ls', Inr cs)"
    using assms by (auto simp: NewForConfig_def Let_def split: sum.splits)
  then obtain ls1 config ls2 core disc where cs: "core_NewForConfigAndClient lib config h ls1 = (ls2, Inr core)"
    "NewDiscoveryClientForConfigAndClient lib config h ls2 = (ls', Inr disc)"
    "cs = \<lparr>cs_DiscoveryClient = disc, cs_coreV1alpha1 = core\<rparr>"
    by (auto simp: NewForConfigAndClient_def split: prod.splits sum.splits)
  note f = core_client_fields[OF cs(1)] discovery_client_fields[OF cs(2)]
  show ?thesis
    using h(1) f by (simp add: cs(3) CoreV1alpha1_def with_user_agent_def requested_resource_def Manifests_def newManifests_def
      core_RESTClient_def Manifest_resource_def manifest_resource_def SchemeGroupVersion_def GroupName_def Version_def Manifest_methods_def
      Manifest_NamespaceScoped_def)
qed

theorem NewForConfig_wiring_witness:
  "\<exists>ls' cs. NewForConfig client_demo_lib (client_demo_config (Num 0) 0) [] = (ls', Inr cs) \<and>
     cf_UserAgent (rc_Client (cs_DiscoveryClient cs)) = ''tilt'' \<and>
     requested_resource (Manifests (Some (CoreV1alpha1 cs))) = Some man_gvr"
proof -
  have "\<not> isl (snd (NewForConfig client_demo_lib (client_demo_config (Num 0) 0) []))" by code_simp
  then obtain ls' cs where n: "NewForConfig client_demo_lib (client_demo_config (Num 0) 0) [] = (ls', Inr cs)"
    by (metis prod.collapse sum.disc(1) sum.exhaust)
  have "ro_GetGroupVersionResource (res_object Manifest_resource) = man_gvr"
    by (simp add: Manifest_resource_def manifest_resource_def)
  moreover have "HTTPClientFor client_demo_lib (with_user_agent client_demo_lib (client_demo_config (Num 0) 0)) =
      Inr ((client_demo_config (Num 0) 0)\<lparr>cf_UserAgent := ''tilt''\<rparr>)"
    by (simp add: client_demo_lib_def with_user_agent_def client_demo_config_def)
  ultimately show ?thesis
    using NewForConfig_wiring[OF n] n by (metis rest_config.select_convs(5) rest_config.update_convs(5) rest_config.surjective sum.inject(2))
qed

section \<open>The lister\<close>

text \<open>Every lister of a factory reads the cache of its one informer, and asking for it makes no other.\<close>

lemma Lister_shares_informer:
  assumes "manifestInformer_Informer mi f heap = (f1, heap1, i)"
  shows "manifestInformer_Lister GetIndexer mi' f1 heap1 = (f1, heap1, NewManifestLister (GetIndexer i))"
proof -
  from assms have "map_of (informers f1) (v1alpha1 ''Manifest'') = Some i"
    by (auto simp: manifestInformer_Informer_def InformerFor_def Let_def update_conv' split: option.splits)
  then show ?thesis by (simp add: manifestInformer_Lister_def manifestInformer_Informer_def InformerFor_def)
qed

section \<open>The fake clientset\<close>

lemma fake_chains:
  "ReactionChain (fake_with lib n) = [\<lparr>sr_Verb = ''*'', sr_Resource = ''*'', sr_Reaction = ObjectReaction lib\<rparr>]"
  "WatchReactionChain (fake_with lib n) = [\<lparr>sw_Resource = ''*'', sw_Reaction = watch_reaction lib n\<rparr>]"
  by (simp_all add: fake_with_def AddReactor_def AddWatchReactor_def)

text \<open>The objects given to the constructor are added in order, and the first that the tracker refuses
  makes the constructor panic.\<close>

lemma add_objects_append:
  "add_objects lib (xs @ ys) t = (case add_objects lib xs t of None \<Rightarrow> None | Some t' \<Rightarrow> add_objects lib ys t')"
  by (induction xs arbitrary: t) (auto split: prod.splits option.splits)

lemma NewSimpleClientset_panics:
  assumes "add_objects lib before (NewObjectTracker lib) = Some t" and "snd (tracker_Add lib obj t) \<noteq> None"
  shows "NewSimpleClientset lib n (before @ obj # after) = None"
  using assms by (auto simp: NewSimpleClientset_def add_objects_append split: prod.splits option.splits)

text \<open>The fake Manifest client works on the resource of the real one.\<close>

lemma fake_manifests_resource:
  "fm_resource (FakeCoreV1alpha1_Manifests f) = ro_GetGroupVersionResource (res_object Manifest_resource)"
  by (simp add: FakeCoreV1alpha1_Manifests_def newFakeManifests_def Manifest_resource_def manifest_resource_def
    SchemeGroupVersion_def GroupName_def Version_def)

text \<open>The REST client of the fake is an interface that holds a nil pointer, so a comparison with nil
  does not notice that there is none.\<close>

lemma fake_RESTClient_typed_nil: "FakeCoreV1alpha1_RESTClient \<noteq> None" "the FakeCoreV1alpha1_RESTClient = None"
  by (simp_all add: FakeCoreV1alpha1_RESTClient_def)

lemma fake_Invokes:
  "Invokes a d (fake_with lib n) t =
     ((fake_with lib n)\<lparr>fk_actions := [a]\<rparr>, fst (ObjectReaction lib a t),
      if fst (snd (ObjectReaction lib a t)) then snd (snd (ObjectReaction lib a t)) else Inr d)"
  by (auto simp: Invokes_def fake_chains SimpleReactor_Handles_def resourceCovers_def fake_with_def AddReactor_def
    AddWatchReactor_def split: prod.splits)

text \<open>A watch on a fake clientset is a watch of the tracker with the options of the action; but when
  the tracker refuses it, the caller gets the error of an unhandled watch and never the reason, since
  the reaction reports the action as not handled.\<close>

theorem Fake_watch_error_lost:
  "NewSimpleClientset lib n objs = Some (f, t) \<Longrightarrow> snd (snd (InvokesWatch a f t)) =
     (case snd (tracker_Watch lib (ta_Resource a) (ta_Namespace a) (case ta_ListOptions a of Some l \<Rightarrow> l | None \<Rightarrow> n) t) of
        Inr w \<Rightarrow> Inr w
      | Inl e \<Rightarrow> Inl unhandled_watch)"
  by (auto simp: NewSimpleClientset_def InvokesWatch_def fake_chains resourceCovers_def watch_reaction_def Let_def
    split: prod.splits sum.splits option.splits)

definition demo_tracker :: "(unit, nat list, nat, unit) tracker_lib" where
  "demo_tracker =
     \<lparr>NewObjectTracker = [], NewFieldManagedObjectTracker = [], tracker_Add = (\<lambda>x t. (t @ [x], None)),
      tracker_Watch = (\<lambda>gvr ns opts t. (t, if t = [] then Inl ErrNotExist else Inr ())),
      ObjectReaction = (\<lambda>a t. (t, t \<noteq> [], Inr (length t)))\<rparr>"

definition demo_watch :: "unit test_action" where
  "demo_watch = \<lparr>ta_Verb = ''watch'', ta_Resource = man_gvr, ta_Subresource = [], ta_Namespace = [], ta_ListOptions = Some ()\<rparr>"

theorem Fake_watch_error_lost_witness:
  "snd (snd (InvokesWatch demo_watch (fake_with demo_tracker ()) [])) = Inl unhandled_watch \<and>
   snd (snd (InvokesWatch demo_watch (fake_with demo_tracker ()) [7])) = Inr ()"
proof -
  have n: "NewSimpleClientset demo_tracker () [] = Some (fake_with demo_tracker (), [])"
    "NewSimpleClientset demo_tracker () [7] = Some (fake_with demo_tracker (), [7])"
    by (simp_all add: NewSimpleClientset_def demo_tracker_def)
  show ?thesis
    using Fake_watch_error_lost[OF n(1), of demo_watch] Fake_watch_error_lost[OF n(2), of demo_watch]
    by (simp add: demo_tracker_def)
qed

end
