(* ===== verification/Controller.thy ===== *)
theory Controller
  imports Scheme
begin

text \<open>
  The controller manager of the repository (\<open>main.go\<close>, \<open>controllers/core\<close>). The manager itself
  is controller-runtime and a parameter, and so is the parsed value of the one flag; the program is
  the sequence of its calls, with the exit code and what it logs. The reconciler is a stub: it never asks for another round and never fails.
\<close>

section \<open>Definitions\<close>

record ('o, 'm) manager_lib =
  NewManager :: "'o Scheme \<Rightarrow> bool \<Rightarrow> string \<Rightarrow> go_error + 'm"
  Complete :: "'m \<Rightarrow> gotype \<Rightarrow> go_error option"
  manager_Start :: "'m \<Rightarrow> go_error option"

datatype manager_event = LogInfo string | LogError go_error string | Exit nat

record reconcile_result =
  Requeue :: bool
  RequeueAfter :: int

definition Reconcile :: "string \<times> string \<Rightarrow> reconcile_result \<times> go_error option" where
  "Reconcile req = (\<lparr>Requeue = False, RequeueAfter = 0\<rparr>, None)"

definition SetupWithManager :: "('o, 'm) manager_lib \<Rightarrow> 'm \<Rightarrow> go_error option" where
  "SetupWithManager lib mgr = Complete lib mgr (v1alpha1 ''Manifest'')"

text \<open>\<open>init\<close>: the scheme of the manager; \<open>client_go\<close> registers the types of client-go. A
  \<open>Must\<close> that fails is \<open>None\<close>.\<close>

definition manager_scheme :: "'o scheme_func \<Rightarrow> 'o Scheme option" where
  "manager_scheme client_go =
     do {
       (s1, e1) \<leftarrow> client_go empty_Scheme;
       if e1 \<noteq> None then None
       else do {
         (s2, e2) \<leftarrow> v1alpha1_AddToScheme s1;
         if e2 \<noteq> None then None else Some s2
       }
     }"

definition manager_main :: "('o, 'm) manager_lib \<Rightarrow> 'o Scheme \<Rightarrow> bool \<Rightarrow> manager_event list" where
  "manager_main lib scheme enableLeaderElection =
     (case NewManager lib scheme enableLeaderElection ''b69659b9.'' of
        Inl e \<Rightarrow> [LogError e ''unable to start manager'', Exit 1]
      | Inr mgr \<Rightarrow>
          (case SetupWithManager lib mgr of
             Some e \<Rightarrow> [LogError e ''unable to create controller'', Exit 1]
           | None \<Rightarrow>
               LogInfo ''starting manager'' #
               (case manager_Start lib mgr of
                  Some e \<Rightarrow> [LogError e ''problem running manager'', Exit 1]
                | None \<Rightarrow> [])))"

section \<open>Lemmas\<close>

text \<open>The manager is started only when the controller of the Manifest type is registered, and the
  program ends with status 1 exactly when one of the three steps fails.\<close>

lemma manager_main_starts:
  "LogInfo ''starting manager'' \<in> set (manager_main lib s b) \<longleftrightarrow>
     (\<exists>mgr. NewManager lib s b ''b69659b9.'' = Inr mgr \<and> Complete lib mgr (v1alpha1 ''Manifest'') = None)"
  by (auto simp: manager_main_def SetupWithManager_def split: sum.splits option.splits)

lemma manager_main_exit:
  "Exit 1 \<in> set (manager_main lib s b) \<longleftrightarrow>
     \<not> (\<exists>mgr. NewManager lib s b ''b69659b9.'' = Inr mgr \<and> Complete lib mgr (v1alpha1 ''Manifest'') = None \<and>
          manager_Start lib mgr = None)"
  by (auto simp: manager_main_def SetupWithManager_def split: sum.splits option.splits) metis

text \<open>When client-go registers its types into a scheme that the Manifest types can be added to, the
  scheme of the manager has both.\<close>

lemma manager_scheme_total:
  "\<exists>s. manager_scheme (\<lambda>s. Some (s, None)) = Some (s :: unit Scheme) \<and> Recognizes s (WithKind SchemeGroupVersion ''Manifest'')"
proof -
  have "case manager_scheme (\<lambda>s. Some (s, None)) of None \<Rightarrow> False | Some (s :: unit Scheme) \<Rightarrow>
    Recognizes s (WithKind SchemeGroupVersion ''Manifest'')" by code_simp
  then show ?thesis by (auto split: option.splits)
qed

end
