(* ===== verification/Spec2Isabelle.thy ===== *)
theory Spec2Isabelle
  imports Checks Real_Storage Watch_Props Watch_Concurrency Concurrent_Update Main_Program Serving_Props Serving_Flags
    Tls_Config Informers Etcd_Store Openapi_Props Apply_Config Watch_Replica Deep_Copy Clientset Controller
begin

text \<open>
  A verification development for tilt-apiserver, the embeddable API server of Tilt: a Kubernetes-style
  API server whose objects live in JSON files, on disk or in memory.

  \<^bold>\<open>The program.\<close> \<open>cmd/apiserver/main.go\<close> describes a server with the builder of
  \<open>pkg/server/builder\<close>: every resource type comes with a storage provider and is registered
  with a scheme (\<open>pkg/server/builder/resource\<close>). The builder turns this into options of
  \<open>pkg/server/start\<close>, which listen, load or generate a certificate
  (\<open>pkg/server/options\<close>), set up authentication and TLS and run the server of
  \<open>pkg/server/apiserver\<close>, which installs the API groups. A request for a resource ends in a
  handler of \<open>pkg/storage/filepath\<close>: it checks the object with a strategy
  (\<open>pkg/server/builder/rest\<close>) and the generic checks of Kubernetes, reads or writes files
  through the interface \<open>FS\<close>, and tells the watches of a \<open>WatchSet\<close>. Clients use the
  generated code of \<open>pkg/generated\<close>.

  \<^bold>\<open>Theories and what they model.\<close> Paths are relative to \<open>src\<close>.
  \<^item> \<open>Prelude\<close>, \<open>Go_Lib\<close>, \<open>Net_Lib\<close>: errors, machine words, and what the code uses
    of Go's library (paths, decimal numbers, IP addresses, files of the host, listeners).
  \<^item> \<open>Api_Meta\<close>: objects and metadata, \<open>pkg/storage/filepath/version.go\<close>, selectors.
  \<^item> \<open>Rest_Strategy\<close>: \<open>pkg/server/builder/rest/strategy.go\<close> and \<open>status.go\<close>, and
    the vendored \<open>BeforeCreate\<close> and \<open>BeforeUpdate\<close> with the validation they call.
  \<^item> \<open>Fs_Interface\<close>: the interface \<open>FS\<close> as a record of methods on a state, and its
    contract as the locales \<open>fs_contract\<close> and \<open>versioned_fs\<close>.
  \<^item> \<open>Dir_Tree\<close>, \<open>Walk\<close>, \<open>Memory_Fs\<close>, \<open>Real_Fs\<close>: the two implementations in
    \<open>pkg/storage/filepath/fs.go\<close>, with an interpretation of the contract for each.
  \<^item> \<open>Watch_Set\<close>: \<open>pkg/storage/filepath/watchset.go\<close> as one handler sees it;
    \<open>Watch_Concurrency\<close>: the same code as threads and goroutines on a lock and channels.
  \<^item> \<open>Filepath_Rest\<close>: the constructor and all handlers of
    \<open>pkg/storage/filepath/jsonfile_rest.go\<close>, over any \<open>FS\<close>; what every file system
    with the contract gives is proved inside the locales.
  \<^item> \<open>Manifest\<close>: the resource type of \<open>pkg/apis/core/v1alpha1/types.go\<close>.
  \<^item> \<open>Storage\<close>, \<open>Checks\<close>, \<open>Watch_Props\<close>, \<open>Real_Storage\<close>: the handlers on
    each file system, as a client of the API sees them; \<open>Watch_Replica\<close>: the copy of the stored
    objects that a client builds from the events of a watch.
  \<^item> \<open>Kv_Refinement\<close>: an abstract specification, a key-value store with compare-and-swap, which a
    directory of \<open>MemoryFS\<close> refines; \<open>Concurrent_Update\<close>: the retry loop of
    \<open>guaranteedUpdate\<close> in small steps, interleaved with other requests.
  \<^item> \<open>Scheme\<close>, \<open>Scheme_Props\<close>: the type registry, \<open>AddToScheme\<close> of
    \<open>pkg/server/builder/resource/types.go\<close> and \<open>pkg/apis/core/v1alpha1/register.go\<close>.
  \<^item> \<open>Serving\<close>, \<open>Serving_Flags\<close>, \<open>Serving_Props\<close>: \<open>pkg/server/options/serving.go\<close>;
    \<open>Tls_Config\<close>: \<open>pkg/server/start/tls_config.go\<close>; \<open>Auth\<close>: the vendored filters
    that decide about a request, authentication, impersonation and authorization.
  \<^item> \<open>Api_Server\<close>, \<open>Api_Server_Props\<close>: \<open>pkg/server/apiserver\<close>; \<open>Start\<close>,
    \<open>Start_Props\<close>: \<open>pkg/server/start/start.go\<close> and \<open>ext.go\<close>.
  \<^item> \<open>Builder\<close>, \<open>Builder_Props\<close>: \<open>pkg/server/builder\<close> and
    \<open>pkg/storage/filepath/jsonfile.go\<close>; \<open>Etcd_Store\<close>:
    \<open>pkg/server/builder/rest/rest.go\<close>; \<open>Main_Program\<close>: \<open>cmd/apiserver/main.go\<close>.
  \<^item> \<open>Informers\<close>: the factory of \<open>pkg/generated/informers\<close>; \<open>Openapi_Defs\<close>,
    \<open>Openapi_Props\<close>: \<open>pkg/generated/openapi\<close>; \<open>Apply_Config\<close>:
    \<open>pkg/generated/applyconfiguration\<close>.
  \<^item> \<open>Go_Heap\<close>: memory with pointers, slices and maps, the copying patterns of the generated code,
    and the contract of a deep copy as the locale \<open>deep_copying\<close>, which \<open>pointer\<close>,
    \<open>slices\<close>, \<open>flat_slices\<close>, \<open>go_map\<close>, \<open>two_fields\<close> and \<open>struct\<close> carry from
    parts to wholes; \<open>Deep_Copy\<close>: \<open>zz_generated.deepcopy.go\<close> of the API types and of the
    metadata, each struct an interpretation.
  \<^item> \<open>Clientset\<close>: \<open>pkg/generated/clientset\<close> with its fakes, and \<open>pkg/generated/listers\<close>;
    \<open>Controller\<close>: the controller manager of \<open>main.go\<close> and \<open>controllers/core\<close>.

  \<^bold>\<open>State and effects.\<close> A component's state is a record that its operations take and return. A
  Go error is a value: \<open>go_error + 'a\<close>, or \<open>go_error option\<close>. An operation that may hang or
  panic returns an option, and \<open>None\<close> is not returning: the mutex of \<open>RealFS\<close> that is
  taken twice, a notification that nobody receives, a panic of a constructor. Resource versions and the
  revision of a file system are 64-bit words. The order of a Go map is a parameter wherever the code
  iterates over one, except that \<open>registerGroupVersions\<close> of the builder sets the priorities of
  the groups in the order of registration. Serializers, user code, certificates, the network and the vendored server are
  parameters of the operations; what is assumed of them is written as hypotheses (\<open>codec_ok\<close>,
  \<open>hooks_return\<close>, \<open>host_ok\<close>, \<open>url_ok\<close>), each of which a witness establishes for a concrete instance.

  \<^bold>\<open>What is shown.\<close>
  \<^item> Storage: a created object is read back; each handler returns on every input, changes nothing when it
    fails, and on success changes exactly one file, which then holds the returned object or is gone, and
    sends the one matching event; stale updates are
    refused and fresh ones succeed; lists are exact; other objects are untouched. The same round trip
    holds on disk.
  \<^item> Refinement and concurrency: \<open>MemoryFS\<close> refines a compare-and-swap store; a concurrent update
    that succeeds is the sequential one, executed at its write; the watch set never misuses a channel
    and its calls return. The events of a watch are a faithful copy of the storage at every moment.
  \<^item> Checks: updates keep the identity of an object; the status endpoint changes the status only and the
    main endpoint never; created names are safe file names.
  \<^item> Server: only holders of the token are let in, and when they impersonate a user only if that user is
    one of the masters; nothing is served without TLS and no insecure cipher is used; listeners do not
    leak; a certificate survives a restart; the builder holds exactly what was registered with it, and
    every group that it installs has its versions; the program serves exactly its two resources.
  \<^item> Clients: informers run once and stop for good; the OpenAPI document is closed; a chain of calls builds
    the apply configuration it describes; a deep copy reads as the original and shares no memory with
    it; the rate limiters of a new clientset are known for every configuration.
  \<^item> Behaviour that looks unintended is stated as it is: an update never creates, a watch that fails to
    start blocks all writes, \<open>DeleteCollection\<close> ignores finalizers and hangs on disk, overlapping
    notifications cross, a watch with a selector is not told when an object leaves the selection, the
    conversion from the stored version never writes its target, and a secure port of 0 is refused where
    the help of the flag promises a server without HTTPS.

  \<^bold>\<open>Bounds.\<close> \<open>guaranteedUpdate\<close> tries at most \<open>maxAttempts = 100\<close> times, as in the code, so
  the loop is structural recursion. Statements about versions assume that the revision counter has
  not reached its last value \<open>2 ^ 64 - 1\<close>. Every other recursion is structural or has a measure; runs
  of the watch set are bounded by the work that its threads have left.

  \<^bold>\<open>Not modelled.\<close> JSON encoding (the codec is a parameter), HTTP routing and the generic server
  (vendored), \<open>ConvertToTable\<close> of the file handlers (delegated to a vendored convertor), writers for
  the output of the command, the verbs of the typed client and the object tracker of the fake one
  (vendored), and files that hold only aliases of interfaces or imports of build tools.
\<close>

end
